(* ===== verification/Friday_Prelude.thy ===== *)
theory Friday_Prelude
  imports Complex_Main "HOL-Library.AList"
begin

text \<open>
  Shared vocabulary of the development: the JavaScript containers and numeric helpers the
  TypeScript sources use (\<open>Map\<close>, \<open>Array.prototype.findIndex\<close>, \<open>splice\<close>, \<open>Math.round\<close>,
  decimal template literals), the error value thrown by every component, and two interfaces
  stated as locales: a keyed store (what a client may assume of a \<open>Map\<close>) and a transition
  table (what a client may assume of a lifecycle with terminal states).

  Conventions. A TypeScript string is an Isabelle \<open>string\<close> read as its UTF-8 bytes.
  Integral numbers are \<open>int\<close>; numbers that may be fractional are \<open>rat\<close>, so the rounding of
  IEEE doubles is not modelled. \<open>undefined\<close> and a missing optional property are \<open>None\<close>.
\<close>

named_theorems js_simps \<open>rewrite rules for the JavaScript library functions\<close>
named_theorems friday_splits \<open>case splits used by the decision pipelines\<close>

declare option.splits [friday_splits] if_splits [friday_splits]
  prod.splits [friday_splits] sum.splits [friday_splits]

type_synonym UUID = string
type_synonym ISODateTime = string

section \<open>Domain errors\<close>

text \<open>\<open>FridayDomainError(code, message, { httpStatus })\<close> of src/errors.\<close>

datatype friday_error =
  FridayDomainError (err_code: string) (err_message: string) (http_status: int)

type_synonym 'a result = "friday_error + 'a"

section \<open>JSON values\<close>

text \<open>\<open>JsonValue\<close>; the properties of an object in insertion order.\<close>

datatype json =
    JsonNull
  | JsonBool bool
  | JsonNumber rat
  | JsonString string
  | JsonArray "json list"
  | JsonObject "(string \<times> json) list"

text \<open>A property of an object literal; one that is \<open>undefined\<close> is left out.\<close>

definition opt_field :: "string \<Rightarrow> ('a \<Rightarrow> json) \<Rightarrow> 'a option \<Rightarrow> (string \<times> json) list" where
  "opt_field name f v = (case v of None \<Rightarrow> [] | Some x \<Rightarrow> [(name, f x)])"

section \<open>JavaScript maps\<close>

text \<open>
  A \<open>Map\<close> iterates in insertion order and \<open>set\<close> on an existing key keeps its position:
  an association list with distinct keys.
\<close>

type_synonym ('k, 'v) js_map = "('k \<times> 'v) list"

definition map_empty :: "('k, 'v) js_map" where
  "map_empty = []"

definition map_get :: "('k, 'v) js_map \<Rightarrow> 'k \<Rightarrow> 'v option" where
  "map_get m k = map_of m k"

definition map_set :: "('k, 'v) js_map \<Rightarrow> 'k \<Rightarrow> 'v \<Rightarrow> ('k, 'v) js_map" where
  "map_set m k v = AList.update k v m"

definition map_del :: "('k, 'v) js_map \<Rightarrow> 'k \<Rightarrow> ('k, 'v) js_map" where
  "map_del m k = AList.delete k m"

definition map_keys :: "('k, 'v) js_map \<Rightarrow> 'k list" where
  "map_keys m = map fst m"

definition map_values :: "('k, 'v) js_map \<Rightarrow> 'v list" where
  "map_values m = map snd m"

definition map_ok :: "('k, 'v) js_map \<Rightarrow> bool" where
  "map_ok m = distinct (map_keys m)"

text \<open>What a client may rely on.\<close>

locale keyed_store =
  fixes empty :: "'m"
    and get :: "'m \<Rightarrow> 'k \<Rightarrow> 'v option"
    and put :: "'m \<Rightarrow> 'k \<Rightarrow> 'v \<Rightarrow> 'm"
    and del :: "'m \<Rightarrow> 'k \<Rightarrow> 'm"
    and ok :: "'m \<Rightarrow> bool"
  assumes get_empty: "get empty k = None"
    and get_put: "get (put m k v) k' = (if k' = k then Some v else get m k')"
    and get_del: "get (del m k) k' = (if k' = k then None else get m k')"
    and ok_empty: "ok empty"
    and ok_put: "ok m \<Longrightarrow> ok (put m k v)"
    and ok_del: "ok m \<Longrightarrow> ok (del m k)"
begin

lemma get_put_same: "get (put m k v) k = Some v"
  by (simp add: get_put)

lemma get_put_other: "k' \<noteq> k \<Longrightarrow> get (put m k v) k' = get m k'"
  by (simp add: get_put)

lemma put_all:
  assumes "\<And>k' w. get m k' = Some w \<Longrightarrow> P k' w" and "P k v"
    and "get (put m k v) k' = Some w"
  shows "P k' w"
  using assms by (auto simp: get_put split: if_splits)

lemma del_all:
  assumes "\<And>k' w. get m k' = Some w \<Longrightarrow> P k' w"
    and "get (del m k) k' = Some w"
  shows "P k' w"
  using assms by (auto simp: get_del split: if_splits)

lemma fold_put:
  assumes "distinct ks"
  shows "get (fold (\<lambda>k m. put m k (f k)) ks m) k'
    = (if k' \<in> set ks then Some (f k') else get m k')"
  using assms by (induction ks arbitrary: m) (auto simp: get_put)

lemma fold_put_ok: "ok m \<Longrightarrow> ok (fold (\<lambda>k m. put m k (f k)) ks m)"
  by (induction ks arbitrary: m) (auto simp: ok_put)

end

interpretation jsm: keyed_store map_empty map_get map_set map_del map_ok
  by unfold_locales
    (auto simp: map_empty_def map_get_def map_set_def map_del_def map_ok_def map_keys_def
      update_conv' delete_conv' distinct_update distinct_delete)

lemmas js_map_simps [simp] = jsm.get_empty jsm.get_put jsm.get_del jsm.ok_empty
declare jsm.ok_put [intro] jsm.ok_del [intro]

lemma map_get_keys: "map_get m k \<noteq> None \<longleftrightarrow> k \<in> set (map_keys m)"
  by (simp add: map_get_def map_keys_def map_of_eq_None_iff)

lemma map_get_in_values: "map_get m k = Some v \<Longrightarrow> v \<in> set (map_values m)"
  by (force simp: map_get_def map_values_def dest: map_of_SomeD)

lemma map_values_get:
  "map_ok m \<Longrightarrow> v \<in> set (map_values m) \<Longrightarrow> \<exists>k. map_get m k = Some v"
  by (auto simp: map_ok_def map_keys_def map_values_def map_get_def)

lemma map_keys_set:
  "map_keys (map_set m k v) = (if k \<in> set (map_keys m) then map_keys m else map_keys m @ [k])"
  by (induction m) (auto simp: map_set_def map_keys_def)

text \<open>Filling a map from an array: the last element with a key wins.\<close>

lemma fold_map_set:
  "map_get (fold (\<lambda>x m. map_set m (f x) (g x)) xs m) k =
     (if k \<in> f ` set xs then Some (g (last (filter (\<lambda>x. f x = k) xs))) else map_get m k)"
proof (induction xs arbitrary: m)
  case (Cons x xs)
  have "k \<notin> f ` set xs \<Longrightarrow> filter (\<lambda>x. f x = k) xs = []" by (auto simp: filter_empty_conv)
  moreover have "k \<in> f ` set xs \<Longrightarrow> filter (\<lambda>x. f x = k) xs \<noteq> []" by (auto simp: filter_empty_conv)
  ultimately show ?case using Cons by auto
qed simp

lemma last_filter: "k \<in> f ` set xs \<Longrightarrow> f (last (filter (\<lambda>x. f x = k) xs)) = k \<and> last (filter (\<lambda>x. f x = k) xs) \<in> set xs"
proof -
  assume "k \<in> f ` set xs"
  then have "filter (\<lambda>x. f x = k) xs \<noteq> []" by (auto simp: filter_empty_conv)
  from last_in_set [OF this] show ?thesis by simp
qed

section \<open>Lifecycles\<close>

text \<open>
  A lifecycle is a table of allowed transitions with states no transition leaves. In a ranked
  lifecycle every transition climbs, so no state is visited twice and a run has bounded length.
\<close>

locale lifecycle =
  fixes step :: "'s \<Rightarrow> 's \<Rightarrow> bool" and terminal :: "'s \<Rightarrow> bool"
  assumes terminal_stuck: "terminal s \<Longrightarrow> \<not> step s t"
begin

lemma terminal_absorbing: "step\<^sup>*\<^sup>* s t \<Longrightarrow> terminal s \<Longrightarrow> t = s"
  by (erule converse_rtranclpE) (auto simp: terminal_stuck)

lemma run_from_terminal: "successively step (s # ss) \<Longrightarrow> terminal s \<Longrightarrow> ss = []"
  by (cases ss) (auto simp: terminal_stuck)

end

locale ranked_lifecycle = lifecycle +
  fixes rank :: "'s \<Rightarrow> nat" and top :: nat
  assumes step_rank: "step s t \<Longrightarrow> rank s < rank t"
    and rank_top: "rank s \<le> top"
begin

lemma path_rank: "step\<^sup>+\<^sup>+ s t \<Longrightarrow> rank s < rank t"
  by (induction rule: tranclp_induct) (auto dest: step_rank)

lemma no_revisit: "\<not> step\<^sup>+\<^sup>+ s s"
  using path_rank by blast

lemma run_length_rank: "successively step (s # ss) \<Longrightarrow> length ss + rank s \<le> top"
proof (induction ss arbitrary: s)
  case Nil
  then show ?case by (simp add: rank_top)
next
  case (Cons t ss)
  then have "rank s < rank t" and "length ss + rank t \<le> top"
    by (auto dest: step_rank)
  then show ?case by simp
qed

lemma run_bounded: "successively step ss \<Longrightarrow> length ss \<le> Suc top"
  using run_length_rank [of "hd ss" "tl ss"] by (cases ss) auto

lemma run_distinct: "successively step ss \<Longrightarrow> distinct ss"
proof -
  assume "successively step ss"
  then have "successively (\<lambda>s t. rank s < rank t) ss"
    by (rule successively_mono) (rule step_rank)
  then have "sorted_wrt (\<lambda>s t. rank s < rank t) ss"
    by (subst successively_conv_sorted_wrt [symmetric]) (auto simp: transp_def)
  then have "sorted_wrt (<) (map rank ss)"
    by (simp add: sorted_wrt_map)
  then have "distinct (map rank ss)"
    by (simp add: strict_sorted_iff)
  then show ?thesis by (simp add: distinct_map)
qed

end

section \<open>Arrays\<close>

text \<open>\<open>findIndex\<close> with -1 as \<open>None\<close>; \<open>splice(i, 1)\<close>, which does nothing past the end.\<close>

fun find_index :: "('a \<Rightarrow> bool) \<Rightarrow> 'a list \<Rightarrow> nat option" where
  "find_index P [] = None"
| "find_index P (x # xs) = (if P x then Some 0 else map_option Suc (find_index P xs))"

definition splice1 :: "nat \<Rightarrow> 'a list \<Rightarrow> 'a list" where
  "splice1 i xs = take i xs @ drop (Suc i) xs"

lemma find_index_None: "find_index P xs = None \<longleftrightarrow> (\<forall>x\<in>set xs. \<not> P x)"
  by (induction xs) auto

lemma find_index_Some:
  "find_index P xs = Some i \<Longrightarrow> i < length xs \<and> P (xs ! i) \<and> (\<forall>j<i. \<not> P (xs ! j))"
proof (induction xs arbitrary: i)
  case Nil
  then show ?case by simp
next
  case (Cons x xs)
  then show ?case by (auto simp: nth_Cons split: if_splits nat.splits)
qed

lemma find_append:
  "find P (xs @ ys) = (case find P xs of None \<Rightarrow> find P ys | Some x \<Rightarrow> Some x)"
  by (induction xs) auto

lemma length_splice1: "i < length xs \<Longrightarrow> Suc (length (splice1 i xs)) = length xs"
  by (auto simp: splice1_def)

lemma length_splice1_le: "length (splice1 i xs) \<le> length xs"
  by (auto simp: splice1_def)

lemma set_splice1: "set (splice1 i xs) \<subseteq> set xs"
  by (auto simp: splice1_def dest: in_set_takeD in_set_dropD)

lemma splice1_filter:
  "find_index P xs = Some i \<Longrightarrow> filter (\<lambda>x. \<not> P x) (splice1 i xs) = filter (\<lambda>x. \<not> P x) xs"
  by (induction xs arbitrary: i) (auto simp: splice1_def split: if_splits)

section \<open>Numbers and template literals\<close>

definition js_round :: "rat \<Rightarrow> int" where
  "js_round x = \<lfloor>x + 1 / 2\<rfloor>"

lemma js_round_mono: "x \<le> y \<Longrightarrow> js_round x \<le> js_round y"
  by (simp add: js_round_def floor_mono)

lemma js_round_of_int [simp]: "js_round (of_int n) = n"
  by (simp add: js_round_def floor_unique)

fun show_nat :: "nat \<Rightarrow> string" where
  "show_nat n =
     (if n < 10 then [char_of (48 + n)] else show_nat (n div 10) @ [char_of (48 + n mod 10)])"

declare show_nat.simps [simp del]

definition show_int :: "int \<Rightarrow> string" where
  "show_int i = (if i < 0 then ''-'' @ show_nat (nat (- i)) else show_nat (nat i))"

definition digit_chars :: "char set" where
  "digit_chars = char_of ` {48..<58 :: nat}"

lemma digit_char_inj:
  fixes a b :: nat
  assumes "a < 10" "b < 10" "char_of (48 + a) = (char_of (48 + b) :: char)"
  shows "a = b"
proof -
  have "(of_char (char_of (48 + a) :: char) :: nat) = of_char (char_of (48 + b) :: char)"
    using assms(3) by simp
  then show ?thesis using assms(1,2) by simp
qed

lemma show_nat_digits: "set (show_nat n) \<subseteq> digit_chars"
proof (induction n rule: show_nat.induct)
  case (1 n)
  then show ?case
    by (subst show_nat.simps) (auto simp: digit_chars_def image_iff intro!: bexI)
qed

lemma show_nat_not_Nil: "show_nat n \<noteq> []"
  by (subst show_nat.simps) auto

lemma show_nat_inj: "show_nat m = show_nat n \<Longrightarrow> m = n"
proof (induction m arbitrary: n rule: less_induct)
  case (less m)
  show ?case
  proof (cases "m < 10 \<or> n < 10")
    case True
    with less.prems show ?thesis
      using show_nat_not_Nil show_nat_not_Nil [symmetric]
      by (subst (asm) (1 2) show_nat.simps) (auto simp: digit_char_inj split: if_splits)
  next
    case False
    then have "show_nat (m div 10) = show_nat (n div 10)"
      and d: "char_of (48 + m mod 10) = (char_of (48 + n mod 10) :: char)"
      using less.prems by (subst (asm) (1 2) show_nat.simps, simp)+
    then have "m div 10 = n div 10"
      using less.IH [of "m div 10" "n div 10"] False by simp
    moreover have "m mod 10 = n mod 10"
      using digit_char_inj [OF _ _ d] by simp
    ultimately show ?thesis by (metis div_mult_mod_eq)
  qed
qed

lemma minus_not_digit: "CHR ''-'' \<notin> digit_chars" and colon_not_digit: "CHR '':'' \<notin> digit_chars"
  by (auto simp: digit_chars_def dest!: arg_cong [where f = "of_char :: char \<Rightarrow> nat"])

lemma show_int_inj: "show_int i = show_int j \<Longrightarrow> i = j"
proof -
  assume eq: "show_int i = show_int j"
  have hd: "\<And>n. hd (show_nat n) \<noteq> CHR ''-''"
    using show_nat_digits show_nat_not_Nil minus_not_digit by (metis list.set_sel(1) subsetD)
  have ne: "\<And>m n. ''-'' @ show_nat m \<noteq> show_nat n"
    using hd by (metis append_Cons list.sel(1))
  show "i = j"
    using eq ne ne [symmetric] by (auto simp: show_int_def dest!: show_nat_inj split: if_splits)
qed

lemma show_int_no_colon: "CHR '':'' \<notin> set (show_int i)"
  using show_nat_digits colon_not_digit by (auto simp: show_int_def)

section \<open>Strings\<close>

text \<open>\<open>String.prototype.includes\<close>.\<close>

fun str_includes :: "string \<Rightarrow> string \<Rightarrow> bool" where
  "str_includes [] needle = (needle = [])"
| "str_includes (c # cs) needle =
     (take (length needle) (c # cs) = needle \<or> str_includes cs needle)"

lemma str_includes_iff: "str_includes hay needle \<longleftrightarrow> (\<exists>u v. hay = u @ needle @ v)"
proof (induction hay)
  case Nil
  show ?case by auto
next
  case (Cons c cs)
  have "take (length needle) (c # cs) = needle \<longleftrightarrow> (\<exists>v. c # cs = needle @ v)"
    by (metis append_eq_conv_conj append_take_drop_id)
  moreover have "(\<exists>u v. c # cs = u @ needle @ v) \<longleftrightarrow>
      (\<exists>v. c # cs = needle @ v) \<or> (\<exists>u v. cs = u @ needle @ v)"
    by (metis append_Cons append_Nil neq_Nil_conv list.inject)
  ultimately show ?case using Cons by simp
qed

lemma str_includes_missing_char:
  "c \<in> set needle \<Longrightarrow> c \<notin> set hay \<Longrightarrow> \<not> str_includes hay needle"
  by (auto simp: str_includes_iff)

lemma show_int_chars: "set (show_int i) \<subseteq> insert (CHR ''-'') digit_chars"
  using show_nat_digits by (auto simp: show_int_def)

lemma letter_b_not_digit: "CHR ''b'' \<notin> set (show_int i)"
proof -
  have "CHR ''b'' \<notin> insert (CHR ''-'') digit_chars"
    by (auto simp: digit_chars_def dest!: arg_cong [where f = "of_char :: char \<Rightarrow> nat"])
  then show ?thesis using show_int_chars by blast
qed

text \<open>A separator that does not occur in the last component makes a composed key injective.\<close>

lemma last_component_inj:
  assumes "u @ c # x = v @ c # y" and "c \<notin> set x" and "c \<notin> set y"
  shows "u = v \<and> x = y"
proof -
  have "takeWhile (\<lambda>d. d \<noteq> c) (rev (u @ c # x)) = takeWhile (\<lambda>d. d \<noteq> c) (rev (v @ c # y))"
    using assms(1) by simp
  moreover have "takeWhile (\<lambda>d. d \<noteq> c) (rev x) = rev x" "takeWhile (\<lambda>d. d \<noteq> c) (rev y) = rev y"
    using assms(2,3) by (auto simp: takeWhile_eq_all_conv)
  ultimately have "rev x = rev y"
    by (simp add: takeWhile_tail)
  then show ?thesis using assms(1) by simp
qed

text \<open>
  Case mapping of \<open>toUpperCase\<close>, \<open>toLowerCase\<close> on the ASCII letters; other bytes are kept.
\<close>

definition upper_char :: "char \<Rightarrow> char" where
  "upper_char c =
     (let n = of_char c :: nat in if 97 \<le> n \<and> n \<le> 122 then char_of (n - 32) else c)"

definition lower_char :: "char \<Rightarrow> char" where
  "lower_char c =
     (let n = of_char c :: nat in if 65 \<le> n \<and> n \<le> 90 then char_of (n + 32) else c)"

definition js_upper :: "string \<Rightarrow> string" where
  "js_upper = map upper_char"

definition js_lower :: "string \<Rightarrow> string" where
  "js_lower = map lower_char"

text \<open>
  \<open>String.prototype.trim\<close>: the white space and line terminators of ECMAScript in UTF-8. (Lower
  case is taken on the ASCII letters, which decides membership in a set of ASCII words.)
\<close>

definition WHITE_SPACE :: "string list" where
  "WHITE_SPACE =
     [[CHR 0x09], [CHR 0x0A], [CHR 0x0B], [CHR 0x0C], [CHR 0x0D], [CHR 0x20], [CHR 0xC2, CHR 0xA0],
      [CHR 0xE1, CHR 0x9A, CHR 0x80], [CHR 0xE2, CHR 0x80, CHR 0x80], [CHR 0xE2, CHR 0x80, CHR 0x81],
      [CHR 0xE2, CHR 0x80, CHR 0x82], [CHR 0xE2, CHR 0x80, CHR 0x83], [CHR 0xE2, CHR 0x80, CHR 0x84],
      [CHR 0xE2, CHR 0x80, CHR 0x85], [CHR 0xE2, CHR 0x80, CHR 0x86], [CHR 0xE2, CHR 0x80, CHR 0x87],
      [CHR 0xE2, CHR 0x80, CHR 0x88], [CHR 0xE2, CHR 0x80, CHR 0x89], [CHR 0xE2, CHR 0x80, CHR 0x8A],
      [CHR 0xE2, CHR 0x80, CHR 0xA8], [CHR 0xE2, CHR 0x80, CHR 0xA9], [CHR 0xE2, CHR 0x80, CHR 0xAF],
      [CHR 0xE2, CHR 0x81, CHR 0x9F], [CHR 0xE3, CHR 0x80, CHR 0x80], [CHR 0xEF, CHR 0xBB, CHR 0xBF]]"

text \<open>One of the non-empty words at the front, again and again.\<close>

fun strip_words :: "nat \<Rightarrow> string list \<Rightarrow> string \<Rightarrow> string" where
  "strip_words 0 ws s = s"
| "strip_words (Suc n) ws s =
     (case List.find (\<lambda>w. take (length w) s = w) ws of
        None \<Rightarrow> s
      | Some w \<Rightarrow> strip_words n ws (drop (length w) s))"

definition js_trim :: "string \<Rightarrow> string" where
  "js_trim s =
     (let t = strip_words (length s) WHITE_SPACE s
      in rev (strip_words (length t) (map rev WHITE_SPACE) (rev t)))"

text \<open>\<open>String.prototype.split\<close> at a character, \<open>Array.prototype.join\<close> of strings.\<close>

fun js_split :: "char \<Rightarrow> string \<Rightarrow> string list" where
  "js_split sep [] = [[]]"
| "js_split sep (c # cs) =
     (if c = sep then [] # js_split sep cs
      else case js_split sep cs of [] \<Rightarrow> [[c]] | part # parts \<Rightarrow> (c # part) # parts)"

fun js_join :: "string \<Rightarrow> string list \<Rightarrow> string" where
  "js_join sep [] = []"
| "js_join sep [s] = s"
| "js_join sep (s # t # ss) = s @ sep @ js_join sep (t # ss)"

text \<open>Own properties of an object or array; \<open>length\<close> and the indices are own properties of an array.\<close>

fun own_property :: "json \<Rightarrow> string \<Rightarrow> json option" where
  "own_property (JsonObject props) part = map_of props part"
| "own_property (JsonArray xs) part =
     (if part = ''length'' then Some (JsonNumber (of_nat (length xs)))
      else map_option (\<lambda>i. xs ! i) (List.find (\<lambda>i. show_nat i = part) [0..<length xs]))"
| "own_property _ part = None"

text \<open>A name in single quotes, as messages have it.\<close>

definition squoted :: "string \<Rightarrow> string" where
  "squoted s = CHR 0x27 # s @ [CHR 0x27]"

text \<open>\<open>a ?? b\<close>.\<close>

definition or_else :: "'a option \<Rightarrow> 'a option \<Rightarrow> 'a option" where
  "or_else a b = (case a of Some x \<Rightarrow> Some x | None \<Rightarrow> b)"

lemma or_else_simps [simp]: "or_else (Some x) b = Some x" "or_else None b = b"
  by (simp_all add: or_else_def)

lemma or_else_None: "or_else x None = x"
  by (cases x) simp_all

lemma map_of_opt_field:
  "map_of (opt_field n f v) k = (if k = n then map_option f v else None)"
  by (auto simp: opt_field_def split: option.splits)

lemma map_of_opt_field_append:
  "map_of (opt_field n f v @ xs) k = (if k = n then or_else (map_option f v) (map_of xs k) else map_of xs k)"
  by (auto simp: opt_field_def split: option.splits)

end
