(* ===== verification/Circuit_Breaker.thy ===== *)
theory Circuit_Breaker
  imports Friday_Prelude
begin

text \<open>
  The per-target circuit breaker of src/src/retry/engine/circuit-breaker.ts. The manager
  state is the \<open>Map\<close> from target to entry. The code reads the clock at several points of
  one call; \<open>cb_clock\<close> gives the reading of each point, so that no two readings of a call
  are assumed equal. A manager call changes one entry in place: \<open>with_entry\<close> fetches or
  creates the entry, applies the entry-level operation and writes the entry back.
\<close>

section \<open>State\<close>

datatype CircuitBreakerState = Closed | Open | HalfOpen

record CircuitBreakerConfig =
  failureThreshold :: int
  resetTimeoutMs :: int
  halfOpenSuccessThreshold :: int

record CircuitBreakerEntry =
  cb_state :: CircuitBreakerState
  consecutiveFailures :: int
  halfOpenSuccesses :: int
  halfOpenProbeInFlight :: bool
  lastOpenedAt :: "int option"
  lastTransitionAt :: int
  totalTrips :: int

record CircuitBreakerSnapshot =
  snap_target :: string
  snap_state :: CircuitBreakerState
  snap_consecutiveFailures :: int
  snap_halfOpenSuccesses :: int
  snap_lastOpenedAt :: "int option"
  snap_lastTransitionAt :: int
  snap_totalTrips :: int

definition DEFAULT_CIRCUIT_BREAKER_CONFIG :: CircuitBreakerConfig where
  "DEFAULT_CIRCUIT_BREAKER_CONFIG =
     \<lparr>failureThreshold = 5, resetTimeoutMs = 30000, halfOpenSuccessThreshold = 1\<rparr>"

text \<open>The points of a call at which \<open>nowMs()\<close> is read.\<close>

datatype cb_site = AtCreate | AtTimeoutCheck | AtHalfOpen | AtOpened | AtTransition

type_synonym cb_clock = "cb_site \<Rightarrow> int"
type_synonym breakers = "(string, CircuitBreakerEntry) js_map"

section \<open>Entry operations\<close>

definition new_entry :: "cb_clock \<Rightarrow> CircuitBreakerEntry" where
  "new_entry clk =
     \<lparr>cb_state = Closed, consecutiveFailures = 0, halfOpenSuccesses = 0,
      halfOpenProbeInFlight = False, lastOpenedAt = None,
      lastTransitionAt = clk AtCreate, totalTrips = 0\<rparr>"

definition getEntry :: "cb_clock \<Rightarrow> string \<Rightarrow> breakers \<Rightarrow> CircuitBreakerEntry \<times> breakers" where
  "getEntry clk target bs =
     (case map_get bs target of
        Some entry \<Rightarrow> (entry, bs)
      | None \<Rightarrow> (new_entry clk, map_set bs target (new_entry clk)))"

definition maybeTransitionToHalfOpen ::
    "CircuitBreakerConfig \<Rightarrow> cb_clock \<Rightarrow> CircuitBreakerEntry \<Rightarrow> CircuitBreakerEntry" where
  "maybeTransitionToHalfOpen config clk entry =
     (case lastOpenedAt entry of
        Some opened \<Rightarrow>
          if cb_state entry = Open \<and> clk AtTimeoutCheck - opened \<ge> resetTimeoutMs config
          then entry\<lparr>cb_state := HalfOpen, halfOpenSuccesses := 0,
                     halfOpenProbeInFlight := False, lastTransitionAt := clk AtHalfOpen\<rparr>
          else entry
      | None \<Rightarrow> entry)"

definition isAllowed_entry ::
    "CircuitBreakerConfig \<Rightarrow> cb_clock \<Rightarrow> CircuitBreakerEntry \<Rightarrow> bool \<times> CircuitBreakerEntry" where
  "isAllowed_entry config clk e =
     (let entry = maybeTransitionToHalfOpen config clk e in
      if cb_state entry = Open then (False, entry)
      else if cb_state entry = HalfOpen then
        (if halfOpenProbeInFlight entry then (False, entry)
         else (True, entry\<lparr>halfOpenProbeInFlight := True\<rparr>))
      else (True, entry))"

definition recordSuccess_entry ::
    "CircuitBreakerConfig \<Rightarrow> cb_clock \<Rightarrow> CircuitBreakerEntry \<Rightarrow> CircuitBreakerEntry" where
  "recordSuccess_entry config clk e =
     (let entry = maybeTransitionToHalfOpen config clk e in
      case cb_state entry of
        Closed \<Rightarrow> entry\<lparr>consecutiveFailures := 0\<rparr>
      | HalfOpen \<Rightarrow>
          (let entry = entry\<lparr>halfOpenProbeInFlight := False,
                             halfOpenSuccesses := halfOpenSuccesses entry + 1\<rparr> in
           if halfOpenSuccesses entry \<ge> halfOpenSuccessThreshold config
           then entry\<lparr>cb_state := Closed, consecutiveFailures := 0, halfOpenSuccesses := 0,
                      halfOpenProbeInFlight := False, lastTransitionAt := clk AtTransition\<rparr>
           else entry)
      | Open \<Rightarrow> entry)"

definition recordFailure_entry ::
    "CircuitBreakerConfig \<Rightarrow> cb_clock \<Rightarrow> CircuitBreakerEntry \<Rightarrow> CircuitBreakerEntry" where
  "recordFailure_entry config clk e =
     (let entry = maybeTransitionToHalfOpen config clk e in
      case cb_state entry of
        Closed \<Rightarrow>
          (let entry = entry\<lparr>consecutiveFailures := consecutiveFailures entry + 1\<rparr> in
           if consecutiveFailures entry \<ge> failureThreshold config
           then entry\<lparr>cb_state := Open, lastOpenedAt := Some (clk AtOpened),
                      lastTransitionAt := clk AtTransition, totalTrips := totalTrips entry + 1\<rparr>
           else entry)
      | HalfOpen \<Rightarrow>
          entry\<lparr>cb_state := Open, lastOpenedAt := Some (clk AtOpened),
                lastTransitionAt := clk AtTransition, totalTrips := totalTrips entry + 1,
                halfOpenSuccesses := 0, halfOpenProbeInFlight := False\<rparr>
      | Open \<Rightarrow> entry)"

definition snapshot_of :: "string \<Rightarrow> CircuitBreakerEntry \<Rightarrow> CircuitBreakerSnapshot" where
  "snapshot_of target entry =
     \<lparr>snap_target = target, snap_state = cb_state entry,
      snap_consecutiveFailures = consecutiveFailures entry,
      snap_halfOpenSuccesses = halfOpenSuccesses entry,
      snap_lastOpenedAt = lastOpenedAt entry,
      snap_lastTransitionAt = lastTransitionAt entry,
      snap_totalTrips = totalTrips entry\<rparr>"

section \<open>Manager operations\<close>

definition with_entry ::
    "cb_clock \<Rightarrow> string \<Rightarrow> (CircuitBreakerEntry \<Rightarrow> 'r \<times> CircuitBreakerEntry) \<Rightarrow> breakers
     \<Rightarrow> 'r \<times> breakers" where
  "with_entry clk target f bs =
     (let (entry, bs) = getEntry clk target bs; (r, entry) = f entry
      in (r, map_set bs target entry))"

definition isAllowed ::
    "CircuitBreakerConfig \<Rightarrow> cb_clock \<Rightarrow> string \<Rightarrow> breakers \<Rightarrow> bool \<times> breakers" where
  "isAllowed config clk target bs = with_entry clk target (isAllowed_entry config clk) bs"

definition recordSuccess ::
    "CircuitBreakerConfig \<Rightarrow> cb_clock \<Rightarrow> string \<Rightarrow> breakers \<Rightarrow> breakers" where
  "recordSuccess config clk target bs =
     snd (with_entry clk target (\<lambda>e. ((), recordSuccess_entry config clk e)) bs)"

definition recordFailure ::
    "CircuitBreakerConfig \<Rightarrow> cb_clock \<Rightarrow> string \<Rightarrow> breakers \<Rightarrow> breakers" where
  "recordFailure config clk target bs =
     snd (with_entry clk target (\<lambda>e. ((), recordFailure_entry config clk e)) bs)"

definition getSnapshot ::
    "CircuitBreakerConfig \<Rightarrow> cb_clock \<Rightarrow> string \<Rightarrow> breakers \<Rightarrow> CircuitBreakerSnapshot \<times> breakers" where
  "getSnapshot config clk target bs =
     with_entry clk target
       (\<lambda>e. let entry = maybeTransitionToHalfOpen config clk e
            in (snapshot_of target entry, entry)) bs"

definition reset :: "string \<Rightarrow> breakers \<Rightarrow> breakers" where
  "reset target bs = map_del bs target"

definition resetAll :: "breakers \<Rightarrow> breakers" where
  "resetAll bs = map_empty"

text \<open>
  \<open>getAllSnapshots\<close> iterates over the keys; every key is present, so no entry is created and
  the iteration order is that of the keys at the start. Each call reads its own clock.
\<close>

fun snapshot_targets ::
    "CircuitBreakerConfig \<Rightarrow> (string \<Rightarrow> cb_clock) \<Rightarrow> string list \<Rightarrow> breakers
     \<Rightarrow> CircuitBreakerSnapshot list \<times> breakers" where
  "snapshot_targets config clk [] bs = ([], bs)"
| "snapshot_targets config clk (t # ts) bs =
     (let (s, bs) = getSnapshot config (clk t) t bs;
          (ss, bs) = snapshot_targets config clk ts bs
      in (s # ss, bs))"

definition getAllSnapshots ::
    "CircuitBreakerConfig \<Rightarrow> (string \<Rightarrow> cb_clock) \<Rightarrow> breakers
     \<Rightarrow> CircuitBreakerSnapshot list \<times> breakers" where
  "getAllSnapshots config clk bs = snapshot_targets config clk (map_keys bs) bs"

section \<open>Runs and the view of one target\<close>

text \<open>
  A call of the manager, and what that call does to the entry of one target: the view is the
  specification a client of a single target sees.
\<close>

datatype cb_event =
    EAllowed string cb_clock
  | ESuccess string cb_clock
  | EFailure string cb_clock
  | ESnapshot string cb_clock
  | EReset string
  | EResetAll
  | ESnapshotAll "string \<Rightarrow> cb_clock"

fun cb_exec :: "CircuitBreakerConfig \<Rightarrow> cb_event \<Rightarrow> breakers \<Rightarrow> breakers" where
  "cb_exec config (EAllowed t clk) bs = snd (isAllowed config clk t bs)"
| "cb_exec config (ESuccess t clk) bs = recordSuccess config clk t bs"
| "cb_exec config (EFailure t clk) bs = recordFailure config clk t bs"
| "cb_exec config (ESnapshot t clk) bs = snd (getSnapshot config clk t bs)"
| "cb_exec config (EReset t) bs = reset t bs"
| "cb_exec config EResetAll bs = resetAll bs"
| "cb_exec config (ESnapshotAll clk) bs = snd (getAllSnapshots config clk bs)"

definition cb_run :: "CircuitBreakerConfig \<Rightarrow> cb_event list \<Rightarrow> breakers \<Rightarrow> breakers" where
  "cb_run config evs bs = fold (cb_exec config) evs bs"

definition touch ::
    "cb_clock \<Rightarrow> (CircuitBreakerEntry \<Rightarrow> CircuitBreakerEntry) \<Rightarrow> CircuitBreakerEntry option
     \<Rightarrow> CircuitBreakerEntry option" where
  "touch clk f oe = Some (f (case oe of Some e \<Rightarrow> e | None \<Rightarrow> new_entry clk))"

fun cb_view ::
    "CircuitBreakerConfig \<Rightarrow> string \<Rightarrow> cb_event \<Rightarrow> CircuitBreakerEntry option
     \<Rightarrow> CircuitBreakerEntry option" where
  "cb_view config t (EAllowed t' clk) oe =
     (if t' = t then touch clk (\<lambda>e. snd (isAllowed_entry config clk e)) oe else oe)"
| "cb_view config t (ESuccess t' clk) oe =
     (if t' = t then touch clk (recordSuccess_entry config clk) oe else oe)"
| "cb_view config t (EFailure t' clk) oe =
     (if t' = t then touch clk (recordFailure_entry config clk) oe else oe)"
| "cb_view config t (ESnapshot t' clk) oe =
     (if t' = t then touch clk (maybeTransitionToHalfOpen config clk) oe else oe)"
| "cb_view config t (EReset t') oe = (if t' = t then None else oe)"
| "cb_view config t EResetAll oe = None"
| "cb_view config t (ESnapshotAll clk) oe =
     map_option (maybeTransitionToHalfOpen config (clk t)) oe"

text \<open>The invariant of an entry.\<close>

definition cb_inv :: "CircuitBreakerConfig \<Rightarrow> CircuitBreakerEntry \<Rightarrow> bool" where
  "cb_inv config e \<longleftrightarrow>
     0 \<le> consecutiveFailures e \<and> 0 \<le> totalTrips e \<and>
     (case cb_state e of
        Closed \<Rightarrow>
          (consecutiveFailures e = 0 \<or> consecutiveFailures e < failureThreshold config) \<and>
          halfOpenSuccesses e = 0 \<and> \<not> halfOpenProbeInFlight e
      | Open \<Rightarrow>
          lastOpenedAt e \<noteq> None \<and> 1 \<le> totalTrips e \<and> 1 \<le> consecutiveFailures e \<and>
          failureThreshold config \<le> consecutiveFailures e \<and>
          halfOpenSuccesses e = 0 \<and> \<not> halfOpenProbeInFlight e
      | HalfOpen \<Rightarrow>
          lastOpenedAt e \<noteq> None \<and> 1 \<le> totalTrips e \<and> 1 \<le> consecutiveFailures e \<and>
          failureThreshold config \<le> consecutiveFailures e \<and>
          0 \<le> halfOpenSuccesses e \<and>
          (halfOpenSuccesses e = 0 \<or> halfOpenSuccesses e < halfOpenSuccessThreshold config))"

definition breakers_inv :: "CircuitBreakerConfig \<Rightarrow> breakers \<Rightarrow> bool" where
  "breakers_inv config bs \<longleftrightarrow> map_ok bs \<and> list_all (cb_inv config) (map_values bs)"

text \<open>A half-open entry whose probe is out, seen by calls that record nothing.\<close>

definition probe_out :: "CircuitBreakerEntry \<Rightarrow> bool" where
  "probe_out e \<longleftrightarrow> cb_state e = HalfOpen \<and> halfOpenProbeInFlight e"

fun settles :: "string \<Rightarrow> cb_event \<Rightarrow> bool" where
  "settles t (ESuccess t' clk) = (t' = t)"
| "settles t (EFailure t' clk) = (t' = t)"
| "settles t (EReset t') = (t' = t)"
| "settles t EResetAll = True"
| "settles t _ = False"

text \<open>A concrete open entry, used by the witnesses.\<close>

definition tripped_example :: CircuitBreakerEntry where
  "tripped_example =
     \<lparr>cb_state = Open, consecutiveFailures = 5, halfOpenSuccesses = 0,
      halfOpenProbeInFlight = False, lastOpenedAt = Some 1000, lastTransitionAt = 1000,
      totalTrips = 1\<rparr>"

section \<open>Lemmas\<close>

lemmas cb_entry_defs = maybeTransitionToHalfOpen_def isAllowed_entry_def
  recordSuccess_entry_def recordFailure_entry_def Let_def

lemmas cb_manager_defs = isAllowed_def recordSuccess_def recordFailure_def getSnapshot_def
  reset_def resetAll_def

lemma with_entry_get:
  "map_get (snd (with_entry clk t f bs)) t' =
     (if t' = t then touch clk (\<lambda>e. snd (f e)) (map_get bs t') else map_get bs t')"
  by (auto simp: with_entry_def getEntry_def touch_def Let_def split: option.splits prod.splits)

lemma with_entry_fst:
  "fst (with_entry clk t f bs) = fst (f (case map_get bs t of Some e \<Rightarrow> e | None \<Rightarrow> new_entry clk))"
  by (auto simp: with_entry_def getEntry_def Let_def split: option.splits prod.splits)

lemma with_entry_ok: "map_ok bs \<Longrightarrow> map_ok (snd (with_entry clk t f bs))"
  by (auto simp: with_entry_def getEntry_def Let_def split: option.splits prod.splits)

lemma snapshot_targets_snd:
  "snd (snapshot_targets config clk ts bs) =
     fold (\<lambda>t bs. snd (getSnapshot config (clk t) t bs)) ts bs"
  by (induction ts arbitrary: bs) (auto simp: Let_def case_prod_beta)

lemma fold_snapshot_get:
  assumes "distinct ts"
  shows "map_get (fold (\<lambda>t bs. snd (getSnapshot config (clk t) t bs)) ts bs) t =
    (if t \<in> set ts then touch (clk t) (maybeTransitionToHalfOpen config (clk t)) (map_get bs t)
     else map_get bs t)"
  using assms
  by (induction ts arbitrary: bs) (auto simp: getSnapshot_def with_entry_get Let_def)

lemma getAllSnapshots_get:
  assumes "map_ok bs"
  shows "map_get (snd (getAllSnapshots config clk bs)) t =
    map_option (maybeTransitionToHalfOpen config (clk t)) (map_get bs t)"
  using assms map_get_keys [of bs t]
  by (auto simp: getAllSnapshots_def snapshot_targets_snd fold_snapshot_get map_ok_def touch_def)

lemma getAllSnapshots_ok: "map_ok bs \<Longrightarrow> map_ok (snd (getAllSnapshots config clk bs))"
proof -
  have "map_ok bs \<Longrightarrow> map_ok (fold (\<lambda>t bs. snd (getSnapshot config (clk t) t bs)) ts bs)" for ts
    by (induction ts arbitrary: bs) (auto simp: getSnapshot_def with_entry_ok)
  then show "map_ok bs \<Longrightarrow> ?thesis"
    by (simp add: getAllSnapshots_def snapshot_targets_snd)
qed

lemma cb_exec_ok: "map_ok bs \<Longrightarrow> map_ok (cb_exec config ev bs)"
  by (cases ev) (auto simp: cb_manager_defs with_entry_ok getAllSnapshots_ok)

lemma cb_exec_view:
  assumes "map_ok bs"
  shows "map_get (cb_exec config ev bs) t = cb_view config t ev (map_get bs t)"
  using assms
  by (cases ev) (auto simp: cb_manager_defs with_entry_get getAllSnapshots_get Let_def)

lemma cb_run_ok: "map_ok bs \<Longrightarrow> map_ok (cb_run config evs bs)"
  unfolding cb_run_def by (induction evs arbitrary: bs) (auto simp: cb_exec_ok)

lemma cb_run_view:
  assumes "map_ok bs"
  shows "map_get (cb_run config evs bs) t = fold (cb_view config t) evs (map_get bs t)"
  using assms unfolding cb_run_def
  by (induction evs arbitrary: bs) (auto simp: cb_exec_ok cb_exec_view)

text \<open>One preservation lemma per entry operation.\<close>

lemma new_entry_inv: "cb_inv config (new_entry clk)"
  by (simp add: cb_inv_def new_entry_def)

lemma maybeTransition_inv:
  "cb_inv config e \<Longrightarrow> cb_inv config (maybeTransitionToHalfOpen config clk e)"
  by (auto simp: cb_inv_def maybeTransitionToHalfOpen_def split: option.splits CircuitBreakerState.splits)

lemma isAllowed_entry_inv:
  assumes "cb_inv config e"
  shows "cb_inv config (snd (isAllowed_entry config clk e))"
proof -
  have "cb_inv config (maybeTransitionToHalfOpen config clk e)"
    using assms by (rule maybeTransition_inv)
  then show ?thesis
    by (auto simp: isAllowed_entry_def Let_def cb_inv_def split: CircuitBreakerState.splits)
qed

lemma recordSuccess_entry_inv:
  assumes "cb_inv config e"
  shows "cb_inv config (recordSuccess_entry config clk e)"
proof -
  have "cb_inv config (maybeTransitionToHalfOpen config clk e)"
    using assms by (rule maybeTransition_inv)
  then show ?thesis
    by (auto simp: recordSuccess_entry_def Let_def cb_inv_def split: CircuitBreakerState.splits)
qed

lemma recordFailure_entry_inv:
  assumes "cb_inv config e"
  shows "cb_inv config (recordFailure_entry config clk e)"
proof -
  have "cb_inv config (maybeTransitionToHalfOpen config clk e)"
    using assms by (rule maybeTransition_inv)
  then show ?thesis
    by (auto simp: recordFailure_entry_def Let_def cb_inv_def split: CircuitBreakerState.splits)
qed

lemmas cb_entry_invs = new_entry_inv maybeTransition_inv isAllowed_entry_inv
  recordSuccess_entry_inv recordFailure_entry_inv

lemma cb_view_inv:
  assumes "pred_option (cb_inv config) oe"
  shows "pred_option (cb_inv config) (cb_view config t ev oe)"
  using assms by (cases ev; cases oe) (auto simp: touch_def cb_entry_invs)

lemma fold_cb_view_inv:
  "pred_option (cb_inv config) oe \<Longrightarrow> pred_option (cb_inv config) (fold (cb_view config t) evs oe)"
  by (induction evs arbitrary: oe) (auto simp: cb_view_inv)

lemma probe_out_entry:
  assumes "probe_out e"
  shows "maybeTransitionToHalfOpen config clk e = e" and "isAllowed_entry config clk e = (False, e)"
proof -
  show *: "maybeTransitionToHalfOpen config clk e = e"
    using assms by (auto simp: probe_out_def maybeTransitionToHalfOpen_def split: option.splits)
  show "isAllowed_entry config clk e = (False, e)"
    using assms by (simp add: isAllowed_entry_def * probe_out_def)
qed

lemma probe_out_view:
  assumes "probe_out e" and "\<not> settles t ev"
  shows "cb_view config t ev (Some e) = Some e"
  using assms by (cases ev) (auto simp: touch_def probe_out_entry)

lemma probe_out_views:
  assumes "probe_out e" and "list_all (\<lambda>ev. \<not> settles t ev) evs"
  shows "fold (cb_view config t) evs (Some e) = Some e"
  using assms by (induction evs) (auto simp: probe_out_view)

lemma recordFailure_entry_open: "cb_state e = Open \<Longrightarrow> cb_state (recordFailure_entry config clk e) = Open"
  by (auto simp: recordFailure_entry_def maybeTransitionToHalfOpen_def Let_def split: option.splits)

lemma recordFailure_entry_closed:
  assumes "cb_state e = Closed"
  shows "cb_state (recordFailure_entry config clk e) =
      (if consecutiveFailures e + 1 \<ge> failureThreshold config then Open else Closed)"
    and "consecutiveFailures (recordFailure_entry config clk e) = consecutiveFailures e + 1"
  using assms
  by (auto simp: recordFailure_entry_def maybeTransitionToHalfOpen_def Let_def split: option.splits)

lemma fold_failures_open:
  "cb_state e = Open \<Longrightarrow> cb_state (fold (recordFailure_entry config) clks e) = Open"
  by (induction clks arbitrary: e) (auto simp: recordFailure_entry_open)

lemma fold_failures_closed:
  assumes "cb_state e = Closed" and "consecutiveFailures e < failureThreshold config"
  shows "cb_state (fold (recordFailure_entry config) clks e) =
    (if consecutiveFailures e + int (length clks) \<ge> failureThreshold config then Open else Closed)"
  using assms
proof (induction clks arbitrary: e)
  case Nil
  then show ?case by simp
next
  case (Cons clk clks)
  show ?case
  proof (cases "consecutiveFailures e + 1 \<ge> failureThreshold config")
    case True
    then have "cb_state (recordFailure_entry config clk e) = Open"
      using Cons.prems by (simp add: recordFailure_entry_closed)
    with True show ?thesis by (simp add: fold_failures_open)
  next
    case False
    with Cons.IH [of "recordFailure_entry config clk e"] Cons.prems show ?thesis
      by (simp add: recordFailure_entry_closed algebra_simps)
  qed
qed

section \<open>Properties\<close>


text \<open>
  Every entry of a manager that started empty satisfies the entry invariant after any
  sequence of calls: a closed circuit is below its failure threshold and has no probe out, an
  open one has an opening time and has reached the threshold, a half-open one has fewer
  successes than would close it.
\<close>

theorem cb_run_invariant: "breakers_inv config (cb_run config evs map_empty)"
proof -
  let ?bs = "cb_run config evs map_empty"
  have ok: "map_ok ?bs" by (simp add: cb_run_ok)
  have inv: "pred_option (cb_inv config) (map_get ?bs t)" for t
    by (simp add: cb_run_view fold_cb_view_inv)
  have "list_all (cb_inv config) (map_values ?bs)"
    unfolding list_all_iff using map_values_get [OF ok] inv by (metis option.pred_inject(2))
  with ok show ?thesis by (simp add: breakers_inv_def)
qed

text \<open>
  Starting closed and fresh, \<open>n\<close> failures in a row with no success in between leave the
  circuit open exactly when \<open>n\<close> has reached the threshold, whatever the clock reads.
\<close>

theorem cb_trips_at_threshold:
  assumes "1 \<le> failureThreshold config"
  shows "cb_state (fold (recordFailure_entry config) clks (new_entry clk)) =
    (if int (length clks) \<ge> failureThreshold config then Open else Closed)"
  using fold_failures_closed [of "new_entry clk" config clks] assms
  by (simp add: new_entry_def)

theorem cb_trips_at_threshold_witness:
  "cb_state (fold (recordFailure_entry DEFAULT_CIRCUIT_BREAKER_CONFIG)
      [\<lambda>_. 1, \<lambda>_. 2, \<lambda>_. 3, \<lambda>_. 4, \<lambda>_. 5] (new_entry (\<lambda>_. 0))) = Open"
  using cb_trips_at_threshold [of DEFAULT_CIRCUIT_BREAKER_CONFIG
      "[\<lambda>_. 1, \<lambda>_. 2, \<lambda>_. 3, \<lambda>_. 4, \<lambda>_. 5]" "\<lambda>_. 0"]
  by (simp add: DEFAULT_CIRCUIT_BREAKER_CONFIG_def)

text \<open>
  An open circuit answers a request according to the reset timeout alone: it is allowed
  exactly when the timeout has elapsed since the opening, and it is then half-open with its
  probe out; before that the entry is unchanged.
\<close>

theorem cb_open_waits_for_timeout:
  assumes "map_get bs t = Some e" and "cb_state e = Open" and "lastOpenedAt e = Some opened"
  shows "(let elapsed = (clk AtTimeoutCheck - opened \<ge> resetTimeoutMs config);
              (allowed, bs') = isAllowed config clk t bs
          in allowed = elapsed \<and>
             map_get bs' t =
               Some (if elapsed
                     then e\<lparr>cb_state := HalfOpen, halfOpenSuccesses := 0,
                            halfOpenProbeInFlight := True, lastTransitionAt := clk AtHalfOpen\<rparr>
                     else e))"
  using assms with_entry_fst [of clk t "isAllowed_entry config clk" bs]
    with_entry_get [of clk t "isAllowed_entry config clk" bs t]
  by (auto simp: isAllowed_def touch_def isAllowed_entry_def maybeTransitionToHalfOpen_def Let_def
      split: prod.splits)

theorem cb_open_waits_for_timeout_witness:
  "\<not> fst (isAllowed DEFAULT_CIRCUIT_BREAKER_CONFIG (\<lambda>_. 30999) ''llm'' [(''llm'', tripped_example)])
   \<and> fst (isAllowed DEFAULT_CIRCUIT_BREAKER_CONFIG (\<lambda>_. 31000) ''llm'' [(''llm'', tripped_example)])"
  using cb_open_waits_for_timeout [of "[(''llm'', tripped_example)]" "''llm''" tripped_example 1000
      DEFAULT_CIRCUIT_BREAKER_CONFIG "\<lambda>_. 30999"]
    cb_open_waits_for_timeout [of "[(''llm'', tripped_example)]" "''llm''" tripped_example 1000
      DEFAULT_CIRCUIT_BREAKER_CONFIG "\<lambda>_. 31000"]
  by (auto simp: map_get_def tripped_example_def DEFAULT_CIRCUIT_BREAKER_CONFIG_def Let_def
      split: prod.splits)

text \<open>
  While the probe of a half-open target is out, every further request for it is refused,
  at any time and after any calls that neither record an outcome for the target nor reset it.
  (So at most one probe is out; and a probe whose outcome is never recorded blocks the target
  for good, since no timeout applies to it.)
\<close>

theorem cb_single_probe:
  assumes "map_ok bs" and "map_get bs t = Some e"
    and "cb_state e = HalfOpen" and "halfOpenProbeInFlight e"
    and "list_all (\<lambda>ev. \<not> settles t ev) evs"
  shows "\<not> fst (isAllowed config clk t (cb_run config evs bs))"
proof -
  have out: "probe_out e" using assms(3,4) by (simp add: probe_out_def)
  have "map_get (cb_run config evs bs) t = Some e"
    using assms(1,2,5) out by (simp add: cb_run_view probe_out_views)
  with out show ?thesis
    by (simp add: isAllowed_def with_entry_fst probe_out_entry)
qed

theorem cb_single_probe_witness:
  "\<not> fst (isAllowed DEFAULT_CIRCUIT_BREAKER_CONFIG (\<lambda>_. 10 ^ 12) ''llm''
        (cb_run DEFAULT_CIRCUIT_BREAKER_CONFIG [EAllowed ''llm'' (\<lambda>_. 40000), EFailure ''db'' (\<lambda>_. 50000)]
          [(''llm'', tripped_example\<lparr>cb_state := HalfOpen, halfOpenProbeInFlight := True\<rparr>)]))"
  by (rule cb_single_probe
      [where e = "tripped_example\<lparr>cb_state := HalfOpen, halfOpenProbeInFlight := True\<rparr>"])
    (simp_all add: map_ok_def map_keys_def map_get_def)

end
