(* ===== verification/Retry_Model.thy ===== *)
theory Retry_Model
  imports Friday_Prelude
begin

text \<open>
  The data contract of the retry engine: src/src/retry/model/friday-retry-engine.types.ts,
  with the node-level retry policy and the retry hint it refers to. Every union of string
  literals is a datatype with the source's constructors, every interface a record.
\<close>

section \<open>Failure taxonomy\<close>

datatype FridayFailureCategory =
  Transient | Rate_Limit | Auth | Logic | Resource | Timeout | Unknown

fun category_name :: "FridayFailureCategory \<Rightarrow> string" where
  "category_name Transient = ''transient''"
| "category_name Rate_Limit = ''rate_limit''"
| "category_name Auth = ''auth''"
| "category_name Logic = ''logic''"
| "category_name Resource = ''resource''"
| "category_name Timeout = ''timeout''"
| "category_name Unknown = ''unknown''"

definition FRIDAY_FAILURE_CATEGORY_PRIORITY :: "FridayFailureCategory list" where
  "FRIDAY_FAILURE_CATEGORY_PRIORITY =
     [Rate_Limit, Timeout, Transient, Resource, Auth, Logic, Unknown]"

datatype FridayFailureSeverity = Critical | Major | Minor | Info

datatype FridayFailureClassificationSource =
  Http_Status | Error_Code | Error_Message | Retry_Hint | Custom_Rule | Default_Source

datatype FridayRetryBackoffStrategy = Backoff_None | Backoff_Fixed | Backoff_Exponential

record FridayRetryHint =
  hint_retryable :: bool
  hint_retryAfterMs :: "rat option"
  hint_maxRetries :: "int option"
  hint_backoff :: "FridayRetryBackoffStrategy option"
  hint_reason :: "string option"

record FridayClassifiedFailure =
  classificationId :: UUID
  cf_category :: FridayFailureCategory
  cf_severity :: FridayFailureSeverity
  classificationSource :: FridayFailureClassificationSource
  cf_confidence :: int
  originalErrorCode :: "string option"
  originalErrorMessage :: "string option"
  cf_httpStatusCode :: "int option"
  cf_retryAfterMs :: "rat option"
  cf_retryHint :: "FridayRetryHint option"
  cf_retryable :: bool
  classifiedAt :: ISODateTime

record FridayFailureClass =
  fc_category :: FridayFailureCategory
  fc_description :: string
  retryableByDefault :: bool
  defaultSeverity :: FridayFailureSeverity
  defaultMaxAttempts :: int
  httpStatusCodes :: "int list"
  errorCodes :: "string list"
  errorMessagePatterns :: "string list"

record FridayCustomClassificationRule =
  rule_id :: string
  rule_name :: string
  errorCodePattern :: "string option"
  errorMessagePattern :: "string option"
  rule_httpStatusCode :: "int option"
  rule_category :: FridayFailureCategory
  rule_severity :: FridayFailureSeverity
  rule_priority :: int

section \<open>Strategies\<close>

datatype FridayRetryStrategyType =
  St_Exponential | St_Linear | St_Fixed | St_Immediate | St_Custom | St_None

fun strategy_name :: "FridayRetryStrategyType \<Rightarrow> string" where
  "strategy_name St_Exponential = ''exponential''"
| "strategy_name St_Linear = ''linear''"
| "strategy_name St_Fixed = ''fixed''"
| "strategy_name St_Immediate = ''immediate''"
| "strategy_name St_Custom = ''custom''"
| "strategy_name St_None = ''none''"

record FridayRetryStrategyBase =
  failureCategory :: FridayFailureCategory
  maxAttempts :: int
  respectRetryAfter :: bool
  timeoutMultiplier :: rat
  escalate :: bool
  escalateOnExhaustion :: bool
  escalationChannel :: "string option"

record FridayRetryBackoff =
  baseDelayMs :: rat
  maxDelayMs :: rat
  jitterPercent :: rat

text \<open>The discriminated union on the field \<open>strategy\<close>.\<close>

datatype FridayRetryStrategy =
    Exponential (str_base: FridayRetryStrategyBase) FridayRetryBackoff
  | Linear (str_base: FridayRetryStrategyBase) FridayRetryBackoff
  | Fixed (str_base: FridayRetryStrategyBase) FridayRetryBackoff
  | Immediate (str_base: FridayRetryStrategyBase)
  | Custom (str_base: FridayRetryStrategyBase) "rat option" "rat option" "rat option" string
  | NoneStrategy (str_base: FridayRetryStrategyBase)

fun strategy_type :: "FridayRetryStrategy \<Rightarrow> FridayRetryStrategyType" where
  "strategy_type (Exponential _ _) = St_Exponential"
| "strategy_type (Linear _ _) = St_Linear"
| "strategy_type (Fixed _ _) = St_Fixed"
| "strategy_type (Immediate _) = St_Immediate"
| "strategy_type (Custom _ _ _ _ _) = St_Custom"
| "strategy_type (NoneStrategy _) = St_None"

section \<open>Cost accounting\<close>

record FridayRetryCostDimensions =
  tokens :: int
  apiCalls :: int
  computeMs :: int

record FridayRetryCostBudget =
  maxTotalTokens :: int
  maxTotalApiCalls :: int
  maxTotalComputeMs :: int
  maxCostPerAttempt :: "FridayRetryCostDimensions option"

definition ZERO_COST :: FridayRetryCostDimensions where
  "ZERO_COST = \<lparr>tokens = 0, apiCalls = 0, computeMs = 0\<rparr>"

definition addCosts ::
    "FridayRetryCostDimensions \<Rightarrow> FridayRetryCostDimensions \<Rightarrow> FridayRetryCostDimensions" where
  "addCosts a b =
     \<lparr>tokens = tokens a + tokens b, apiCalls = apiCalls a + apiCalls b,
      computeMs = computeMs a + computeMs b\<rparr>"

section \<open>Policies, decisions, contexts\<close>

record FridayRetryPolicy =
  pol_id :: UUID
  pol_name :: string
  pol_description :: "string option"
  pol_version :: int
  pol_priority :: int
  pol_enabled :: bool
  pol_tags :: "string list"
  pol_costBudget :: FridayRetryCostBudget
  pol_strategies :: "FridayRetryStrategy list"
  pol_etag :: string
  pol_createdAt :: ISODateTime
  pol_updatedAt :: ISODateTime
  pol_deletedAt :: "ISODateTime option"

datatype FridayRetryAttemptOutcome =
  Success | Failure | Timed_Out | Cancelled | Budget_Exceeded | Rules_Denied

datatype FridayRetryTraceStatus =
  In_Progress | Resolved | Exhausted | Escalated | Trace_Cancelled | Trace_Budget_Exceeded

record FridayRetryDecision =
  shouldRetry :: bool
  nextAttemptNumber :: int
  delayMs :: rat
  reason :: string
  dec_failureCategory :: FridayFailureCategory
  strategyType :: FridayRetryStrategyType
  rulesOverride :: bool
  budgetConstrained :: bool
  dec_escalate :: bool
  dec_escalationChannel :: "string option"
  nextTimeoutMs :: "int option"
  idempotencyKey :: string
  decidedAt :: ISODateTime

record FridayNodeRetryPolicy =
  np_maxAttempts :: int
  np_backoff :: FridayRetryBackoffStrategy
  np_baseDelayMs :: rat
  np_maxDelayMs :: rat
  np_retryOn :: "string list"

record FridayRetryDecisionContext =
  ctx_runId :: UUID
  ctx_workflowId :: UUID
  ctx_nodeId :: string
  currentAttemptNumber :: int
  nodeRetryPolicy :: "FridayNodeRetryPolicy option"
  retryPolicyId :: "UUID option"
  accumulatedCost :: FridayRetryCostDimensions
  currentAttemptCost :: "FridayRetryCostDimensions option"
  costBudget :: FridayRetryCostBudget

section \<open>Lemmas\<close>

lemma addCosts_sel [simp]:
  "tokens (addCosts a b) = tokens a + tokens b"
  "apiCalls (addCosts a b) = apiCalls a + apiCalls b"
  "computeMs (addCosts a b) = computeMs a + computeMs b"
  by (simp_all add: addCosts_def)

lemma addCosts_assoc: "addCosts (addCosts a b) c = addCosts a (addCosts b c)"
  by (simp add: addCosts_def)

lemma addCosts_ZERO [simp]: "addCosts a ZERO_COST = a" "addCosts ZERO_COST a = a"
  by (simp_all add: addCosts_def ZERO_COST_def)

lemma category_name_no_b: "CHR ''b'' \<notin> set (category_name c)"
  by (cases c) auto

end
