(* ===== verification/Retry_Strategy.thy ===== *)
theory Retry_Strategy
  imports Retry_Model
begin

text \<open>
  The retry strategy engine of src/src/retry/engine/retry-strategy-engine.ts and the two
  built-in policies (friday-default-retry-policy.ts, production-retry-bridge.ts). The random
  source of the jitter and the timestamp are arguments of the decision.
\<close>

section \<open>Delay computation\<close>

fun computeRawDelay :: "FridayRetryStrategy \<Rightarrow> int \<Rightarrow> rat" where
  "computeRawDelay (Exponential _ b) attemptNumber =
     min (baseDelayMs b * 2 powi (attemptNumber - 1)) (maxDelayMs b)"
| "computeRawDelay (Linear _ b) attemptNumber =
     min (baseDelayMs b * of_int attemptNumber) (maxDelayMs b)"
| "computeRawDelay (Fixed _ b) attemptNumber = min (baseDelayMs b) (maxDelayMs b)"
| "computeRawDelay (Immediate _) attemptNumber = 0"
| "computeRawDelay (Custom _ base_delay max_delay _ _) attemptNumber =
     (let base = case_option 0 id base_delay; max = case_option base id max_delay
      in min base max)"
| "computeRawDelay (NoneStrategy _) attemptNumber = 0"

definition applyJitter :: "rat \<Rightarrow> rat \<Rightarrow> rat \<Rightarrow> rat" where
  "applyJitter delay jitter random =
     (if jitter \<le> 0 \<or> delay \<le> 0 then delay
      else
        let jitterFraction = jitter / 100;
            jitterMultiplier = (random * 2 - 1) * jitterFraction
        in of_int (max 0 (js_round (delay * (1 + jitterMultiplier)))))"

fun getJitterPercent :: "FridayRetryStrategy \<Rightarrow> rat" where
  "getJitterPercent (Exponential _ b) = jitterPercent b"
| "getJitterPercent (Linear _ b) = jitterPercent b"
| "getJitterPercent (Fixed _ b) = jitterPercent b"
| "getJitterPercent (Custom _ _ _ j _) = case_option 0 id j"
| "getJitterPercent (Immediate _) = 0"
| "getJitterPercent (NoneStrategy _) = 0"

definition computeDelay :: "FridayRetryStrategy \<Rightarrow> int \<Rightarrow> rat \<Rightarrow> rat" where
  "computeDelay strategy attemptNumber random =
     applyJitter (computeRawDelay strategy attemptNumber) (getJitterPercent strategy) random"

section \<open>Strategy resolution and budget checks\<close>

definition findStrategyForCategory ::
    "FridayRetryStrategy list \<Rightarrow> FridayFailureCategory \<Rightarrow> FridayRetryStrategy option" where
  "findStrategyForCategory strategies category =
     find (\<lambda>s. failureCategory (str_base s) = category) strategies"

definition isWithinBudget :: "FridayRetryCostDimensions \<Rightarrow> FridayRetryCostBudget \<Rightarrow> bool" where
  "isWithinBudget accumulated budget \<longleftrightarrow>
     tokens accumulated \<le> maxTotalTokens budget \<and>
     apiCalls accumulated \<le> maxTotalApiCalls budget \<and>
     computeMs accumulated \<le> maxTotalComputeMs budget"

definition isWithinPerAttemptBudget ::
    "FridayRetryCostDimensions \<Rightarrow> FridayRetryCostDimensions \<Rightarrow> bool" where
  "isWithinPerAttemptBudget attemptCost perAttemptBudget \<longleftrightarrow>
     tokens attemptCost \<le> tokens perAttemptBudget \<and>
     apiCalls attemptCost \<le> apiCalls perAttemptBudget \<and>
     computeMs attemptCost \<le> computeMs perAttemptBudget"

section \<open>Decisions\<close>

definition retry_key :: "FridayRetryDecisionContext \<Rightarrow> int \<Rightarrow> string" where
  "retry_key ctx n =
     ''retry:'' @ ctx_runId ctx @ '':'' @ ctx_nodeId ctx @ '':'' @ show_int n"

definition createNoRetryDecision ::
    "FridayClassifiedFailure \<Rightarrow> FridayRetryDecisionContext \<Rightarrow> FridayRetryStrategyType \<Rightarrow> string
     \<Rightarrow> bool \<Rightarrow> ISODateTime \<Rightarrow> string option \<Rightarrow> FridayRetryDecision" where
  "createNoRetryDecision failure ctx ty why esc now channel =
     \<lparr>shouldRetry = False,
      nextAttemptNumber = currentAttemptNumber ctx,
      delayMs = 0,
      reason = why,
      dec_failureCategory = cf_category failure,
      strategyType = ty,
      rulesOverride = False,
      budgetConstrained = str_includes why ''budget'',
      dec_escalate = esc,
      dec_escalationChannel =
        (case channel of Some c \<Rightarrow> Some c | None \<Rightarrow> if esc then Some ''operator'' else None),
      nextTimeoutMs = None,
      idempotencyKey = retry_key ctx (currentAttemptNumber ctx) @ '':no-retry'',
      decidedAt = now\<rparr>"

definition buildRetryDecision ::
    "FridayClassifiedFailure \<Rightarrow> FridayRetryDecisionContext \<Rightarrow> FridayRetryStrategy list
     \<Rightarrow> ISODateTime \<Rightarrow> rat \<Rightarrow> FridayRetryDecision" where
  "buildRetryDecision failure ctx strategies now random =
     (let category = cf_category failure in
      case findStrategyForCategory strategies category of
        None \<Rightarrow>
          createNoRetryDecision failure ctx St_None
            ''No retry strategy defined for failure category'' True now None
      | Some strategy \<Rightarrow>
          let base = str_base strategy in
          if strategy_type strategy = St_None then
            createNoRetryDecision failure ctx St_None
              (''Failure category '' @ [CHR 0x27] @ category_name category @
               [CHR 0x27] @ '' is configured to escalate immediately'')
              True now (escalationChannel base)
          else if currentAttemptNumber ctx \<ge> maxAttempts base then
            createNoRetryDecision failure ctx (strategy_type strategy)
              (''Retry attempts exhausted ('' @ show_int (currentAttemptNumber ctx) @ ''/'' @
               show_int (maxAttempts base) @ '')'')
              (escalateOnExhaustion base) now (escalationChannel base)
          else
            let attemptCost = case_option ZERO_COST id (currentAttemptCost ctx) in
            if (case maxCostPerAttempt (costBudget ctx) of
                  Some perAttempt \<Rightarrow> \<not> isWithinPerAttemptBudget attemptCost perAttempt
                | None \<Rightarrow> False) then
              createNoRetryDecision failure ctx (strategy_type strategy)
                ''Per-attempt retry cost budget exceeded'' True now (escalationChannel base)
            else if \<not> isWithinBudget (addCosts (accumulatedCost ctx) attemptCost) (costBudget ctx) then
              createNoRetryDecision failure ctx (strategy_type strategy)
                ''Retry cost budget exceeded'' True now (escalationChannel base)
            else
              let nextAttempt = currentAttemptNumber ctx + 1;
                  delay = computeDelay strategy nextAttempt random;
                  delay' = (case (respectRetryAfter base, cf_retryAfterMs failure) of
                              (True, Some after) \<Rightarrow> max delay after
                            | _ \<Rightarrow> delay);
                  timeout = (if timeoutMultiplier base > 1
                             then Some (js_round
                               ((case nodeRetryPolicy ctx of
                                   Some p \<Rightarrow> np_maxDelayMs p | None \<Rightarrow> 30000) * timeoutMultiplier base))
                             else None)
              in \<lparr>shouldRetry = True,
                  nextAttemptNumber = nextAttempt,
                  delayMs = delay',
                  reason = ''Retrying '' @ [CHR 0x27] @ category_name category @ [CHR 0x27] @
                    '' failure with '' @
                    strategy_name (strategy_type strategy) @ '' strategy (attempt '' @
                    show_int nextAttempt @ ''/'' @ show_int (maxAttempts base) @ '')'',
                  dec_failureCategory = category,
                  strategyType = strategy_type strategy,
                  rulesOverride = False,
                  budgetConstrained = False,
                  dec_escalate = False,
                  dec_escalationChannel = None,
                  nextTimeoutMs = timeout,
                  idempotencyKey = retry_key ctx nextAttempt,
                  decidedAt = now\<rparr>)"

section \<open>Built-in policies\<close>

definition strategy_base ::
    "FridayFailureCategory \<Rightarrow> int \<Rightarrow> bool \<Rightarrow> rat \<Rightarrow> bool \<Rightarrow> bool \<Rightarrow> string option
     \<Rightarrow> FridayRetryStrategyBase" where
  "strategy_base c n ra tm e ee ch =
     \<lparr>failureCategory = c, maxAttempts = n, respectRetryAfter = ra, timeoutMultiplier = tm,
      escalate = e, escalateOnExhaustion = ee, escalationChannel = ch\<rparr>"

definition backoff_of :: "rat \<Rightarrow> rat \<Rightarrow> rat \<Rightarrow> FridayRetryBackoff" where
  "backoff_of b m j = \<lparr>baseDelayMs = b, maxDelayMs = m, jitterPercent = j\<rparr>"

definition buildDefaultRetryStrategies :: "FridayRetryStrategy list" where
  "buildDefaultRetryStrategies =
     [Exponential (strategy_base Rate_Limit 5 True 1 False True (Some ''operator''))
        (backoff_of 1000 60000 25),
      Exponential (strategy_base Timeout 3 False (3 / 2) False True (Some ''operator''))
        (backoff_of 1500 30000 20),
      Exponential (strategy_base Transient 3 False 1 False True (Some ''developer''))
        (backoff_of 500 15000 30),
      Linear (strategy_base Resource 2 False 1 False True (Some ''operator''))
        (backoff_of 5000 30000 10),
      NoneStrategy (strategy_base Auth 0 False 1 True False (Some ''operator'')),
      NoneStrategy (strategy_base Logic 0 False 1 False False None),
      Fixed (strategy_base Unknown 1 False 1 False True (Some ''developer''))
        (backoff_of 1000 5000 50)]"

definition DEFAULT_PRODUCTION_STRATEGIES :: "FridayRetryStrategy list" where
  "DEFAULT_PRODUCTION_STRATEGIES =
     [Exponential (strategy_base Rate_Limit 5 True 1 False True (Some ''operator''))
        (backoff_of 1000 60000 25),
      Exponential (strategy_base Timeout 2 False (3 / 2) False True (Some ''operator''))
        (backoff_of 2000 30000 20),
      Exponential (strategy_base Transient 3 False 1 False True (Some ''developer''))
        (backoff_of 500 15000 30),
      Linear (strategy_base Resource 2 False 1 False True (Some ''operator''))
        (backoff_of 5000 30000 10),
      NoneStrategy (strategy_base Auth 0 False 1 True False None),
      NoneStrategy (strategy_base Logic 0 False 1 False False None),
      Fixed (strategy_base Unknown 1 False 1 False True (Some ''developer''))
        (backoff_of 1000 5000 50)]"

definition DEFAULT_PRODUCTION_COST_BUDGET :: FridayRetryCostBudget where
  "DEFAULT_PRODUCTION_COST_BUDGET =
     \<lparr>maxTotalTokens = 100000, maxTotalApiCalls = 50, maxTotalComputeMs = 300000,
      maxCostPerAttempt = None\<rparr>"

definition buildDefaultRetryPolicy :: "ISODateTime \<Rightarrow> string \<Rightarrow> FridayRetryPolicy" where
  "buildDefaultRetryPolicy nowIso etag =
     \<lparr>pol_id = ''default-unified-retry-policy-v1'',
      pol_name = ''Default Unified Retry Policy'',
      pol_description =
        Some ''Stable retry defaults for workflow execution and acceptance-quality flows.'',
      pol_version = 1,
      pol_priority = 100,
      pol_enabled = True,
      pol_tags = [''built-in'', ''default''],
      pol_costBudget =
        \<lparr>maxTotalTokens = 100000, maxTotalApiCalls = 50, maxTotalComputeMs = 300000,
         maxCostPerAttempt = None\<rparr>,
      pol_strategies = buildDefaultRetryStrategies,
      pol_etag = etag,
      pol_createdAt = nowIso,
      pol_updatedAt = nowIso,
      pol_deletedAt = None\<rparr>"

text \<open>The back-off parameters of the three delaying variants, for stating bounds.\<close>

fun strategy_backoff :: "FridayRetryStrategy \<Rightarrow> FridayRetryBackoff option" where
  "strategy_backoff (Exponential _ b) = Some b"
| "strategy_backoff (Linear _ b) = Some b"
| "strategy_backoff (Fixed _ b) = Some b"
| "strategy_backoff _ = None"

text \<open>When a retry is granted: the conjunction of the guards of \<open>buildRetryDecision\<close>.\<close>

definition retry_permitted ::
    "FridayClassifiedFailure \<Rightarrow> FridayRetryDecisionContext \<Rightarrow> FridayRetryStrategy \<Rightarrow> bool" where
  "retry_permitted failure ctx s \<longleftrightarrow>
     (let cost = case_option ZERO_COST id (currentAttemptCost ctx) in
      strategy_type s \<noteq> St_None \<and>
      currentAttemptNumber ctx < maxAttempts (str_base s) \<and>
      pred_option (isWithinPerAttemptBudget cost) (maxCostPerAttempt (costBudget ctx)) \<and>
      isWithinBudget (addCosts (accumulatedCost ctx) cost) (costBudget ctx))"

text \<open>The number of executions each category may reach under the default policy.\<close>

fun default_execution_limit :: "FridayFailureCategory \<Rightarrow> int" where
  "default_execution_limit Rate_Limit = 5"
| "default_execution_limit Timeout = 3"
| "default_execution_limit Transient = 3"
| "default_execution_limit Resource = 2"
| "default_execution_limit Unknown = 1"
| "default_execution_limit Auth = 0"
| "default_execution_limit Logic = 0"

text \<open>A concrete failure and context, used by the witnesses.\<close>

definition sample_failure :: "FridayFailureCategory \<Rightarrow> rat option \<Rightarrow> FridayClassifiedFailure" where
  "sample_failure c after =
     \<lparr>classificationId = ''c-1'', cf_category = c, cf_severity = Minor,
      classificationSource = Http_Status, cf_confidence = 90, originalErrorCode = None,
      originalErrorMessage = None, cf_httpStatusCode = Some 429, cf_retryAfterMs = after,
      cf_retryHint = None, cf_retryable = True, classifiedAt = ''t0''\<rparr>"

definition sample_context :: "int \<Rightarrow> FridayRetryDecisionContext" where
  "sample_context n =
     \<lparr>ctx_runId = ''run'', ctx_workflowId = ''wf'', ctx_nodeId = ''node'',
      currentAttemptNumber = n, nodeRetryPolicy = None, retryPolicyId = None,
      accumulatedCost = ZERO_COST, currentAttemptCost = None,
      costBudget = DEFAULT_PRODUCTION_COST_BUDGET\<rparr>"

section \<open>Lemmas\<close>

lemma applyJitter_nonneg: "0 \<le> d \<Longrightarrow> 0 \<le> applyJitter d j r"
  by (simp add: applyJitter_def Let_def)

lemma js_round_bounds: "x - 1 / 2 < of_int (js_round x)" "of_int (js_round x) \<le> x + 1 / 2"
  unfolding js_round_def by linarith+

lemma jitter_multiplier_bounds:
  fixes r j :: rat
  assumes "0 \<le> r" "r < 1" "0 < j"
  shows "- (j / 100) \<le> (r * 2 - 1) * (j / 100)" "(r * 2 - 1) * (j / 100) \<le> j / 100"
proof -
  have f: "0 \<le> j / 100" using assms(3) by simp
  have "(- 1) * (j / 100) \<le> (r * 2 - 1) * (j / 100)"
    using assms(1) f by (intro mult_right_mono) auto
  then show "- (j / 100) \<le> (r * 2 - 1) * (j / 100)" by simp
  have "(r * 2 - 1) * (j / 100) \<le> 1 * (j / 100)"
    using assms(2) f by (intro mult_right_mono) auto
  then show "(r * 2 - 1) * (j / 100) \<le> j / 100" by simp
qed

lemma applyJitter_bounds:
  assumes "0 \<le> r" "r < 1" "0 \<le> j" "0 \<le> d"
  shows "applyJitter d j r \<le> d * (1 + j / 100) + 1 / 2"
    and "d * (1 - j / 100) - 1 / 2 \<le> applyJitter d j r"
proof -
  have "applyJitter d j r \<le> d * (1 + j / 100) + 1 / 2 \<and> d * (1 - j / 100) - 1 / 2 \<le> applyJitter d j r"
  proof (cases "j \<le> 0 \<or> d \<le> 0")
    case True
    with assms show ?thesis by (auto simp: applyJitter_def)
  next
    case False
    let ?m = "(r * 2 - 1) * (j / 100)"
    have up: "d * (1 + ?m) \<le> d * (1 + j / 100)" and lo: "d * (1 - j / 100) \<le> d * (1 + ?m)"
      using jitter_multiplier_bounds [of r j] assms False by (auto intro!: mult_left_mono)
    have nn: "0 \<le> d * (1 + j / 100)"
      using False assms by simp
    define k where "k = js_round (d * (1 + ?m))"
    have k: "d * (1 + ?m) - 1 / 2 < of_int k" "of_int k \<le> d * (1 + ?m) + 1 / 2"
      unfolding k_def by (rule js_round_bounds)+
    have eq: "applyJitter d j r = of_int (max 0 k)"
      using False by (simp add: applyJitter_def k_def)
    have "d * (1 - j / 100) - 1 / 2 < of_int k" "of_int k \<le> d * (1 + j / 100) + 1 / 2"
      "0 \<le> d * (1 + j / 100) + 1 / 2"
      using up lo nn k by linarith+
    then show ?thesis
      unfolding eq of_int_max of_int_0 by (simp add: less_max_iff_disj le_max_iff_disj less_imp_le)
  qed
  then show "applyJitter d j r \<le> d * (1 + j / 100) + 1 / 2"
    and "d * (1 - j / 100) - 1 / 2 \<le> applyJitter d j r" by auto
qed

lemma strategy_backoff_jitter: "strategy_backoff s = Some b \<Longrightarrow> getJitterPercent s = jitterPercent b"
  by (cases s) auto

lemma computeRawDelay_bounds:
  assumes "strategy_backoff s = Some b" "0 \<le> baseDelayMs b" "0 \<le> maxDelayMs b" "1 \<le> n"
  shows "0 \<le> computeRawDelay s n" "computeRawDelay s n \<le> maxDelayMs b"
  using assms by (cases s; auto)+

lemma createNoRetryDecision_sel [simp]:
  "shouldRetry (createNoRetryDecision f c t w e n ch) = False"
  "budgetConstrained (createNoRetryDecision f c t w e n ch) = str_includes w ''budget''"
  "dec_escalate (createNoRetryDecision f c t w e n ch) = e"
  "delayMs (createNoRetryDecision f c t w e n ch) = 0"
  "nextAttemptNumber (createNoRetryDecision f c t w e n ch) = currentAttemptNumber c"
  "reason (createNoRetryDecision f c t w e n ch) = w"
  "idempotencyKey (createNoRetryDecision f c t w e n ch) =
     retry_key c (currentAttemptNumber c) @ '':no-retry''"
  "dec_escalationChannel (createNoRetryDecision f c t w e n ch) =
     (case ch of Some c \<Rightarrow> Some c | None \<Rightarrow> if e then Some ''operator'' else None)"
  by (simp_all add: createNoRetryDecision_def)

lemma retry_decision_iff:
  "shouldRetry (buildRetryDecision failure ctx strategies now random) \<longleftrightarrow>
     (\<exists>s. findStrategyForCategory strategies (cf_category failure) = Some s \<and>
          retry_permitted failure ctx s)"
  by (auto simp: buildRetryDecision_def retry_permitted_def Let_def split: option.splits)

lemma budget_reason_cases:
  "\<not> str_includes ''No retry strategy defined for failure category'' ''budget''"
  "\<not> str_includes (''Failure category '' @ [CHR 0x27] @ category_name c @
      [CHR 0x27] @ '' is configured to escalate immediately'') ''budget''"
  "\<not> str_includes (''Retry attempts exhausted ('' @ show_int m @ ''/'' @ show_int n @ '')'') ''budget''"
  "str_includes ''Per-attempt retry cost budget exceeded'' ''budget''"
  "str_includes ''Retry cost budget exceeded'' ''budget''"
proof -
  show "\<not> str_includes ''No retry strategy defined for failure category'' ''budget''"
    by simp
  show "\<not> str_includes (''Failure category '' @ [CHR 0x27] @ category_name c @
      [CHR 0x27] @ '' is configured to escalate immediately'') ''budget''"
    by (rule str_includes_missing_char [where c = "CHR ''b''"]) (simp_all add: category_name_no_b)
  show "\<not> str_includes (''Retry attempts exhausted ('' @ show_int m @ ''/'' @ show_int n @ '')'') ''budget''"
    by (rule str_includes_missing_char [where c = "CHR ''b''"]) (simp_all add: letter_b_not_digit)
  show "str_includes ''Per-attempt retry cost budget exceeded'' ''budget''"
    and "str_includes ''Retry cost budget exceeded'' ''budget''"
    by simp_all
qed

lemma find_default_strategy:
  "\<exists>s. findStrategyForCategory buildDefaultRetryStrategies c = Some s \<and>
       (strategy_type s = St_None \<longleftrightarrow> c \<in> {Auth, Logic}) \<and>
       maxAttempts (str_base s) = default_execution_limit c"
  by (cases c) (simp_all add: findStrategyForCategory_def buildDefaultRetryStrategies_def
      strategy_base_def)

lemma retry_key_inj:
  "retry_key c m = retry_key c n \<Longrightarrow> m = n"
  by (simp add: retry_key_def show_int_inj)

lemma retry_key_no_retry: "retry_key c m \<noteq> retry_key c n @ '':no-retry''"
proof
  assume "retry_key c m = retry_key c n @ '':no-retry''"
  then have "show_int m = show_int n @ '':no-retry''"
    by (simp add: retry_key_def)
  then have "CHR '':'' \<in> set (show_int m)" by simp
  then show False by (simp add: show_int_no_colon)
qed

section \<open>Properties\<close>

text \<open>
  A retry is granted exactly when the policy has a strategy for the failure's category,
  the first such strategy is not \<open>none\<close>, the attempts made are below its maximum, the attempt's
  cost is within the per-attempt limit (if any), and the cost accumulated including this
  attempt is within the total budget.
\<close>

theorem retry_granted_iff:
  "shouldRetry (buildRetryDecision failure ctx strategies now random) =
     (case findStrategyForCategory strategies (cf_category failure) of
        None \<Rightarrow> False
      | Some s \<Rightarrow> retry_permitted failure ctx s)"
  by (simp add: retry_decision_iff split: option.split)

text \<open>
  The delay of a backing-off strategy is never negative and stays within the jitter band
  around the raw delay, which is capped by \<open>maxDelayMs\<close>: with jitter \<open>j\<close> percent it is at most
  \<open>maxDelayMs * (1 + j/100) + 1/2\<close> (the jitter is applied after the cap).
\<close>

theorem compute_delay_bounds:
  assumes "strategy_backoff s = Some b" and "0 \<le> baseDelayMs b" and "0 \<le> maxDelayMs b"
    and "0 \<le> jitterPercent b" and "1 \<le> n" and "0 \<le> r" and "r < 1"
  shows "0 \<le> computeDelay s n r \<and>
    computeRawDelay s n * (1 - jitterPercent b / 100) - 1 / 2 \<le> computeDelay s n r \<and>
    computeDelay s n r \<le> computeRawDelay s n * (1 + jitterPercent b / 100) + 1 / 2 \<and>
    computeDelay s n r \<le> maxDelayMs b * (1 + jitterPercent b / 100) + 1 / 2"
proof -
  let ?d = "computeRawDelay s n" and ?j = "jitterPercent b"
  have d: "0 \<le> ?d" "?d \<le> maxDelayMs b"
    using assms(1-3,5) by (rule computeRawDelay_bounds)+
  have eq: "computeDelay s n r = applyJitter ?d ?j r"
    by (simp add: computeDelay_def strategy_backoff_jitter [OF assms(1)])
  have "?d * (1 + ?j / 100) \<le> maxDelayMs b * (1 + ?j / 100)"
    using d(2) assms(4) by (intro mult_right_mono) auto
  then show ?thesis
    using applyJitter_bounds [OF assms(6,7,4) d(1)] applyJitter_nonneg [OF d(1), of ?j r]
    unfolding eq by (intro conjI) linarith+
qed

theorem compute_delay_bounds_witness:
  "computeDelay (Exponential (strategy_base Transient 3 False 1 False True None)
      (backoff_of 500 15000 30)) 3 (3 / 4) = 2300 \<and>
   computeDelay (Exponential (strategy_base Transient 3 False 1 False True None)
      (backoff_of 500 15000 30)) 3 (3 / 4) \<le> 15000 * (1 + 30 / 100) + 1 / 2"
  using compute_delay_bounds [of "Exponential (strategy_base Transient 3 False 1 False True None)
      (backoff_of 500 15000 30)" "backoff_of 500 15000 30" 3 "3 / 4"]
  by (simp add: backoff_of_def computeDelay_def applyJitter_def js_round_def Let_def power_int_def
      floor_eq_iff)

text \<open>
  When the strategy respects \<open>Retry-After\<close> and the failure carries one, a granted retry
  never waits less than it.
\<close>

theorem retry_after_respected:
  assumes "shouldRetry (buildRetryDecision failure ctx strategies now random)"
    and "findStrategyForCategory strategies (cf_category failure) = Some s"
    and "respectRetryAfter (str_base s)" and "cf_retryAfterMs failure = Some after"
  shows "after \<le> delayMs (buildRetryDecision failure ctx strategies now random)"
  using assms by (auto simp: buildRetryDecision_def Let_def split: option.splits if_splits)

theorem retry_after_respected_witness:
  "9000 \<le> delayMs (buildRetryDecision (sample_failure Rate_Limit (Some 9000)) (sample_context 1)
      buildDefaultRetryStrategies ''now'' (1 / 2))"
proof (rule retry_after_respected)
  show "findStrategyForCategory buildDefaultRetryStrategies
      (cf_category (sample_failure Rate_Limit (Some 9000))) = Some (hd buildDefaultRetryStrategies)"
    by (simp add: findStrategyForCategory_def buildDefaultRetryStrategies_def strategy_base_def
        sample_failure_def)
  then show "shouldRetry (buildRetryDecision (sample_failure Rate_Limit (Some 9000))
      (sample_context 1) buildDefaultRetryStrategies ''now'' (1 / 2))"
    by (simp add: retry_decision_iff retry_permitted_def sample_context_def buildDefaultRetryStrategies_def
        strategy_base_def isWithinBudget_def ZERO_COST_def DEFAULT_PRODUCTION_COST_BUDGET_def)
qed (simp_all add: buildDefaultRetryStrategies_def strategy_base_def sample_failure_def)

text \<open>
  A refusal never schedules anything (no delay, same attempt number, a key of its own) and
  an escalating refusal always names a channel; it is marked budget-constrained exactly when
  one of the two cost limits refused it.
\<close>

theorem no_retry_shape:
  "let d = buildRetryDecision failure ctx strategies now random in
   shouldRetry d \<or>
   (delayMs d = 0 \<and> nextAttemptNumber d = currentAttemptNumber ctx \<and>
    (if dec_escalate d then dec_escalationChannel d \<noteq> None else True) \<and>
    (budgetConstrained d =
       (reason d \<in> {''Per-attempt retry cost budget exceeded'', ''Retry cost budget exceeded''})))"
proof -
  have ne: "''Retry attempts exhausted ('' @ x \<noteq> ''Retry cost budget exceeded''"
    "''Failure category '' @ x \<noteq> ''Retry cost budget exceeded''"
    "''Retry attempts exhausted ('' @ x \<noteq> ''Per-attempt retry cost budget exceeded''"
    "''Failure category '' @ x \<noteq> ''Per-attempt retry cost budget exceeded''" for x
    by simp_all
  show ?thesis
    unfolding Let_def buildRetryDecision_def
    using budget_reason_cases ne by (auto split: option.splits)
qed

text \<open>
  Idempotency keys of one run and node never collide: two decisions for the same run and
  node have the same key only if both grant or both refuse, for the same attempt.
\<close>

theorem idempotency_key_unique:
  assumes "ctx_runId ctx' = ctx_runId ctx" and "ctx_nodeId ctx' = ctx_nodeId ctx"
    and "idempotencyKey (buildRetryDecision f ctx ss now r) =
         idempotencyKey (buildRetryDecision f' ctx' ss' now' r')"
  shows "shouldRetry (buildRetryDecision f ctx ss now r) =
           shouldRetry (buildRetryDecision f' ctx' ss' now' r') \<and>
         currentAttemptNumber ctx = currentAttemptNumber ctx'"
proof -
  have key: "idempotencyKey (buildRetryDecision g c ss now r) =
      (if shouldRetry (buildRetryDecision g c ss now r) then retry_key c (currentAttemptNumber c + 1)
       else retry_key c (currentAttemptNumber c) @ '':no-retry'')" for g c ss now r
    by (auto simp: buildRetryDecision_def Let_def split: option.splits)
  have same: "retry_key ctx' n = retry_key ctx n" for n
    using assms(1,2) by (simp add: retry_key_def)
  show ?thesis
    using assms(3) retry_key_no_retry retry_key_no_retry [symmetric]
    unfolding key same by (auto dest: retry_key_inj split: if_splits)
qed

theorem idempotency_key_unique_witness:
  "currentAttemptNumber (sample_context 2) = currentAttemptNumber (sample_context 2) \<and>
   shouldRetry (buildRetryDecision (sample_failure Transient None) (sample_context 2)
       buildDefaultRetryStrategies ''t1'' 0) =
   shouldRetry (buildRetryDecision (sample_failure Transient None) (sample_context 2)
       buildDefaultRetryStrategies ''t2'' (1 / 3))"
  using idempotency_key_unique [of "sample_context 2" "sample_context 2"
      "sample_failure Transient None" buildDefaultRetryStrategies "''t1''" 0
      "sample_failure Transient None" buildDefaultRetryStrategies "''t2''" "1 / 3"]
  by (simp add: buildRetryDecision_def Let_def createNoRetryDecision_def split: option.splits)

text \<open>
  Under the default policy, while costs stay in budget, a failed execution is retried
  exactly while the number of executions so far is below the category's \<open>maxAttempts\<close>:
  \<open>maxAttempts\<close> counts executions, so an \<open>unknown\<close> failure is never retried, and \<open>auth\<close> and
  \<open>logic\<close> failures never are.
\<close>

theorem default_policy_limits:
  assumes "0 \<le> currentAttemptNumber ctx" and "maxCostPerAttempt (costBudget ctx) = None"
    and "isWithinBudget (addCosts (accumulatedCost ctx)
           (case_option ZERO_COST id (currentAttemptCost ctx))) (costBudget ctx)"
  shows "shouldRetry (buildRetryDecision failure ctx buildDefaultRetryStrategies now random) =
    (currentAttemptNumber ctx < default_execution_limit (cf_category failure))"
proof -
  obtain s where s: "findStrategyForCategory buildDefaultRetryStrategies (cf_category failure) = Some s"
    "strategy_type s = St_None \<longleftrightarrow> cf_category failure \<in> {Auth, Logic}"
    "maxAttempts (str_base s) = default_execution_limit (cf_category failure)"
    using find_default_strategy by blast
  show ?thesis
    unfolding retry_decision_iff using s assms
    by (cases "cf_category failure") (auto simp: retry_permitted_def)
qed

theorem default_policy_limits_witness:
  "\<not> shouldRetry (buildRetryDecision (sample_failure Unknown None) (sample_context 1)
       buildDefaultRetryStrategies ''now'' 0) \<and>
   shouldRetry (buildRetryDecision (sample_failure Transient None) (sample_context 2)
       buildDefaultRetryStrategies ''now'' 0)"
  using default_policy_limits [of "sample_context 1" "sample_failure Unknown None" "''now''" 0]
    default_policy_limits [of "sample_context 2" "sample_failure Transient None" "''now''" 0]
  by (simp add: sample_context_def sample_failure_def isWithinBudget_def ZERO_COST_def
      DEFAULT_PRODUCTION_COST_BUDGET_def)

text \<open>
  The default policy and the production bridge's table are not the same policy: they
  differ on timeouts (attempts and base delay) and on the escalation channel of \<open>auth\<close>.
\<close>

theorem production_strategies_differ:
  "findStrategyForCategory buildDefaultRetryStrategies c =
     findStrategyForCategory DEFAULT_PRODUCTION_STRATEGIES c \<longleftrightarrow> c \<notin> {Timeout, Auth}"
  by (cases c) (simp_all add: findStrategyForCategory_def buildDefaultRetryStrategies_def
      DEFAULT_PRODUCTION_STRATEGIES_def strategy_base_def backoff_of_def)

end
