(* ===== verification/Retry_Context.thy ===== *)
theory Retry_Context
  imports Retry_Strategy
begin

text \<open>
  The retry context tracker of src/src/retry/engine/retry-context.ts: one context per
  (run, node) with its attempts, accumulated cost and lifecycle. The code mutates a context in
  place and may throw after part of a mutation, so every operation returns its outcome together
  with the tracker it leaves behind. Snapshots handed out are clones, hence plain values.
  Each reading of \<open>nowIso()\<close> is an argument.
\<close>

section \<open>Data\<close>

datatype RetryLifecycleState = L_Pending | L_Retrying | L_Exhausted | L_Escalated | L_Recovered

fun lifecycle_name :: "RetryLifecycleState \<Rightarrow> string" where
  "lifecycle_name L_Pending = ''pending''"
| "lifecycle_name L_Retrying = ''retrying''"
| "lifecycle_name L_Exhausted = ''exhausted''"
| "lifecycle_name L_Escalated = ''escalated''"
| "lifecycle_name L_Recovered = ''recovered''"

fun ALLOWED_TRANSITIONS :: "RetryLifecycleState \<Rightarrow> RetryLifecycleState list" where
  "ALLOWED_TRANSITIONS L_Pending = [L_Retrying]"
| "ALLOWED_TRANSITIONS L_Retrying = [L_Retrying, L_Exhausted, L_Escalated, L_Recovered]"
| "ALLOWED_TRANSITIONS L_Exhausted = []"
| "ALLOWED_TRANSITIONS L_Escalated = []"
| "ALLOWED_TRANSITIONS L_Recovered = []"

definition TERMINAL_STATES :: "RetryLifecycleState list" where
  "TERMINAL_STATES = [L_Exhausted, L_Escalated, L_Recovered]"

record RetryContextKey =
  key_runId :: UUID
  key_nodeId :: string

record RetryAttemptRecord =
  att_attemptNumber :: int
  att_classifiedFailure :: FridayClassifiedFailure
  att_decision :: FridayRetryDecision
  att_delayMs :: rat
  att_outcome :: FridayRetryAttemptOutcome
  att_cost :: FridayRetryCostDimensions
  att_startedAt :: ISODateTime
  att_completedAt :: ISODateTime
  att_errorCode :: "string option"
  att_errorMessage :: "string option"

record RetryContextState =
  rc_key :: RetryContextKey
  rc_workflowId :: UUID
  rc_status :: FridayRetryTraceStatus
  originalFailureCategory :: FridayFailureCategory
  attempts :: "RetryAttemptRecord list"
  rc_accumulatedCost :: FridayRetryCostDimensions
  firstFailureAt :: ISODateTime
  lastUpdatedAt :: ISODateTime
  resolvedAt :: "ISODateTime option"

record InitContextParams =
  init_runId :: UUID
  init_workflowId :: UUID
  init_nodeId :: string
  init_category :: FridayFailureCategory

record RecordAttemptParams =
  rp_classifiedFailure :: FridayClassifiedFailure
  rp_decision :: FridayRetryDecision
  rp_delayMs :: rat
  rp_outcome :: FridayRetryAttemptOutcome
  rp_cost :: FridayRetryCostDimensions
  rp_startedAt :: ISODateTime
  rp_completedAt :: ISODateTime
  rp_errorCode :: "string option"
  rp_errorMessage :: "string option"

type_synonym tracker = "(string, RetryContextState) js_map"

section \<open>Helpers\<close>

definition toMapKey :: "RetryContextKey \<Rightarrow> string" where
  "toMapKey key = key_runId key @ ''::'' @ key_nodeId key"

definition toLifecycleState :: "RetryContextState \<Rightarrow> RetryLifecycleState" where
  "toLifecycleState ctx =
     (case rc_status ctx of
        In_Progress \<Rightarrow> if length (attempts ctx) = 0 then L_Pending else L_Retrying
      | Resolved \<Rightarrow> L_Recovered
      | Exhausted \<Rightarrow> L_Exhausted
      | Escalated \<Rightarrow> L_Escalated
      | Trace_Cancelled \<Rightarrow> L_Escalated
      | Trace_Budget_Exceeded \<Rightarrow> L_Exhausted)"

fun toTraceStatus :: "RetryLifecycleState \<Rightarrow> FridayRetryTraceStatus" where
  "toTraceStatus L_Pending = In_Progress"
| "toTraceStatus L_Retrying = In_Progress"
| "toTraceStatus L_Recovered = Resolved"
| "toTraceStatus L_Exhausted = Exhausted"
| "toTraceStatus L_Escalated = Escalated"

definition validation_error :: "string \<Rightarrow> friday_error" where
  "validation_error msg = FridayDomainError ''VALIDATION_ERROR'' msg 400"

text \<open>The loop of \<open>transitionContext\<close>: an error leaves the statuses set so far.\<close>

fun follow_path ::
    "RetryLifecycleState \<Rightarrow> RetryLifecycleState list \<Rightarrow> string \<Rightarrow> RetryContextState
     \<Rightarrow> (friday_error + RetryLifecycleState) \<times> RetryContextState" where
  "follow_path current [] mutation ctx = (Inr current, ctx)"
| "follow_path current (next # path) mutation ctx =
     (if next \<notin> set (ALLOWED_TRANSITIONS current)
      then (Inl (validation_error
              (''Invalid retry context transition ('' @ lifecycle_name current @ '' -> '' @
               lifecycle_name next @ '') during '' @ mutation)), ctx)
      else follow_path next path mutation (ctx\<lparr>rc_status := toTraceStatus next\<rparr>))"

definition transitionContext ::
    "ISODateTime \<Rightarrow> RetryContextState \<Rightarrow> RetryLifecycleState \<Rightarrow> string
     \<Rightarrow> unit result \<times> RetryContextState" where
  "transitionContext now ctx target mutation =
     (let current = toLifecycleState ctx;
          path = (if current = L_Pending \<and> target \<noteq> L_Retrying then [L_Retrying, target] else [target])
      in case follow_path current path mutation ctx of
           (Inl e, ctx') \<Rightarrow> (Inl e, ctx')
         | (Inr final, ctx') \<Rightarrow>
             (Inr (), ctx'\<lparr>lastUpdatedAt := now,
                           resolvedAt := if final \<in> set TERMINAL_STATES then Some now else None\<rparr>))"

definition assertMutable :: "RetryContextState \<Rightarrow> string \<Rightarrow> unit result" where
  "assertMutable ctx mutation =
     (let lc = toLifecycleState ctx in
      if lc \<in> set TERMINAL_STATES
      then Inl (validation_error
             (''Cannot mutate terminal retry context ('' @ lifecycle_name lc @ '') during '' @ mutation))
      else Inr ())"

section \<open>Operations\<close>

definition initContext ::
    "ISODateTime \<Rightarrow> ISODateTime \<Rightarrow> InitContextParams \<Rightarrow> tracker \<Rightarrow> RetryContextState \<times> tracker" where
  "initContext now1 now2 params contexts =
     (let key = \<lparr>key_runId = init_runId params, key_nodeId = init_nodeId params\<rparr>;
          mapKey = toMapKey key;
          ctx = \<lparr>rc_key = key, rc_workflowId = init_workflowId params, rc_status = In_Progress,
                 originalFailureCategory = init_category params, attempts = [],
                 rc_accumulatedCost = ZERO_COST, firstFailureAt = now1, lastUpdatedAt = now2,
                 resolvedAt = None\<rparr>
      in case map_get contexts mapKey of
           Some existing \<Rightarrow>
             if rc_status existing = In_Progress then (existing, contexts)
             else (ctx, map_set contexts mapKey ctx)
         | None \<Rightarrow> (ctx, map_set contexts mapKey ctx))"

fun outcome_target :: "FridayRetryAttemptOutcome \<Rightarrow> RetryLifecycleState" where
  "outcome_target Failure = L_Retrying"
| "outcome_target Timed_Out = L_Retrying"
| "outcome_target Success = L_Recovered"
| "outcome_target Cancelled = L_Escalated"
| "outcome_target Rules_Denied = L_Escalated"
| "outcome_target Budget_Exceeded = L_Exhausted"

definition add_attempt :: "RecordAttemptParams \<Rightarrow> RetryContextState \<Rightarrow> RetryContextState" where
  "add_attempt params ctx =
     ctx\<lparr>attempts := attempts ctx @
           [\<lparr>att_attemptNumber = int (length (attempts ctx)) + 1,
             att_classifiedFailure = rp_classifiedFailure params,
             att_decision = rp_decision params, att_delayMs = rp_delayMs params,
             att_outcome = rp_outcome params, att_cost = rp_cost params,
             att_startedAt = rp_startedAt params, att_completedAt = rp_completedAt params,
             att_errorCode = rp_errorCode params, att_errorMessage = rp_errorMessage params\<rparr>],
         rc_accumulatedCost := addCosts (rc_accumulatedCost ctx) (rp_cost params)\<rparr>"

definition recordAttempt ::
    "ISODateTime \<Rightarrow> RetryContextKey \<Rightarrow> RecordAttemptParams \<Rightarrow> tracker
     \<Rightarrow> RetryContextState option result \<times> tracker" where
  "recordAttempt now key params contexts =
     (let mapKey = toMapKey key in
      case map_get contexts mapKey of
        None \<Rightarrow> (Inr None, contexts)
      | Some ctx \<Rightarrow>
          (case assertMutable ctx ''recordAttempt'' of
             Inl e \<Rightarrow> (Inl e, contexts)
           | Inr _ \<Rightarrow>
               (case transitionContext now (add_attempt params ctx)
                       (outcome_target (rp_outcome params)) ''recordAttempt'' of
                  (Inl e, ctx') \<Rightarrow> (Inl e, map_set contexts mapKey ctx')
                | (Inr _, ctx') \<Rightarrow> (Inr (Some ctx'), map_set contexts mapKey ctx'))))"

definition mark_terminal ::
    "RetryLifecycleState \<Rightarrow> string \<Rightarrow> ISODateTime \<Rightarrow> RetryContextKey \<Rightarrow> tracker
     \<Rightarrow> RetryContextState option result \<times> tracker" where
  "mark_terminal target mutation now key contexts =
     (let mapKey = toMapKey key in
      case map_get contexts mapKey of
        None \<Rightarrow> (Inr None, contexts)
      | Some ctx \<Rightarrow>
          (case assertMutable ctx mutation of
             Inl e \<Rightarrow> (Inl e, contexts)
           | Inr _ \<Rightarrow>
               (case transitionContext now ctx target mutation of
                  (Inl e, ctx') \<Rightarrow> (Inl e, map_set contexts mapKey ctx')
                | (Inr _, ctx') \<Rightarrow> (Inr (Some ctx'), map_set contexts mapKey ctx'))))"

definition markExhausted ::
    "ISODateTime \<Rightarrow> RetryContextKey \<Rightarrow> tracker \<Rightarrow> RetryContextState option result \<times> tracker" where
  "markExhausted = mark_terminal L_Exhausted ''markExhausted''"

definition markEscalated ::
    "ISODateTime \<Rightarrow> RetryContextKey \<Rightarrow> tracker \<Rightarrow> RetryContextState option result \<times> tracker" where
  "markEscalated = mark_terminal L_Escalated ''markEscalated''"

definition getContext :: "RetryContextKey \<Rightarrow> tracker \<Rightarrow> RetryContextState option" where
  "getContext key contexts = map_get contexts (toMapKey key)"

definition getAttemptCount :: "RetryContextKey \<Rightarrow> tracker \<Rightarrow> nat" where
  "getAttemptCount key contexts =
     (case map_get contexts (toMapKey key) of Some ctx \<Rightarrow> length (attempts ctx) | None \<Rightarrow> 0)"

definition getAccumulatedCost :: "RetryContextKey \<Rightarrow> tracker \<Rightarrow> FridayRetryCostDimensions" where
  "getAccumulatedCost key contexts =
     (case map_get contexts (toMapKey key) of Some ctx \<Rightarrow> rc_accumulatedCost ctx | None \<Rightarrow> ZERO_COST)"

definition getActiveContexts :: "tracker \<Rightarrow> RetryContextState list" where
  "getActiveContexts contexts = filter (\<lambda>ctx. rc_status ctx = In_Progress) (map_values contexts)"

definition getAllContexts :: "tracker \<Rightarrow> RetryContextState list" where
  "getAllContexts contexts = map_values contexts"

definition removeContext :: "RetryContextKey \<Rightarrow> tracker \<Rightarrow> bool \<times> tracker" where
  "removeContext key contexts =
     (map_get contexts (toMapKey key) \<noteq> None, map_del contexts (toMapKey key))"

definition clear_contexts :: "tracker \<Rightarrow> tracker" where
  "clear_contexts contexts = map_empty"

definition getSummary :: "tracker \<Rightarrow> FridayRetryTraceStatus \<Rightarrow> nat" where
  "getSummary contexts =
     fold (\<lambda>ctx summary. summary(rc_status ctx := summary (rc_status ctx) + 1))
       (map_values contexts) (\<lambda>_. 0)"

text \<open>Sequences of calls, with the clock readings each call makes.\<close>

datatype tracker_op =
    Init ISODateTime ISODateTime InitContextParams
  | Record ISODateTime RetryContextKey RecordAttemptParams
  | Exhaust ISODateTime RetryContextKey
  | Escalate ISODateTime RetryContextKey
  | RemoveKey RetryContextKey
  | ClearAll

fun tracker_exec :: "tracker_op \<Rightarrow> tracker \<Rightarrow> tracker" where
  "tracker_exec (Init n1 n2 p) m = snd (initContext n1 n2 p m)"
| "tracker_exec (Record n k p) m = snd (recordAttempt n k p m)"
| "tracker_exec (Exhaust n k) m = snd (markExhausted n k m)"
| "tracker_exec (Escalate n k) m = snd (markEscalated n k m)"
| "tracker_exec (RemoveKey k) m = snd (removeContext k m)"
| "tracker_exec ClearAll m = clear_contexts m"

definition is_init :: "tracker_op \<Rightarrow> bool" where
  "is_init x = (case x of Init _ _ _ \<Rightarrow> True | _ \<Rightarrow> False)"

section \<open>Invariant\<close>

definition total_cost :: "RetryAttemptRecord list \<Rightarrow> FridayRetryCostDimensions" where
  "total_cost as = foldl (\<lambda>c a. addCosts c (att_cost a)) ZERO_COST as"

definition continues :: "RetryAttemptRecord \<Rightarrow> bool" where
  "continues a \<longleftrightarrow> att_outcome a \<in> {Failure, Timed_Out}"

definition context_inv :: "RetryContextState \<Rightarrow> bool" where
  "context_inv ctx \<longleftrightarrow>
     rc_accumulatedCost ctx = total_cost (attempts ctx) \<and>
     map att_attemptNumber (attempts ctx) = map int [1..<Suc (length (attempts ctx))] \<and>
     rc_status ctx \<in> {In_Progress, Resolved, Exhausted, Escalated} \<and>
     (resolvedAt ctx = None) = (rc_status ctx = In_Progress) \<and>
     list_all continues (butlast (attempts ctx)) \<and>
     (if rc_status ctx = Resolved then attempts ctx \<noteq> [] \<and> att_outcome (last (attempts ctx)) = Success
      else list_all (\<lambda>a. att_outcome a \<noteq> Success) (attempts ctx)) \<and>
     (if rc_status ctx = In_Progress then list_all continues (attempts ctx) else True)"

definition tracker_inv :: "tracker \<Rightarrow> bool" where
  "tracker_inv m \<longleftrightarrow>
     map_ok m \<and> list_all (\<lambda>(k, ctx). context_inv ctx \<and> toMapKey (rc_key ctx) = k) m"

text \<open>The net effect of a successful transition.\<close>

definition settle :: "ISODateTime \<Rightarrow> RetryLifecycleState \<Rightarrow> RetryContextState \<Rightarrow> RetryContextState" where
  "settle now target ctx =
     ctx\<lparr>rc_status := toTraceStatus target, lastUpdatedAt := now,
         resolvedAt := if target \<in> set TERMINAL_STATES then Some now else None\<rparr>"

text \<open>Concrete values used by the witnesses.\<close>

definition sample_key :: RetryContextKey where
  "sample_key = \<lparr>key_runId = ''run'', key_nodeId = ''node''\<rparr>"

definition sample_init :: InitContextParams where
  "sample_init =
     \<lparr>init_runId = ''run'', init_workflowId = ''wf'', init_nodeId = ''node'', init_category = Transient\<rparr>"

definition sample_attempt :: "FridayRetryAttemptOutcome \<Rightarrow> RecordAttemptParams" where
  "sample_attempt outcome =
     \<lparr>rp_classifiedFailure = sample_failure Transient None,
      rp_decision = buildRetryDecision (sample_failure Transient None) (sample_context 1)
        buildDefaultRetryStrategies ''now'' 0,
      rp_delayMs = 0, rp_outcome = outcome, rp_cost = \<lparr>tokens = 10, apiCalls = 1, computeMs = 5\<rparr>,
      rp_startedAt = ''s'', rp_completedAt = ''c'', rp_errorCode = None, rp_errorMessage = None\<rparr>"

definition sample_context_state :: "FridayRetryTraceStatus \<Rightarrow> RetryContextState" where
  "sample_context_state st =
     \<lparr>rc_key = sample_key, rc_workflowId = ''wf'', rc_status = st,
      originalFailureCategory = Transient, attempts = [], rc_accumulatedCost = ZERO_COST,
      firstFailureAt = ''t0'', lastUpdatedAt = ''t0'', resolvedAt = None\<rparr>"

section \<open>Lemmas\<close>

interpretation retry_lifecycle: lifecycle
  "\<lambda>a b. b \<in> set (ALLOWED_TRANSITIONS a)" "\<lambda>a. a \<in> set TERMINAL_STATES"
  by unfold_locales (auto simp: TERMINAL_STATES_def)

lemma toLifecycle_mutable: "toLifecycleState ctx \<notin> set TERMINAL_STATES \<longleftrightarrow> rc_status ctx = In_Progress"
  by (auto simp: toLifecycleState_def TERMINAL_STATES_def split: FridayRetryTraceStatus.splits)

lemma assertMutable_iff: "assertMutable ctx mutation = Inr () \<longleftrightarrow> rc_status ctx = In_Progress"
  using toLifecycle_mutable [of ctx] by (auto simp: assertMutable_def Let_def)

lemma assertMutable_error:
  "rc_status ctx \<noteq> In_Progress \<Longrightarrow> \<exists>e. assertMutable ctx mutation = Inl e"
  using assertMutable_iff [of ctx mutation] by (cases "assertMutable ctx mutation") auto

text \<open>From a mutable context every target but \<open>pending\<close> is reached, through the synthesised step.\<close>

lemma transitionContext_mutable:
  assumes "rc_status ctx = In_Progress" and "target \<noteq> L_Pending"
  shows "transitionContext now ctx target mutation =
    (Inr (), ctx\<lparr>rc_status := toTraceStatus target, lastUpdatedAt := now,
                 resolvedAt := if target \<in> set TERMINAL_STATES then Some now else None\<rparr>)"
  using assms
  by (cases target) (auto simp: transitionContext_def toLifecycleState_def TERMINAL_STATES_def Let_def)

lemma outcome_target_not_pending: "outcome_target x \<noteq> L_Pending"
  by (cases x) auto

lemma toTraceStatus_in_progress:
  "toTraceStatus l = In_Progress \<longleftrightarrow> l \<notin> set TERMINAL_STATES"
  by (cases l) (auto simp: TERMINAL_STATES_def)

lemma recordAttempt_cases:
  "recordAttempt now key params m =
     (case map_get m (toMapKey key) of
        None \<Rightarrow> (Inr None, m)
      | Some ctx \<Rightarrow>
          if rc_status ctx = In_Progress
          then let ctx' = settle now (outcome_target (rp_outcome params)) (add_attempt params ctx)
               in (Inr (Some ctx'), map_set m (toMapKey key) ctx')
          else (map_sum id (\<lambda>_. None) (assertMutable ctx ''recordAttempt''), m))"
proof (cases "map_get m (toMapKey key)")
  case None
  then show ?thesis by (simp add: recordAttempt_def)
next
  case (Some ctx)
  show ?thesis
  proof (cases "rc_status ctx = In_Progress")
    case True
    then have "rc_status (add_attempt params ctx) = In_Progress" by (simp add: add_attempt_def)
    then show ?thesis
      using Some True
      by (simp add: recordAttempt_def assertMutable_iff [THEN iffD2]
          transitionContext_mutable outcome_target_not_pending settle_def Let_def)
  next
    case False
    then obtain e where "assertMutable ctx ''recordAttempt'' = Inl e"
      using assertMutable_error by blast
    with Some False show ?thesis by (simp add: recordAttempt_def)
  qed
qed

lemma mark_terminal_cases:
  assumes "target \<noteq> L_Pending"
  shows "mark_terminal target mutation now key m =
     (case map_get m (toMapKey key) of
        None \<Rightarrow> (Inr None, m)
      | Some ctx \<Rightarrow>
          if rc_status ctx = In_Progress
          then (Inr (Some (settle now target ctx)), map_set m (toMapKey key) (settle now target ctx))
          else (map_sum id (\<lambda>_. None) (assertMutable ctx mutation), m))"
proof (cases "map_get m (toMapKey key)")
  case None
  then show ?thesis by (simp add: mark_terminal_def)
next
  case (Some ctx)
  show ?thesis
  proof (cases "rc_status ctx = In_Progress")
    case True
    then show ?thesis
      using Some assms
      by (simp add: mark_terminal_def assertMutable_iff [THEN iffD2]
          transitionContext_mutable settle_def)
  next
    case False
    then obtain e where "assertMutable ctx mutation = Inl e"
      using assertMutable_error by blast
    with Some False show ?thesis by (simp add: mark_terminal_def)
  qed
qed

lemmas markExhausted_cases = mark_terminal_cases [of L_Exhausted "''markExhausted''",
    folded markExhausted_def, simplified]
lemmas markEscalated_cases = mark_terminal_cases [of L_Escalated "''markEscalated''",
    folded markEscalated_def, simplified]

lemma tracker_inv_get:
  "tracker_inv m \<longleftrightarrow> map_ok m \<and>
     (\<forall>k ctx. map_get m k = Some ctx \<longrightarrow> context_inv ctx \<and> toMapKey (rc_key ctx) = k)"
  by (auto simp: tracker_inv_def map_ok_def map_keys_def map_get_def list_all_iff)

lemma tracker_inv_set:
  "tracker_inv m \<Longrightarrow> context_inv ctx \<Longrightarrow> toMapKey (rc_key ctx) = k \<Longrightarrow> tracker_inv (map_set m k ctx)"
  by (auto simp: tracker_inv_get)

lemma total_cost_snoc: "total_cost (as @ [a]) = addCosts (total_cost as) (att_cost a)"
  by (simp add: total_cost_def)

text \<open>The invariant of one context, for the two shapes of mutation.\<close>

lemma settle_mark_inv:
  assumes "context_inv ctx" and "rc_status ctx = In_Progress" and "target \<in> {L_Exhausted, L_Escalated}"
  shows "context_inv (settle now target ctx)"
  using assms by (auto simp: context_inv_def settle_def TERMINAL_STATES_def list_all_iff continues_def)

lemma settle_record_inv:
  assumes "context_inv ctx" and "rc_status ctx = In_Progress"
  shows "context_inv (settle now (outcome_target (rp_outcome params)) (add_attempt params ctx))"
  using assms
  by (cases "rp_outcome params")
    (auto simp: context_inv_def settle_def add_attempt_def TERMINAL_STATES_def list_all_iff
      continues_def total_cost_snoc butlast_append)

lemma initContext_inv: "tracker_inv m \<Longrightarrow> tracker_inv (snd (initContext n1 n2 p m))"
  by (auto simp: initContext_def Let_def context_inv_def total_cost_def
      intro!: tracker_inv_set split: option.splits)

lemma rc_key_settle [simp]:
  "rc_key (settle now t ctx) = rc_key ctx" "rc_key (add_attempt p ctx) = rc_key ctx"
  by (simp_all add: settle_def add_attempt_def)

lemma tracker_exec_inv: "tracker_inv m \<Longrightarrow> tracker_inv (tracker_exec x m)"
proof (cases x)
  case (Init n1 n2 p)
  then show "tracker_inv m \<Longrightarrow> ?thesis" by (simp add: initContext_inv)
next
  case (Record n k p)
  then show "tracker_inv m \<Longrightarrow> ?thesis"
    by (auto simp: recordAttempt_cases Let_def tracker_inv_get settle_record_inv split: option.splits)
next
  case (Exhaust n k)
  then show "tracker_inv m \<Longrightarrow> ?thesis"
    by (auto simp: markExhausted_cases tracker_inv_get settle_mark_inv split: option.splits)
next
  case (Escalate n k)
  then show "tracker_inv m \<Longrightarrow> ?thesis"
    by (auto simp: markEscalated_cases tracker_inv_get settle_mark_inv split: option.splits)
next
  case (RemoveKey k)
  then show "tracker_inv m \<Longrightarrow> ?thesis"
    by (auto simp: removeContext_def tracker_inv_get split: if_splits)
next
  case ClearAll
  then show "tracker_inv m \<Longrightarrow> ?thesis"
    by (simp add: clear_contexts_def tracker_inv_get)
qed

lemma tracker_run_inv: "tracker_inv (fold tracker_exec ops map_empty)"
proof -
  have "tracker_inv m \<Longrightarrow> tracker_inv (fold tracker_exec ops m)" for m
    by (induction ops arbitrary: m) (simp_all add: tracker_exec_inv del: tracker_exec.simps)
  moreover have "tracker_inv map_empty" by (simp add: tracker_inv_get)
  ultimately show ?thesis by blast
qed

lemma getSummary_count:
  "getSummary m st = length (filter (\<lambda>ctx. rc_status ctx = st) (map_values m))"
proof -
  have "fold (\<lambda>ctx summary. summary(rc_status ctx := summary (rc_status ctx) + 1)) cs f st =
      f st + length (filter (\<lambda>ctx. rc_status ctx = st) cs)" for cs :: "RetryContextState list" and f :: "_ \<Rightarrow> nat"
    by (induction cs arbitrary: f) auto
  then show ?thesis by (simp add: getSummary_def)
qed

lemma lifecycle_add_attempt:
  "rc_status ctx = In_Progress \<Longrightarrow> toLifecycleState (add_attempt p ctx) = L_Retrying"
  by (simp add: toLifecycleState_def add_attempt_def)

lemma lifecycle_settle:
  "attempts ctx \<noteq> [] \<or> t \<in> set TERMINAL_STATES \<Longrightarrow> t \<noteq> L_Pending \<Longrightarrow> toLifecycleState (settle now t ctx) = t"
  by (cases t) (auto simp: toLifecycleState_def settle_def TERMINAL_STATES_def)

lemma lifecycle_reach:
  assumes "a \<notin> set TERMINAL_STATES" and "t \<noteq> L_Pending"
  shows "(\<lambda>a b. b \<in> set (ALLOWED_TRANSITIONS a))\<^sup>*\<^sup>* a t"
proof -
  have "(\<lambda>a b. b \<in> set (ALLOWED_TRANSITIONS a)) L_Retrying t"
    using assms(2) by (cases t) auto
  moreover have "(\<lambda>a b. b \<in> set (ALLOWED_TRANSITIONS a)) a L_Retrying"
    using assms(1) by (cases a) (auto simp: TERMINAL_STATES_def)
  ultimately show ?thesis by (meson converse_rtranclp_into_rtranclp r_into_rtranclp)
qed

section \<open>Properties\<close>

text \<open>
  After any sequence of tracker calls from an empty tracker every context is well formed:
  its accumulated cost is the sum of its attempts' costs, attempts are numbered 1, 2, ..., it has
  a resolution time exactly when it is no longer in progress, only its last attempt can have a
  final outcome, it is resolved exactly when that outcome is a success, and it is filed under
  its own key.
\<close>

theorem tracker_run_invariant: "tracker_inv (fold tracker_exec ops map_empty)"
  by (rule tracker_run_inv)

text \<open>
  A context that has left \<open>in_progress\<close> is frozen: recording an attempt or marking it
  raises a validation error and the tracker is unchanged.
\<close>

theorem terminal_context_frozen:
  assumes "getContext key m = Some ctx" and "rc_status ctx \<noteq> In_Progress"
  shows "isl (fst (recordAttempt now key params m)) \<and> snd (recordAttempt now key params m) = m \<and>
    isl (fst (markExhausted now key m)) \<and> snd (markExhausted now key m) = m \<and>
    isl (fst (markEscalated now key m)) \<and> snd (markEscalated now key m) = m"
proof -
  have "isl (assertMutable ctx mutation)" for mutation
    using assertMutable_error [OF assms(2), of mutation] by auto
  then show ?thesis
    using assms by (simp add: isl_map_sum getContext_def recordAttempt_cases markExhausted_cases markEscalated_cases)
qed

theorem terminal_context_frozen_witness:
  "isl (fst (recordAttempt ''now'' sample_key (sample_attempt Success)
     [(''run::node'', sample_context_state Exhausted)]))"
  using terminal_context_frozen [of sample_key "[(''run::node'', sample_context_state Exhausted)]"
      "sample_context_state Exhausted" "''now''" "sample_attempt Success"]
  by (simp add: getContext_def map_get_def toMapKey_def sample_key_def sample_context_state_def)

text \<open>
  Recording an attempt on a context in progress always succeeds: the returned context is
  the stored one, it has one more attempt, its cost has grown by the attempt's cost, and it stays
  in progress exactly when the outcome was a failure or a timeout. No other key is affected.
\<close>

theorem recordAttempt_succeeds:
  assumes "getContext key m = Some ctx" and "rc_status ctx = In_Progress"
  shows "\<exists>ctx'. fst (recordAttempt now key params m) = Inr (Some ctx') \<and>
    getContext key (snd (recordAttempt now key params m)) = Some ctx' \<and>
    length (attempts ctx') = Suc (length (attempts ctx)) \<and>
    rc_accumulatedCost ctx' = addCosts (rc_accumulatedCost ctx) (rp_cost params) \<and>
    (rc_status ctx' = In_Progress \<longleftrightarrow> rp_outcome params \<in> {Failure, Timed_Out}) \<and>
    (\<forall>k. toMapKey k = toMapKey key \<or>
         getContext k (snd (recordAttempt now key params m)) = getContext k m)"
  using assms
  by (cases "rp_outcome params")
    (auto simp: getContext_def recordAttempt_cases Let_def settle_def add_attempt_def)

theorem recordAttempt_succeeds_witness:
  "\<exists>ctx'. fst (recordAttempt ''now'' sample_key (sample_attempt Failure)
     [(''run::node'', sample_context_state In_Progress)]) = Inr (Some ctx') \<and>
     length (attempts ctx') = 1"
  using recordAttempt_succeeds [of sample_key "[(''run::node'', sample_context_state In_Progress)]"
      "sample_context_state In_Progress" "''now''" "sample_attempt Failure"]
  by (auto simp: getContext_def map_get_def toMapKey_def sample_key_def sample_context_state_def)

text \<open>
  A context only moves along the declared transition table: after any call but a
  re-initialisation, if its key still holds a context then the new lifecycle state is reachable
  from the old one by allowed transitions.
\<close>

theorem tracker_follows_lifecycle:
  assumes "map_get m k = Some ctx" and "map_get (tracker_exec x m) k = Some ctx'"
    and "\<not> is_init x"
  shows "(\<lambda>a b. b \<in> set (ALLOWED_TRANSITIONS a))\<^sup>*\<^sup>* (toLifecycleState ctx) (toLifecycleState ctx')"
proof (cases "ctx' = ctx")
  case False
  note reach = lifecycle_reach toLifecycle_mutable [THEN iffD2]
  show ?thesis
  proof (cases x)
    case (Record n key p)
    with assms(1,2) False show ?thesis
      by (auto simp: recordAttempt_cases Let_def lifecycle_settle add_attempt_def
          outcome_target_not_pending intro!: reach split: option.splits if_splits)
  next
    case (Exhaust n key)
    with assms(1,2) False show ?thesis
      by (auto simp: markExhausted_cases lifecycle_settle TERMINAL_STATES_def
          intro!: reach split: option.splits if_splits)
  next
    case (Escalate n key)
    with assms(1,2) False show ?thesis
      by (auto simp: markEscalated_cases lifecycle_settle TERMINAL_STATES_def
          intro!: reach split: option.splits if_splits)
  qed (use assms False in \<open>auto simp: is_init_def removeContext_def clear_contexts_def split: if_splits\<close>)
qed simp

theorem tracker_follows_lifecycle_witness:
  "(\<lambda>a b. b \<in> set (ALLOWED_TRANSITIONS a))\<^sup>*\<^sup>* (toLifecycleState (sample_context_state In_Progress))
     (toLifecycleState (settle ''t1'' L_Exhausted (sample_context_state In_Progress)))"
  by (rule tracker_follows_lifecycle [where k = "''run::node''"
        and m = "[(''run::node'', sample_context_state In_Progress)]" and x = "Exhaust ''t1'' sample_key"])
    (simp_all add: map_get_def is_init_def markExhausted_cases toMapKey_def sample_key_def
      sample_context_state_def map_set_def)

text \<open>
  The composite key is faithful when run identifiers contain no colon (as UUIDs do not):
  two (run, node) pairs share a map key only if they are equal.
\<close>

theorem toMapKey_inj:
  assumes "CHR '':'' \<notin> set (key_runId a)" and "CHR '':'' \<notin> set (key_runId b)"
    and "toMapKey a = toMapKey b"
  shows "key_runId a = key_runId b \<and> key_nodeId a = key_nodeId b"
proof -
  have "takeWhile (\<lambda>c. c \<noteq> CHR '':'') (key_runId k @ ''::'' @ n) = key_runId k"
    if "CHR '':'' \<notin> set (key_runId k)" for k :: RetryContextKey and n
    using that by (subst takeWhile_append2) auto
  with assms have "key_runId a = key_runId b"
    unfolding toMapKey_def by metis
  with assms(3) show ?thesis by (simp add: toMapKey_def)
qed

theorem toMapKey_inj_witness:
  "toMapKey \<lparr>key_runId = ''a'', key_nodeId = ''b::c''\<rparr> =
     toMapKey \<lparr>key_runId = ''a'', key_nodeId = ''b::c''\<rparr> \<and>
   key_nodeId \<lparr>key_runId = ''a'', key_nodeId = ''b::c''\<rparr> = ''b::c''"
  using toMapKey_inj [of "\<lparr>key_runId = ''a'', key_nodeId = ''b::c''\<rparr>"
      "\<lparr>key_runId = ''a'', key_nodeId = ''b::c''\<rparr>"] by simp

text \<open>
  The summary counts every context once, and the statuses \<open>cancelled\<close> and
  \<open>budget_exceeded\<close> never occur: an attempt with such an outcome ends as \<open>escalated\<close> or
  \<open>exhausted\<close>.
\<close>

theorem getSummary_accounts:
  "let m = fold tracker_exec ops map_empty in
   getSummary m Trace_Cancelled = 0 \<and> getSummary m Trace_Budget_Exceeded = 0 \<and>
   getSummary m In_Progress + getSummary m Resolved + getSummary m Exhausted + getSummary m Escalated
     = length (getAllContexts m)"
proof -
  let ?m = "fold tracker_exec ops map_empty"
  have inv: "list_all (\<lambda>(k, ctx). context_inv ctx \<and> toMapKey (rc_key ctx) = k) ?m"
    using tracker_run_inv by (simp add: tracker_inv_def)
  then have st: "\<forall>ctx\<in>set (map_values ?m). rc_status ctx \<in> {In_Progress, Resolved, Exhausted, Escalated}"
    by (fastforce simp: list_all_iff map_values_def context_inv_def)
  have "length (filter (\<lambda>c. rc_status c = In_Progress) cs) + length (filter (\<lambda>c. rc_status c = Resolved) cs) +
      length (filter (\<lambda>c. rc_status c = Exhausted) cs) + length (filter (\<lambda>c. rc_status c = Escalated) cs)
      = length cs"
    if "\<forall>ctx\<in>set cs. rc_status ctx \<in> {In_Progress, Resolved, Exhausted, Escalated}" for cs :: "RetryContextState list"
    using that by (induction cs) auto
  with st show ?thesis
    by (auto simp: Let_def getSummary_count getAllContexts_def filter_empty_conv)
qed

end
