(* ===== verification/Retry_Budget.thy ===== *)
theory Retry_Budget
  imports Friday_Prelude
begin

text \<open>
  The token-bucket retry budget of src/src/retry/engine/retry-budget.ts: a bucket refilled at
  a steady rate and a cap on the retries in flight. Each operation reads the clock at most
  once; the reading is an argument. The interface a client of the budget relies on is the
  locale \<open>permit_pool\<close>.
\<close>

section \<open>State and operations\<close>

record RetryBudgetConfig =
  maxTokens :: rat
  refillRatePerSecond :: rat
  maxConcurrent :: int

record RetryBudgetState =
  rb_tokens :: rat
  lastRefillAt :: int
  activeRetries :: int
  totalGranted :: int
  totalDenied :: int

record RetryBudgetSnapshot =
  rs_availableTokens :: int
  rs_maxTokens :: rat
  rs_activeRetries :: int
  rs_maxConcurrent :: int
  rs_totalGranted :: int
  rs_totalDenied :: int

definition DEFAULT_RETRY_BUDGET_CONFIG :: RetryBudgetConfig where
  "DEFAULT_RETRY_BUDGET_CONFIG =
     \<lparr>maxTokens = 20, refillRatePerSecond = 2, maxConcurrent = 10\<rparr>"

definition createRetryBudget :: "RetryBudgetConfig \<Rightarrow> int \<Rightarrow> RetryBudgetState" where
  "createRetryBudget config now =
     \<lparr>rb_tokens = maxTokens config, lastRefillAt = now, activeRetries = 0,
      totalGranted = 0, totalDenied = 0\<rparr>"

definition refill :: "RetryBudgetConfig \<Rightarrow> int \<Rightarrow> RetryBudgetState \<Rightarrow> RetryBudgetState" where
  "refill config now st =
     (let elapsedMs = now - lastRefillAt st in
      if elapsedMs \<le> 0 then st
      else
        let tokensToAdd = of_int elapsedMs / 1000 * refillRatePerSecond config
        in st\<lparr>rb_tokens := min (maxTokens config) (rb_tokens st + tokensToAdd),
              lastRefillAt := now\<rparr>)"

definition acquire :: "RetryBudgetConfig \<Rightarrow> int \<Rightarrow> RetryBudgetState \<Rightarrow> bool \<times> RetryBudgetState" where
  "acquire config now st0 =
     (let st = refill config now st0 in
      if rb_tokens st < 1 \<or> activeRetries st \<ge> maxConcurrent config
      then (False, st\<lparr>totalDenied := totalDenied st + 1\<rparr>)
      else (True, st\<lparr>rb_tokens := rb_tokens st - 1, activeRetries := activeRetries st + 1,
                     totalGranted := totalGranted st + 1\<rparr>))"

definition release :: "RetryBudgetState \<Rightarrow> RetryBudgetState" where
  "release st = (if activeRetries st > 0 then st\<lparr>activeRetries := activeRetries st - 1\<rparr> else st)"

definition canAcquire :: "RetryBudgetConfig \<Rightarrow> int \<Rightarrow> RetryBudgetState \<Rightarrow> bool \<times> RetryBudgetState" where
  "canAcquire config now st0 =
     (let st = refill config now st0
      in (rb_tokens st \<ge> 1 \<and> activeRetries st < maxConcurrent config, st))"

definition getSnapshot ::
    "RetryBudgetConfig \<Rightarrow> int \<Rightarrow> RetryBudgetState \<Rightarrow> RetryBudgetSnapshot \<times> RetryBudgetState" where
  "getSnapshot config now st0 =
     (let st = refill config now st0
      in (\<lparr>rs_availableTokens = \<lfloor>rb_tokens st\<rfloor>, rs_maxTokens = maxTokens config,
           rs_activeRetries = activeRetries st, rs_maxConcurrent = maxConcurrent config,
           rs_totalGranted = totalGranted st, rs_totalDenied = totalDenied st\<rparr>, st))"

definition reset_budget :: "RetryBudgetConfig \<Rightarrow> int \<Rightarrow> RetryBudgetState \<Rightarrow> RetryBudgetState" where
  "reset_budget config now st =
     st\<lparr>rb_tokens := maxTokens config, lastRefillAt := now, activeRetries := 0,
        totalGranted := 0, totalDenied := 0\<rparr>"

text \<open>Sequences of calls.\<close>

datatype budget_op = Acquire int | Release | CanAcquire int | Snapshot int | ResetBudget int

fun budget_exec :: "RetryBudgetConfig \<Rightarrow> budget_op \<Rightarrow> RetryBudgetState \<Rightarrow> RetryBudgetState" where
  "budget_exec config (Acquire now) st = snd (acquire config now st)"
| "budget_exec config Release st = release st"
| "budget_exec config (CanAcquire now) st = snd (canAcquire config now st)"
| "budget_exec config (Snapshot now) st = snd (getSnapshot config now st)"
| "budget_exec config (ResetBudget now) st = reset_budget config now st"

definition budget_run :: "RetryBudgetConfig \<Rightarrow> budget_op list \<Rightarrow> RetryBudgetState \<Rightarrow> RetryBudgetState" where
  "budget_run config ops st = fold (budget_exec config) ops st"

definition is_reset :: "budget_op \<Rightarrow> bool" where
  "is_reset x = (case x of ResetBudget _ \<Rightarrow> True | _ \<Rightarrow> False)"

definition budget_inv :: "RetryBudgetConfig \<Rightarrow> RetryBudgetState \<Rightarrow> bool" where
  "budget_inv config st \<longleftrightarrow>
     0 \<le> rb_tokens st \<and> rb_tokens st \<le> maxTokens config \<and>
     0 \<le> activeRetries st \<and> activeRetries st \<le> maxConcurrent config \<and>
     0 \<le> totalGranted st \<and> activeRetries st \<le> totalGranted st \<and> 0 \<le> totalDenied st"

text \<open>Tokens handed out plus tokens left, against the capacity and what time has refilled.\<close>

definition bucket_bound :: "RetryBudgetConfig \<Rightarrow> int \<Rightarrow> RetryBudgetState \<Rightarrow> bool" where
  "bucket_bound config t0 st \<longleftrightarrow>
     t0 \<le> lastRefillAt st \<and>
     of_int (totalGranted st) + rb_tokens st \<le>
       maxTokens config + of_int (lastRefillAt st - t0) / 1000 * refillRatePerSecond config"

section \<open>The interface of a permit pool\<close>

locale permit_pool =
  fixes take :: "'t \<Rightarrow> 's \<Rightarrow> bool \<times> 's" and give :: "'s \<Rightarrow> 's" and held :: "'s \<Rightarrow> int"
  assumes take_granted: "fst (take t s) \<Longrightarrow> held (snd (take t s)) = held s + 1"
    and take_denied: "\<not> fst (take t s) \<Longrightarrow> held (snd (take t s)) = held s"
    and give_held: "0 < held s \<Longrightarrow> held (give s) = held s - 1"
begin

text \<open>A permit taken and given back leaves the number in flight as it was.\<close>

lemma take_give: "fst (take t s) \<Longrightarrow> 0 \<le> held s \<Longrightarrow> held (give (snd (take t s))) = held s"
  by (simp add: give_held take_granted)

lemma use_permit:
  assumes "0 \<le> held s" and "\<And>x. held (f x) = held x"
  shows "held (if fst (take t s) then give (f (snd (take t s))) else snd (take t s)) = held s"
  using assms by (simp add: give_held take_granted take_denied)

end

section \<open>Lemmas\<close>

lemma refill_sel [simp]:
  "activeRetries (refill config now st) = activeRetries st"
  "totalGranted (refill config now st) = totalGranted st"
  "totalDenied (refill config now st) = totalDenied st"
  by (simp_all add: refill_def Let_def)

interpretation budget: permit_pool "acquire config" release activeRetries for config
  by unfold_locales (auto simp: acquire_def release_def Let_def split: if_splits)

lemma refill_lastRefillAt: "lastRefillAt (refill config now st) = max now (lastRefillAt st)"
  by (simp add: refill_def Let_def)

lemma refill_inv:
  assumes "budget_inv config st" and "0 \<le> refillRatePerSecond config"
  shows "budget_inv config (refill config now st)"
proof -
  have "0 \<le> of_int (now - lastRefillAt st) / 1000 * refillRatePerSecond config"
    if "\<not> now - lastRefillAt st \<le> 0"
    using that assms(2) by simp
  then show ?thesis
    using assms(1) by (auto simp: budget_inv_def refill_def Let_def)
qed

lemma budget_exec_inv:
  assumes "budget_inv config st" and "0 \<le> refillRatePerSecond config"
    and "0 \<le> maxTokens config" and "0 \<le> maxConcurrent config"
  shows "budget_inv config (budget_exec config x st)"
proof -
  have r: "budget_inv config (refill config now st)" for now
    using assms(1,2) by (rule refill_inv)
  show ?thesis
  proof (cases x)
    case (Acquire now)
    with r [of now] show ?thesis by (auto simp: acquire_def Let_def budget_inv_def)
  next
    case Release
    with assms(1) show ?thesis by (auto simp: release_def budget_inv_def)
  qed (use r assms in \<open>auto simp: canAcquire_def getSnapshot_def reset_budget_def Let_def budget_inv_def\<close>)
qed

lemma refill_bound:
  assumes "bucket_bound config t0 st" and "0 \<le> refillRatePerSecond config"
  shows "bucket_bound config t0 (refill config now st)"
proof (cases "now - lastRefillAt st \<le> 0")
  case True
  with assms(1) show ?thesis by (simp add: refill_def)
next
  case False
  let ?r = "refillRatePerSecond config"
  define old new add where "old = of_int (lastRefillAt st - t0) / 1000 * ?r"
    and "new = of_int (now - t0) / 1000 * ?r"
    and "add = of_int (now - lastRefillAt st) / 1000 * ?r"
  have "new = old + add"
    by (simp add: old_def new_def add_def algebra_simps add_divide_distrib diff_divide_distrib)
  moreover have "of_int (totalGranted st) + rb_tokens st \<le> maxTokens config + old"
    using assms(1) by (simp only: bucket_bound_def old_def)
  ultimately have "of_int (totalGranted st) + min (maxTokens config) (rb_tokens st + add)
      \<le> maxTokens config + new"
    by linarith
  then show ?thesis
    using False assms(1) by (auto simp: bucket_bound_def refill_def Let_def new_def add_def)
qed

lemma budget_exec_bound:
  assumes "bucket_bound config t0 st" and "0 \<le> refillRatePerSecond config" and "\<not> is_reset x"
  shows "bucket_bound config t0 (budget_exec config x st)"
proof -
  have r: "bucket_bound config t0 (refill config now st)" for now
    using assms(1,2) by (rule refill_bound)
  show ?thesis
  proof (cases x)
    case (Acquire now)
    with r [of now] show ?thesis by (auto simp: acquire_def Let_def bucket_bound_def)
  next
    case Release
    with assms(1) show ?thesis by (auto simp: release_def bucket_bound_def)
  qed (use r assms in \<open>auto simp: canAcquire_def getSnapshot_def is_reset_def Let_def\<close>)
qed

lemma budget_run_inv:
  assumes "budget_inv config st" and "0 \<le> refillRatePerSecond config"
    and "0 \<le> maxTokens config" and "0 \<le> maxConcurrent config"
  shows "budget_inv config (budget_run config ops st)"
  using assms(1) unfolding budget_run_def
  by (induction ops arbitrary: st) (auto simp: budget_exec_inv assms(2-4))

lemma budget_run_bound:
  assumes "bucket_bound config t0 st" and "0 \<le> refillRatePerSecond config"
    and "list_all (\<lambda>x. \<not> is_reset x) ops"
  shows "bucket_bound config t0 (budget_run config ops st)"
  using assms(1,3) unfolding budget_run_def
  by (induction ops arbitrary: st) (auto simp: budget_exec_bound assms(2))

lemma createRetryBudget_inv:
  "0 \<le> maxTokens config \<Longrightarrow> 0 \<le> maxConcurrent config \<Longrightarrow> budget_inv config (createRetryBudget config t0)"
  by (simp add: createRetryBudget_def budget_inv_def)

lemma createRetryBudget_bound: "bucket_bound config t0 (createRetryBudget config t0)"
  by (simp add: createRetryBudget_def bucket_bound_def)

section \<open>Properties\<close>

text \<open>
  Any sequence of calls on a fresh budget keeps the bucket between empty and full and the
  retries in flight between zero and the concurrency cap.
\<close>

theorem budget_run_invariant:
  assumes "0 \<le> refillRatePerSecond config" and "0 \<le> maxTokens config" and "0 \<le> maxConcurrent config"
  shows "budget_inv config (budget_run config ops (createRetryBudget config t0))"
  using createRetryBudget_inv [OF assms(2,3)] assms by (rule budget_run_inv)

theorem budget_run_invariant_witness:
  "budget_inv DEFAULT_RETRY_BUDGET_CONFIG (budget_run DEFAULT_RETRY_BUDGET_CONFIG
     [Acquire 0, Acquire 400, Release, Snapshot 900] (createRetryBudget DEFAULT_RETRY_BUDGET_CONFIG 0))"
  by (rule budget_run_invariant) (simp_all add: DEFAULT_RETRY_BUDGET_CONFIG_def)

text \<open>
  The rate limit: between its creation at \<open>t0\<close> and the latest time it has seen, a budget
  that is not reset never grants more than the burst capacity plus the refill rate times the
  elapsed seconds, whatever the order of the calls and even if the clock steps back.
\<close>

theorem budget_rate_limit:
  assumes "0 \<le> refillRatePerSecond config" and "0 \<le> maxTokens config" and "0 \<le> maxConcurrent config"
    and "list_all (\<lambda>x. \<not> is_reset x) ops"
  shows "let st = budget_run config ops (createRetryBudget config t0) in
    of_int (totalGranted st) \<le>
      maxTokens config + of_int (lastRefillAt st - t0) / 1000 * refillRatePerSecond config"
proof -
  let ?st = "budget_run config ops (createRetryBudget config t0)"
  have "bucket_bound config t0 ?st"
    using createRetryBudget_bound assms(1,4) by (rule budget_run_bound)
  moreover have "budget_inv config ?st"
    using createRetryBudget_inv [OF assms(2,3)] assms(1-3) by (rule budget_run_inv)
  ultimately show ?thesis
    by (simp add: bucket_bound_def budget_inv_def Let_def)
qed

theorem budget_rate_limit_witness:
  "totalGranted (budget_run DEFAULT_RETRY_BUDGET_CONFIG [Acquire 0, Acquire 500]
     (createRetryBudget DEFAULT_RETRY_BUDGET_CONFIG 0)) = 2 \<and> (2 :: rat) \<le> 20 + 500 / 1000 * 2"
  using budget_rate_limit [of DEFAULT_RETRY_BUDGET_CONFIG "[Acquire 0, Acquire 500]" 0]
  by (simp add: DEFAULT_RETRY_BUDGET_CONFIG_def is_reset_def budget_run_def createRetryBudget_def
      acquire_def refill_def Let_def)

text \<open>
  \<open>canAcquire\<close> is an exact dry run of \<open>acquire\<close>: at the same time and state both give the
  same answer, and \<open>canAcquire\<close> itself consumes nothing and counts nothing.
\<close>

theorem canAcquire_predicts:
  "fst (canAcquire config now st) = fst (acquire config now st) \<and>
   snd (canAcquire config now st) = refill config now st \<and>
   fst (acquire config now (snd (canAcquire config now st))) = fst (acquire config now st)"
  by (auto simp: canAcquire_def acquire_def refill_def Let_def)

end
