(* ===== verification/Failure_Classifier.thy ===== *)
theory Failure_Classifier
  imports Retry_Model "HOL-Library.Product_Lexorder"
begin

text \<open>
  The failure classifier of src/src/retry/engine/failure-classifier.ts. The regular-expression
  engine of JavaScript is the parameter \<open>re\<close>: \<open>re pattern subject\<close> is the answer of
  \<open>new RegExp(pattern, "i").test(subject)\<close>. The built-in patterns are kept as the source
  writes them, so every theorem holds whatever the engine answers. Rejected patterns (the
  ReDoS screen) never reach classification: \<open>registerCustomRule\<close> throws on them, and the
  built-in ones pass it.
\<close>

section \<open>Data\<close>

type_synonym regexp = "string \<Rightarrow> string \<Rightarrow> bool"

record FridayClassifyFailureError =
  ce_errorCode :: "string option"
  ce_errorMessage :: "string option"
  ce_httpStatusCode :: "int option"

record ClassificationCandidate =
  cc_category :: FridayFailureCategory
  cc_severity :: FridayFailureSeverity
  cc_source :: FridayFailureClassificationSource
  cc_confidence :: int

definition failure_class ::
    "FridayFailureCategory \<Rightarrow> string \<Rightarrow> bool \<Rightarrow> FridayFailureSeverity \<Rightarrow> int \<Rightarrow> int list
     \<Rightarrow> string list \<Rightarrow> string list \<Rightarrow> FridayFailureClass" where
  "failure_class c d r s n hs es ps =
     \<lparr>fc_category = c, fc_description = d, retryableByDefault = r, defaultSeverity = s,
      defaultMaxAttempts = n, httpStatusCodes = hs, errorCodes = es, errorMessagePatterns = ps\<rparr>"

definition FAILURE_CLASS_DEFINITIONS :: "FridayFailureClass list" where
  "FAILURE_CLASS_DEFINITIONS =
     [failure_class Rate_Limit ''Rate-limited by upstream provider or API gateway'' True Minor 5
        [429] [''RATE_LIMIT'', ''RATE_LIMIT_EXCEEDED'', ''THROTTLED'', ''TOO_MANY_REQUESTS'']
        [''rate.?limit'', ''throttl'', ''too many requests'', ''quota exceeded''],
      failure_class Timeout ''Execution or gateway timeout'' True Major 2
        [408, 504] [''NODE_EXECUTION_TIMEOUT'', ''NODE_TIMEOUT'', ''ETIMEDOUT'', ''ESOCKETTIMEDOUT'']
        [''timeout'', ''timed.?out'', ''deadline exceeded''],
      failure_class Transient ''Temporary network or server errors'' True Minor 3
        [500, 502, 503]
        [''ECONNRESET'', ''ECONNREFUSED'', ''ENOTFOUND'', ''EPIPE'', ''EAI_AGAIN'', ''NODE_INTERNAL_ERROR'']
        [''network error'', ''connection reset'', ''connection refused'', ''dns resolution'',
         ''socket hang up'', ''econnreset'', ''internal server error'', ''service unavailable'',
         ''bad gateway''],
      failure_class Resource ''Resource exhaustion (memory, disk, quota)'' True Major 2
        [507, 413] [''ENOMEM'', ''ENOSPC'', ''QUOTA_EXCEEDED'']
        [''out of memory'', ''disk full'', ''quota'', ''insufficient.?resources'', ''capacity'', ''storage''],
      failure_class Auth ''Authentication or authorization failure'' False Critical 0
        [401, 403]
        [''NODE_PRE_RULES_DENIED'', ''NODE_POST_RULES_DENIED'', ''PRE_RULES_DENIED'', ''POST_RULES_DENIED'']
        [''unauthorized'', ''forbidden'', ''auth'', ''token expired'', ''credential'', ''permission denied''],
      failure_class Logic ''Application logic or validation errors'' False Major 0
        [400, 404, 405, 409, 422]
        [''NODE_VALIDATION_FAILED'', ''NODE_INPUT_SCHEMA_INVALID'', ''NODE_OUTPUT_SCHEMA_INVALID'',
         ''VALIDATION_FAILED'']
        [''validation'', ''invalid input'', ''not found'', ''assertion'', ''schema''],
      failure_class Unknown ''Unclassified failure'' False Info 1 [] [] []]"

section \<open>Helpers\<close>

definition categoryPriority :: "FridayFailureCategory \<Rightarrow> nat" where
  "categoryPriority category =
     (case find_index (\<lambda>c. c = category) FRIDAY_FAILURE_CATEGORY_PRIORITY of
        Some i \<Rightarrow> i | None \<Rightarrow> length FRIDAY_FAILURE_CATEGORY_PRIORITY)"

text \<open>
  The comparator orders by priority and then by descending confidence, a lexicographic order on
  pairs; \<open>Array.prototype.sort\<close> is stable, as \<open>sort_key\<close> is.
\<close>

definition candidate_key :: "ClassificationCandidate \<Rightarrow> int \<times> int" where
  "candidate_key c = (int (categoryPriority (cc_category c)), - cc_confidence c)"

definition selectBestCandidate ::
    "ClassificationCandidate list \<Rightarrow> ClassificationCandidate option" where
  "selectBestCandidate candidates =
     (case sort_key candidate_key candidates of [] \<Rightarrow> None | c # _ \<Rightarrow> Some c)"

definition matchesMessagePattern :: "regexp \<Rightarrow> string \<Rightarrow> string list \<Rightarrow> bool" where
  "matchesMessagePattern re message patterns =
     (let lower = js_lower message in list_ex (\<lambda>p. re p lower) patterns)"

definition RATE_LIMIT_CODE_RE :: string where
  "RATE_LIMIT_CODE_RE =
     ''(?:^|[_-])(?:RATE[_-]?LIMIT|THROTTLED|TOO[_-]?MANY[_-]?REQUESTS)(?:$|[_-])''"

definition RATE_LIMIT_MESSAGE_RE :: string where
  "RATE_LIMIT_MESSAGE_RE =
     ''(?:'' @ [CHR 0x5C] @ ''b429'' @ [CHR 0x5C] @
     ''b|rate.?limit|throttl|too many requests|quota exceeded)''"

definition hasRateLimitErrorCode :: "regexp \<Rightarrow> string option \<Rightarrow> bool" where
  "hasRateLimitErrorCode re errorCode =
     (case errorCode of Some code \<Rightarrow> re RATE_LIMIT_CODE_RE code | None \<Rightarrow> False)"

definition hasRateLimitMessage :: "regexp \<Rightarrow> string option \<Rightarrow> bool" where
  "hasRateLimitMessage re errorMessage =
     (case errorMessage of Some msg \<Rightarrow> re RATE_LIMIT_MESSAGE_RE msg | None \<Rightarrow> False)"

definition getFailureClass :: "FridayFailureCategory \<Rightarrow> FridayFailureClass" where
  "getFailureClass category =
     (case find (\<lambda>fc. fc_category fc = category) FAILURE_CLASS_DEFINITIONS of
        Some fc \<Rightarrow> fc | None \<Rightarrow> last FAILURE_CLASS_DEFINITIONS)"

text \<open>A string used as a condition is false when empty.\<close>

definition truthy :: "string option \<Rightarrow> string option" where
  "truthy s = (case s of Some t \<Rightarrow> if t = [] then None else Some t | None \<Rightarrow> None)"

section \<open>The classification chain\<close>

definition candidate ::
    "FridayFailureCategory \<Rightarrow> FridayFailureSeverity \<Rightarrow> FridayFailureClassificationSource \<Rightarrow> int
     \<Rightarrow> ClassificationCandidate" where
  "candidate c s src conf = \<lparr>cc_category = c, cc_severity = s, cc_source = src, cc_confidence = conf\<rparr>"

definition match_rule ::
    "regexp \<Rightarrow> FridayClassifyFailureError \<Rightarrow> FridayCustomClassificationRule
     \<Rightarrow> ClassificationCandidate option" where
  "match_rule re err rule =
     (if rule_httpStatusCode rule \<noteq> None \<and> rule_httpStatusCode rule = ce_httpStatusCode err
      then Some (candidate (rule_category rule) (rule_severity rule) Custom_Rule 95)
      else if (case (truthy (errorCodePattern rule), truthy (ce_errorCode err)) of
                 (Some p, Some v) \<Rightarrow> re p v | _ \<Rightarrow> False)
      then Some (candidate (rule_category rule) (rule_severity rule) Custom_Rule 90)
      else if (case (truthy (errorMessagePattern rule), truthy (ce_errorMessage err)) of
                 (Some p, Some v) \<Rightarrow> re p v | _ \<Rightarrow> False)
      then Some (candidate (rule_category rule) (rule_severity rule) Custom_Rule 85)
      else None)"

fun first_match :: "('a \<Rightarrow> 'b option) \<Rightarrow> 'a list \<Rightarrow> 'b option" where
  "first_match f [] = None"
| "first_match f (x # xs) = or_else (f x) (first_match f xs)"

definition classifyByCustomRules ::
    "regexp \<Rightarrow> FridayCustomClassificationRule list \<Rightarrow> FridayClassifyFailureError
     \<Rightarrow> ClassificationCandidate option" where
  "classifyByCustomRules re customRules err =
     first_match (match_rule re err) (sort_key rule_priority customRules)"

definition classifyByRetryHint :: "FridayRetryHint \<Rightarrow> ClassificationCandidate" where
  "classifyByRetryHint hint =
     (if \<not> hint_retryable hint then candidate Logic Major Retry_Hint 80
      else if hint_backoff hint = Some Backoff_Fixed then candidate Rate_Limit Minor Retry_Hint 70
      else candidate Transient Minor Retry_Hint 65)"

definition classifyByHttpStatus :: "int \<Rightarrow> ClassificationCandidate option" where
  "classifyByHttpStatus status =
     (case find (\<lambda>fc. status \<in> set (httpStatusCodes fc)) FAILURE_CLASS_DEFINITIONS of
        Some fc \<Rightarrow> Some (candidate (fc_category fc) (defaultSeverity fc) Http_Status 90)
      | None \<Rightarrow>
          if status \<ge> 400 \<and> status < 500 then Some (candidate Logic Major Http_Status 50)
          else if status \<ge> 500 then Some (candidate Transient Minor Http_Status 50)
          else None)"

definition classifyByErrorCode :: "string \<Rightarrow> ClassificationCandidate option" where
  "classifyByErrorCode code =
     (case find (\<lambda>fc. code \<in> set (errorCodes fc)) FAILURE_CLASS_DEFINITIONS of
        Some fc \<Rightarrow> Some (candidate (fc_category fc) (defaultSeverity fc) Error_Code 85)
      | None \<Rightarrow> None)"

definition classifyByErrorMessage :: "regexp \<Rightarrow> string \<Rightarrow> ClassificationCandidate option" where
  "classifyByErrorMessage re msg =
     selectBestCandidate
       (map (\<lambda>fc. candidate (fc_category fc) (defaultSeverity fc) Error_Message 60)
         (filter (\<lambda>fc. errorMessagePatterns fc \<noteq> [] \<and> matchesMessagePattern re msg (errorMessagePatterns fc))
           FAILURE_CLASS_DEFINITIONS))"

definition rate_limit_candidate ::
    "regexp \<Rightarrow> FridayClassifyFailureError \<Rightarrow> ClassificationCandidate option" where
  "rate_limit_candidate re err =
     map_option
       (\<lambda>(src, conf). candidate Rate_Limit (defaultSeverity (getFailureClass Rate_Limit)) src conf)
       (if ce_httpStatusCode err = Some 429 then Some (Http_Status, 90)
        else if hasRateLimitErrorCode re (ce_errorCode err) then Some (Error_Code, 85)
        else if hasRateLimitMessage re (ce_errorMessage err) then Some (Error_Message, 60)
        else None)"

definition classification_candidate ::
    "regexp \<Rightarrow> FridayCustomClassificationRule list \<Rightarrow> FridayClassifyFailureError
     \<Rightarrow> FridayRetryHint option \<Rightarrow> ClassificationCandidate option" where
  "classification_candidate re customRules err retryHint =
     or_else (classifyByCustomRules re customRules err)
    (or_else (rate_limit_candidate re err)
    (or_else (map_option classifyByRetryHint retryHint)
    (or_else (Option.bind (ce_httpStatusCode err) classifyByHttpStatus)
    (or_else (Option.bind (truthy (ce_errorCode err)) classifyByErrorCode)
             (Option.bind (truthy (ce_errorMessage err)) (classifyByErrorMessage re))))))"

definition classifyInternal ::
    "regexp \<Rightarrow> FridayCustomClassificationRule list \<Rightarrow> UUID \<Rightarrow> ISODateTime
     \<Rightarrow> FridayClassifyFailureError \<Rightarrow> FridayRetryHint option \<Rightarrow> FridayClassifiedFailure" where
  "classifyInternal re customRules newId now err retryHint =
     (let cand = classification_candidate re customRules err retryHint;
          category = (case cand of Some c \<Rightarrow> cc_category c | None \<Rightarrow> Unknown);
          severity = (case cand of Some c \<Rightarrow> cc_severity c | None \<Rightarrow> Info);
          source = (case cand of Some c \<Rightarrow> cc_source c | None \<Rightarrow> Default_Source);
          confidence = (case cand of Some c \<Rightarrow> cc_confidence c | None \<Rightarrow> 10);
          fc = getFailureClass category
      in \<lparr>classificationId = newId, cf_category = category, cf_severity = severity,
          classificationSource = source, cf_confidence = confidence,
          originalErrorCode = ce_errorCode err, originalErrorMessage = ce_errorMessage err,
          cf_httpStatusCode = ce_httpStatusCode err,
          cf_retryAfterMs = Option.bind retryHint hint_retryAfterMs,
          cf_retryHint = retryHint, cf_retryable = retryableByDefault fc, classifiedAt = now\<rparr>)"

section \<open>Node execution results\<close>

text \<open>
  The second input shape, a node execution result: the fields the normalisation reads, with the
  numeric \<open>httpStatusCode\<close> of each step's metadata (\<open>None\<close> when absent or not a number).
\<close>

record node_result_view =
  nr_status :: string
  nr_stepHttpStatus :: "int option list"
  nr_errorCode :: "string option"
  nr_errorMessage :: "string option"

datatype ClassifyInput = ErrorInput FridayClassifyFailureError | ResultInput node_result_view

definition extractHttpStatusCode :: "node_result_view \<Rightarrow> int option" where
  "extractHttpStatusCode r = first_match id (nr_stepHttpStatus r)"

fun normalizeClassifyInput :: "ClassifyInput \<Rightarrow> FridayClassifyFailureError" where
  "normalizeClassifyInput (ErrorInput e) = e"
| "normalizeClassifyInput (ResultInput r) =
     (let status = extractHttpStatusCode r in
      case nr_errorCode r of
        Some code \<Rightarrow>
          \<lparr>ce_errorCode = Some code, ce_errorMessage = nr_errorMessage r, ce_httpStatusCode = status\<rparr>
      | None \<Rightarrow>
          (case nr_errorMessage r of
             Some msg \<Rightarrow> \<lparr>ce_errorCode = None, ce_errorMessage = Some msg, ce_httpStatusCode = status\<rparr>
           | None \<Rightarrow>
               (case status of
                  Some s \<Rightarrow> \<lparr>ce_errorCode = None, ce_errorMessage = None, ce_httpStatusCode = Some s\<rparr>
                | None \<Rightarrow>
                    \<lparr>ce_errorCode = None,
                     ce_errorMessage = Some (''Node execution failed with status '' @ [CHR 0x27] @
                       nr_status r @ [CHR 0x27]),
                     ce_httpStatusCode = None\<rparr>)))"

definition classify ::
    "regexp \<Rightarrow> FridayCustomClassificationRule list \<Rightarrow> UUID \<Rightarrow> ISODateTime \<Rightarrow> ClassifyInput
     \<Rightarrow> FridayRetryHint option \<Rightarrow> FridayClassifiedFailure" where
  "classify re customRules newId now input retryHint =
     classifyInternal re customRules newId now (normalizeClassifyInput input) retryHint"

text \<open>
  \<open>registerCustomRule\<close>: \<open>compile\<close> is \<open>precompileRegexPattern(_, "i")\<close>, which throws on a
  pattern that is invalid or judged unsafe.
\<close>

definition registerCustomRule ::
    "(string \<Rightarrow> unit result) \<Rightarrow> FridayCustomClassificationRule
     \<Rightarrow> FridayCustomClassificationRule list \<Rightarrow> unit result \<times> FridayCustomClassificationRule list" where
  "registerCustomRule compile rule customRules =
     (case (case truthy (errorCodePattern rule) of Some p \<Rightarrow> compile p | None \<Rightarrow> Inr ()) of
        Inl e \<Rightarrow> (Inl e, customRules)
      | Inr _ \<Rightarrow>
          (case (case truthy (errorMessagePattern rule) of Some p \<Rightarrow> compile p | None \<Rightarrow> Inr ()) of
             Inl e \<Rightarrow> (Inl e, customRules)
           | Inr _ \<Rightarrow> (Inr (), customRules @ [rule])))"

text \<open>The category of an HTTP status, as the table and its catch-alls intend it.\<close>

definition http_category :: "int \<Rightarrow> FridayFailureCategory" where
  "http_category status =
     (if status = 429 then Rate_Limit
      else if status \<in> {408, 504} then Timeout
      else if status \<in> {413, 507} then Resource
      else if status \<in> {401, 403} then Auth
      else if 400 \<le> status \<and> status < 500 then Logic
      else if 500 \<le> status then Transient
      else Unknown)"

definition message_matches :: "regexp \<Rightarrow> string \<Rightarrow> FridayFailureClass \<Rightarrow> bool" where
  "message_matches re msg fc \<longleftrightarrow>
     errorMessagePatterns fc \<noteq> [] \<and> matchesMessagePattern re msg (errorMessagePatterns fc)"

section \<open>Lemmas\<close>

lemma getFailureClass_retryable:
  "retryableByDefault (getFailureClass c) = (c \<in> {Rate_Limit, Timeout, Transient, Resource})"
  by (cases c) (simp_all add: getFailureClass_def FAILURE_CLASS_DEFINITIONS_def failure_class_def)

lemma getFailureClass_category: "fc_category (getFailureClass c) = c"
  by (cases c) (simp_all add: getFailureClass_def FAILURE_CLASS_DEFINITIONS_def failure_class_def)

lemma selectBestCandidate_None: "selectBestCandidate cs = None \<longleftrightarrow> cs = []"
  by (auto simp: selectBestCandidate_def split: list.splits dest: arg_cong [where f = length])

lemma selectBestCandidate_Some:
  assumes "selectBestCandidate cs = Some c"
  shows "c \<in> set cs \<and> (\<forall>d\<in>set cs. candidate_key c \<le> candidate_key d)"
proof -
  obtain rest where s: "sort_key candidate_key cs = c # rest"
    using assms by (auto simp: selectBestCandidate_def split: list.splits)
  have "sorted (map candidate_key (c # rest))" by (metis s sorted_sort_key)
  then have "\<forall>d\<in>set (c # rest). candidate_key c \<le> candidate_key d" by auto
  moreover have "set (c # rest) = set cs" by (metis s set_sort)
  ultimately show ?thesis by auto
qed

lemma first_match_Some: "first_match f xs = Some y \<Longrightarrow> \<exists>x\<in>set xs. f x = Some y"
  by (induction xs) (auto simp: or_else_def split: option.splits)

lemma first_match_None: "first_match f xs = None \<longleftrightarrow> (\<forall>x\<in>set xs. f x = None)"
  by (induction xs) (auto simp: or_else_def split: option.splits)

lemma classifyByHttpStatus_eq:
  "map_option cc_category (classifyByHttpStatus status) =
     (if 400 \<le> status then Some (http_category status) else None)"
  by (simp add: classifyByHttpStatus_def FAILURE_CLASS_DEFINITIONS_def failure_class_def
      candidate_def http_category_def)

lemma classifyByErrorMessage_eq:
  "classifyByErrorMessage re msg = selectBestCandidate
     (map (\<lambda>fc. candidate (fc_category fc) (defaultSeverity fc) Error_Message 60)
       (filter (message_matches re msg) FAILURE_CLASS_DEFINITIONS))"
  unfolding classifyByErrorMessage_def message_matches_def by simp

lemma candidate_confidence:
  "match_rule re err rule = Some c \<Longrightarrow> cc_confidence c \<in> {85, 90, 95} \<and> cc_source c = Custom_Rule"
  by (auto simp: match_rule_def candidate_def split: if_splits)

section \<open>Properties\<close>

text \<open>
  Whatever the rules, the hint and the error say, the \<open>retryable\<close> flag of a classified
  failure is that of its category: exactly rate limits, timeouts, transient and resource failures
  are retryable by default.
\<close>

theorem classified_retryable:
  "cf_retryable (classify re rules newId now input hint) =
     (cf_category (classify re rules newId now input hint) \<in> {Rate_Limit, Timeout, Transient, Resource})"
  by (simp add: classify_def classifyInternal_def Let_def getFailureClass_retryable)

text \<open>
  The order of the chain: a custom rule that matches decides (by ascending priority, the
  first registered among equals); otherwise a hard rate-limit signal (status 429, a rate-limit
  code or message) decides; only then is the retry hint consulted, even a non-retryable one.
\<close>

theorem classification_chain:
  "cf_category (classifyInternal re rules newId now err hint) =
     (case find (\<lambda>r. match_rule re err r \<noteq> None) (sort_key rule_priority rules) of
        Some rule \<Rightarrow> rule_category rule
      | None \<Rightarrow>
          if ce_httpStatusCode err = Some 429 \<or> hasRateLimitErrorCode re (ce_errorCode err) \<or>
             hasRateLimitMessage re (ce_errorMessage err)
          then Rate_Limit
          else case hint of
                 Some h \<Rightarrow>
                   if \<not> hint_retryable h then Logic
                   else if hint_backoff h = Some Backoff_Fixed then Rate_Limit else Transient
               | None \<Rightarrow> cf_category (classifyInternal re [] newId now err None))"
proof -
  have first: "map_option cc_category (first_match (match_rule re err) rs) =
      map_option rule_category (find (\<lambda>r. match_rule re err r \<noteq> None) rs)" for rs
    by (induction rs) (auto simp: match_rule_def candidate_def or_else_def split: option.splits)
  show ?thesis
  proof (cases "find (\<lambda>r. match_rule re err r \<noteq> None) (sort_key rule_priority rules)")
    case (Some rule)
    with first [of "sort_key rule_priority rules"]
    obtain c where "classifyByCustomRules re rules err = Some c" "cc_category c = rule_category rule"
      by (auto simp: classifyByCustomRules_def)
    with Some show ?thesis
      by (simp add: classifyInternal_def classification_candidate_def Let_def)
  next
    case None
    with first [of "sort_key rule_priority rules"]
    have "classifyByCustomRules re rules err = None"
      by (simp add: classifyByCustomRules_def)
    moreover have "classifyByCustomRules re [] err = None"
      by (simp add: classifyByCustomRules_def)
    ultimately show ?thesis
      using None
      by (auto simp: classifyInternal_def classification_candidate_def Let_def rate_limit_candidate_def
          candidate_def classifyByRetryHint_def split: option.splits)
  qed
qed

text \<open>
  An HTTP error status is always classified, by the table or its catch-alls, when nothing
  earlier in the chain applies: no status from 400 up ends as \<open>unknown\<close>.
\<close>

theorem http_status_classified:
  assumes "ce_httpStatusCode err = Some status" and "400 \<le> status"
    and "\<not> hasRateLimitErrorCode re (ce_errorCode err)" and "\<not> hasRateLimitMessage re (ce_errorMessage err)"
  shows "cf_category (classifyInternal re [] newId now err None) = http_category status"
proof -
  have no_rule: "classifyByCustomRules re [] err = None"
    by (simp add: classifyByCustomRules_def)
  obtain c where c: "classifyByHttpStatus status = Some c" "cc_category c = http_category status"
    using classifyByHttpStatus_eq [of status] assms(2) by auto
  show ?thesis
    using assms c no_rule
    by (auto simp: classifyInternal_def classification_candidate_def Let_def rate_limit_candidate_def
        candidate_def http_category_def)
qed

theorem http_status_classified_witness:
  "cf_category (classifyInternal (\<lambda>_ _. False) [] ''id'' ''now''
     \<lparr>ce_errorCode = Some ''EPIPE'', ce_errorMessage = None, ce_httpStatusCode = Some 418\<rparr> None) = Logic"
  using http_status_classified [of "\<lparr>ce_errorCode = Some ''EPIPE'', ce_errorMessage = None,
      ce_httpStatusCode = Some 418\<rparr>" 418 "\<lambda>_ _. False" "''id''" "''now''"]
  by (simp add: hasRateLimitErrorCode_def hasRateLimitMessage_def http_category_def)

text \<open>
  The message heuristic chooses, among the categories whose patterns match, the one of
  highest taxonomy priority, and gives up exactly when no pattern matches.
\<close>

theorem message_heuristic_best:
  "case classifyByErrorMessage re msg of
     None \<Rightarrow> list_all (\<lambda>fc. \<not> message_matches re msg fc) FAILURE_CLASS_DEFINITIONS
   | Some c \<Rightarrow>
       list_ex (\<lambda>fc. message_matches re msg fc \<and> fc_category fc = cc_category c) FAILURE_CLASS_DEFINITIONS \<and>
       list_all (\<lambda>fc. categoryPriority (cc_category c) \<le> categoryPriority (fc_category fc))
         (filter (message_matches re msg) FAILURE_CLASS_DEFINITIONS)"
proof (cases "classifyByErrorMessage re msg")
  case None
  then have "list_all (\<lambda>fc. \<not> message_matches re msg fc) FAILURE_CLASS_DEFINITIONS"
    by (simp add: classifyByErrorMessage_eq selectBestCandidate_None filter_empty_conv list_all_iff)
  with None show ?thesis by simp
next
  case (Some c)
  let ?fcs = "filter (message_matches re msg) FAILURE_CLASS_DEFINITIONS"
  note best = selectBestCandidate_Some [OF Some [unfolded classifyByErrorMessage_eq]]
  have "\<forall>fc\<in>set ?fcs. categoryPriority (cc_category c) \<le> categoryPriority (fc_category fc)"
    using best by (fastforce simp: candidate_key_def candidate_def less_eq_prod_def)
  moreover have "\<exists>fc\<in>set ?fcs. fc_category fc = cc_category c"
    using best by (auto simp: candidate_def)
  ultimately show ?thesis
    using Some by (auto simp: list_all_iff list_ex_iff)
qed

end
