(* ===== verification/Retry_Orchestrator.thy ===== *)
theory Retry_Orchestrator
  imports Retry_Context Retry_Budget Failure_Classifier
begin

text \<open>
  The retry orchestrator of src/src/retry/engine/retry-orchestrator.ts and its wiring in
  production-retry-bridge.ts. The state shared between calls (the \<open>world\<close>) is the context
  tracker and the retry budget. What the loop observes from outside is the record \<open>orch_env\<close>: the
  outcome of \<open>fn(n)\<close>, the clock readings, the random numbers of the jitter, and what other
  code does to the shared state while this call is suspended in \<open>await fn(n)\<close> or
  \<open>await sleep(...)\<close>. The classifier is a dependency of the orchestrator and stays one here.
\<close>

section \<open>Errors as the code sees them\<close>

text \<open>An unknown thrown value: an object whose probed properties may have any type, or a string.\<close>

datatype js_prim = JStr string | JNum int | JOther

record error_object =
  eo_errorCode :: "js_prim option"
  eo_code :: "js_prim option"
  eo_errorMessage :: "js_prim option"
  eo_message :: "js_prim option"
  eo_httpStatusCode :: "js_prim option"
  eo_statusCode :: "js_prim option"
  eo_status :: "js_prim option"

datatype js_error = ErrObject error_object | ErrString string | ErrOther

definition js_str :: "js_prim option \<Rightarrow> string option" where
  "js_str p = (case p of Some (JStr s) \<Rightarrow> Some s | _ \<Rightarrow> None)"

definition js_num :: "js_prim option \<Rightarrow> int option" where
  "js_num p = (case p of Some (JNum n) \<Rightarrow> Some n | _ \<Rightarrow> None)"

fun toClassifyFailureError :: "js_error \<Rightarrow> FridayClassifyFailureError" where
  "toClassifyFailureError (ErrObject e) =
     (let errorCode = or_else (js_str (eo_errorCode e)) (js_str (eo_code e));
          errorMessage = or_else (js_str (eo_errorMessage e)) (js_str (eo_message e));
          httpStatusCode = or_else (js_num (eo_httpStatusCode e))
            (or_else (js_num (eo_statusCode e)) (js_num (eo_status e)))
      in if errorCode \<noteq> None
         then \<lparr>ce_errorCode = errorCode, ce_errorMessage = errorMessage, ce_httpStatusCode = httpStatusCode\<rparr>
         else if errorMessage \<noteq> None
         then \<lparr>ce_errorCode = None, ce_errorMessage = errorMessage, ce_httpStatusCode = httpStatusCode\<rparr>
         else if httpStatusCode \<noteq> None
         then \<lparr>ce_errorCode = None, ce_errorMessage = None, ce_httpStatusCode = httpStatusCode\<rparr>
         else \<lparr>ce_errorCode = None, ce_errorMessage = Some ''Unknown retry failure'',
               ce_httpStatusCode = None\<rparr>)"
| "toClassifyFailureError (ErrString s) =
     \<lparr>ce_errorCode = None, ce_errorMessage = Some s, ce_httpStatusCode = None\<rparr>"
| "toClassifyFailureError ErrOther =
     \<lparr>ce_errorCode = None, ce_errorMessage = Some ''Unknown retry failure'', ce_httpStatusCode = None\<rparr>"

definition defaultAttemptOutcome ::
    "js_error \<Rightarrow> FridayClassifiedFailure \<Rightarrow> FridayRetryAttemptOutcome" where
  "defaultAttemptOutcome err failure =
     (if cf_category failure = Timeout then Timed_Out
      else case err of
             ErrObject e \<Rightarrow>
               (case or_else (js_str (eo_errorCode e)) (js_str (eo_code e)) of
                  Some code \<Rightarrow>
                    if code \<noteq> [] \<and> str_includes (js_upper code) ''TIMEOUT'' then Timed_Out else Failure
                | None \<Rightarrow> Failure)
           | _ \<Rightarrow> Failure)"

text \<open>A \<open>FridayDomainError\<close> caught by the \<open>catch\<close> block: it has \<open>code\<close> and \<open>message\<close>.\<close>

definition domain_error_object :: "friday_error \<Rightarrow> js_error" where
  "domain_error_object e =
     ErrObject \<lparr>eo_errorCode = None, eo_code = Some (JStr (err_code e)), eo_errorMessage = None,
                eo_message = Some (JStr (err_message e)), eo_httpStatusCode = None,
                eo_statusCode = None, eo_status = None\<rparr>"

section \<open>Configuration and environment\<close>

record RetryAttemptCostEstimatorArgs =
  ea_attemptNumber :: int
  ea_error :: "js_error option"
  ea_classifiedFailure :: "FridayClassifiedFailure option"
  ea_decision :: "FridayRetryDecision option"

record RetryWithPolicyConfig =
  rw_runId :: UUID
  rw_workflowId :: UUID
  rw_nodeId :: string
  rw_strategies :: "FridayRetryStrategy list"
  rw_costBudget :: FridayRetryCostBudget
  rw_retryHint :: "FridayRetryHint option"
  rw_maxExecutionAttempts :: "int option"
  rw_estimateAttemptCost :: "(RetryAttemptCostEstimatorArgs \<Rightarrow> FridayRetryCostDimensions) option"
  rw_classifyInputFromError :: "(js_error \<Rightarrow> FridayClassifyFailureError) option"
  rw_mapAttemptOutcome :: "(js_error \<Rightarrow> FridayClassifiedFailure \<Rightarrow> FridayRetryAttemptOutcome) option"

record world =
  w_tracker :: tracker
  w_budget :: RetryBudgetState

record RetryOrchestratorConfig =
  oc_classify :: "FridayClassifyFailureError \<Rightarrow> FridayRetryHint option \<Rightarrow> FridayClassifiedFailure"
  oc_retryBudget :: "RetryBudgetConfig option"

record 'r orch_env =
  env_fn :: "int \<Rightarrow> js_error + 'r"
  env_iso :: "int \<Rightarrow> nat \<Rightarrow> ISODateTime"
  env_ms :: "int \<Rightarrow> int"
  env_random :: "int \<Rightarrow> rat"
  env_during_fn :: "int \<Rightarrow> world \<Rightarrow> world"
  env_during_sleep :: "int \<Rightarrow> world \<Rightarrow> world"

record RetryOrchestrationError =
  oe_message :: string
  oe_lastError :: "js_error option"
  oe_lastDecision :: "FridayRetryDecision option"
  oe_contextSnapshot :: "RetryContextState option"

datatype 'r retry_outcome =
    Returned 'r
  | Threw RetryOrchestrationError
  | ThrewDomain friday_error

definition orch_key :: "RetryWithPolicyConfig \<Rightarrow> RetryContextKey" where
  "orch_key cfg = \<lparr>key_runId = rw_runId cfg, key_nodeId = rw_nodeId cfg\<rparr>"

definition estimate :: "RetryWithPolicyConfig \<Rightarrow> RetryAttemptCostEstimatorArgs \<Rightarrow> FridayRetryCostDimensions" where
  "estimate cfg args = (case rw_estimateAttemptCost cfg of Some f \<Rightarrow> f args | None \<Rightarrow> ZERO_COST)"

definition classify_input :: "RetryWithPolicyConfig \<Rightarrow> js_error \<Rightarrow> FridayClassifyFailureError" where
  "classify_input cfg err =
     (case rw_classifyInputFromError cfg of Some f \<Rightarrow> f err | None \<Rightarrow> toClassifyFailureError err)"

definition attempt_outcome ::
    "RetryWithPolicyConfig \<Rightarrow> js_error \<Rightarrow> FridayClassifiedFailure \<Rightarrow> FridayRetryAttemptOutcome" where
  "attempt_outcome cfg err failure =
     (case rw_mapAttemptOutcome cfg of
        Some f \<Rightarrow> f err failure | None \<Rightarrow> defaultAttemptOutcome err failure)"

definition orch_error ::
    "string \<Rightarrow> js_error option \<Rightarrow> FridayRetryDecision option \<Rightarrow> RetryContextKey \<Rightarrow> world
     \<Rightarrow> 'r retry_outcome" where
  "orch_error msg err dec key w =
     Threw \<lparr>oe_message = msg, oe_lastError = err, oe_lastDecision = dec,
            oe_contextSnapshot = getContext key (w_tracker w)\<rparr>"

section \<open>One attempt\<close>

text \<open>The permit: only a retry (not the first attempt) takes one, and only if there is a budget.\<close>

datatype permit = NotNeeded | Granted | Denied

definition acquire_permit ::
    "RetryOrchestratorConfig \<Rightarrow> 'r orch_env \<Rightarrow> int \<Rightarrow> world \<Rightarrow> permit \<times> world" where
  "acquire_permit oc env n w =
     (case oc_retryBudget oc of
        Some bc \<Rightarrow>
          if n > 1
          then let (ok, b) = acquire bc (env_ms env n) (w_budget w)
               in (if ok then Granted else Denied, w\<lparr>w_budget := b\<rparr>)
          else (NotNeeded, w)
      | None \<Rightarrow> (NotNeeded, w))"

text \<open>The \<open>finally\<close> block.\<close>

definition release_permit :: "permit \<Rightarrow> world \<Rightarrow> world" where
  "release_permit p w = (if p = Granted then w\<lparr>w_budget := release (w_budget w)\<rparr> else w)"

definition budget_denied ::
    "'r orch_env \<Rightarrow> RetryWithPolicyConfig \<Rightarrow> int \<Rightarrow> FridayRetryDecision option \<Rightarrow> world
     \<Rightarrow> 'r retry_outcome \<times> world" where
  "budget_denied env cfg n lastDecision w =
     (let key = orch_key cfg in
      case getContext key (w_tracker w) of
        None \<Rightarrow> (orch_error ''Retry budget denied permit'' None lastDecision key w, w)
      | Some _ \<Rightarrow>
          (case markExhausted (env_iso env n 0) key (w_tracker w) of
             (Inl e, t) \<Rightarrow> (ThrewDomain e, w\<lparr>w_tracker := t\<rparr>)
           | (Inr _, t) \<Rightarrow>
               let w = w\<lparr>w_tracker := t\<rparr>
               in (orch_error ''Retry budget denied permit'' None lastDecision key w, w)))"

text \<open>After \<open>fn\<close> succeeded: a retry sequence under way is recorded as recovered.\<close>

definition record_success ::
    "'r orch_env \<Rightarrow> RetryWithPolicyConfig \<Rightarrow> int \<Rightarrow> rat \<Rightarrow> FridayClassifiedFailure option
     \<Rightarrow> FridayRetryDecision option \<Rightarrow> world \<Rightarrow> unit result \<times> world" where
  "record_success env cfg n delayBefore lastFailure lastDecision w =
     (case (lastFailure, lastDecision) of
        (Some failure, Some decision) \<Rightarrow>
          (let params = \<lparr>rp_classifiedFailure = failure, rp_decision = decision,
                         rp_delayMs = delayBefore, rp_outcome = Success,
                         rp_cost = estimate cfg \<lparr>ea_attemptNumber = n, ea_error = None,
                           ea_classifiedFailure = None, ea_decision = Some decision\<rparr>,
                         rp_startedAt = env_iso env n 1, rp_completedAt = env_iso env n 2,
                         rp_errorCode = None, rp_errorMessage = None\<rparr>
           in case recordAttempt (env_iso env n 3) (orch_key cfg) params (w_tracker w) of
                (Inl e, t) \<Rightarrow> (Inl e, w\<lparr>w_tracker := t\<rparr>)
              | (Inr _, t) \<Rightarrow> (Inr (), w\<lparr>w_tracker := t\<rparr>))
      | _ \<Rightarrow> (Inr (), w))"

text \<open>
  The \<open>catch\<close> block up to the sleep: either the call ends (\<open>Inl\<close>) or it goes on with the
  delay, the failure and the decision (\<open>Inr\<close>).
\<close>

definition ensure_context ::
    "'r orch_env \<Rightarrow> RetryWithPolicyConfig \<Rightarrow> int \<Rightarrow> FridayFailureCategory \<Rightarrow> tracker \<Rightarrow> tracker" where
  "ensure_context env cfg n category t =
     (if getContext (orch_key cfg) t = None
      then snd (initContext (env_iso env n 4) (env_iso env n 5)
             \<lparr>init_runId = rw_runId cfg, init_workflowId = rw_workflowId cfg,
              init_nodeId = rw_nodeId cfg, init_category = category\<rparr> t)
      else t)"

definition attempt_cost ::
    "RetryWithPolicyConfig \<Rightarrow> int \<Rightarrow> js_error \<Rightarrow> FridayClassifiedFailure \<Rightarrow> FridayRetryDecision option
     \<Rightarrow> FridayRetryCostDimensions" where
  "attempt_cost cfg n err failure decision =
     estimate cfg \<lparr>ea_attemptNumber = n, ea_error = Some err, ea_classifiedFailure = Some failure,
                   ea_decision = decision\<rparr>"

definition attempt_decision ::
    "'r orch_env \<Rightarrow> RetryWithPolicyConfig \<Rightarrow> int \<Rightarrow> FridayClassifiedFailure \<Rightarrow> FridayRetryCostDimensions
     \<Rightarrow> tracker \<Rightarrow> FridayRetryDecision" where
  "attempt_decision env cfg n failure cost t =
     buildRetryDecision failure
       \<lparr>ctx_runId = rw_runId cfg, ctx_workflowId = rw_workflowId cfg, ctx_nodeId = rw_nodeId cfg,
        currentAttemptNumber = n, nodeRetryPolicy = None, retryPolicyId = None,
        accumulatedCost = getAccumulatedCost (orch_key cfg) t,
        currentAttemptCost = Some cost, costBudget = rw_costBudget cfg\<rparr>
       (rw_strategies cfg) (env_iso env n 6) (env_random env n)"

definition end_with_mark ::
    "'r orch_env \<Rightarrow> RetryWithPolicyConfig \<Rightarrow> int \<Rightarrow> js_error option \<Rightarrow> FridayRetryDecision option \<Rightarrow> string
     \<Rightarrow> bool \<Rightarrow> world \<Rightarrow> 'r retry_outcome \<times> world" where
  "end_with_mark env cfg n err dec msg exhaust w =
     (let key = orch_key cfg;
          mark = (if exhaust then markExhausted else markEscalated)
      in case mark (env_iso env n 7) key (w_tracker w) of
           (Inl e, t) \<Rightarrow> (ThrewDomain e, w\<lparr>w_tracker := t\<rparr>)
         | (Inr _, t) \<Rightarrow>
             let w = w\<lparr>w_tracker := t\<rparr> in (orch_error msg err dec key w, w))"

definition handle_failure ::
    "RetryOrchestratorConfig \<Rightarrow> 'r orch_env \<Rightarrow> RetryWithPolicyConfig \<Rightarrow> int \<Rightarrow> js_error \<Rightarrow> rat
     \<Rightarrow> FridayRetryDecision option \<Rightarrow> world
     \<Rightarrow> ('r retry_outcome + rat \<times> FridayClassifiedFailure \<times> FridayRetryDecision) \<times> world" where
  "handle_failure oc env cfg n err delayBefore lastDecision w =
     (let key = orch_key cfg;
          input = classify_input cfg err;
          failure = oc_classify oc input (rw_retryHint cfg);
          t = ensure_context env cfg n (cf_category failure) (w_tracker w);
          cost = attempt_cost cfg n err failure lastDecision;
          decision = attempt_decision env cfg n failure cost t;
          params = \<lparr>rp_classifiedFailure = failure, rp_decision = decision, rp_delayMs = delayBefore,
                    rp_outcome = attempt_outcome cfg err failure, rp_cost = cost,
                    rp_startedAt = env_iso env n 8, rp_completedAt = env_iso env n 9,
                    rp_errorCode = ce_errorCode input, rp_errorMessage = ce_errorMessage input\<rparr>
      in case recordAttempt (env_iso env n 10) key params t of
           (Inl e, t) \<Rightarrow> (Inl (ThrewDomain e), w\<lparr>w_tracker := t\<rparr>)
         | (Inr _, t) \<Rightarrow>
             (let w = w\<lparr>w_tracker := t\<rparr>;
                  projected = addCosts (getAccumulatedCost key t)
                    (attempt_cost cfg (n + 1) err failure (Some decision))
              in if shouldRetry decision \<and> \<not> isWithinBudget projected (rw_costBudget cfg)
                 then let budgetDecision = decision\<lparr>shouldRetry := False, nextAttemptNumber := n,
                            delayMs := 0, reason := ''Retry cost budget exceeded'',
                            budgetConstrained := True, dec_escalate := True\<rparr>
                      in apfst Inl (end_with_mark env cfg n (Some err) (Some budgetDecision)
                           (reason budgetDecision) True w)
                 else if \<not> shouldRetry decision
                 then apfst Inl (end_with_mark env cfg n (Some err) (Some decision) (reason decision)
                        (budgetConstrained decision \<or> \<not> dec_escalate decision) w)
                 else (Inr (delayMs decision, failure, decision), w)))"

section \<open>The loop\<close>

definition loop_exceeded ::
    "'r orch_env \<Rightarrow> RetryWithPolicyConfig \<Rightarrow> int \<Rightarrow> FridayRetryDecision option \<Rightarrow> world
     \<Rightarrow> 'r retry_outcome \<times> world" where
  "loop_exceeded env cfg maxN lastDecision w =
     (let key = orch_key cfg;
          msg = ''Retry loop exceeded safety limit ('' @ show_int maxN @ '' attempts)''
      in case getContext key (w_tracker w) of
           Some ctx \<Rightarrow>
             if rc_status ctx = In_Progress
             then end_with_mark env cfg (maxN + 1) None lastDecision msg
                    (case lastDecision of Some d \<Rightarrow> \<not> dec_escalate d | None \<Rightarrow> True) w
             else (orch_error msg None lastDecision key w, w)
         | None \<Rightarrow> (orch_error msg None lastDecision key w, w))"

text \<open>
  The body of the \<open>while\<close> loop for attempt \<open>n\<close>: it leaves the function (\<open>Inl\<close>) or goes round
  again (\<open>Inr\<close>). An error of \<open>recordAttempt\<close> after a success of \<open>fn\<close> is raised inside the
  \<open>try\<close> block and therefore handled like a failure of \<open>fn\<close>.
\<close>

definition catch_block ::
    "RetryOrchestratorConfig \<Rightarrow> 'r orch_env \<Rightarrow> RetryWithPolicyConfig \<Rightarrow> int \<Rightarrow> permit \<Rightarrow> rat
     \<Rightarrow> FridayRetryDecision option \<Rightarrow> js_error \<Rightarrow> world
     \<Rightarrow> 'r retry_outcome \<times> world + rat \<times> FridayClassifiedFailure \<times> FridayRetryDecision \<times> world" where
  "catch_block oc env cfg n p delayBefore lastDecision err w =
     (case handle_failure oc env cfg n err delayBefore lastDecision w of
        (Inl outcome, w') \<Rightarrow> Inl (outcome, release_permit p w')
      | (Inr (delay, failure, decision), w') \<Rightarrow>
          Inr (delay, failure, decision, release_permit p (env_during_sleep env n w')))"

definition attempt_step ::
    "RetryOrchestratorConfig \<Rightarrow> 'r orch_env \<Rightarrow> RetryWithPolicyConfig \<Rightarrow> int \<Rightarrow> rat
     \<Rightarrow> FridayClassifiedFailure option \<Rightarrow> FridayRetryDecision option \<Rightarrow> world
     \<Rightarrow> 'r retry_outcome \<times> world + rat \<times> FridayClassifiedFailure \<times> FridayRetryDecision \<times> world" where
  "attempt_step oc env cfg n delayBefore lastFailure lastDecision w =
     (case acquire_permit oc env n w of (p, w1) \<Rightarrow>
        if p = Denied then Inl (budget_denied env cfg n lastDecision w1)
        else
          (let w2 = env_during_fn env n w1 in
           case env_fn env n of
             Inl err \<Rightarrow> catch_block oc env cfg n p delayBefore lastDecision err w2
           | Inr r \<Rightarrow>
               (case record_success env cfg n delayBefore lastFailure lastDecision w2 of
                  (Inr _, w3) \<Rightarrow> Inl (Returned r, release_permit p w3)
                | (Inl e, w3) \<Rightarrow>
                    catch_block oc env cfg n p delayBefore lastDecision (domain_error_object e) w3)))"

function (sequential) retry_loop ::
    "RetryOrchestratorConfig \<Rightarrow> 'r orch_env \<Rightarrow> RetryWithPolicyConfig \<Rightarrow> int \<Rightarrow> int \<Rightarrow> rat
     \<Rightarrow> FridayClassifiedFailure option \<Rightarrow> FridayRetryDecision option \<Rightarrow> world
     \<Rightarrow> 'r retry_outcome \<times> world" where
  "retry_loop oc env cfg maxN k delayBefore lastFailure lastDecision w =
     (if k < maxN then
        (case attempt_step oc env cfg (k + 1) delayBefore lastFailure lastDecision w of
           Inl res \<Rightarrow> res
         | Inr (delay, failure, decision, w') \<Rightarrow>
             retry_loop oc env cfg maxN (k + 1) delay (Some failure) (Some decision) w')
      else loop_exceeded env cfg maxN lastDecision w)"
  by pat_completeness auto
termination
  by (relation "measure (\<lambda>(oc, env, cfg, maxN, k, d, lf, ld, w). nat (maxN - k))") auto

declare retry_loop.simps [simp del]

definition max_attempts :: "RetryWithPolicyConfig \<Rightarrow> int" where
  "max_attempts cfg = case_option 100 id (rw_maxExecutionAttempts cfg)"

definition retryWithPolicy ::
    "RetryOrchestratorConfig \<Rightarrow> 'r orch_env \<Rightarrow> RetryWithPolicyConfig \<Rightarrow> world
     \<Rightarrow> 'r retry_outcome \<times> world" where
  "retryWithPolicy oc env cfg w =
     (let maxN = max_attempts cfg in
      if maxN < 1
      then (ThrewDomain (validation_error ''maxExecutionAttempts must be >= 1''), w)
      else retry_loop oc env cfg maxN 0 0 None None w)"

section \<open>What other code does meanwhile\<close>

text \<open>Code that runs while the call is suspended and takes no permits of its own account.\<close>

definition keeps_permits :: "'r orch_env \<Rightarrow> bool" where
  "keeps_permits env \<longleftrightarrow>
     (\<forall>n w. activeRetries (w_budget (env_during_fn env n w)) = activeRetries (w_budget w) \<and>
            activeRetries (w_budget (env_during_sleep env n w)) = activeRetries (w_budget w))"

text \<open>Code that runs while the call is suspended and leaves the context of this call alone.\<close>

definition keeps_context :: "'r orch_env \<Rightarrow> RetryContextKey \<Rightarrow> bool" where
  "keeps_context env key \<longleftrightarrow>
     (\<forall>n w. getContext key (w_tracker (env_during_fn env n w)) = getContext key (w_tracker w) \<and>
            getContext key (w_tracker (env_during_sleep env n w)) = getContext key (w_tracker w))"

text \<open>The outcomes the call records for a failed attempt keep the trace open.\<close>

definition failing_outcomes :: "RetryWithPolicyConfig \<Rightarrow> bool" where
  "failing_outcomes cfg \<longleftrightarrow> (\<forall>err failure. attempt_outcome cfg err failure \<in> {Failure, Timed_Out})"

text \<open>How the trace of a finished call must look.\<close>

definition trace_closed :: "RetryWithPolicyConfig \<Rightarrow> 'r retry_outcome \<times> world \<Rightarrow> bool" where
  "trace_closed cfg res =
     (let ctx = getContext (orch_key cfg) (w_tracker (snd res)) in
      case fst res of
        Returned _ \<Rightarrow> ctx = None \<or> map_option rc_status ctx = Some Resolved
      | Threw e \<Rightarrow> ctx \<noteq> None \<and> oe_contextSnapshot e = ctx \<and>
          map_option rc_status ctx \<in> {Some Exhausted, Some Escalated}
      | ThrewDomain _ \<Rightarrow> False)"

text \<open>The trace while the call is under way: absent before the first failure, then open.\<close>

definition trace_open :: "RetryWithPolicyConfig \<Rightarrow> int \<Rightarrow> FridayClassifiedFailure option \<Rightarrow>
    FridayRetryDecision option \<Rightarrow> world \<Rightarrow> bool" where
  "trace_open cfg k lf ld w =
     (case getContext (orch_key cfg) (w_tracker w) of
        None \<Rightarrow> k = 0 \<and> lf = None \<and> ld = None
      | Some ctx \<Rightarrow> rc_status ctx = In_Progress \<and> lf \<noteq> None \<and> ld \<noteq> None)"

text \<open>
  A call whose retries cost nothing and whose failures up to attempt \<open>m\<close> are all of retryable
  categories with enough attempts left.
\<close>

definition retries_allowed :: "RetryOrchestratorConfig \<Rightarrow> RetryWithPolicyConfig \<Rightarrow> int \<Rightarrow> js_error \<Rightarrow> bool" where
  "retries_allowed oc cfg n err =
     (case findStrategyForCategory (rw_strategies cfg)
             (cf_category (oc_classify oc (classify_input cfg err) (rw_retryHint cfg))) of
        Some s \<Rightarrow> strategy_type s \<noteq> St_None \<and> n < maxAttempts (str_base s)
      | None \<Rightarrow> False)"

definition free_of_charge :: "RetryWithPolicyConfig \<Rightarrow> bool" where
  "free_of_charge cfg \<longleftrightarrow>
     rw_estimateAttemptCost cfg = None \<and>
     isWithinBudget ZERO_COST (rw_costBudget cfg) \<and>
     pred_option (isWithinPerAttemptBudget ZERO_COST) (maxCostPerAttempt (rw_costBudget cfg))"

text \<open>Concrete values used by the witnesses.\<close>

definition sample_world :: world where
  "sample_world = \<lparr>w_tracker = map_empty,
     w_budget = \<lparr>rb_tokens = 10, lastRefillAt = 0, activeRetries = 0, totalGranted = 0, totalDenied = 0\<rparr>\<rparr>"

definition sample_orch :: RetryOrchestratorConfig where
  "sample_orch = \<lparr>oc_classify = \<lambda>_ _. sample_failure Transient None, oc_retryBudget = None\<rparr>"

definition sample_cfg :: RetryWithPolicyConfig where
  "sample_cfg =
     \<lparr>rw_runId = ''run'', rw_workflowId = ''wf'', rw_nodeId = ''node'',
      rw_strategies = buildDefaultRetryStrategies, rw_costBudget = DEFAULT_PRODUCTION_COST_BUDGET,
      rw_retryHint = None, rw_maxExecutionAttempts = Some 10, rw_estimateAttemptCost = None,
      rw_classifyInputFromError = None, rw_mapAttemptOutcome = None\<rparr>"

text \<open>An environment in which the first \<open>m - 1\<close> attempts fail and nothing else happens.\<close>

definition sample_env :: "int \<Rightarrow> int orch_env" where
  "sample_env m =
     \<lparr>env_fn = (\<lambda>n. if n < m then Inl (ErrString ''boom'') else Inr (n * 10)),
      env_iso = (\<lambda>_ _. ''t''), env_ms = (\<lambda>n. n), env_random = (\<lambda>_. 1 / 2),
      env_during_fn = (\<lambda>_ w. w), env_during_sleep = (\<lambda>_ w. w)\<rparr>"

section \<open>Lemmas\<close>

lemma retry_loop_Inl:
  "k < maxN \<Longrightarrow> attempt_step oc env cfg (k + 1) d lf ld w = Inl res \<Longrightarrow>
   retry_loop oc env cfg maxN k d lf ld w = res"
  by (subst retry_loop.simps) simp

lemma retry_loop_Inr:
  "k < maxN \<Longrightarrow> attempt_step oc env cfg (k + 1) d lf ld w = Inr (d', f', dec', w') \<Longrightarrow>
   retry_loop oc env cfg maxN k d lf ld w = retry_loop oc env cfg maxN (k + 1) d' (Some f') (Some dec') w'"
  by (subst retry_loop.simps) simp

lemma retry_loop_end:
  "\<not> k < maxN \<Longrightarrow> retry_loop oc env cfg maxN k d lf ld w = loop_exceeded env cfg maxN ld w"
  by (subst retry_loop.simps) simp

lemma loop_rule [consumes 0, case_names step exceeded]:
  assumes step: "\<And>k d lf ld w res. k < maxN \<Longrightarrow> I k lf ld w \<Longrightarrow>
      attempt_step oc env cfg (k + 1) d lf ld w = Inl res \<Longrightarrow> Q res"
    and continue: "\<And>k d lf ld w d' f' dec' w'. k < maxN \<Longrightarrow> I k lf ld w \<Longrightarrow>
      attempt_step oc env cfg (k + 1) d lf ld w = Inr (d', f', dec', w') \<Longrightarrow>
      I (k + 1) (Some f') (Some dec') w'"
    and exceeded: "\<And>k lf ld w. \<not> k < maxN \<Longrightarrow> I k lf ld w \<Longrightarrow> Q (loop_exceeded env cfg maxN ld w)"
    and start: "I k lf ld w"
  shows "Q (retry_loop oc env cfg maxN k d lf ld w)"
  using start
proof (induction oc\<equiv>oc env\<equiv>env cfg\<equiv>cfg maxN\<equiv>maxN k d lf ld w rule: retry_loop.induct)
  case (1 k d lf ld w)
  show ?case
  proof (cases "k < maxN")
    case True
    show ?thesis
    proof (cases "attempt_step oc env cfg (k + 1) d lf ld w")
      case (Inl res)
      with step [OF True "1.prems" Inl] show ?thesis
        using retry_loop_Inl [OF True Inl] by simp
    next
      case (Inr c)
      obtain d' f' dec' w' where c: "c = (d', f', dec', w')" by (cases c)
      have "I (k + 1) (Some f') (Some dec') w'"
        using continue [OF True "1.prems"] Inr c by simp
      with "1.hyps" [OF True Inr c [symmetric] refl refl] have "Q (retry_loop oc env cfg maxN (k + 1) d' (Some f') (Some dec') w')"
        using c by simp
      then show ?thesis using retry_loop_Inr [OF True Inr [unfolded c]] by simp
    qed
  next
    case False
    with exceeded [OF False "1.prems"] show ?thesis by (simp add: retry_loop_end)
  qed
qed

lemma getContext_simps:
  "getContext key (map_set m (toMapKey key) ctx) = Some ctx"
  by (simp add: getContext_def)

text \<open>What the pieces of an attempt leave alone.\<close>

lemma end_with_mark_budget [simp]: "w_budget (snd (end_with_mark env cfg n err dec msg ex w)) = w_budget w"
  by (auto simp: end_with_mark_def Let_def split: prod.splits sum.splits)

lemma handle_failure_budget [simp]:
  "w_budget (snd (handle_failure oc env cfg n err d ld w)) = w_budget w"
  by (auto simp: handle_failure_def Let_def split: prod.splits sum.splits)

lemma record_success_budget [simp]:
  "w_budget (snd (record_success env cfg n d lf ld w)) = w_budget w"
  by (auto simp: record_success_def Let_def split: prod.splits sum.splits option.splits)

lemma budget_denied_budget [simp]:
  "w_budget (snd (budget_denied env cfg n ld w)) = w_budget w"
  by (auto simp: budget_denied_def Let_def split: prod.splits sum.splits option.splits)

lemma loop_exceeded_budget [simp]:
  "w_budget (snd (loop_exceeded env cfg maxN ld w)) = w_budget w"
  by (auto simp: loop_exceeded_def Let_def split: option.splits)

lemma acquire_permit_tracker [simp]: "w_tracker (snd (acquire_permit oc env n w)) = w_tracker w"
  by (auto simp: acquire_permit_def Let_def split: option.splits prod.splits)

lemma release_permit_tracker [simp]: "w_tracker (release_permit p w) = w_tracker w"
  by (simp add: release_permit_def)

lemma acquire_permit_held:
  "activeRetries (w_budget (snd (acquire_permit oc env n w))) =
     activeRetries (w_budget w) + (if fst (acquire_permit oc env n w) = Granted then 1 else 0)"
proof (cases "oc_retryBudget oc")
  case None
  then show ?thesis by (simp add: acquire_permit_def)
next
  case (Some bc)
  with budget.take_granted [of bc "env_ms env n" "w_budget w"]
    budget.take_denied [of bc "env_ms env n" "w_budget w"]
  show ?thesis by (auto simp: acquire_permit_def Let_def split: prod.splits)
qed

lemma release_permit_held:
  "(if p = Granted then 1 else 0) \<le> activeRetries (w_budget w) \<Longrightarrow>
   activeRetries (w_budget (release_permit p w)) =
     activeRetries (w_budget w) - (if p = Granted then 1 else 0)"
  using budget.give_held [of "w_budget w"] by (cases "p = Granted") (auto simp: release_permit_def)

lemma catch_block_held:
  assumes "keeps_permits env"
    and "(if p = Granted then 1 else 0) \<le> activeRetries (w_budget w)"
  shows "case catch_block oc env cfg n p d ld err w of
      Inl res \<Rightarrow> activeRetries (w_budget (snd res)) = activeRetries (w_budget w) - (if p = Granted then 1 else 0)
    | Inr (d', f', dec', w') \<Rightarrow>
        activeRetries (w_budget w') = activeRetries (w_budget w) - (if p = Granted then 1 else 0)"
proof -
  obtain x w' where h: "handle_failure oc env cfg n err d ld w = (x, w')" by fastforce
  then have b: "w_budget w' = w_budget w"
    using handle_failure_budget [of oc env cfg n err d ld w] by simp
  have "activeRetries (w_budget (release_permit p w'')) = activeRetries (w_budget w) - (if p = Granted then 1 else 0)"
    if "activeRetries (w_budget w'') = activeRetries (w_budget w)" for w''
    using release_permit_held [of p w''] that assms(2) by simp
  then show ?thesis
    using b assms(1) by (auto simp: catch_block_def h keeps_permits_def split: sum.splits prod.splits)
qed

lemma attempt_step_held:
  assumes "keeps_permits env" and "0 \<le> activeRetries (w_budget w)"
  shows "case attempt_step oc env cfg n d lf ld w of
      Inl res \<Rightarrow> activeRetries (w_budget (snd res)) = activeRetries (w_budget w)
    | Inr (d', f', dec', w') \<Rightarrow> activeRetries (w_budget w') = activeRetries (w_budget w)"
proof -
  obtain p w1 where a: "acquire_permit oc env n w = (p, w1)" by fastforce
  let ?w2 = "env_during_fn env n w1" and ?g = "if p = Granted then 1 else 0 :: int"
  have w1: "activeRetries (w_budget w1) = activeRetries (w_budget w) + ?g"
    using acquire_permit_held [of oc env n w] a by simp
  have w2: "activeRetries (w_budget ?w2) = activeRetries (w_budget w) + ?g"
    using w1 assms(1) by (simp add: keeps_permits_def)
  have catch: "case catch_block oc env cfg n p d ld err w3 of
      Inl res \<Rightarrow> activeRetries (w_budget (snd res)) = activeRetries (w_budget w)
    | Inr (d', f', dec', w') \<Rightarrow> activeRetries (w_budget w') = activeRetries (w_budget w)"
    if "w_budget w3 = w_budget ?w2" for err w3
    using catch_block_held [OF assms(1), of p w3 oc cfg n d ld err] that w2 assms(2)
    by (auto split: sum.splits prod.splits)
  show ?thesis
  proof (cases "p = Denied")
    case True
    then show ?thesis using w1 by (simp add: attempt_step_def a)
  next
    case False
    show ?thesis
    proof (cases "env_fn env n")
      case (Inl err)
      with False catch [of ?w2] show ?thesis by (simp add: attempt_step_def a)
    next
      case (Inr r)
      obtain y w3 where s: "record_success env cfg n d lf ld ?w2 = (y, w3)" by fastforce
      then have w3: "w_budget w3 = w_budget ?w2"
        using record_success_budget [of env cfg n d lf ld ?w2] by simp
      then have "activeRetries (w_budget (release_permit p w3)) = activeRetries (w_budget w)"
        using release_permit_held [of p w3] w2 assms(2) by simp
      with False Inr s w3 catch [of w3] show ?thesis
        by (cases y) (simp_all add: attempt_step_def a)
    qed
  qed
qed

lemma retry_loop_held:
  assumes "keeps_permits env" and "0 \<le> activeRetries (w_budget w)"
  shows "activeRetries (w_budget (snd (retry_loop oc env cfg maxN k d lf ld w))) = activeRetries (w_budget w)"
proof (rule loop_rule [where I = "\<lambda>_ _ _ w'. activeRetries (w_budget w') = activeRetries (w_budget w)"])
  show "activeRetries (w_budget (snd res)) = activeRetries (w_budget w)"
    if "activeRetries (w_budget v) = activeRetries (w_budget w)"
      and "attempt_step oc env cfg (k + 1) d lf ld v = Inl res" for k d lf ld v res
    using attempt_step_held [OF assms(1), of v oc cfg "k + 1" d lf ld] that assms(2) by simp
  show "activeRetries (w_budget v') = activeRetries (w_budget w)"
    if "activeRetries (w_budget v) = activeRetries (w_budget w)"
      and "attempt_step oc env cfg (k + 1) d lf ld v = Inr (d', f', dec', v')" for k d lf ld v d' f' dec' v'
    using attempt_step_held [OF assms(1), of v oc cfg "k + 1" d lf ld] that assms(2) by simp
qed simp_all

text \<open>A terminal context stops the call: the tracker refuses to record anything on it.\<close>

lemma handle_failure_stuck:
  assumes "getContext (orch_key cfg) (w_tracker w) = Some ctx" and "rc_status ctx \<noteq> In_Progress"
  shows "\<exists>e w'. handle_failure oc env cfg n err d ld w = (Inl (ThrewDomain e), w')"
proof -
  have t: "ensure_context env cfg n c (w_tracker w) = w_tracker w" for c
    using assms(1) by (simp add: ensure_context_def)
  obtain e where "assertMutable ctx ''recordAttempt'' = Inl e"
    using assertMutable_error [OF assms(2)] by blast
  then have "recordAttempt now (orch_key cfg) params (w_tracker w) = (Inl e, w_tracker w)" for now params
    using assms by (simp add: recordAttempt_cases getContext_def)
  then show ?thesis by (simp add: handle_failure_def Let_def t)
qed

lemma record_success_error:
  assumes "record_success env cfg n d lf ld w = (Inl e, w')"
  shows "w_tracker w' = w_tracker w \<and>
    (\<exists>ctx. getContext (orch_key cfg) (w_tracker w) = Some ctx \<and> rc_status ctx \<noteq> In_Progress)"
  using assms
  by (auto simp: record_success_def recordAttempt_cases getContext_def Let_def map_sum_def
      split: option.splits sum.splits prod.splits if_splits)

lemma catch_after_success:
  assumes "record_success env cfg n d lf ld w = (Inl e, w')"
  shows "\<exists>e' w''. catch_block oc env cfg n p d ld err w' = Inl (ThrewDomain e', w'')"
proof -
  obtain ctx where "getContext (orch_key cfg) (w_tracker w') = Some ctx" "rc_status ctx \<noteq> In_Progress"
    using record_success_error [OF assms] by auto
  from handle_failure_stuck [OF this, of oc env n err d ld] show ?thesis
    by (auto simp: catch_block_def)
qed

lemma end_with_mark_not_returned: "fst (end_with_mark env cfg n err dec msg ex w) \<noteq> Returned r"
  by (auto simp: end_with_mark_def orch_error_def Let_def split: sum.splits prod.splits)

lemma loop_exceeded_not_returned: "fst (loop_exceeded env cfg maxN ld w) \<noteq> Returned r"
  by (auto simp: loop_exceeded_def orch_error_def end_with_mark_not_returned Let_def split: option.splits)

lemma handle_failure_not_returned: "fst (handle_failure oc env cfg n err d ld w) \<noteq> Inl (Returned r)"
  by (auto simp: handle_failure_def end_with_mark_not_returned Let_def split: sum.splits prod.splits)

lemma catch_block_not_returned: "catch_block oc env cfg n p d ld err w \<noteq> Inl (Returned r, w')"
proof -
  obtain x w1 where h: "handle_failure oc env cfg n err d ld w = (x, w1)" by fastforce
  then have "x \<noteq> Inl (Returned r)"
    using handle_failure_not_returned [of oc env cfg n err d ld w r] by simp
  then show ?thesis by (auto simp: catch_block_def h split: sum.splits)
qed

lemma attempt_step_returned:
  "attempt_step oc env cfg n d lf ld w = Inl (Returned r, w') \<Longrightarrow> env_fn env n = Inr r"
  by (auto simp: attempt_step_def budget_denied_def orch_error_def catch_block_not_returned Let_def
      split: prod.splits if_splits sum.splits option.splits)

lemma attempt_step_continue:
  assumes "attempt_step oc env cfg n d lf ld w = Inr c"
  shows "\<exists>err. env_fn env n = Inl err"
proof (rule ccontr)
  assume "\<nexists>err. env_fn env n = Inl err"
  then obtain r where r: "env_fn env n = Inr r" by (cases "env_fn env n") auto
  obtain p w1 where a: "acquire_permit oc env n w = (p, w1)" by fastforce
  obtain y w3 where s: "record_success env cfg n d lf ld (env_during_fn env n w1) = (y, w3)" by fastforce
  show False
  proof (cases y)
    case (Inl e)
    obtain e' w'' where "catch_block oc env cfg n p d ld (domain_error_object e) w3 = Inl (ThrewDomain e', w'')"
      using catch_after_success s Inl by blast
    with assms r a s Inl show False by (auto simp: attempt_step_def split: if_splits)
  qed (use assms r a s in \<open>auto simp: attempt_step_def split: if_splits\<close>)
qed

text \<open>The outcome of \<open>fn\<close> is read in one place only.\<close>

lemma env_fn_irrelevant [simp]:
  "acquire_permit oc (env\<lparr>env_fn := f\<rparr>) = acquire_permit oc env"
  "budget_denied (env\<lparr>env_fn := f\<rparr>) = budget_denied env"
  "record_success (env\<lparr>env_fn := f\<rparr>) = record_success env"
  "end_with_mark (env\<lparr>env_fn := f\<rparr>) = end_with_mark env"
  "ensure_context (env\<lparr>env_fn := f\<rparr>) = ensure_context env"
  "attempt_decision (env\<lparr>env_fn := f\<rparr>) = attempt_decision env"
  "loop_exceeded (env\<lparr>env_fn := f\<rparr>) = loop_exceeded env"
  by (simp_all add: fun_eq_iff acquire_permit_def budget_denied_def record_success_def end_with_mark_def
      ensure_context_def attempt_decision_def loop_exceeded_def Let_def split: option.split)

lemma handle_failure_fn [simp]: "handle_failure oc (env\<lparr>env_fn := f\<rparr>) = handle_failure oc env"
  by (simp add: fun_eq_iff handle_failure_def Let_def cong: sum.case_cong prod.case_cong if_cong)

lemma catch_block_fn [simp]: "catch_block oc (env\<lparr>env_fn := f\<rparr>) = catch_block oc env"
  by (simp add: fun_eq_iff catch_block_def cong: sum.case_cong prod.case_cong)

lemma attempt_step_fn:
  "f n = g n \<Longrightarrow> attempt_step oc (env\<lparr>env_fn := f\<rparr>) cfg n = attempt_step oc (env\<lparr>env_fn := g\<rparr>) cfg n"
  by (simp add: fun_eq_iff attempt_step_def Let_def cong: sum.case_cong prod.case_cong if_cong)

text \<open>The trace through one attempt, in the order the code goes through it.\<close>

lemma end_with_mark_closed:
  assumes "getContext (orch_key cfg) (w_tracker w) = Some ctx" and "rc_status ctx = In_Progress"
  shows "trace_closed cfg (end_with_mark env cfg n err dec msg ex w)"
  using assms
  by (simp add: end_with_mark_def trace_closed_def orch_error_def markExhausted_cases
      markEscalated_cases getContext_def settle_def Let_def)

lemma record_success_closed:
  assumes "trace_open cfg k lf ld w"
  shows "\<exists>w'. record_success env cfg n d lf ld w = (Inr (), w') \<and> trace_closed cfg (Returned r, w')"
  using assms
  by (auto simp: record_success_def trace_open_def trace_closed_def getContext_def recordAttempt_cases
      settle_def Let_def split: option.splits)

lemma ensure_context_open:
  assumes "trace_open cfg k lf ld w"
  shows "\<exists>ctx. map_get (ensure_context env cfg n c (w_tracker w)) (toMapKey (orch_key cfg)) = Some ctx \<and>
    rc_status ctx = In_Progress"
  using assms
  by (auto simp: ensure_context_def trace_open_def getContext_def initContext_def orch_key_def
      Let_def split: option.splits)

lemma handle_failure_trace:
  assumes "trace_open cfg k lf ld w" and "failing_outcomes cfg"
  shows "case handle_failure oc env cfg n err d ld w of
      (Inl out, w') \<Rightarrow> trace_closed cfg (out, w')
    | (Inr (d', f', dec'), w') \<Rightarrow> trace_open cfg (k + 1) (Some f') (Some dec') w'"
proof -
  let ?key = "toMapKey (orch_key cfg)" and ?f = "oc_classify oc (classify_input cfg err) (rw_retryHint cfg)"
  let ?t = "ensure_context env cfg n (cf_category ?f) (w_tracker w)"
  obtain ctx where ctx: "map_get ?t ?key = Some ctx" "rc_status ctx = In_Progress"
    using ensure_context_open [OF assms(1)] by blast
  have out: "outcome_target (attempt_outcome cfg err ?f) = L_Retrying"
    using assms(2) [unfolded failing_outcomes_def, rule_format, of err ?f] by auto
  have rec: "\<exists>c v. recordAttempt now (orch_key cfg) params ?t = (Inr c, v) \<and>
      (\<exists>ctx'. map_get v ?key = Some ctx' \<and> rc_status ctx' = In_Progress)"
    if "rp_outcome params = attempt_outcome cfg err ?f" for now params
    using ctx out that by (simp add: recordAttempt_cases settle_def Let_def)
  have closed: "trace_closed cfg (end_with_mark env cfg n e dec msg ex (w\<lparr>w_tracker := v\<rparr>))"
    if "map_get v ?key = Some ctx'" "rc_status ctx' = In_Progress" for e dec msg ex v ctx'
    using that by (intro end_with_mark_closed) (simp_all add: getContext_def)
  obtain params where params: "params =
      \<lparr>rp_classifiedFailure = ?f,
       rp_decision = attempt_decision env cfg n ?f (attempt_cost cfg n err ?f ld) ?t,
       rp_delayMs = d, rp_outcome = attempt_outcome cfg err ?f, rp_cost = attempt_cost cfg n err ?f ld,
       rp_startedAt = env_iso env n 8, rp_completedAt = env_iso env n 9,
       rp_errorCode = ce_errorCode (classify_input cfg err),
       rp_errorMessage = ce_errorMessage (classify_input cfg err)\<rparr>" by blast
  obtain c v ctx' where r: "recordAttempt (env_iso env n 10) (orch_key cfg) params ?t = (Inr c, v)"
    and v: "map_get v ?key = Some ctx'" "rc_status ctx' = In_Progress"
    using rec [of params "env_iso env n 10"] params by auto
  show ?thesis
    using r v closed [OF v]
    by (simp add: handle_failure_def Let_def params apfst_def map_prod_def split_beta
        trace_open_def getContext_def)
qed

lemma trace_keeps:
  assumes "keeps_context env (orch_key cfg)"
  shows "trace_open cfg k lf ld (env_during_fn env n w) = trace_open cfg k lf ld w"
    "trace_open cfg k lf ld (env_during_sleep env n w) = trace_open cfg k lf ld w"
  using assms by (simp_all add: trace_open_def keeps_context_def)

lemma trace_permit [simp]:
  "trace_open cfg k lf ld (release_permit p w) = trace_open cfg k lf ld w"
  "trace_closed cfg (out, release_permit p w) = trace_closed cfg (out, w)"
  by (simp_all add: trace_open_def trace_closed_def)

lemma catch_block_trace:
  assumes "trace_open cfg k lf ld w" and "failing_outcomes cfg" and "keeps_context env (orch_key cfg)"
  shows "case catch_block oc env cfg n p d ld err w of
      Inl res \<Rightarrow> trace_closed cfg res
    | Inr (d', f', dec', w') \<Rightarrow> trace_open cfg (k + 1) (Some f') (Some dec') w'"
  using handle_failure_trace [OF assms(1,2), of oc env n err d] trace_keeps(2) [OF assms(3)]
  by (auto simp: catch_block_def split: sum.splits prod.splits)

lemma budget_denied_closed:
  assumes "trace_open cfg k lf ld w" and "k \<noteq> 0"
  shows "trace_closed cfg (budget_denied env cfg n ld w)"
  using assms
  by (auto simp: budget_denied_def trace_open_def trace_closed_def orch_error_def getContext_def
      markExhausted_cases settle_def Let_def split: option.splits)

lemma attempt_step_trace:
  assumes "trace_open cfg k lf ld w" and "failing_outcomes cfg" and "keeps_context env (orch_key cfg)"
    and "0 \<le> k"
  shows "case attempt_step oc env cfg (k + 1) d lf ld w of
      Inl res \<Rightarrow> trace_closed cfg res
    | Inr (d', f', dec', w') \<Rightarrow> trace_open cfg (k + 1) (Some f') (Some dec') w'"
proof -
  obtain p w1 where a: "acquire_permit oc env (k + 1) w = (p, w1)" by fastforce
  have w1: "trace_open cfg k lf ld w1"
    using assms(1) acquire_permit_tracker [of oc env "k + 1" w] a by (simp add: trace_open_def)
  then have w2: "trace_open cfg k lf ld (env_during_fn env (k + 1) w1)"
    by (simp add: trace_keeps [OF assms(3)])
  have denied: "p = Denied \<Longrightarrow> k \<noteq> 0"
    using a by (auto simp: acquire_permit_def split: option.splits if_splits)
  show ?thesis
  proof (cases "p = Denied")
    case True
    then show ?thesis
      using budget_denied_closed [OF w1] denied by (simp add: attempt_step_def a)
  next
    case False
    show ?thesis
    proof (cases "env_fn env (k + 1)")
      case (Inl err)
      then show ?thesis
        using catch_block_trace [OF w2 assms(2,3)] False by (simp add: attempt_step_def a)
    next
      case (Inr r)
      then show ?thesis
        using record_success_closed [OF w2, of env "k + 1" d r] False by (auto simp: attempt_step_def a)
    qed
  qed
qed

lemma loop_exceeded_closed:
  assumes "trace_open cfg k lf ld w" and "k \<noteq> 0"
  shows "trace_closed cfg (loop_exceeded env cfg maxN ld w)"
proof -
  obtain ctx where "getContext (orch_key cfg) (w_tracker w) = Some ctx" "rc_status ctx = In_Progress"
    using assms by (auto simp: trace_open_def split: option.splits)
  then show ?thesis
    by (simp add: loop_exceeded_def Let_def end_with_mark_closed)
qed

text \<open>What a further round of the loop tells about the decision that granted it.\<close>

lemma handle_failure_continue:
  assumes "handle_failure oc env cfg n err d ld w = (Inr (d', f', dec'), w')"
  shows "shouldRetry dec' \<and> d' = delayMs dec' \<and>
    f' = oc_classify oc (classify_input cfg err) (rw_retryHint cfg) \<and>
    dec' = attempt_decision env cfg n f' (attempt_cost cfg n err f' ld)
      (ensure_context env cfg n (cf_category f') (w_tracker w)) \<and>
    isWithinBudget (addCosts (getAccumulatedCost (orch_key cfg) (w_tracker w'))
      (attempt_cost cfg (n + 1) err f' (Some dec'))) (rw_costBudget cfg)"
  using assms
  by (auto simp: handle_failure_def Let_def apfst_def map_prod_def split_beta
      split: prod.splits sum.splits if_splits)

lemma addCosts_zero [simp]: "addCosts ZERO_COST ZERO_COST = ZERO_COST"
  by (simp add: addCosts_def ZERO_COST_def)

lemma handle_failure_free:
  assumes "trace_open cfg k lf ld w" and "failing_outcomes cfg" and free: "free_of_charge cfg"
    and cost: "getAccumulatedCost (orch_key cfg) (w_tracker w) = ZERO_COST"
    and "retries_allowed oc cfg n err"
  shows "\<exists>d' f' dec' w'. handle_failure oc env cfg n err d ld w = (Inr (d', f', dec'), w') \<and>
    getAccumulatedCost (orch_key cfg) (w_tracker w') = ZERO_COST"
proof -
  let ?key = "toMapKey (orch_key cfg)" and ?f = "oc_classify oc (classify_input cfg err) (rw_retryHint cfg)"
  let ?t = "ensure_context env cfg n (cf_category ?f) (w_tracker w)"
  have zero: "attempt_cost cfg i err ?f x = ZERO_COST" for i x
    using free by (simp add: free_of_charge_def attempt_cost_def estimate_def)
  obtain ctx where ctx: "map_get ?t ?key = Some ctx" "rc_status ctx = In_Progress"
    using ensure_context_open [OF assms(1)] by blast
  have acc: "getAccumulatedCost (orch_key cfg) ?t = ZERO_COST"
    using cost by (auto simp: ensure_context_def getAccumulatedCost_def initContext_def getContext_def
        orch_key_def Let_def split: option.splits)
  have retry: "shouldRetry (attempt_decision env cfg n ?f ZERO_COST ?t)"
    using assms(5) free acc
    by (auto simp: attempt_decision_def retry_decision_iff retries_allowed_def retry_permitted_def
        free_of_charge_def split: option.splits)
  have out: "outcome_target (attempt_outcome cfg err ?f) = L_Retrying"
    using assms(2) [unfolded failing_outcomes_def, rule_format, of err ?f] by auto
  have "\<exists>c v. recordAttempt now (orch_key cfg) params ?t = (Inr c, v) \<and>
      getAccumulatedCost (orch_key cfg) v = ZERO_COST"
    if "rp_outcome params = attempt_outcome cfg err ?f" "rp_cost params = ZERO_COST" for now params
    using ctx out that acc
    by (simp add: recordAttempt_cases settle_def add_attempt_def getAccumulatedCost_def Let_def)
  from this [of "\<lparr>rp_classifiedFailure = ?f, rp_decision = attempt_decision env cfg n ?f ZERO_COST ?t,
       rp_delayMs = d, rp_outcome = attempt_outcome cfg err ?f, rp_cost = ZERO_COST,
       rp_startedAt = env_iso env n 8, rp_completedAt = env_iso env n 9,
       rp_errorCode = ce_errorCode (classify_input cfg err),
       rp_errorMessage = ce_errorMessage (classify_input cfg err)\<rparr>" "env_iso env n 10"]
  show ?thesis
    using retry free by (auto simp: handle_failure_def zero Let_def free_of_charge_def)
qed

lemma attempt_step_free:
  assumes "trace_open cfg k lf ld w" and "failing_outcomes cfg" and "keeps_context env (orch_key cfg)"
    and "0 \<le> k" and "free_of_charge cfg" and "oc_retryBudget oc = None"
    and "getAccumulatedCost (orch_key cfg) (w_tracker w) = ZERO_COST"
    and "env_fn env (k + 1) = Inl err" and "retries_allowed oc cfg (k + 1) err"
  shows "\<exists>d' f' dec' w'. attempt_step oc env cfg (k + 1) d lf ld w = Inr (d', f', dec', w') \<and>
    trace_open cfg (k + 1) (Some f') (Some dec') w' \<and>
    getAccumulatedCost (orch_key cfg) (w_tracker w') = ZERO_COST"
proof -
  let ?w = "env_during_fn env (k + 1) w"
  have keep: "getAccumulatedCost (orch_key cfg) (w_tracker (env_during_fn env i v)) =
      getAccumulatedCost (orch_key cfg) (w_tracker v)"
    "getAccumulatedCost (orch_key cfg) (w_tracker (env_during_sleep env i v)) =
      getAccumulatedCost (orch_key cfg) (w_tracker v)" for i v
    using assms(3) by (simp_all add: keeps_context_def getAccumulatedCost_def getContext_def)
  have "trace_open cfg k lf ld ?w" using assms(1) by (simp add: trace_keeps [OF assms(3)])
  from handle_failure_free [OF this assms(2,5) _ assms(9), of env d] assms(7)
  obtain d' f' dec' w' where h: "handle_failure oc env cfg (k + 1) err d ld ?w = (Inr (d', f', dec'), w')"
    "getAccumulatedCost (orch_key cfg) (w_tracker w') = ZERO_COST"
    by (auto simp: keep)
  then show ?thesis
    using attempt_step_trace [OF assms(1-4), of oc d] assms(6,8) keep
    by (auto simp: attempt_step_def acquire_permit_def catch_block_def)
qed

lemma retry_loop_free:
  assumes "failing_outcomes cfg" and "keeps_context env (orch_key cfg)" and "free_of_charge cfg"
    and "oc_retryBudget oc = None" and "k + 1 + int j \<le> maxN" and "env_fn env (k + 1 + int j) = Inr r"
    and "\<And>i. k < i \<Longrightarrow> i < k + 1 + int j \<Longrightarrow> \<exists>err. env_fn env i = Inl err \<and> retries_allowed oc cfg i err"
    and "trace_open cfg k lf ld w" and "0 \<le> k"
    and "getAccumulatedCost (orch_key cfg) (w_tracker w) = ZERO_COST"
  shows "fst (retry_loop oc env cfg maxN k d lf ld w) = Returned r"
  using assms(5-)
proof (induction j arbitrary: k d lf ld w)
  case 0
  have "trace_open cfg k lf ld (env_during_fn env (k + 1) w)"
    using "0.prems" by (simp add: trace_keeps [OF assms(2)])
  then obtain w' where "record_success env cfg (k + 1) d lf ld (env_during_fn env (k + 1) w) = (Inr (), w')"
    using record_success_closed [where r = r] by blast
  then have "attempt_step oc env cfg (k + 1) d lf ld w = Inl (Returned r, w')"
    using "0.prems"(2) assms(4) by (simp add: attempt_step_def acquire_permit_def release_permit_def)
  then show ?case using "0.prems"(1) by (simp add: retry_loop_Inl)
next
  case (Suc j)
  obtain err where err: "env_fn env (k + 1) = Inl err" "retries_allowed oc cfg (k + 1) err"
    using Suc.prems(3) [of "k + 1"] by auto
  obtain d' f' dec' w' where s: "attempt_step oc env cfg (k + 1) d lf ld w = Inr (d', f', dec', w')"
    "trace_open cfg (k + 1) (Some f') (Some dec') w'"
    "getAccumulatedCost (orch_key cfg) (w_tracker w') = ZERO_COST"
    using attempt_step_free [OF Suc.prems(4) assms(1,2) Suc.prems(5) assms(3,4) Suc.prems(6) err] by blast
  have "fst (retry_loop oc env cfg maxN (k + 1) d' (Some f') (Some dec') w') = Returned r"
    by (rule Suc.IH) (use Suc.prems s in \<open>auto simp: algebra_simps\<close>)
  then show ?case
    using Suc.prems(1) by (simp add: retry_loop_Inr [OF _ s(1)])
qed

lemma retry_loop_first_success:
  assumes "fst (retry_loop oc env cfg maxN k d lf ld w) = Returned r"
  shows "\<exists>n. k < n \<and> n \<le> maxN \<and> env_fn env n = Inr r \<and> (\<forall>m. k < m \<and> m < n \<longrightarrow> isl (env_fn env m))"
  using assms
proof (induction oc\<equiv>oc env\<equiv>env cfg\<equiv>cfg maxN\<equiv>maxN k d lf ld w rule: retry_loop.induct)
  case (1 k d lf ld w)
  show ?case
  proof (cases "k < maxN")
    case True
    show ?thesis
    proof (cases "attempt_step oc env cfg (k + 1) d lf ld w")
      case (Inl res)
      then have "attempt_step oc env cfg (k + 1) d lf ld w = Inl (Returned r, snd res)"
        using "1.prems" retry_loop_Inl [OF True Inl] by (cases res) simp
      then have "env_fn env (k + 1) = Inr r" by (rule attempt_step_returned)
      with True show ?thesis by (intro exI [of _ "k + 1"]) auto
    next
      case (Inr c)
      obtain d' f' dec' w' where c: "c = (d', f', dec', w')" by (cases c)
      then obtain n where n: "k + 1 < n" "n \<le> maxN" "env_fn env n = Inr r"
          "\<forall>m. k + 1 < m \<and> m < n \<longrightarrow> isl (env_fn env m)"
        using "1.hyps" [OF True Inr c [symmetric] refl refl] "1.prems"
        by (auto simp: retry_loop_Inr [OF True Inr [unfolded c]])
      have "isl (env_fn env (k + 1))"
        using attempt_step_continue [OF Inr] by auto
      moreover have "m = k + 1 \<or> k + 1 < m" if "k < m" for m using that by linarith
      ultimately show ?thesis using n by (intro exI [of _ n]) auto
    qed
  next
    case False
    with "1.prems" show ?thesis
      by (simp add: retry_loop_end loop_exceeded_not_returned)
  qed
qed

lemma retry_loop_fn:
  assumes "\<And>n. k < n \<Longrightarrow> n \<le> maxN \<Longrightarrow> (\<And>m. k < m \<Longrightarrow> m < n \<Longrightarrow> isl (f m)) \<Longrightarrow> f n = g n"
  shows "retry_loop oc (env\<lparr>env_fn := f\<rparr>) cfg maxN k d lf ld w =
    retry_loop oc (env\<lparr>env_fn := g\<rparr>) cfg maxN k d lf ld w"
  using assms
proof (induction oc\<equiv>oc env\<equiv>"env\<lparr>env_fn := f\<rparr>" cfg\<equiv>cfg maxN\<equiv>maxN k d lf ld w rule: retry_loop.induct)
  case (1 k d lf ld w)
  show ?case
  proof (cases "k < maxN")
    case True
    have same: "attempt_step oc (env\<lparr>env_fn := f\<rparr>) cfg (k + 1) = attempt_step oc (env\<lparr>env_fn := g\<rparr>) cfg (k + 1)"
      using "1.prems" [of "k + 1"] True by (intro attempt_step_fn) simp
    show ?thesis
    proof (cases "attempt_step oc (env\<lparr>env_fn := f\<rparr>) cfg (k + 1) d lf ld w")
      case (Inl res)
      then show ?thesis using True same by (simp add: retry_loop_Inl)
    next
      case (Inr c)
      obtain d' f' dec' w' where c: "c = (d', f', dec', w')" by (cases c)
      have "isl (f (k + 1))" using attempt_step_continue [OF Inr] by auto
      then have "f n = g n"
        if "k + 1 < n" "n \<le> maxN" "\<And>m. k + 1 < m \<Longrightarrow> m < n \<Longrightarrow> isl (f m)" for n
        using "1.prems" [of n] that by (metis add1_zle_eq less_add_one less_trans order_le_less)
      with "1.hyps" [OF True Inr c [symmetric] refl refl]
      have "retry_loop oc (env\<lparr>env_fn := f\<rparr>) cfg maxN (k + 1) d' (Some f') (Some dec') w' =
          retry_loop oc (env\<lparr>env_fn := g\<rparr>) cfg maxN (k + 1) d' (Some f') (Some dec') w'" by blast
      then show ?thesis using True Inr c same by (simp add: retry_loop_Inr)
    qed
  qed (simp add: retry_loop_end)
qed

lemma sample_env_quiet [simp]: "keeps_permits (sample_env m)" "keeps_context (sample_env m) key"
  by (simp_all add: sample_env_def keeps_permits_def keeps_context_def)

lemma sample_cfg_ok [simp]: "failing_outcomes sample_cfg" "free_of_charge sample_cfg" "max_attempts sample_cfg = 10"
  by (auto simp: failing_outcomes_def sample_cfg_def attempt_outcome_def defaultAttemptOutcome_def
      free_of_charge_def isWithinBudget_def ZERO_COST_def DEFAULT_PRODUCTION_COST_BUDGET_def
      max_attempts_def split: js_error.splits option.splits)

lemma sample_world_fresh [simp]: "getContext key (w_tracker sample_world) = None"
  "activeRetries (w_budget sample_world) = 0"
  by (simp_all add: sample_world_def getContext_def)

lemma sample_retries_allowed: "n < 3 \<Longrightarrow> retries_allowed sample_orch sample_cfg n err"
  by (simp add: retries_allowed_def sample_orch_def sample_cfg_def sample_failure_def
      findStrategyForCategory_def buildDefaultRetryStrategies_def strategy_base_def)

section \<open>Properties\<close>



text \<open>
  A result is only ever the result of the first attempt of \<open>fn\<close> that succeeded, at most
  the \<open>maxExecutionAttempts\<close>-th; all the attempts before it failed.
\<close>

theorem first_success_returned:
  assumes "fst (retryWithPolicy oc env cfg w) = Returned r"
  shows "\<exists>n. 0 < n \<and> n \<le> max_attempts cfg \<and> env_fn env n = Inr r \<and>
    (\<forall>m. 0 < m \<and> m < n \<longrightarrow> isl (env_fn env m))"
proof -
  have "fst (retry_loop oc env cfg (max_attempts cfg) 0 0 None None w) = Returned r"
    using assms by (simp add: retryWithPolicy_def Let_def split: if_splits)
  from retry_loop_first_success [OF this] show ?thesis by blast
qed

text \<open>
  C30. Recovery: when no runtime budget is configured, retries cost nothing, the trace is fresh
  and left alone by other code, and each failure before attempt \<open>m\<close> is of a category whose
  strategy allows another attempt, then a call whose \<open>fn\<close> succeeds on attempt \<open>m\<close> returns that
  result.
\<close>

theorem retry_recovers:
  assumes "0 < m" and "m \<le> max_attempts cfg" and "env_fn env m = Inr r"
    and "\<And>n. 0 < n \<Longrightarrow> n < m \<Longrightarrow> \<exists>err. env_fn env n = Inl err \<and> retries_allowed oc cfg n err"
    and "getContext (orch_key cfg) (w_tracker w) = None" and "keeps_context env (orch_key cfg)"
    and "failing_outcomes cfg" and "free_of_charge cfg" and "oc_retryBudget oc = None"
  shows "fst (retryWithPolicy oc env cfg w) = Returned r"
proof -
  have "fst (retry_loop oc env cfg (max_attempts cfg) 0 0 None None w) = Returned r"
  proof (rule retry_loop_free [where j = "nat (m - 1)"])
    show "trace_open cfg 0 None None w" using assms(5) by (simp add: trace_open_def)
    show "getAccumulatedCost (orch_key cfg) (w_tracker w) = ZERO_COST"
      using assms(5) by (simp add: getAccumulatedCost_def getContext_def)
  qed (use assms in auto)
  then show ?thesis using assms(1,2) by (simp add: retryWithPolicy_def Let_def)
qed

theorem first_success_returned_witness:
  "\<exists>n. 0 < n \<and> n \<le> 10 \<and> env_fn (sample_env 1) n = Inr 10 \<and>
     (\<forall>m. 0 < m \<and> m < n \<longrightarrow> isl (env_fn (sample_env 1) m))"
proof -
  have "attempt_step sample_orch (sample_env 1) sample_cfg (0 + 1) 0 None None sample_world =
      Inl (Returned 10, sample_world)"
    by (simp add: attempt_step_def acquire_permit_def sample_orch_def sample_env_def record_success_def
        release_permit_def)
  then have "fst (retryWithPolicy sample_orch (sample_env 1) sample_cfg sample_world) = Returned 10"
    by (simp add: retryWithPolicy_def retry_loop_Inl Let_def)
  from first_success_returned [OF this] show ?thesis by simp
qed

theorem retry_recovers_witness:
  "fst (retryWithPolicy sample_orch (sample_env 3) sample_cfg sample_world) = Returned 30"
proof (rule retry_recovers [where m = 3])
  show "\<exists>err. env_fn (sample_env 3) n = Inl err \<and> retries_allowed sample_orch sample_cfg n err"
    if "n < 3" for n
    using that by (simp add: sample_env_def sample_retries_allowed)
qed (simp_all add: sample_env_def [of 3] sample_orch_def keeps_context_def)

text \<open>
  C31. No permit leaks: as long as the code that runs while the call is suspended holds its own
  permits in balance, the number of retries in flight after the call, however it ends, is what it
  was before.
\<close>

theorem retry_permits_balanced:
  assumes "keeps_permits env" and "0 \<le> activeRetries (w_budget w)"
  shows "activeRetries (w_budget (snd (retryWithPolicy oc env cfg w))) = activeRetries (w_budget w)"
  using retry_loop_held [OF assms] by (simp add: retryWithPolicy_def Let_def)

theorem retry_permits_balanced_witness:
  "activeRetries (w_budget (snd (retryWithPolicy sample_orch (sample_env 3) sample_cfg sample_world))) = 0"
  using retry_permits_balanced [of "sample_env 3" sample_world sample_orch sample_cfg] by simp

text \<open>
  The trace of a finished call is closed: started on a fresh key that other code leaves
  alone, and with failures recorded as failures or timeouts, the call never stops on an error of
  the tracker; when it returns, its trace is absent (first attempt succeeded) or resolved; when it
  throws, its trace is exhausted or escalated and is the snapshot the error carries.
\<close>

theorem retry_trace_closed:
  assumes "getContext (orch_key cfg) (w_tracker w) = None" and "keeps_context env (orch_key cfg)"
    and "failing_outcomes cfg" and "1 \<le> max_attempts cfg"
  shows "trace_closed cfg (retryWithPolicy oc env cfg w)"
proof -
  have "trace_closed cfg (retry_loop oc env cfg (max_attempts cfg) 0 0 None None w)"
  proof (rule loop_rule [where I = "\<lambda>k lf ld w. 0 \<le> k \<and> trace_open cfg k lf ld w"], goal_cases)
    case (1 k d lf ld w res)
    then show ?case using attempt_step_trace [OF _ assms(3,2), of k lf ld w oc d] by simp
  next
    case (2 k d lf ld w d' f' dec' w')
    then show ?case using attempt_step_trace [OF _ assms(3,2), of k lf ld w oc d] by simp
  next
    case (3 k lf ld w)
    then show ?case using assms(4) by (auto intro!: loop_exceeded_closed)
  next
    case 4
    then show ?case using assms(1) by (simp add: trace_open_def)
  qed
  then show ?thesis using assms(4) by (simp add: retryWithPolicy_def Let_def)
qed

theorem retry_trace_closed_witness:
  "trace_closed sample_cfg (retryWithPolicy sample_orch (sample_env 9) sample_cfg sample_world)"
  by (rule retry_trace_closed) simp_all

text \<open>
  The loop goes round again only on a decision to retry that the strategies and the budget
  permit for this attempt, and only if the cost accumulated so far plus the projected cost of the
  next attempt is within the cost budget.
\<close>

theorem retry_round_affordable:
  assumes "attempt_step oc env cfg n d lf ld w = Inr (d', f', dec', w')"
    and "keeps_context env (orch_key cfg)"
  shows "\<exists>err s. env_fn env n = Inl err \<and> shouldRetry dec' \<and> d' = delayMs dec' \<and>
    findStrategyForCategory (rw_strategies cfg) (cf_category f') = Some s \<and>
    strategy_type s \<noteq> St_None \<and> n < maxAttempts (str_base s) \<and>
    isWithinBudget (addCosts (getAccumulatedCost (orch_key cfg) (w_tracker w'))
      (attempt_cost cfg (n + 1) err f' (Some dec'))) (rw_costBudget cfg)"
proof -
  obtain err where err: "env_fn env n = Inl err" using attempt_step_continue [OF assms(1)] by blast
  obtain p w1 where a: "acquire_permit oc env n w = (p, w1)" by fastforce
  have "catch_block oc env cfg n p d ld err (env_during_fn env n w1) = Inr (d', f', dec', w')"
    using assms(1) err a by (simp add: attempt_step_def split: if_splits)
  then obtain v where v: "handle_failure oc env cfg n err d ld (env_during_fn env n w1) = (Inr (d', f', dec'), v)"
    and w': "w' = release_permit p (env_during_sleep env n v)"
    by (auto simp: catch_block_def split: prod.splits sum.splits)
  have "getAccumulatedCost (orch_key cfg) (w_tracker w') = getAccumulatedCost (orch_key cfg) (w_tracker v)"
    using assms(2) by (simp add: w' keeps_context_def getAccumulatedCost_def getContext_def)
  with handle_failure_continue [OF v] err show ?thesis
    by (auto simp: attempt_decision_def retry_decision_iff retry_permitted_def Let_def)
qed

theorem retry_round_affordable_witness:
  "\<exists>d' f' dec' w' err. attempt_step sample_orch (sample_env 3) sample_cfg 1 0 None None sample_world =
       Inr (d', f', dec', w') \<and> shouldRetry dec' \<and> d' = delayMs dec' \<and>
     isWithinBudget (addCosts (getAccumulatedCost (orch_key sample_cfg) (w_tracker w'))
       (attempt_cost sample_cfg 2 err f' (Some dec'))) (rw_costBudget sample_cfg)"
proof -
  have "trace_open sample_cfg 0 None None sample_world"
    "getAccumulatedCost (orch_key sample_cfg) (w_tracker sample_world) = ZERO_COST"
    "oc_retryBudget sample_orch = None" "env_fn (sample_env 3) (0 + 1) = Inl (ErrString ''boom'')"
    "retries_allowed sample_orch sample_cfg (0 + 1) (ErrString ''boom'')"
    by (simp_all add: trace_open_def sample_world_def getAccumulatedCost_def getContext_def sample_orch_def
        sample_env_def sample_retries_allowed [unfolded sample_orch_def])
  from attempt_step_free [OF this(1) sample_cfg_ok(1) sample_env_quiet(2) order_refl sample_cfg_ok(2) this(3,2,4,5), of 0]
  obtain d' f' dec' w' where
    "attempt_step sample_orch (sample_env 3) sample_cfg 1 0 None None sample_world = Inr (d', f', dec', w')"
    by auto
  from retry_round_affordable [OF this sample_env_quiet(2)] this show ?thesis by fastforce
qed



end
