(* ===== verification/Dead_Letter_Queue.thy ===== *)
theory Dead_Letter_Queue
  imports Retry_Strategy
begin

text \<open>
  The dead letter queue of src/src/retry/engine/dead-letter-queue.ts. The state is the array
  \<open>entries\<close>; the generated identifier and the timestamp are arguments of the call that reads
  them.
\<close>

section \<open>State and operations\<close>

record DeadLetterEntry =
  dl_id :: UUID
  dl_runId :: UUID
  dl_workflowId :: UUID
  dl_nodeId :: string
  dl_traceId :: "UUID option"
  dl_classifiedFailure :: FridayClassifiedFailure
  dl_lastDecision :: FridayRetryDecision
  dl_totalAttempts :: int
  dl_totalCost :: FridayRetryCostDimensions
  dl_reason :: string
  dl_enqueuedAt :: ISODateTime
  acknowledged :: bool
  acknowledgedAt :: "ISODateTime option"
  acknowledgeNote :: "string option"

record EnqueueParams =
  ep_runId :: UUID
  ep_workflowId :: UUID
  ep_nodeId :: string
  ep_traceId :: "UUID option"
  ep_classifiedFailure :: FridayClassifiedFailure
  ep_lastDecision :: FridayRetryDecision
  ep_totalAttempts :: int
  ep_totalCost :: FridayRetryCostDimensions
  ep_reason :: string

record DeadLetterQueryFilter =
  qf_runId :: "UUID option"
  qf_workflowId :: "UUID option"
  qf_nodeId :: "string option"
  qf_failureCategory :: "FridayFailureCategory option"
  qf_acknowledged :: "bool option"

definition DEFAULT_DLQ_MAX_SIZE :: int where
  "DEFAULT_DLQ_MAX_SIZE = 1000"

definition evict :: "int \<Rightarrow> DeadLetterEntry list \<Rightarrow> DeadLetterEntry list" where
  "evict maxSize entries =
     (if int (length entries) \<ge> maxSize
      then splice1 (case find_index (\<lambda>e. \<not> acknowledged e) entries of Some i \<Rightarrow> i | None \<Rightarrow> 0) entries
      else entries)"

definition make_entry :: "UUID \<Rightarrow> ISODateTime \<Rightarrow> EnqueueParams \<Rightarrow> DeadLetterEntry" where
  "make_entry newId now p =
     \<lparr>dl_id = newId, dl_runId = ep_runId p, dl_workflowId = ep_workflowId p,
      dl_nodeId = ep_nodeId p, dl_traceId = ep_traceId p,
      dl_classifiedFailure = ep_classifiedFailure p, dl_lastDecision = ep_lastDecision p,
      dl_totalAttempts = ep_totalAttempts p, dl_totalCost = ep_totalCost p,
      dl_reason = ep_reason p, dl_enqueuedAt = now, acknowledged = False,
      acknowledgedAt = None, acknowledgeNote = None\<rparr>"

definition enqueue ::
    "int \<Rightarrow> UUID \<Rightarrow> ISODateTime \<Rightarrow> EnqueueParams \<Rightarrow> DeadLetterEntry list
     \<Rightarrow> DeadLetterEntry \<times> DeadLetterEntry list" where
  "enqueue maxSize newId now p entries =
     (let entry = make_entry newId now p in (entry, evict maxSize entries @ [entry]))"

definition acknowledge ::
    "ISODateTime \<Rightarrow> UUID \<Rightarrow> string option \<Rightarrow> DeadLetterEntry list
     \<Rightarrow> DeadLetterEntry option \<times> DeadLetterEntry list" where
  "acknowledge now entryId note entries =
     (case find_index (\<lambda>e. dl_id e = entryId) entries of
        None \<Rightarrow> (None, entries)
      | Some i \<Rightarrow>
          let entry = (entries ! i)\<lparr>acknowledged := True, acknowledgedAt := Some now,
                                    acknowledgeNote := note\<rparr>
          in (Some entry, entries[i := entry]))"

definition remove :: "UUID \<Rightarrow> DeadLetterEntry list \<Rightarrow> bool \<times> DeadLetterEntry list" where
  "remove entryId entries =
     (case find_index (\<lambda>e. dl_id e = entryId) entries of
        None \<Rightarrow> (False, entries)
      | Some i \<Rightarrow> (True, splice1 i entries))"

definition get_entry :: "UUID \<Rightarrow> DeadLetterEntry list \<Rightarrow> DeadLetterEntry option" where
  "get_entry entryId entries = find (\<lambda>e. dl_id e = entryId) entries"

definition filter_by :: "'a option \<Rightarrow> ('e \<Rightarrow> 'a) \<Rightarrow> 'e list \<Rightarrow> 'e list" where
  "filter_by want f xs = (case want of None \<Rightarrow> xs | Some v \<Rightarrow> filter (\<lambda>e. f e = v) xs)"

definition query :: "DeadLetterQueryFilter \<Rightarrow> DeadLetterEntry list \<Rightarrow> DeadLetterEntry list" where
  "query q entries =
     rev (filter_by (qf_acknowledged q) acknowledged
         (filter_by (qf_failureCategory q) (\<lambda>e. cf_category (dl_classifiedFailure e))
         (filter_by (qf_nodeId q) dl_nodeId
         (filter_by (qf_workflowId q) dl_workflowId
         (filter_by (qf_runId q) dl_runId entries)))))"

definition dlq_size :: "DeadLetterEntry list \<Rightarrow> nat" where
  "dlq_size entries = length entries"

definition pendingCount :: "DeadLetterEntry list \<Rightarrow> nat" where
  "pendingCount entries = length (filter (\<lambda>e. \<not> acknowledged e) entries)"

definition clear_dlq :: "DeadLetterEntry list \<Rightarrow> DeadLetterEntry list" where
  "clear_dlq entries = []"

datatype dlq_op =
    Enqueue UUID ISODateTime EnqueueParams
  | Acknowledge ISODateTime UUID "string option"
  | Remove UUID
  | Clear

fun dlq_exec :: "int \<Rightarrow> dlq_op \<Rightarrow> DeadLetterEntry list \<Rightarrow> DeadLetterEntry list" where
  "dlq_exec maxSize (Enqueue i now p) es = snd (enqueue maxSize i now p es)"
| "dlq_exec maxSize (Acknowledge now i note) es = snd (acknowledge now i note es)"
| "dlq_exec maxSize (Remove i) es = snd (remove i es)"
| "dlq_exec maxSize Clear es = clear_dlq es"

fun new_ids :: "dlq_op list \<Rightarrow> UUID list" where
  "new_ids [] = []"
| "new_ids (Enqueue i now p # xs) = i # new_ids xs"
| "new_ids (_ # xs) = new_ids xs"

text \<open>A concrete enqueue request, used by the witness.\<close>

definition sample_params :: EnqueueParams where
  "sample_params =
     \<lparr>ep_runId = ''run'', ep_workflowId = ''wf'', ep_nodeId = ''node'', ep_traceId = None,
      ep_classifiedFailure = sample_failure Auth None,
      ep_lastDecision = buildRetryDecision (sample_failure Auth None) (sample_context 1)
        buildDefaultRetryStrategies ''now'' 0,
      ep_totalAttempts = 1, ep_totalCost = ZERO_COST, ep_reason = ''auth''\<rparr>"

section \<open>Lemmas\<close>

lemma length_evict:
  "length (evict maxSize es) \<le> length es"
  "int (length es) \<ge> maxSize \<Longrightarrow> es \<noteq> [] \<Longrightarrow> Suc (length (evict maxSize es)) = length es"
  by (auto simp: evict_def length_splice1_le dest!: find_index_Some intro!: length_splice1
      split: option.splits)

lemma set_evict: "set (evict maxSize es) \<subseteq> set es"
  unfolding evict_def using set_splice1 by (metis order_refl)

lemma distinct_splice1: "distinct xs \<Longrightarrow> distinct (splice1 i xs)"
  unfolding splice1_def using set_take_disj_set_drop_if_distinct [of xs i "Suc i"] by auto

lemma map_splice1: "map f (splice1 i xs) = splice1 i (map f xs)"
  by (simp add: splice1_def take_map drop_map)

lemma acknowledge_ids: "map dl_id (snd (acknowledge now i note es)) = map dl_id es"
  by (auto simp: acknowledge_def Let_def map_update split: option.splits dest!: find_index_Some)
    (metis list_update_id length_map nth_map)

lemma splice1_find_filter:
  "find_index P xs = Some i \<Longrightarrow> filter P (splice1 i xs) = tl (filter P xs)"
  by (induction xs arbitrary: i) (auto simp: splice1_def split: if_splits)

lemma dlq_exec_bounded:
  assumes "int (length es) \<le> max 1 maxSize"
  shows "int (length (dlq_exec maxSize x es)) \<le> max 1 maxSize"
proof (cases x)
  case (Enqueue i now p)
  show ?thesis
  proof (cases "es = []")
    case True
    with Enqueue length_evict(1) [of maxSize es] show ?thesis by (simp add: enqueue_def Let_def)
  next
    case False
    with Enqueue assms length_evict [where maxSize = maxSize and es = es] show ?thesis
      by (cases "int (length es) \<ge> maxSize") (auto simp: enqueue_def Let_def evict_def)
  qed
next
  case (Acknowledge now i nt)
  then show ?thesis using assms arg_cong [OF acknowledge_ids, of length now i nt es] by simp
next
  case (Remove i)
  have "int (length (splice1 k es)) \<le> max 1 maxSize" for k
    using assms length_splice1_le [of k es] by linarith
  with Remove assms show ?thesis by (simp add: remove_def split: option.split)
next
  case Clear
  then show ?thesis by (simp add: clear_dlq_def)
qed

lemma evict_ids:
  "distinct (map dl_id es) \<Longrightarrow> distinct (map dl_id (evict maxSize es))"
  by (simp add: evict_def map_splice1 distinct_splice1)

lemma dlq_exec_ids:
  "set (map dl_id (dlq_exec maxSize x es)) \<subseteq> set (map dl_id es) \<union> set (new_ids [x])"
proof (cases x)
  case (Enqueue i now p)
  with set_evict [of maxSize es] show ?thesis by (auto simp: enqueue_def Let_def make_entry_def)
next
  case (Acknowledge now i nt)
  then show ?thesis using acknowledge_ids [of now i nt es] by (simp del: set_map)
next
  case (Remove i)
  with set_splice1 show ?thesis by (fastforce simp: remove_def split: option.splits)
qed (simp add: clear_dlq_def)

lemma dlq_exec_distinct:
  assumes "distinct (map dl_id es)" and "set (new_ids [x]) \<inter> set (map dl_id es) = {}"
  shows "distinct (map dl_id (dlq_exec maxSize x es))"
proof (cases x)
  case (Enqueue i now p)
  with assms evict_ids [of es maxSize] set_evict [of maxSize es] show ?thesis
    by (auto simp: enqueue_def Let_def make_entry_def)
next
  case (Acknowledge now i nt)
  then show ?thesis using assms acknowledge_ids by simp
next
  case (Remove i)
  with assms show ?thesis
    by (auto simp: remove_def map_splice1 distinct_splice1 split: option.splits)
qed (simp add: clear_dlq_def)

lemma new_ids_append: "new_ids (xs @ ys) = new_ids xs @ new_ids ys"
  by (induction xs rule: new_ids.induct) auto

lemma new_ids_Cons: "new_ids (x # xs) = new_ids [x] @ new_ids xs"
  by (cases x) auto

lemma dlq_run_ids:
  assumes "distinct (map dl_id es)" and "distinct (new_ids ops)"
    and "set (new_ids ops) \<inter> set (map dl_id es) = {}"
  shows "distinct (map dl_id (fold (dlq_exec maxSize) ops es)) \<and>
    set (map dl_id (fold (dlq_exec maxSize) ops es)) \<subseteq> set (map dl_id es) \<union> set (new_ids ops)"
  using assms
proof (induction ops arbitrary: es)
  case Nil
  then show ?case by simp
next
  case (Cons x ops)
  let ?es = "dlq_exec maxSize x es"
  have d: "distinct (new_ids [x])" "distinct (new_ids ops)" "set (new_ids [x]) \<inter> set (new_ids ops) = {}"
    using Cons.prems(2) by (simp_all add: new_ids_Cons [of x ops])
  have f: "set (new_ids [x]) \<inter> set (map dl_id es) = {}" "set (new_ids ops) \<inter> set (map dl_id es) = {}"
    using Cons.prems(3) by (auto simp: new_ids_Cons [of x ops])
  have sub: "set (map dl_id ?es) \<subseteq> set (map dl_id es) \<union> set (new_ids [x])"
    by (rule dlq_exec_ids)
  then have "set (new_ids ops) \<inter> set (map dl_id ?es) = {}"
    using d(3) f(2) by blast
  with Cons.IH [OF dlq_exec_distinct [OF Cons.prems(1) f(1)] d(2)] sub show ?case
    by (auto simp: new_ids_Cons [of x ops])
qed

section \<open>Properties\<close>

text \<open>
  The queue is bounded: after any sequence of calls it holds at most \<open>maxSize\<close> entries
  (one, when \<open>maxSize\<close> is zero or negative, since a new entry is always admitted).
\<close>

theorem dlq_bounded: "int (dlq_size (fold (dlq_exec maxSize) ops [])) \<le> max 1 maxSize"
proof -
  have "int (length es) \<le> max 1 maxSize \<Longrightarrow>
      int (length (fold (dlq_exec maxSize) ops es)) \<le> max 1 maxSize" for es
    by (induction ops arbitrary: es) (auto simp: dlq_exec_bounded simp del: dlq_exec.simps)
  then show ?thesis by (simp add: dlq_size_def)
qed

text \<open>
  What an insertion at capacity evicts: the oldest entry not yet acknowledged, and only
  when every entry is acknowledged the oldest acknowledged one. Reviewed entries are therefore
  kept in preference to pending ones, and both kinds keep their order.
\<close>

theorem dlq_eviction_order:
  "let full = (int (length es) \<ge> maxSize);
       pending = filter (\<lambda>e. \<not> acknowledged e) es;
       acked = filter acknowledged es;
       (new, es') = enqueue maxSize i now p es
   in filter (\<lambda>e. \<not> acknowledged e) es' = (if full then tl pending else pending) @ [new] \<and>
      filter acknowledged es' = (if full \<and> pending = [] then tl acked else acked)"
proof (cases "find_index (\<lambda>e. \<not> acknowledged e) es")
  case None
  then have all: "\<forall>e\<in>set es. acknowledged e" by (simp add: find_index_None)
  then have "filter acknowledged (splice1 0 es) = tl (filter acknowledged es)"
    and "filter (\<lambda>e. \<not> acknowledged e) (splice1 0 es) = []"
    by (cases es; auto simp: splice1_def filter_empty_conv)+
  with None all show ?thesis
    by (auto simp: enqueue_def evict_def make_entry_def Let_def filter_empty_conv)
next
  case (Some k)
  then have "filter (\<lambda>e. \<not> acknowledged e) es \<noteq> []"
    using find_index_Some [OF Some] by (auto simp: filter_empty_conv intro!: bexI [of _ "es ! k"])
  with Some splice1_find_filter [OF Some] splice1_filter [OF Some] show ?thesis
    by (simp add: enqueue_def evict_def make_entry_def Let_def)
qed

text \<open>
  Insert and look up: if the generated identifiers never repeat, then after any history
  the entry just enqueued is the one \<open>get\<close> returns for its identifier.
\<close>

theorem dlq_insert_lookup:
  assumes "distinct (new_ids (ops @ [Enqueue i now p]))"
  shows "get_entry i (fold (dlq_exec maxSize) (ops @ [Enqueue i now p]) []) = Some (make_entry i now p)"
proof -
  let ?es = "fold (dlq_exec maxSize) ops []"
  have "i \<notin> set (map dl_id (evict maxSize ?es))"
    using dlq_run_ids [of "[]" ops maxSize] set_evict [of maxSize ?es] assms
    by (auto simp: new_ids_append)
  then have "find (\<lambda>e. dl_id e = i) (evict maxSize ?es) = None"
    by (auto simp: find_None_iff)
  then show ?thesis
    by (simp add: get_entry_def enqueue_def Let_def find_append make_entry_def)
qed

theorem dlq_insert_lookup_witness:
  "get_entry ''b'' (fold (dlq_exec 1)
     ([Enqueue ''a'' ''t1'' sample_params] @ [Enqueue ''b'' ''t2'' sample_params]) []) =
   Some (make_entry ''b'' ''t2'' sample_params)"
  by (rule dlq_insert_lookup) simp

end
