(* ===== verification/Workflow_Machines.thy ===== *)
theory Workflow_Machines
  imports Retry_Model
begin

text \<open>
  The status machines of the workflow engine and its per-node retry manager:
  src/src/workflows/engine/friday-workflow-node-machine.ts, friday-workflow-run-machine.ts and
  friday-workflow-retry-manager.ts. Both machines are transition tables with an
  \<open>assertTransition\<close> that raises on a step outside the table. Their \<open>isTerminal\<close> includes
  \<open>failed\<close>, which the table can leave again (a retry); the final states proper are \<open>completed\<close>
  and \<open>cancelled\<close>.
\<close>

section \<open>Node attempts\<close>

datatype NodeAttemptStatus =
    N_Queued | N_Running | N_Retrying | N_Completed | N_Failed | N_Blocked_Offline | N_Cancelled

fun node_status_name :: "NodeAttemptStatus \<Rightarrow> string" where
  "node_status_name N_Queued = ''queued''"
| "node_status_name N_Running = ''running''"
| "node_status_name N_Retrying = ''retrying''"
| "node_status_name N_Completed = ''completed''"
| "node_status_name N_Failed = ''failed''"
| "node_status_name N_Blocked_Offline = ''blocked_offline''"
| "node_status_name N_Cancelled = ''cancelled''"

fun NODE_VALID_TRANSITIONS :: "NodeAttemptStatus \<Rightarrow> NodeAttemptStatus list" where
  "NODE_VALID_TRANSITIONS N_Queued = [N_Running, N_Cancelled, N_Blocked_Offline]"
| "NODE_VALID_TRANSITIONS N_Running = [N_Completed, N_Failed, N_Cancelled, N_Blocked_Offline]"
| "NODE_VALID_TRANSITIONS N_Retrying = [N_Running, N_Cancelled, N_Blocked_Offline]"
| "NODE_VALID_TRANSITIONS N_Failed = [N_Retrying]"
| "NODE_VALID_TRANSITIONS N_Blocked_Offline = [N_Running, N_Completed, N_Cancelled, N_Failed]"
| "NODE_VALID_TRANSITIONS N_Completed = []"
| "NODE_VALID_TRANSITIONS N_Cancelled = []"

definition NODE_TERMINAL_STATUSES :: "NodeAttemptStatus list" where
  "NODE_TERMINAL_STATUSES = [N_Completed, N_Failed, N_Cancelled]"

definition canTransition_node :: "NodeAttemptStatus \<Rightarrow> NodeAttemptStatus \<Rightarrow> bool" where
  "canTransition_node from to = (to \<in> set (NODE_VALID_TRANSITIONS from))"

definition quoted :: "string \<Rightarrow> string" where
  "quoted s = [CHR 0x27] @ s @ [CHR 0x27]"

definition assertTransition_node :: "NodeAttemptStatus \<Rightarrow> NodeAttemptStatus \<Rightarrow> unit result" where
  "assertTransition_node from to =
     (if canTransition_node from to then Inr ()
      else Inl (FridayDomainError ''INVALID_NODE_TRANSITION''
             (''INVALID_NODE_TRANSITION: cannot transition from '' @ quoted (node_status_name from) @
              '' to '' @ quoted (node_status_name to)) 400))"

definition isTerminal_node :: "NodeAttemptStatus \<Rightarrow> bool" where
  "isTerminal_node status = (status \<in> set NODE_TERMINAL_STATUSES)"

section \<open>Runs\<close>

datatype WorkflowRunStatus =
    R_Queued | R_Running | R_Pausing | R_Paused | R_Compensating | R_Completed | R_Failed | R_Cancelled

fun run_status_name :: "WorkflowRunStatus \<Rightarrow> string" where
  "run_status_name R_Queued = ''queued''"
| "run_status_name R_Running = ''running''"
| "run_status_name R_Pausing = ''pausing''"
| "run_status_name R_Paused = ''paused''"
| "run_status_name R_Compensating = ''compensating''"
| "run_status_name R_Completed = ''completed''"
| "run_status_name R_Failed = ''failed''"
| "run_status_name R_Cancelled = ''cancelled''"

fun RUN_VALID_TRANSITIONS :: "WorkflowRunStatus \<Rightarrow> WorkflowRunStatus list" where
  "RUN_VALID_TRANSITIONS R_Queued = [R_Running, R_Cancelled]"
| "RUN_VALID_TRANSITIONS R_Running = [R_Pausing, R_Completed, R_Failed, R_Cancelled, R_Compensating]"
| "RUN_VALID_TRANSITIONS R_Pausing = [R_Paused, R_Failed, R_Cancelled]"
| "RUN_VALID_TRANSITIONS R_Paused = [R_Running, R_Cancelled]"
| "RUN_VALID_TRANSITIONS R_Compensating = [R_Completed, R_Failed, R_Cancelled]"
| "RUN_VALID_TRANSITIONS R_Failed = [R_Running]"
| "RUN_VALID_TRANSITIONS R_Completed = []"
| "RUN_VALID_TRANSITIONS R_Cancelled = []"

definition RUN_TERMINAL_STATUSES :: "WorkflowRunStatus list" where
  "RUN_TERMINAL_STATUSES = [R_Completed, R_Failed, R_Cancelled]"

definition canTransition_run :: "WorkflowRunStatus \<Rightarrow> WorkflowRunStatus \<Rightarrow> bool" where
  "canTransition_run from to = (to \<in> set (RUN_VALID_TRANSITIONS from))"

definition assertTransition_run :: "WorkflowRunStatus \<Rightarrow> WorkflowRunStatus \<Rightarrow> unit result" where
  "assertTransition_run from to =
     (if canTransition_run from to then Inr ()
      else Inl (FridayDomainError ''INVALID_RUN_TRANSITION''
             (''INVALID_RUN_TRANSITION: cannot transition from '' @ quoted (run_status_name from) @
              '' to '' @ quoted (run_status_name to)) 400))"

definition isTerminal_run :: "WorkflowRunStatus \<Rightarrow> bool" where
  "isTerminal_run status = (status \<in> set RUN_TERMINAL_STATUSES)"

section \<open>Per-node retry manager\<close>

record WorkflowRetryDecision =
  wd_shouldRetry :: bool
  wd_nextAttemptNumber :: int
  wd_delayMs :: rat
  wd_reason :: string

definition isRetryableError :: "string \<Rightarrow> string list \<Rightarrow> bool" where
  "isRetryableError errorCode retryOnCodes = (retryOnCodes = [] \<or> errorCode \<in> set retryOnCodes)"

definition computeBackoffMs :: "rat \<Rightarrow> int \<Rightarrow> FridayNodeRetryPolicy \<Rightarrow> rat" where
  "computeBackoffMs random attemptNumber policy =
     (case np_backoff policy of
        Backoff_None \<Rightarrow> 0
      | Backoff_Fixed \<Rightarrow> min (np_baseDelayMs policy) (np_maxDelayMs policy)
      | Backoff_Exponential \<Rightarrow>
          (let delay = np_baseDelayMs policy * 2 powi (attemptNumber - 1);
               jitter = delay * (1 / 4) * (random * 2 - 1)
           in min (of_int (js_round (delay + jitter))) (np_maxDelayMs policy)))"

definition evaluateRetry ::
    "rat \<Rightarrow> int \<Rightarrow> FridayNodeRetryPolicy option \<Rightarrow> string \<Rightarrow> WorkflowRetryDecision" where
  "evaluateRetry random attempt retryPolicy errorCode =
     (case retryPolicy of
        None \<Rightarrow> \<lparr>wd_shouldRetry = False, wd_nextAttemptNumber = attempt + 1, wd_delayMs = 0,
                 wd_reason = ''no retry policy''\<rparr>
      | Some policy \<Rightarrow>
          if attempt \<ge> np_maxAttempts policy
          then \<lparr>wd_shouldRetry = False, wd_nextAttemptNumber = attempt + 1, wd_delayMs = 0,
                wd_reason = ''max attempts exceeded''\<rparr>
          else if length (np_retryOn policy) > 0 \<and> \<not> isRetryableError errorCode (np_retryOn policy)
          then \<lparr>wd_shouldRetry = False, wd_nextAttemptNumber = attempt + 1, wd_delayMs = 0,
                wd_reason = ''error code not in retryOn list''\<rparr>
          else \<lparr>wd_shouldRetry = True, wd_nextAttemptNumber = attempt + 1,
                wd_delayMs = computeBackoffMs random attempt policy,
                wd_reason = ''retry eligible''\<rparr>)"

definition generateIdempotencyKey :: "UUID \<Rightarrow> string \<Rightarrow> int \<Rightarrow> string" where
  "generateIdempotencyKey runId nodeId attemptNumber =
     ''wfrun:'' @ runId @ '':node:'' @ nodeId @ '':attempt:'' @ show_int attemptNumber"

text \<open>A node attempt retried under one policy: the attempt numbers that are ever run.\<close>

fun attempt_chain :: "nat \<Rightarrow> (int \<Rightarrow> rat) \<Rightarrow> int \<Rightarrow> FridayNodeRetryPolicy option \<Rightarrow> (int \<Rightarrow> string) \<Rightarrow> int list" where
  "attempt_chain 0 random attempt policy code = [attempt]"
| "attempt_chain (Suc fuel) random attempt policy code =
     (let d = evaluateRetry (random attempt) attempt policy (code attempt) in
      attempt # (if wd_shouldRetry d
        then attempt_chain fuel random (wd_nextAttemptNumber d) policy code else []))"

definition sample_node_policy :: FridayNodeRetryPolicy where
  "sample_node_policy = \<lparr>np_maxAttempts = 3, np_backoff = Backoff_Exponential, np_baseDelayMs = 100,
     np_maxDelayMs = 250, np_retryOn = [''TIMEOUT'']\<rparr>"

section \<open>Lemmas\<close>

interpretation node_lifecycle: lifecycle
  "\<lambda>a b. assertTransition_node a b = Inr ()" "\<lambda>a. a = N_Completed \<or> a = N_Cancelled"
  by unfold_locales (auto simp: assertTransition_node_def canTransition_node_def)

interpretation run_lifecycle: lifecycle
  "\<lambda>a b. assertTransition_run a b = Inr ()" "\<lambda>a. a = R_Completed \<or> a = R_Cancelled"
  by unfold_locales (auto simp: assertTransition_run_def canTransition_run_def)

lemma evaluateRetry_iff:
  "wd_shouldRetry (evaluateRetry random attempt policy code) \<longleftrightarrow>
     (\<exists>p. policy = Some p \<and> attempt < np_maxAttempts p \<and> isRetryableError code (np_retryOn p))"
  by (auto simp: evaluateRetry_def isRetryableError_def split: option.splits)

lemma evaluateRetry_next [simp]:
  "wd_nextAttemptNumber (evaluateRetry random attempt policy code) = attempt + 1"
  by (auto simp: evaluateRetry_def split: option.splits)

lemma computeBackoffMs_nonneg:
  assumes "0 \<le> np_baseDelayMs p" and "0 \<le> np_maxDelayMs p" and "0 \<le> r" and "r < 1"
  shows "0 \<le> computeBackoffMs r n p"
proof -
  let ?d = "np_baseDelayMs p * 2 powi (n - 1)"
  have d: "0 \<le> ?d" using assms(1) by simp
  have "?d * (1 / 4) * (- 1) \<le> ?d * (1 / 4) * (r * 2 - 1)"
    using d assms(3) by (intro mult_left_mono) auto
  moreover have "0 \<le> ?d + ?d * (1 / 4) * (- 1)" using d by simp
  ultimately have "0 \<le> ?d + ?d * (1 / 4) * (r * 2 - 1)" by linarith
  then have "0 \<le> js_round (?d + ?d * (1 / 4) * (r * 2 - 1))"
    using js_round_mono [of 0 "?d + ?d * (1 / 4) * (r * 2 - 1)"] js_round_of_int [of 0] by simp
  then show ?thesis
    using assms by (auto simp: computeBackoffMs_def Let_def split: FridayRetryBackoffStrategy.splits)
qed

lemma computeBackoffMs_cap: "0 \<le> np_maxDelayMs p \<Longrightarrow> computeBackoffMs r n p \<le> np_maxDelayMs p"
  by (auto simp: computeBackoffMs_def Let_def split: FridayRetryBackoffStrategy.splits)

lemma attempt_chain_upto:
  "\<exists>k. attempt_chain fuel random attempt policy code = map (\<lambda>i. attempt + int i) [0..<Suc k] \<and>
     (k = 0 \<or> (\<exists>p. policy = Some p \<and> attempt + int k \<le> np_maxAttempts p))"
proof (induction fuel arbitrary: attempt)
  case 0
  show ?case by (intro exI [of _ 0]) simp
next
  case (Suc fuel)
  show ?case
  proof (cases "wd_shouldRetry (evaluateRetry (random attempt) attempt policy (code attempt))")
    case False
    then show ?thesis by (intro exI [of _ 0]) simp
  next
    case True
    then obtain p where p: "policy = Some p" "attempt < np_maxAttempts p"
      by (auto simp: evaluateRetry_iff)
    obtain k where k: "attempt_chain fuel random (attempt + 1) policy code =
        map (\<lambda>i. attempt + 1 + int i) [0..<Suc k]" "k = 0 \<or> attempt + 1 + int k \<le> np_maxAttempts p"
      using Suc [of "attempt + 1"] p(1) by auto
    have "[0..<Suc (Suc k)] = 0 # map Suc [0..<Suc k]"
      by (simp add: map_Suc_upt upt_conv_Cons del: upt_Suc)
    with True p k show ?thesis
      by (intro exI [of _ "Suc k"]) (auto simp: algebra_simps simp del: upt_Suc)
  qed
qed

section \<open>Properties\<close>

text \<open>
  Completed and cancelled are final for node attempts and for runs: no sequence of asserted
  transitions leaves them, whereas a failed attempt can only go to \<open>retrying\<close> and a failed run
  only back to \<open>running\<close>. Every other status can be left.
\<close>

theorem workflow_final_statuses:
  "(\<lambda>a b. assertTransition_node a b = Inr ())\<^sup>*\<^sup>* N_Completed n = (n = N_Completed) \<and>
   (\<lambda>a b. assertTransition_node a b = Inr ())\<^sup>*\<^sup>* N_Cancelled n = (n = N_Cancelled) \<and>
   (\<lambda>a b. assertTransition_run a b = Inr ())\<^sup>*\<^sup>* R_Completed r = (r = R_Completed) \<and>
   (\<lambda>a b. assertTransition_run a b = Inr ())\<^sup>*\<^sup>* R_Cancelled r = (r = R_Cancelled) \<and>
   (assertTransition_node N_Failed n = Inr ()) = (n = N_Retrying) \<and>
   (assertTransition_run R_Failed r = Inr ()) = (r = R_Running) \<and>
   ((\<exists>n'. assertTransition_node n n' = Inr ()) = (n \<notin> {N_Completed, N_Cancelled})) \<and>
   ((\<exists>r'. assertTransition_run r r' = Inr ()) = (r \<notin> {R_Completed, R_Cancelled}))"
proof -
  have n: "(\<exists>n'. assertTransition_node n n' = Inr ()) = (n \<notin> {N_Completed, N_Cancelled})"
    by (cases n) (auto simp: assertTransition_node_def canTransition_node_def)
  have r: "(\<exists>r'. assertTransition_run r r' = Inr ()) = (r \<notin> {R_Completed, R_Cancelled})"
    by (cases r) (auto simp: assertTransition_run_def canTransition_run_def)
  have f: "(assertTransition_node N_Failed n = Inr ()) = (n = N_Retrying)"
    "(assertTransition_run R_Failed r = Inr ()) = (r = R_Running)"
    by (simp_all add: assertTransition_node_def canTransition_node_def
        assertTransition_run_def canTransition_run_def)
  show ?thesis
    using n r f node_lifecycle.terminal_absorbing [of N_Completed n] node_lifecycle.terminal_absorbing [of N_Cancelled n]
      run_lifecycle.terminal_absorbing [of R_Completed r] run_lifecycle.terminal_absorbing [of R_Cancelled r]
    by (intro conjI iffI) auto
qed

text \<open>
  A node attempt retried under its policy runs consecutive attempt numbers and, if it is
  retried at all, none beyond \<open>maxAttempts\<close>; each delay is between 0 and \<open>maxDelayMs\<close>, jitter
  included.
\<close>

theorem node_retry_bounded:
  assumes "0 \<le> np_baseDelayMs p" and "0 \<le> np_maxDelayMs p" and "\<And>n. 0 \<le> random n \<and> random n < 1"
  shows "\<exists>k. attempt_chain fuel random attempt (Some p) code = map (\<lambda>i. attempt + int i) [0..<Suc k] \<and>
    attempt + int k \<le> max attempt (np_maxAttempts p) \<and>
    (\<forall>n. 0 \<le> wd_delayMs (evaluateRetry (random n) n (Some p) (code n)) \<and>
         wd_delayMs (evaluateRetry (random n) n (Some p) (code n)) \<le> np_maxDelayMs p)"
proof -
  have "0 \<le> wd_delayMs (evaluateRetry (random n) n (Some p) (code n)) \<and>
      wd_delayMs (evaluateRetry (random n) n (Some p) (code n)) \<le> np_maxDelayMs p" for n
    using assms by (auto simp: evaluateRetry_def intro: computeBackoffMs_nonneg computeBackoffMs_cap)
  with attempt_chain_upto [of fuel random attempt "Some p" code] show ?thesis by fastforce
qed

theorem node_retry_bounded_witness:
  "\<exists>k. attempt_chain 9 (\<lambda>_. 1 / 2) 1 (Some sample_node_policy) (\<lambda>_. ''TIMEOUT'') =
      map (\<lambda>i. 1 + int i) [0..<Suc k] \<and> 1 + int k \<le> 3"
  using node_retry_bounded [of sample_node_policy "\<lambda>_. 1 / 2" 9 1 "\<lambda>_. ''TIMEOUT''"]
  by (auto simp: sample_node_policy_def)

end
