(* ===== verification/Workflow_Dag.thy ===== *)
theory Workflow_Dag
  imports Workflow_Machines
begin

text \<open>
  The DAG scheduler of src/src/workflows/engine/friday-workflow-dag-scheduler.ts: construction of
  the adjacency of a compiled graph (with edge validation and Kahn's algorithm), the execution
  plan, and one scheduling tick. The expression evaluator is an argument of the scheduler in the
  code and stays one here: \<open>exec\<close> yields an error or whether the value is truthy.
\<close>

section \<open>Graphs\<close>

datatype WorkflowFailureStrategy =
    Fail_Fast | Continue_On_Error | Fallback_Step | Compensate | Pause_For_Approval

record WorkflowFailurePolicyV2 =
  onFailure :: WorkflowFailureStrategy
  fallbackStepId :: "string option"
  compensationWorkflowId :: "string option"
  notifyUser :: bool

record FridayWorkflowNode =
  wn_id :: string
  wn_type :: string
  wn_label :: string
  wn_config :: "(string \<times> json) list"
  wn_retryPolicy :: "FridayNodeRetryPolicy option"
  wn_timeoutMs :: "int option"

record FridayWorkflowEdge =
  we_id :: string
  sourceNodeId :: string
  sourcePort :: "string option"
  targetNodeId :: string
  targetPort :: "string option"
  we_condition :: "string option"
  we_priority :: "int option"

record FridayWorkflowTestAssertion =
  ta_path :: string
  ta_operator :: string
  ta_expected :: json

record FridayWorkflowTestMock =
  tm_output :: "(string \<times> json) list"
  tm_status :: "string option"

record FridayWorkflowTest =
  wt_name :: string
  wt_description :: "string option"
  wt_inputs :: "(string \<times> json) list"
  wt_mocks :: "(string \<times> FridayWorkflowTestMock) list option"
  wt_assertions :: "FridayWorkflowTestAssertion list"

record FridayCompiledWorkflowGraphV2 =
  cg_schemaVersion :: string
  cg_workflowId :: string
  cg_workflowVersionId :: string
  cg_sourceSpecSchemaVersion :: string
  cg_nodes :: "FridayWorkflowNode list"
  cg_edges :: "FridayWorkflowEdge list"
  cg_variables :: "(string \<times> json) list option"
  cg_failurePolicy :: WorkflowFailurePolicyV2
  cg_tests :: "FridayWorkflowTest list"
  cg_checksum :: string

record FridayDagAdjacency =
  outbound :: "(string, string list) js_map"
  inbound :: "(string, string list) js_map"
  entryNodes :: "string list"
  topoOrder :: "string list"

record FridayWorkflowExecutionPlan =
  ep_runId :: string
  ep_workflowId :: string
  ep_workflowVersionId :: string
  ep_compiledGraph :: FridayCompiledWorkflowGraphV2
  ep_adjacency :: FridayDagAdjacency
  ep_failurePolicy :: WorkflowFailurePolicyV2
  ep_nodeMap :: "(string, FridayWorkflowNode) js_map"

definition MAX_CONCURRENT_NODES :: nat where
  "MAX_CONCURRENT_NODES = 50"

definition MAX_TOTAL_STEPS :: nat where
  "MAX_TOTAL_STEPS = 500"

section \<open>Adjacency\<close>

definition init_lists :: "FridayWorkflowNode list \<Rightarrow> (string, string list) js_map" where
  "init_lists nodes = fold (\<lambda>node m. map_set m (wn_id node) []) nodes map_empty"

text \<open>One pass over the edges; an unknown end stops it with an error.\<close>

fun add_edges ::
    "FridayWorkflowEdge list \<Rightarrow> (string, string list) js_map \<Rightarrow> (string, string list) js_map
     \<Rightarrow> ((string, string list) js_map \<times> (string, string list) js_map) result" where
  "add_edges [] out inb = Inr (out, inb)"
| "add_edges (edge # edges) out inb =
     (case (map_get out (sourceNodeId edge), map_get inb (targetNodeId edge)) of
        (Some sourceList, Some targetList) \<Rightarrow>
          add_edges edges (map_set out (sourceNodeId edge) (sourceList @ [targetNodeId edge]))
            (map_set inb (targetNodeId edge) (targetList @ [sourceNodeId edge]))
      | (sourceList, _) \<Rightarrow>
          Inl (FridayDomainError ''WORKFLOW_INVALID_EDGE''
            (''Edge references unknown node: '' @
             (if sourceList = None then sourceNodeId edge else targetNodeId edge)) 400))"

definition list_at :: "(string, string list) js_map \<Rightarrow> string \<Rightarrow> string list" where
  "list_at m k = (case map_get m k of Some xs \<Rightarrow> xs | None \<Rightarrow> [])"

definition entry_nodes :: "FridayWorkflowNode list \<Rightarrow> (string, string list) js_map \<Rightarrow> string list" where
  "entry_nodes nodes inb = filter (\<lambda>i. list_at inb i = []) (map wn_id nodes)"

definition init_degrees :: "FridayWorkflowNode list \<Rightarrow> (string, string list) js_map \<Rightarrow> (string, int) js_map" where
  "init_degrees nodes inb =
     fold (\<lambda>node m. map_set m (wn_id node) (int (length (list_at inb (wn_id node))))) nodes map_empty"

text \<open>
  The inner loop of Kahn's algorithm over the successors of a node. Both ends of every edge have
  been checked before, so a missing degree does not occur.
\<close>

fun relax :: "string list \<Rightarrow> string list \<Rightarrow> (string, int) js_map \<Rightarrow> string list \<times> (string, int) js_map" where
  "relax [] queue deg = (queue, deg)"
| "relax (successor # ss) queue deg =
     (case map_get deg successor of
        None \<Rightarrow> relax ss queue deg
      | Some d \<Rightarrow>
          relax ss (if d - 1 = 0 then queue @ [successor] else queue) (map_set deg successor (d - 1)))"

text \<open>The number of nodes that still wait for a predecessor bounds the work left.\<close>

definition waiting :: "(string, int) js_map \<Rightarrow> nat" where
  "waiting deg = length (filter (\<lambda>(k, d). d > 0) deg)"

lemma waiting_set:
  "map_get deg k = Some d \<Longrightarrow>
   waiting (map_set deg k d') + (if d > 0 then 1 else 0) = waiting deg + (if d' > 0 then 1 else 0)"
  by (induction deg) (auto simp: waiting_def map_get_def map_set_def split: if_splits)

lemma relax_measure:
  "length (fst (relax ss queue deg)) + waiting (snd (relax ss queue deg)) \<le> length queue + waiting deg"
proof (induction ss queue deg rule: relax.induct)
  case (2 s ss queue deg)
  show ?case
  proof (cases "map_get deg s")
    case None
    with 2 show ?thesis by simp
  next
    case (Some d)
    with 2(2) [OF Some] waiting_set [OF Some, of "d - 1"] show ?thesis by (auto split: if_splits)
  qed
qed simp

function kahn :: "(string, string list) js_map \<Rightarrow> string list \<Rightarrow> string list \<Rightarrow> (string, int) js_map \<Rightarrow> string list" where
  "kahn out [] topo deg = topo"
| "kahn out (nodeId # queue) topo deg =
     (let r = relax (list_at out nodeId) queue deg in kahn out (fst r) (topo @ [nodeId]) (snd r))"
  by pat_completeness auto
termination
proof (relation "measure (\<lambda>(out, queue, topo, deg). length queue + waiting deg)", goal_cases)
  case (2 out nodeId queue topo deg r)
  then show ?case using relax_measure [of "list_at out nodeId" queue deg] by simp
qed simp

definition buildAdjacency :: "FridayCompiledWorkflowGraphV2 \<Rightarrow> FridayDagAdjacency result" where
  "buildAdjacency graph =
     (let nodes = cg_nodes graph in
      case add_edges (cg_edges graph) (init_lists nodes) (init_lists nodes) of
        Inl e \<Rightarrow> Inl e
      | Inr (out, inb) \<Rightarrow>
          (let entries = entry_nodes nodes inb;
               topo = kahn out entries [] (init_degrees nodes inb)
           in if length topo \<noteq> length nodes
              then Inl (FridayDomainError ''WORKFLOW_CYCLE_DETECTED''
                     ''WORKFLOW_CYCLE_DETECTED: graph contains a cycle'' 400)
              else Inr \<lparr>outbound = out, inbound = inb, entryNodes = entries, topoOrder = topo\<rparr>))"

definition buildExecutionPlan ::
    "string \<Rightarrow> FridayCompiledWorkflowGraphV2 \<Rightarrow> FridayWorkflowExecutionPlan result" where
  "buildExecutionPlan runId graph =
     (if length (cg_nodes graph) > MAX_TOTAL_STEPS
      then Inl (FridayDomainError ''WORKFLOW_TOO_MANY_NODES''
             (''Workflow graph contains '' @ show_nat (length (cg_nodes graph)) @
              '' nodes, exceeding the maximum of '' @ show_nat MAX_TOTAL_STEPS) 400)
      else case buildAdjacency graph of
             Inl e \<Rightarrow> Inl e
           | Inr adjacency \<Rightarrow>
               Inr \<lparr>ep_runId = runId, ep_workflowId = cg_workflowId graph,
                    ep_workflowVersionId = cg_workflowVersionId graph, ep_compiledGraph = graph,
                    ep_adjacency = adjacency, ep_failurePolicy = cg_failurePolicy graph,
                    ep_nodeMap = fold (\<lambda>node m. map_set m (wn_id node) node) (cg_nodes graph) map_empty\<rparr>)"

section \<open>One scheduling tick\<close>

text \<open>The key \<open>source\<rightarrow>target\<close> of the edge index, with the arrow in UTF-8.\<close>

definition edge_key :: "string \<Rightarrow> string \<Rightarrow> string" where
  "edge_key source target = source @ [CHR 0xE2, CHR 0x86, CHR 0x92] @ target"

definition edge_index :: "FridayWorkflowEdge list \<Rightarrow> (string, FridayWorkflowEdge) js_map" where
  "edge_index edges =
     fold (\<lambda>edge m. map_set m (edge_key (sourceNodeId edge) (targetNodeId edge)) edge) edges map_empty"

text \<open>Whether the edge from a finished predecessor is enabled; an evaluation error disables it.\<close>

definition edge_enabled ::
    "(string \<Rightarrow> string + bool) \<Rightarrow> (string, FridayWorkflowEdge) js_map \<Rightarrow> string \<Rightarrow> string \<Rightarrow> bool" where
  "edge_enabled exec index pred nodeId =
     (case map_get index (edge_key pred nodeId) of
        None \<Rightarrow> True
      | Some edge \<Rightarrow>
          (case we_condition edge of
             None \<Rightarrow> True
           | Some condition \<Rightarrow>
               if condition = [] then True
               else case exec condition of Inl err \<Rightarrow> False | Inr value \<Rightarrow> value))"

text \<open>The loop over the predecessors: (all satisfied, any enabled edge).\<close>

fun scan_predecessors ::
    "(string \<Rightarrow> string + bool) \<Rightarrow> (string, FridayWorkflowEdge) js_map \<Rightarrow> (string, NodeAttemptStatus) js_map
     \<Rightarrow> string \<Rightarrow> string list \<Rightarrow> bool \<Rightarrow> bool \<times> bool" where
  "scan_predecessors exec index statuses nodeId [] anyEnabled = (True, anyEnabled)"
| "scan_predecessors exec index statuses nodeId (pred # preds) anyEnabled =
     (case map_get statuses pred of
        None \<Rightarrow> (False, anyEnabled)
      | Some status \<Rightarrow>
          if status \<notin> set NODE_TERMINAL_STATUSES then (False, anyEnabled)
          else scan_predecessors exec index statuses nodeId preds
                 (anyEnabled \<or> edge_enabled exec index pred nodeId))"

datatype placement = Ready | DeadEnded | Skipped

definition place_node ::
    "(string \<Rightarrow> string + bool) \<Rightarrow> (string, FridayWorkflowEdge) js_map \<Rightarrow> FridayDagAdjacency
     \<Rightarrow> (string, NodeAttemptStatus) js_map \<Rightarrow> string \<Rightarrow> placement" where
  "place_node exec index adjacency statuses nodeId =
     (case map_get statuses nodeId of
        Some status \<Rightarrow> if status = N_Retrying then Ready else Skipped
      | None \<Rightarrow>
          (let predecessors = list_at (inbound adjacency) nodeId in
           if predecessors = [] then Ready
           else case scan_predecessors exec index statuses nodeId predecessors False of
                  (allSatisfied, anyEnabledEdge) \<Rightarrow>
                    if allSatisfied \<and> anyEnabledEdge then Ready
                    else if allSatisfied \<and> \<not> anyEnabledEdge \<and> length predecessors > 0 then DeadEnded
                    else Skipped))"

record SchedulingResult =
  readyNodes :: "string list"
  deadEndedNodes :: "string list"

definition evaluateSchedulingResult ::
    "FridayDagAdjacency \<Rightarrow> (string, NodeAttemptStatus) js_map \<Rightarrow> FridayCompiledWorkflowGraphV2
     \<Rightarrow> (string \<Rightarrow> string + bool) \<Rightarrow> SchedulingResult" where
  "evaluateSchedulingResult adjacency statuses graph exec =
     (let place = place_node exec (edge_index (cg_edges graph)) adjacency statuses
      in \<lparr>readyNodes = take MAX_CONCURRENT_NODES (filter (\<lambda>n. place n = Ready) (topoOrder adjacency)),
          deadEndedNodes = filter (\<lambda>n. place n = DeadEnded) (topoOrder adjacency)\<rparr>)"

definition computeReadyNodes ::
    "FridayDagAdjacency \<Rightarrow> (string, NodeAttemptStatus) js_map \<Rightarrow> FridayCompiledWorkflowGraphV2
     \<Rightarrow> (string \<Rightarrow> string + bool) \<Rightarrow> string list" where
  "computeReadyNodes adjacency statuses graph exec =
     readyNodes (evaluateSchedulingResult adjacency statuses graph exec)"

definition computeSchedulingResult ::
    "FridayDagAdjacency \<Rightarrow> (string, NodeAttemptStatus) js_map \<Rightarrow> FridayCompiledWorkflowGraphV2
     \<Rightarrow> (string \<Rightarrow> string + bool) \<Rightarrow> SchedulingResult" where
  "computeSchedulingResult = evaluateSchedulingResult"

section \<open>Specification vocabulary\<close>

definition node_ids :: "FridayCompiledWorkflowGraphV2 \<Rightarrow> string list" where
  "node_ids graph = map wn_id (cg_nodes graph)"

definition edge_pairs :: "FridayCompiledWorkflowGraphV2 \<Rightarrow> (string \<times> string) list" where
  "edge_pairs graph = map (\<lambda>e. (sourceNodeId e, targetNodeId e)) (cg_edges graph)"

definition edges_valid :: "FridayCompiledWorkflowGraphV2 \<Rightarrow> bool" where
  "edges_valid graph \<longleftrightarrow> (\<forall>(u, v)\<in>set (edge_pairs graph). u \<in> set (node_ids graph) \<and> v \<in> set (node_ids graph))"

text \<open>Every edge into an element of the list comes from an earlier element.\<close>

definition edges_forward :: "(string \<times> string) list \<Rightarrow> string list \<Rightarrow> bool" where
  "edges_forward E xs \<longleftrightarrow> (\<forall>i<length xs. \<forall>(u, v)\<in>set E. v = xs ! i \<longrightarrow> u \<in> set (take i xs))"

text \<open>The edges into a node whose source has not been emitted yet.\<close>

definition pending :: "(string \<times> string) list \<Rightarrow> string list \<Rightarrow> string \<Rightarrow> nat" where
  "pending E topo v = length (filter (\<lambda>(a, b). b = v \<and> a \<notin> set topo) E)"

definition kahn_inv ::
    "(string \<times> string) list \<Rightarrow> string set \<Rightarrow> string list \<Rightarrow> string list \<Rightarrow> (string, int) js_map \<Rightarrow> bool" where
  "kahn_inv E ids queue topo deg \<longleftrightarrow>
     distinct (topo @ queue) \<and> set (topo @ queue) \<subseteq> ids \<and>
     (\<forall>v\<in>ids. map_get deg v = Some (int (pending E topo v)) \<and>
             (v \<in> set (topo @ queue) \<longleftrightarrow> pending E topo v = 0)) \<and>
     edges_forward E topo"

text \<open>A predecessor has finished (its status is terminal for scheduling).\<close>

definition settled :: "(string, NodeAttemptStatus) js_map \<Rightarrow> string \<Rightarrow> bool" where
  "settled statuses n = (case map_get statuses n of None \<Rightarrow> False | Some st \<Rightarrow> isTerminal_node st)"

text \<open>
  What lets a node through from a predecessor: the last of the edges between them (if there is one)
  has no condition, or one that evaluates to true.
\<close>

definition edge_passes ::
    "(string \<Rightarrow> string + bool) \<Rightarrow> FridayWorkflowEdge list \<Rightarrow> string \<Rightarrow> string \<Rightarrow> bool" where
  "edge_passes exec edges p n =
     (let between = filter (\<lambda>e. edge_key (sourceNodeId e) (targetNodeId e) = edge_key p n) edges in
      between = [] \<or> we_condition (last between) \<in> {None, Some []} \<or>
      map_option exec (we_condition (last between)) = Some (Inr True))"

text \<open>Concrete graphs used by the witnesses: a chain and a cycle over three nodes.\<close>

definition sample_node :: "string \<Rightarrow> FridayWorkflowNode" where
  "sample_node i = \<lparr>wn_id = i, wn_type = ''action'', wn_label = i, wn_config = [],
     wn_retryPolicy = None, wn_timeoutMs = None\<rparr>"

definition sample_edge :: "string \<Rightarrow> string \<Rightarrow> string option \<Rightarrow> FridayWorkflowEdge" where
  "sample_edge u v c = \<lparr>we_id = u @ v, sourceNodeId = u, sourcePort = None, targetNodeId = v,
     targetPort = None, we_condition = c, we_priority = None\<rparr>"

definition sample_graph :: "FridayWorkflowEdge list \<Rightarrow> FridayCompiledWorkflowGraphV2" where
  "sample_graph edges = \<lparr>cg_schemaVersion = ''2.0'', cg_workflowId = ''w'', cg_workflowVersionId = ''v1'',
     cg_sourceSpecSchemaVersion = ''1.0'',
     cg_nodes = map sample_node [''c'', ''a'', ''b''], cg_edges = edges, cg_variables = None,
     cg_failurePolicy = \<lparr>onFailure = Fail_Fast, fallbackStepId = None, compensationWorkflowId = None,
       notifyUser = False\<rparr>, cg_tests = [], cg_checksum = ''sum''\<rparr>"

definition chain_edges :: "FridayWorkflowEdge list" where
  "chain_edges = [sample_edge ''a'' ''b'' None, sample_edge ''b'' ''c'' (Some ''x > 1'')]"

section \<open>Lemmas\<close>

subsection \<open>Reading the maps\<close>

lemma init_lists_get: "map_get (init_lists nodes) k = (if k \<in> wn_id ` set nodes then Some [] else None)"
  by (simp add: init_lists_def fold_map_set)

lemma init_degrees_get:
  "k \<in> wn_id ` set nodes \<Longrightarrow> map_get (init_degrees nodes inb) k = Some (int (length (list_at inb k)))"
  using last_filter [of k wn_id nodes] by (simp add: init_degrees_def fold_map_set)

lemma add_edges_ok:
  assumes "\<forall>e\<in>set edges. map_get out (sourceNodeId e) \<noteq> None \<and> map_get inb (targetNodeId e) \<noteq> None"
  shows "\<exists>out' inb'. add_edges edges out inb = Inr (out', inb') \<and>
    (\<forall>k. map_get out' k = map_option (\<lambda>xs. xs @ map targetNodeId (filter (\<lambda>e. sourceNodeId e = k) edges)) (map_get out k)) \<and>
    (\<forall>k. map_get inb' k = map_option (\<lambda>xs. xs @ map sourceNodeId (filter (\<lambda>e. targetNodeId e = k) edges)) (map_get inb k))"
  using assms
proof (induction edges out inb rule: add_edges.induct)
  case (1 out inb)
  show ?case by (simp add: option.map_ident)
next
  case (2 edge edges out inb)
  then obtain xs ys where xs: "map_get out (sourceNodeId edge) = Some xs"
    and ys: "map_get inb (targetNodeId edge) = Some ys" by auto
  let ?out = "map_set out (sourceNodeId edge) (xs @ [targetNodeId edge])"
  let ?inb = "map_set inb (targetNodeId edge) (ys @ [sourceNodeId edge])"
  have "\<forall>e\<in>set edges. map_get ?out (sourceNodeId e) \<noteq> None \<and> map_get ?inb (targetNodeId e) \<noteq> None"
    using "2.prems" by auto
  from "2.IH" [OF _ xs ys this] obtain out' inb' where
    r: "add_edges edges ?out ?inb = Inr (out', inb')"
    "\<forall>k. map_get out' k = map_option (\<lambda>zs. zs @ map targetNodeId (filter (\<lambda>e. sourceNodeId e = k) edges)) (map_get ?out k)"
    "\<forall>k. map_get inb' k = map_option (\<lambda>zs. zs @ map sourceNodeId (filter (\<lambda>e. targetNodeId e = k) edges)) (map_get ?inb k)"
    by auto
  show ?case
    using r xs ys by (intro exI [of _ out'] exI [of _ inb']) auto
qed

lemma add_edges_bad:
  assumes "\<not> (\<forall>e\<in>set edges. map_get out (sourceNodeId e) \<noteq> None \<and> map_get inb (targetNodeId e) \<noteq> None)"
  shows "\<exists>msg. add_edges edges out inb = Inl (FridayDomainError ''WORKFLOW_INVALID_EDGE'' msg 400)"
  using assms
proof (induction edges out inb rule: add_edges.induct)
  case (2 edge edges out inb)
  show ?case
  proof (cases "\<exists>xs ys. map_get out (sourceNodeId edge) = Some xs \<and> map_get inb (targetNodeId edge) = Some ys")
    case False
    then show ?thesis by (auto split: option.splits)
  next
    case True
    then obtain xs ys where xs: "map_get out (sourceNodeId edge) = Some xs"
      and ys: "map_get inb (targetNodeId edge) = Some ys" by auto
    have keep: "map_get (map_set m k v) k' \<noteq> None \<longleftrightarrow> map_get m k' \<noteq> None" if "map_get m k = Some w"
      for m :: "(string, string list) js_map" and k k' v w using that by simp
    have "\<not> (\<forall>e\<in>set edges. map_get (map_set out (sourceNodeId edge) (xs @ [targetNodeId edge])) (sourceNodeId e) \<noteq> None \<and>
        map_get (map_set inb (targetNodeId edge) (ys @ [sourceNodeId edge])) (targetNodeId e) \<noteq> None)"
      using "2.prems" xs ys keep [OF xs] keep [OF ys] by simp
    from "2.IH" [OF _ xs ys this] xs ys show ?thesis by auto
  qed
qed simp

subsection \<open>Kahn's algorithm\<close>

lemma relax_spec:
  assumes "\<forall>v\<in>set ss. \<exists>d. map_get deg v = Some d \<and> int (count_list ss v) \<le> d"
  shows "\<exists>pushed. fst (relax ss queue deg) = queue @ pushed \<and> distinct pushed \<and>
    set pushed = {v \<in> set ss. map_get deg v = Some (int (count_list ss v))} \<and>
    (\<forall>v. map_get (snd (relax ss queue deg)) v = map_option (\<lambda>d. d - int (count_list ss v)) (map_get deg v))"
  using assms
proof (induction ss queue deg rule: relax.induct)
  case (1 queue deg)
  show ?case by (simp add: option.map_ident)
next
  case (2 s ss queue deg)
  obtain d where d: "map_get deg s = Some d" "1 + int (count_list ss s) \<le> d"
    using "2.prems" by auto
  let ?deg = "map_set deg s (d - 1)" and ?queue = "if d - 1 = 0 then queue @ [s] else queue"
  have "\<forall>v\<in>set ss. \<exists>d'. map_get ?deg v = Some d' \<and> int (count_list ss v) \<le> d'"
    using "2.prems" d by (auto split: if_splits)
  from "2.IH"(2) [OF d(1) this] obtain pushed where p: "fst (relax ss ?queue ?deg) = ?queue @ pushed"
    "distinct pushed" "set pushed = {v \<in> set ss. map_get ?deg v = Some (int (count_list ss v))}"
    "\<forall>v. map_get (snd (relax ss ?queue ?deg)) v = map_option (\<lambda>d. d - int (count_list ss v)) (map_get ?deg v)"
    by blast
  have notin: "s \<notin> set ss" if "d = 1"
    using d(2) that count_list_0_iff [of ss s] by auto
  have deg: "\<forall>v. map_get (snd (relax ss ?queue ?deg)) v =
      map_option (\<lambda>e. e - int (count_list (s # ss) v)) (map_get deg v)"
    using p(4) d(1) by (auto simp: option.map_comp comp_def)
  show ?case
  proof (cases "d = 1")
    case True
    then have "count_list ss s = 0" using notin by simp
    with True d p notin deg show ?thesis
      by (intro exI [of _ "s # pushed"]) (auto split: if_splits)
  next
    case False
    with d p deg show ?thesis
      by (intro exI [of _ pushed]) (auto split: if_splits)
  qed
qed

lemma pending_snoc:
  assumes "n \<notin> set topo"
  shows "pending E topo v = pending E (topo @ [n]) v + count_list (map snd (filter (\<lambda>(a, b). a = n) E)) v"
  using assms by (induction E) (auto simp: pending_def)

lemma edges_forward_snoc:
  assumes "edges_forward E topo" and "pending E topo n = 0"
  shows "edges_forward E (topo @ [n])"
proof -
  have "u \<in> set topo" if "(u, n) \<in> set E" for u
    using assms(2) that by (auto simp: pending_def filter_empty_conv)
  then show ?thesis
    using assms(1) by (auto simp: edges_forward_def nth_append less_Suc_eq)
qed

lemma kahn_step_inv:
  assumes inv: "kahn_inv E ids (n # queue) topo deg"
    and out: "list_at out n = map snd (filter (\<lambda>(a, b). a = n) E)"
    and valid: "\<And>u v. (u, v) \<in> set E \<Longrightarrow> v \<in> ids"
  shows "kahn_inv E ids (fst (relax (list_at out n) queue deg)) (topo @ [n])
    (snd (relax (list_at out n) queue deg))"
proof -
  let ?ss = "map snd (filter (\<lambda>(a, b). a = n) E)"
  have n: "n \<in> ids" "n \<notin> set topo" "n \<notin> set queue" "pending E topo n = 0"
    using inv by (auto simp: kahn_inv_def)
  have deg: "map_get deg v = Some (int (pending E topo v))" if "v \<in> ids" for v
    using inv that by (simp add: kahn_inv_def)
  have mem: "v \<in> set topo \<or> v = n \<or> v \<in> set queue \<longleftrightarrow> pending E topo v = 0" if "v \<in> ids" for v
    using inv that by (auto simp: kahn_inv_def)
  note split = pending_snoc [OF n(2), of E]
  have ids: "v \<in> ids" if "v \<in> set ?ss" for v using that valid by auto
  have "\<forall>v\<in>set ?ss. \<exists>d. map_get deg v = Some d \<and> int (count_list ?ss v) \<le> d"
    using deg ids split by auto
  from relax_spec [OF this, of queue] obtain pushed where
    q: "fst (relax ?ss queue deg) = queue @ pushed" "distinct pushed"
      "set pushed = {v \<in> set ?ss. map_get deg v = Some (int (count_list ?ss v))}"
    and d: "\<And>v. map_get (snd (relax ?ss queue deg)) v = map_option (\<lambda>d. d - int (count_list ?ss v)) (map_get deg v)"
    by blast
  have pushed: "v \<in> set pushed \<longleftrightarrow> pending E topo v \<noteq> 0 \<and> pending E (topo @ [n]) v = 0" if "v \<in> ids" for v
    using q(3) deg [OF that] split [of v] count_list_0_iff [of ?ss v] by auto
  have sub: "set pushed \<subseteq> ids" using q(3) ids by auto
  have old: "pending E (topo @ [n]) v = 0" if "pending E topo v = 0" for v using split [of v] that by simp
  have "v \<notin> set topo \<and> v \<noteq> n \<and> v \<notin> set queue" if "v \<in> set pushed" for v
    using that pushed mem sub by blast
  then have "distinct ((topo @ [n]) @ queue @ pushed)"
    using inv q(2) by (auto simp: kahn_inv_def)
  moreover have "v \<in> set ((topo @ [n]) @ queue @ pushed) \<longleftrightarrow> pending E (topo @ [n]) v = 0" if "v \<in> ids" for v
    using mem [OF that] pushed [OF that] old [of v] by auto
  moreover have "map_get (snd (relax ?ss queue deg)) v = Some (int (pending E (topo @ [n]) v))" if "v \<in> ids" for v
    using d [of v] deg [OF that] split [of v] by simp
  moreover have "edges_forward E (topo @ [n])"
    using inv n(4) by (intro edges_forward_snoc) (simp_all add: kahn_inv_def)
  moreover have "set ((topo @ [n]) @ queue @ pushed) \<subseteq> ids" using inv sub by (auto simp: kahn_inv_def)
  ultimately show ?thesis unfolding kahn_inv_def out q(1) by blast
qed

lemma kahn_correct:
  assumes "kahn_inv E ids queue topo deg"
    and "\<And>n. n \<in> ids \<Longrightarrow> list_at out n = map snd (filter (\<lambda>(a, b). a = n) E)"
    and "\<And>u v. (u, v) \<in> set E \<Longrightarrow> v \<in> ids"
  shows "\<exists>deg'. kahn_inv E ids [] (kahn out queue topo deg) deg'"
  using assms
proof (induction out queue topo deg rule: kahn.induct)
  case (1 out topo deg)
  then show ?case by auto
next
  case (2 out n queue topo deg)
  have "n \<in> ids" using "2.prems"(1) by (auto simp: kahn_inv_def)
  from kahn_step_inv [OF "2.prems"(1) "2.prems"(2) [OF this] "2.prems"(3)]
    "2.IH" [OF refl _ "2.prems"(2,3)]
  show ?case by (simp add: Let_def)
qed

lemma edges_forward_acyclic:
  assumes "edges_forward E topo" and "\<And>u v. (u, v) \<in> set E \<Longrightarrow> v \<in> set topo" and "distinct topo"
  shows "acyclic (set E)"
proof -
  define ix where "ix v = (LEAST i. i < length topo \<and> topo ! i = v)" for v
  have ix: "ix (topo ! i) = i" if "i < length topo" for i
    unfolding ix_def using that assms(3) by (intro Least_equality) (auto simp: nth_eq_iff_index_eq)
  have "ix u < ix v" if uv: "(u, v) \<in> set E" for u v
  proof -
    obtain i where i: "i < length topo" "topo ! i = v"
      using assms(2) [OF uv] by (auto simp: in_set_conv_nth)
    then have "u \<in> set (take i topo)" using assms(1) uv by (auto simp: edges_forward_def)
    then obtain j where "j < i" "topo ! j = u" using i by (auto simp: in_set_conv_nth)
    with i ix show ?thesis by fastforce
  qed
  then have "set E \<subseteq> measure ix" by auto
  then show ?thesis by (rule acyclic_subset [OF wf_acyclic [OF wf_measure]])
qed

lemma kahn_complete_iff:
  assumes inv: "kahn_inv E (set ids) [] topo deg" and "distinct ids"
    and valid: "\<And>u v. (u, v) \<in> set E \<Longrightarrow> u \<in> set ids \<and> v \<in> set ids"
  shows "length topo = length ids \<longleftrightarrow> acyclic (set E)"
proof -
  have t: "distinct topo" "set topo \<subseteq> set ids" "edges_forward E topo"
    and mem: "\<And>v. v \<in> set ids \<Longrightarrow> v \<in> set topo \<longleftrightarrow> pending E topo v = 0"
    using inv by (auto simp: kahn_inv_def)
  have len: "length topo = length ids \<longleftrightarrow> set topo = set ids"
    using t(1,2) assms(2) by (metis card_subset_eq distinct_card finite_set)
  show ?thesis
  proof
    assume "length topo = length ids"
    then show "acyclic (set E)"
      using edges_forward_acyclic [OF t(3) _ t(1)] valid len by auto
  next
    assume "acyclic (set E)"
    then have wf: "wf (set E)" by (intro finite_acyclic_wf) simp_all
    have "set ids - set topo = {}"
    proof (rule ccontr)
      assume "set ids - set topo \<noteq> {}"
      then obtain v where v: "v \<in> set ids - set topo" "\<And>u. (u, v) \<in> set E \<Longrightarrow> u \<notin> set ids - set topo"
        using wf [unfolded wf_eq_minimal, rule_format, of _ "set ids - set topo"] by blast
      then have "pending E topo v = 0"
        using valid by (auto simp: pending_def filter_empty_conv)
      with v(1) mem show False by blast
    qed
    with t(2) len show "length topo = length ids" by auto
  qed
qed

subsection \<open>Building the adjacency\<close>

lemma edge_pairs_filter:
  "map snd (filter (\<lambda>(a, b). a = n) (edge_pairs graph)) =
     map targetNodeId (filter (\<lambda>e. sourceNodeId e = n) (cg_edges graph))"
  "map fst (filter (\<lambda>(a, b). b = n) (edge_pairs graph)) =
     map sourceNodeId (filter (\<lambda>e. targetNodeId e = n) (cg_edges graph))"
  by (simp_all add: edge_pairs_def filter_map comp_def)

lemma edges_valid_ends:
  "edges_valid graph \<longleftrightarrow> (\<forall>e\<in>set (cg_edges graph). sourceNodeId e \<in> wn_id ` set (cg_nodes graph) \<and>
     targetNodeId e \<in> wn_id ` set (cg_nodes graph))"
  by (auto simp: edges_valid_def edge_pairs_def node_ids_def)

lemma init_lists_known: "map_get (init_lists nodes) k \<noteq> None \<longleftrightarrow> k \<in> wn_id ` set nodes"
  by (simp add: init_lists_get)

lemma add_edges_invalid:
  assumes "\<not> edges_valid graph"
  shows "\<exists>msg. buildAdjacency graph = Inl (FridayDomainError ''WORKFLOW_INVALID_EDGE'' msg 400)"
proof -
  obtain msg where "add_edges (cg_edges graph) (init_lists (cg_nodes graph)) (init_lists (cg_nodes graph)) =
      Inl (FridayDomainError ''WORKFLOW_INVALID_EDGE'' msg 400)"
    using add_edges_bad [of "cg_edges graph" "init_lists (cg_nodes graph)" "init_lists (cg_nodes graph)"] assms
    unfolding edges_valid_ends init_lists_known by blast
  then show ?thesis by (simp add: buildAdjacency_def Let_def)
qed

lemma add_edges_valid:
  assumes "edges_valid graph"
  shows "\<exists>out inb. add_edges (cg_edges graph) (init_lists (cg_nodes graph)) (init_lists (cg_nodes graph)) = Inr (out, inb) \<and>
    (\<forall>n\<in>set (node_ids graph). list_at out n = map snd (filter (\<lambda>(a, b). a = n) (edge_pairs graph)) \<and>
       list_at inb n = map fst (filter (\<lambda>(a, b). b = n) (edge_pairs graph)))"
  using add_edges_ok [of "cg_edges graph" "init_lists (cg_nodes graph)" "init_lists (cg_nodes graph)"] assms
  unfolding edge_pairs_filter by (auto simp: edges_valid_ends init_lists_get list_at_def node_ids_def)

lemma kahn_inv_start:
  assumes "distinct (node_ids graph)" and "edges_valid graph"
    and "\<And>n. n \<in> set (node_ids graph) \<Longrightarrow> list_at inb n = map fst (filter (\<lambda>(a, b). b = n) (edge_pairs graph))"
  shows "kahn_inv (edge_pairs graph) (set (node_ids graph)) (entry_nodes (cg_nodes graph) inb) []
    (init_degrees (cg_nodes graph) inb)"
proof -
  have "pending (edge_pairs graph) [] v = length (list_at inb v)" if "v \<in> set (node_ids graph)" for v
    using assms(3) [OF that] by (simp add: pending_def case_prod_unfold)
  then show ?thesis
    using assms(1) init_degrees_get [of _ "cg_nodes graph" inb]
    by (auto simp: kahn_inv_def entry_nodes_def edges_forward_def node_ids_def image_iff)
qed

lemma buildAdjacency_valid:
  assumes "distinct (node_ids graph)" and "edges_valid graph"
  shows "\<exists>adj deg. kahn_inv (edge_pairs graph) (set (node_ids graph)) [] (topoOrder adj) deg \<and>
    (\<forall>n\<in>set (node_ids graph). list_at (outbound adj) n = map snd (filter (\<lambda>(a, b). a = n) (edge_pairs graph)) \<and>
       list_at (inbound adj) n = map fst (filter (\<lambda>(a, b). b = n) (edge_pairs graph))) \<and>
    buildAdjacency graph = (if length (topoOrder adj) = length (node_ids graph) then Inr adj
      else Inl (FridayDomainError ''WORKFLOW_CYCLE_DETECTED'' ''WORKFLOW_CYCLE_DETECTED: graph contains a cycle'' 400))"
proof -
  obtain out inb where oi: "add_edges (cg_edges graph) (init_lists (cg_nodes graph)) (init_lists (cg_nodes graph)) = Inr (out, inb)"
    "\<forall>n\<in>set (node_ids graph). list_at out n = map snd (filter (\<lambda>(a, b). a = n) (edge_pairs graph)) \<and>
       list_at inb n = map fst (filter (\<lambda>(a, b). b = n) (edge_pairs graph))"
    using add_edges_valid [OF assms(2)] by blast
  let ?entries = "entry_nodes (cg_nodes graph) inb"
  let ?adj = "\<lparr>outbound = out, inbound = inb, entryNodes = ?entries,
      topoOrder = kahn out ?entries [] (init_degrees (cg_nodes graph) inb)\<rparr>"
  have "kahn_inv (edge_pairs graph) (set (node_ids graph)) ?entries [] (init_degrees (cg_nodes graph) inb)"
    using oi(2) by (intro kahn_inv_start assms) auto
  from kahn_correct [OF this, of out] obtain deg where
    "kahn_inv (edge_pairs graph) (set (node_ids graph)) [] (topoOrder ?adj) deg"
    using oi(2) assms(2) by (force simp: edges_valid_def)
  with oi show ?thesis
    by (intro exI [of _ ?adj] exI [of _ deg]) (simp add: buildAdjacency_def node_ids_def Let_def)
qed

lemma buildAdjacency_complete:
  assumes "distinct (node_ids graph)" and "edges_valid graph"
  shows "if acyclic (set (edge_pairs graph)) then \<exists>adj. buildAdjacency graph = Inr adj
    else buildAdjacency graph = Inl (FridayDomainError ''WORKFLOW_CYCLE_DETECTED''
      ''WORKFLOW_CYCLE_DETECTED: graph contains a cycle'' 400)"
proof -
  obtain adj deg where a: "kahn_inv (edge_pairs graph) (set (node_ids graph)) [] (topoOrder adj) deg"
    "buildAdjacency graph = (if length (topoOrder adj) = length (node_ids graph) then Inr adj
      else Inl (FridayDomainError ''WORKFLOW_CYCLE_DETECTED'' ''WORKFLOW_CYCLE_DETECTED: graph contains a cycle'' 400))"
    using buildAdjacency_valid [OF assms] by blast
  have "length (topoOrder adj) = length (node_ids graph) \<longleftrightarrow> acyclic (set (edge_pairs graph))"
    using assms(2) by (intro kahn_complete_iff [OF a(1) assms(1)]) (auto simp: edges_valid_def)
  with a(2) show ?thesis by simp
qed

lemma buildAdjacency_topo:
  assumes "distinct (node_ids graph)" and "buildAdjacency graph = Inr adj"
  shows "distinct (topoOrder adj)" "set (topoOrder adj) = set (node_ids graph)"
    "edges_forward (edge_pairs graph) (topoOrder adj)" "edges_valid graph"
    "\<And>n. n \<in> set (node_ids graph) \<Longrightarrow>
       list_at (inbound adj) n = map fst (filter (\<lambda>(a, b). b = n) (edge_pairs graph))"
proof -
  show v: "edges_valid graph"
    using add_edges_invalid [of graph] assms(2) by auto
  obtain adj' deg where a: "kahn_inv (edge_pairs graph) (set (node_ids graph)) [] (topoOrder adj') deg"
    "\<forall>n\<in>set (node_ids graph). list_at (outbound adj') n = map snd (filter (\<lambda>(a, b). a = n) (edge_pairs graph)) \<and>
       list_at (inbound adj') n = map fst (filter (\<lambda>(a, b). b = n) (edge_pairs graph))"
    "buildAdjacency graph = (if length (topoOrder adj') = length (node_ids graph) then Inr adj'
      else Inl (FridayDomainError ''WORKFLOW_CYCLE_DETECTED'' ''WORKFLOW_CYCLE_DETECTED: graph contains a cycle'' 400))"
    using buildAdjacency_valid [OF assms(1) v] by blast
  then have eq: "adj' = adj" "length (topoOrder adj) = length (node_ids graph)"
    using assms(2) by (auto split: if_splits)
  with a show "distinct (topoOrder adj)" "edges_forward (edge_pairs graph) (topoOrder adj)"
    "\<And>n. n \<in> set (node_ids graph) \<Longrightarrow>
       list_at (inbound adj) n = map fst (filter (\<lambda>(a, b). b = n) (edge_pairs graph))"
    by (auto simp: kahn_inv_def)
  have "set (topoOrder adj) \<subseteq> set (node_ids graph)" "distinct (topoOrder adj)"
    using a(1) eq by (auto simp: kahn_inv_def)
  then show "set (topoOrder adj) = set (node_ids graph)"
    using eq(2) assms(1) by (metis card_subset_eq distinct_card finite_set)
qed

subsection \<open>Scheduling\<close>

lemma scan_predecessors_spec:
  "fst (scan_predecessors exec index statuses n preds b) = (\<forall>p\<in>set preds. settled statuses p)"
  "fst (scan_predecessors exec index statuses n preds b) \<Longrightarrow>
   snd (scan_predecessors exec index statuses n preds b) = (b \<or> (\<exists>p\<in>set preds. edge_enabled exec index p n))"
  by (induction preds arbitrary: b)
    (auto simp: settled_def isTerminal_node_def split: option.splits if_splits)

lemma place_node_started:
  "map_get statuses n = Some st \<Longrightarrow>
   place_node exec index adj statuses n = (if st = N_Retrying then Ready else Skipped)"
  by (simp add: place_node_def)

lemma place_node_unstarted:
  assumes "map_get statuses n = None"
  shows "place_node exec index adj statuses n =
    (if \<forall>p\<in>set (list_at (inbound adj) n). settled statuses p
     then if list_at (inbound adj) n = [] \<or> (\<exists>p\<in>set (list_at (inbound adj) n). edge_enabled exec index p n)
          then Ready else DeadEnded
     else Skipped)"
  using assms scan_predecessors_spec [of exec index statuses n "list_at (inbound adj) n" False]
  by (cases "scan_predecessors exec index statuses n (list_at (inbound adj) n) False")
    (auto simp: place_node_def Let_def)

text \<open>
  When every started node is settled, the first unstarted node of the order has all its
  predecessors behind it, so the tick places it.
\<close>

lemma first_unstarted_placed:
  assumes dist: "distinct (node_ids graph)" and adj: "buildAdjacency graph = Inr adj"
    and "n \<in> set (node_ids graph)" and "map_get statuses n = None"
    and fin: "\<And>m. m \<in> set (node_ids graph) \<Longrightarrow> map_get statuses m = None \<or> settled statuses m"
  shows "\<exists>m\<in>set (topoOrder adj). place_node exec index adj statuses m \<noteq> Skipped \<and> map_get statuses m = None"
proof -
  note topo = buildAdjacency_topo [OF dist adj]
  let ?P = "\<lambda>m. map_get statuses m = None"
  obtain i where i: "find_index ?P (topoOrder adj) = Some i"
    using assms(3,4) topo(2) find_index_None [of ?P "topoOrder adj"] by (cases "find_index ?P (topoOrder adj)") auto
  then have len: "i < length (topoOrder adj)" and m: "?P (topoOrder adj ! i)"
    and before: "\<And>j. j < i \<Longrightarrow> \<not> ?P (topoOrder adj ! j)"
    using find_index_Some [OF i] by auto
  let ?m = "topoOrder adj ! i"
  have mem: "?m \<in> set (node_ids graph)" using len topo(2) nth_mem by blast
  have "settled statuses p" if "p \<in> set (list_at (inbound adj) ?m)" for p
  proof -
    have "(p, ?m) \<in> set (edge_pairs graph)" using that topo(5) [OF mem] by auto
    then have "p \<in> set (take i (topoOrder adj))" using topo(3) len by (auto simp: edges_forward_def)
    then obtain j where "j < i" "topoOrder adj ! j = p" using len by (auto simp: in_set_conv_nth)
    moreover have "p \<in> set (node_ids graph)" using calculation len topo(2) nth_mem [of j "topoOrder adj"] by auto
    ultimately show ?thesis using before fin by blast
  qed
  then show ?thesis using len m by (intro bexI [of _ ?m]) (auto simp: place_node_unstarted)
qed

lemma sample_graph_facts:
  "distinct (node_ids (sample_graph edges))" "node_ids (sample_graph edges) = [''c'', ''a'', ''b'']"
  "edge_pairs (sample_graph chain_edges) = [(''a'', ''b''), (''b'', ''c'')]"
  "edges_valid (sample_graph chain_edges)"
  by (simp_all add: node_ids_def sample_graph_def sample_node_def edge_pairs_def chain_edges_def
      sample_edge_def edges_valid_def)

lemma chain_acyclic: "acyclic (set (edge_pairs (sample_graph chain_edges)))"
  by (rule edges_forward_acyclic [of _ "[''a'', ''b'', ''c'']"])
    (auto simp: sample_graph_facts edges_forward_def less_Suc_eq)

section \<open>Properties\<close>

text \<open>
  For a graph with distinct node ids the adjacency is built exactly when every edge joins
  known nodes and the edges have no cycle; an unknown end is reported as
  \<open>WORKFLOW_INVALID_EDGE\<close> and, failing that, a cycle as \<open>WORKFLOW_CYCLE_DETECTED\<close>.
\<close>

theorem adjacency_outcome:
  assumes "distinct (node_ids graph)"
  shows "if \<not> edges_valid graph
    then \<exists>msg. buildAdjacency graph = Inl (FridayDomainError ''WORKFLOW_INVALID_EDGE'' msg 400)
    else if acyclic (set (edge_pairs graph)) then \<exists>adj. buildAdjacency graph = Inr adj
    else buildAdjacency graph = Inl (FridayDomainError ''WORKFLOW_CYCLE_DETECTED''
      ''WORKFLOW_CYCLE_DETECTED: graph contains a cycle'' 400)"
  using add_edges_invalid [of graph] buildAdjacency_complete [OF assms] by simp

theorem adjacency_outcome_witness:
  "(\<exists>adj. buildAdjacency (sample_graph chain_edges) = Inr adj) \<and>
   (\<exists>msg. buildAdjacency (sample_graph [sample_edge ''a'' ''z'' None]) =
      Inl (FridayDomainError ''WORKFLOW_INVALID_EDGE'' msg 400)) \<and>
   buildAdjacency (sample_graph [sample_edge ''a'' ''a'' None]) =
     Inl (FridayDomainError ''WORKFLOW_CYCLE_DETECTED''
       ''WORKFLOW_CYCLE_DETECTED: graph contains a cycle'' 400)"
proof -
  have "\<not> edges_valid (sample_graph [sample_edge ''a'' ''z'' None])"
    "edges_valid (sample_graph [sample_edge ''a'' ''a'' None])"
    "\<not> acyclic (set (edge_pairs (sample_graph [sample_edge ''a'' ''a'' None])))"
    by (auto simp: edges_valid_def edge_pairs_def node_ids_def sample_graph_def sample_node_def
        sample_edge_def acyclic_def)
  with adjacency_outcome [of "sample_graph [sample_edge ''a'' ''z'' None]"]
    adjacency_outcome [of "sample_graph [sample_edge ''a'' ''a'' None]"]
    adjacency_outcome [of "sample_graph chain_edges"]
  show ?thesis by (simp add: sample_graph_facts(1,4) chain_acyclic)
qed

text \<open>
  C12. The order the adjacency gives is topological: it lists every node once, every edge runs
  from an earlier to a later node, and the predecessor list of a node holds exactly the sources
  of its edges.
\<close>

theorem topo_order_correct:
  assumes "distinct (node_ids graph)" and "buildAdjacency graph = Inr adj"
  shows "distinct (topoOrder adj) \<and> set (topoOrder adj) = set (node_ids graph) \<and>
    edges_forward (edge_pairs graph) (topoOrder adj) \<and>
    (\<forall>n u. n \<in> set (node_ids graph) \<longrightarrow>
       (u \<in> set (list_at (inbound adj) n)) = ((u, n) \<in> set (edge_pairs graph)))"
  using buildAdjacency_topo [OF assms] by (force simp: image_iff)

theorem topo_order_correct_witness:
  "\<exists>adj. buildAdjacency (sample_graph chain_edges) = Inr adj \<and>
     edges_forward [(''a'', ''b''), (''b'', ''c'')] (topoOrder adj) \<and> set (topoOrder adj) = {''a'', ''b'', ''c''}"
proof -
  obtain adj where adj: "buildAdjacency (sample_graph chain_edges) = Inr adj"
    using buildAdjacency_complete [of "sample_graph chain_edges"] chain_acyclic by (auto simp: sample_graph_facts(1,4))
  from topo_order_correct [OF sample_graph_facts(1) adj] adj show ?thesis
    by (auto simp: sample_graph_facts)
qed

lemma edge_enabled_iff: "edge_enabled exec (edge_index edges) p n = edge_passes exec edges p n"
proof (cases "edge_key p n \<in> (\<lambda>e. edge_key (sourceNodeId e) (targetNodeId e)) ` set edges")
  case True
  then have "filter (\<lambda>e. edge_key (sourceNodeId e) (targetNodeId e) = edge_key p n) edges \<noteq> []"
    by (fastforce simp: filter_empty_conv)
  with True show ?thesis
    by (auto simp: edge_enabled_def edge_passes_def edge_index_def fold_map_set Let_def split: option.splits sum.splits)
next
  case False
  then have "filter (\<lambda>e. edge_key (sourceNodeId e) (targetNodeId e) = edge_key p n) edges = []"
    by (simp add: filter_empty_conv image_iff) (metis (no_types))
  with False show ?thesis
    by (simp add: edge_enabled_def edge_passes_def edge_index_def fold_map_set Let_def)
qed

text \<open>
  C13. A tick is safe: it starts at most 50 nodes; a node it starts is either being retried or
  has no status yet, all its predecessors have finished and, unless it is an entry node, at least
  one edge into it lets it through: it has no condition or one that evaluates to true. A node it
  gives up has no status, finished predecessors and no such edge.
\<close>

theorem scheduling_sound:
  "let result = evaluateSchedulingResult adj statuses graph exec;
       preds = (\<lambda>n. list_at (inbound adj) n);
       enabled = edge_passes exec (cg_edges graph)
   in length (readyNodes result) \<le> 50 \<and>
      list_all (\<lambda>n. n \<in> set (topoOrder adj) \<and>
        (map_get statuses n = Some N_Retrying \<or>
         map_get statuses n = None \<and> list_all (settled statuses) (preds n) \<and>
         (preds n = [] \<or> list_ex (\<lambda>p. enabled p n) (preds n)))) (readyNodes result) \<and>
      list_all (\<lambda>n. map_get statuses n = None \<and> preds n \<noteq> [] \<and> list_all (settled statuses) (preds n) \<and>
        \<not> list_ex (\<lambda>p. enabled p n) (preds n)) (deadEndedNodes result)"
proof -
  have ready: "map_get statuses n = Some N_Retrying \<or>
      map_get statuses n = None \<and> list_all (settled statuses) (list_at (inbound adj) n) \<and>
      (list_at (inbound adj) n = [] \<or> list_ex (\<lambda>p. edge_enabled exec index p n) (list_at (inbound adj) n))"
    if "place_node exec index adj statuses n = Ready" for n index
    using that by (cases "map_get statuses n")
      (auto simp: place_node_unstarted place_node_started list_all_iff list_ex_iff split: if_splits)
  have dead: "map_get statuses n = None \<and> list_at (inbound adj) n \<noteq> [] \<and>
      list_all (settled statuses) (list_at (inbound adj) n) \<and>
      \<not> list_ex (\<lambda>p. edge_enabled exec index p n) (list_at (inbound adj) n)"
    if "place_node exec index adj statuses n = DeadEnded" for n index
    using that by (cases "map_get statuses n")
      (auto simp: place_node_unstarted place_node_started list_all_iff list_ex_iff split: if_splits)
  show ?thesis
    unfolding evaluateSchedulingResult_def MAX_CONCURRENT_NODES_def edge_enabled_iff [symmetric] Let_def list_all_iff [of _ "take _ _"]
      list_all_iff [of _ "filter _ _"] SchedulingResult.select_convs
    by (intro conjI ballI) (auto dest!: in_set_takeD dest: ready dead)
qed

text \<open>
  C14. A run never stalls in the scheduler: over an adjacency that was built, if every node with a
  status has finished and some node has none, the tick starts a node or gives one up.
\<close>

theorem scheduling_progress:
  assumes "distinct (node_ids graph)" and "buildAdjacency graph = Inr adj"
    and "n \<in> set (node_ids graph)" and "map_get statuses n = None"
    and "\<And>m. m \<in> set (node_ids graph) \<Longrightarrow> map_get statuses m = None \<or> settled statuses m"
  shows "readyNodes (evaluateSchedulingResult adj statuses graph exec) \<noteq> [] \<or>
    deadEndedNodes (evaluateSchedulingResult adj statuses graph exec) \<noteq> []"
proof -
  obtain m where m: "m \<in> set (topoOrder adj)" "place_node exec (edge_index (cg_edges graph)) adj statuses m \<noteq> Skipped"
    using first_unstarted_placed [OF assms] by blast
  then show ?thesis
    by (cases "place_node exec (edge_index (cg_edges graph)) adj statuses m")
      (auto simp: evaluateSchedulingResult_def MAX_CONCURRENT_NODES_def Let_def filter_empty_conv)
qed

theorem scheduling_progress_witness:
  "\<exists>adj. buildAdjacency (sample_graph chain_edges) = Inr adj \<and>
     (let r = evaluateSchedulingResult adj [(''a'', N_Completed), (''b'', N_Failed)]
        (sample_graph chain_edges) (\<lambda>_. Inl ''parse error'')
      in readyNodes r \<noteq> [] \<or> deadEndedNodes r \<noteq> [])"
proof -
  obtain adj where adj: "buildAdjacency (sample_graph chain_edges) = Inr adj"
    using buildAdjacency_complete [of "sample_graph chain_edges"] chain_acyclic by (auto simp: sample_graph_facts(1,4))
  have "readyNodes (evaluateSchedulingResult adj [(''a'', N_Completed), (''b'', N_Failed)]
      (sample_graph chain_edges) (\<lambda>_. Inl ''parse error'')) \<noteq> [] \<or>
    deadEndedNodes (evaluateSchedulingResult adj [(''a'', N_Completed), (''b'', N_Failed)]
      (sample_graph chain_edges) (\<lambda>_. Inl ''parse error'')) \<noteq> []"
    by (rule scheduling_progress [OF sample_graph_facts(1) adj, of "''c''"])
      (auto simp: sample_graph_facts settled_def map_get_def isTerminal_node_def NODE_TERMINAL_STATUSES_def)
  with adj show ?thesis by auto
qed

end
