(* ===== verification/Rules_Model.thy ===== *)
theory Rules_Model
  imports Friday_Prelude
begin

text \<open>
  The data model of the rules engine, src/src/rules/model/friday-rules-engine.types.ts: decisions,
  resources and actions, conditions, rules, policy bundles, evaluation contexts and results.
\<close>

datatype FridayRuleDecision = Allow | Deny | Warn | Audit

definition FRIDAY_RULE_DECISION_PRIORITY :: "FridayRuleDecision list" where
  "FRIDAY_RULE_DECISION_PRIORITY = [Deny, Warn, Audit, Allow]"

datatype FridayRuleResource =
    R_filesystem | R_network | R_channel | R_tool | R_memory | R_device | R_shell | R_skill
  | R_workflow | R_agent | R_artifact | R_retry | R_playbook | R_desktop

fun resource_name :: "FridayRuleResource \<Rightarrow> string" where
  "resource_name R_filesystem = ''filesystem''"
| "resource_name R_network = ''network''"
| "resource_name R_channel = ''channel''"
| "resource_name R_tool = ''tool''"
| "resource_name R_memory = ''memory''"
| "resource_name R_device = ''device''"
| "resource_name R_shell = ''shell''"
| "resource_name R_skill = ''skill''"
| "resource_name R_workflow = ''workflow''"
| "resource_name R_agent = ''agent''"
| "resource_name R_artifact = ''artifact''"
| "resource_name R_retry = ''retry''"
| "resource_name R_playbook = ''playbook''"
| "resource_name R_desktop = ''desktop''"

datatype FridayRuleAction =
    A_read | A_write | A_connect | A_send | A_receive | A_execute | A_capture | A_create | A_delete
  | A_update | A_accept | A_promote | A_select | A_click | A_type | A_keypress | A_scroll | A_drag
  | A_screenshot | A_read_element | A_launch_app | A_close_app | A_clipboard | A_file_operation

fun action_name :: "FridayRuleAction \<Rightarrow> string" where
  "action_name A_read = ''read''"
| "action_name A_write = ''write''"
| "action_name A_connect = ''connect''"
| "action_name A_send = ''send''"
| "action_name A_receive = ''receive''"
| "action_name A_execute = ''execute''"
| "action_name A_capture = ''capture''"
| "action_name A_create = ''create''"
| "action_name A_delete = ''delete''"
| "action_name A_update = ''update''"
| "action_name A_accept = ''accept''"
| "action_name A_promote = ''promote''"
| "action_name A_select = ''select''"
| "action_name A_click = ''click''"
| "action_name A_type = ''type''"
| "action_name A_keypress = ''keypress''"
| "action_name A_scroll = ''scroll''"
| "action_name A_drag = ''drag''"
| "action_name A_screenshot = ''screenshot''"
| "action_name A_read_element = ''read_element''"
| "action_name A_launch_app = ''launch_app''"
| "action_name A_close_app = ''close_app''"
| "action_name A_clipboard = ''clipboard''"
| "action_name A_file_operation = ''file_operation''"

text \<open>\<open>Op_other\<close> is an operator string outside the declared set (the \<open>default\<close> branch).\<close>

datatype FridayRuleConditionOperator =
    Op_equals | Op_not_equals | Op_contains | Op_matches | Op_in | Op_not_in
  | Op_gt | Op_gte | Op_lt | Op_lte | Op_exists | Op_not_exists | Op_other string

record FridayRuleCondition =
  cond_field :: string
  cond_operator :: FridayRuleConditionOperator
  cond_value :: "json option"

record FridayRuleConditionGroup =
  grp_all :: "FridayRuleCondition list option"
  grp_any :: "FridayRuleCondition list option"
  grp_none :: "FridayRuleCondition list option"

record FridayRule =
  rule_id :: UUID
  rule_policyBundleId :: UUID
  rule_name :: string
  rule_description :: "string option"
  rule_enabled :: bool
  rule_resource :: FridayRuleResource
  rule_action :: FridayRuleAction
  rule_conditions :: FridayRuleConditionGroup
  rule_decision :: FridayRuleDecision
  rule_message :: "string option"
  rule_priority :: int
  rule_version :: int
  rule_etag :: string
  rule_createdAt :: ISODateTime
  rule_updatedAt :: ISODateTime
  rule_deletedAt :: "ISODateTime option"

datatype FridayPolicyBundleSource = Src_User | Src_System | Src_Import

record FridayPolicyBundleSignature =
  sig_algorithm :: string
  sig_keyId :: string
  sig_value :: string

record FridayPolicyBundle =
  bundle_id :: UUID
  bundle_name :: string
  bundle_description :: "string option"
  bundle_version :: int
  bundle_priority :: int
  bundle_enabled :: bool
  bundle_tags :: "string list"
  bundle_source :: FridayPolicyBundleSource
  bundle_signature :: "FridayPolicyBundleSignature option"
  bundle_etag :: string
  bundle_createdAt :: ISODateTime
  bundle_updatedAt :: ISODateTime
  bundle_deletedAt :: "ISODateTime option"

datatype FridayEvaluationSource = From_Agent | From_Workflow | From_Api | From_System

fun source_name :: "FridayEvaluationSource \<Rightarrow> string" where
  "source_name From_Agent = ''agent''"
| "source_name From_Workflow = ''workflow''"
| "source_name From_Api = ''api''"
| "source_name From_System = ''system''"

record FridayEvaluationContext =
  ev_resource :: FridayRuleResource
  ev_action :: FridayRuleAction
  ev_args :: "(string \<times> json) list"
  ev_source :: FridayEvaluationSource
  ev_principalId :: "string option"
  ev_runId :: "UUID option"
  ev_workflowId :: "UUID option"
  ev_workflowRunId :: "UUID option"
  ev_nodeId :: "string option"
  ev_sessionId :: "string option"
  ev_scopes :: "string list option"
  ev_metadata :: "(string \<times> json) list option"
  ev_policyBundleIds :: "string list option"

record FridayMatchedRule =
  mr_ruleId :: UUID
  mr_ruleName :: string
  mr_policyBundleId :: UUID
  mr_decision :: FridayRuleDecision
  mr_message :: "string option"
  mr_priority :: int

datatype FridayEvaluationTransitionState = T_Init | T_Match | T_Decide | T_Audit | T_Rollback | T_Done

datatype FridayEvaluationTransitionReason = Pre_Hook_Failure | Post_Hook_Failure | Audit_Sink_Failure

record FridayEvaluationTransition =
  tr_from :: FridayEvaluationTransitionState
  tr_to :: FridayEvaluationTransitionState
  tr_at :: ISODateTime
  tr_reason :: "FridayEvaluationTransitionReason option"

datatype FridayEvaluationErrorCode = Insufficient_Scope | Rule_Denied

record FridayEvaluationError =
  ee_code :: FridayEvaluationErrorCode
  ee_message :: string
  ee_auditReferenceId :: UUID

record FridayEvaluationResult =
  res_evaluationId :: UUID
  res_decision :: FridayRuleDecision
  res_matchedRules :: "FridayMatchedRule list"
  res_message :: "string option"
  res_durationMs :: rat
  res_allowed :: bool
  res_evaluatedAt :: ISODateTime
  res_error :: "FridayEvaluationError option"
  res_transitionTrace :: "FridayEvaluationTransition list option"

record ContextRedactionRules =
  rr_sensitiveKeys :: "string list option"
  rr_sensitiveKeyPatterns :: "string list option"
  rr_sensitivePaths :: "string list option"
  rr_replacement :: "string option"
  rr_maxStringLength :: "rat option"

section \<open>Names\<close>

lemma resource_name_inj: "resource_name a = resource_name b \<longleftrightarrow> a = b"
  by (cases a; cases b) simp_all

lemma action_name_inj: "action_name a = action_name b \<longleftrightarrow> a = b"
  by (cases a; cases b) simp_all

lemma action_name_no_colon: "CHR '':'' \<notin> set (action_name a)"
  by (cases a) simp_all

end
