(* ===== verification/Rule_Conditions.thy ===== *)
theory Rule_Conditions
  imports Rules_Model
begin

text \<open>
  The condition evaluator, src/src/rules/engine/condition-evaluator.ts: the cache of compiled
  regular expressions, resolution of dotted field paths, the operators and the condition groups.
  The regular expression engine itself is the record \<open>regex_engine\<close>: which patterns the safety
  heuristics flag, which compile, and what they match.
\<close>

section \<open>Regular expressions\<close>

record regex_engine =
  re_heuristic :: "string \<Rightarrow> bool"
  re_valid :: "string \<Rightarrow> string \<Rightarrow> bool"
  re_test :: "string \<Rightarrow> string \<Rightarrow> string \<Rightarrow> bool"

text \<open>A compiled \<open>RegExp\<close> is its source and flags.\<close>

record RegExp =
  rx_source :: string
  rx_flags :: string

datatype regex_failure = Rejected friday_error | SyntaxError

type_synonym regex_cache = "(string, RegExp) js_map"

definition MAX_REGEX_CACHE_ENTRIES :: nat where
  "MAX_REGEX_CACHE_ENTRIES = 1000"

definition MAX_REGEX_PATTERN_LENGTH :: nat where
  "MAX_REGEX_PATTERN_LENGTH = 512"

definition isUnsafeRegexPattern :: "regex_engine \<Rightarrow> string \<Rightarrow> bool" where
  "isUnsafeRegexPattern eng pattern =
     (length pattern > MAX_REGEX_PATTERN_LENGTH \<or> re_heuristic eng pattern)"

definition flags_ok :: "string \<Rightarrow> bool" where
  "flags_ok flags = (set flags \<subseteq> set ''dgimsuvy'' \<and> distinct flags)"

definition regex_key :: "string \<Rightarrow> string \<Rightarrow> string" where
  "regex_key flags pattern = flags @ [CHR 0x00] @ pattern"

definition precompileRegexPattern ::
    "regex_engine \<Rightarrow> string \<Rightarrow> string \<Rightarrow> regex_cache \<Rightarrow> (regex_failure + RegExp) \<times> regex_cache" where
  "precompileRegexPattern eng pattern flags cache =
     (if \<not> flags_ok flags
      then (Inl (Rejected (FridayDomainError ''VALIDATION_ERROR''
              ''Regex pattern rejected: invalid flags'' 400)), cache)
      else
        (let cacheKey = regex_key flags pattern in
         case map_get cache cacheKey of
           Some cached \<Rightarrow> (Inr cached, map_set (map_del cache cacheKey) cacheKey cached)
         | None \<Rightarrow>
             if isUnsafeRegexPattern eng pattern
             then (Inl (Rejected (FridayDomainError ''VALIDATION_ERROR''
                     (''Regex pattern rejected: potentially unsafe (ReDoS risk or exceeds max length '' @
                      show_nat MAX_REGEX_PATTERN_LENGTH @ '')'') 400)), cache)
             else if \<not> re_valid eng pattern flags then (Inl SyntaxError, cache)
             else
               (let compiled = \<lparr>rx_source = pattern, rx_flags = flags\<rparr>;
                    cache = (if length cache \<ge> MAX_REGEX_CACHE_ENTRIES
                             then case map_keys cache of
                                    [] \<Rightarrow> cache | leastRecentlyUsedKey # _ \<Rightarrow> map_del cache leastRecentlyUsedKey
                             else cache)
                in (Inr compiled, map_set cache cacheKey compiled))))"

definition clearCache :: "regex_cache \<Rightarrow> regex_cache" where
  "clearCache cache = map_empty"

text \<open>What a call means, whatever the cache holds.\<close>

definition compile_pattern :: "regex_engine \<Rightarrow> string \<Rightarrow> string \<Rightarrow> regex_failure + RegExp" where
  "compile_pattern eng pattern flags = fst (precompileRegexPattern eng pattern flags map_empty)"

section \<open>Field resolution\<close>

definition FORBIDDEN_FIELD_SEGMENTS :: "string list" where
  "FORBIDDEN_FIELD_SEGMENTS = [''__proto__'', ''constructor'', ''prototype'']"

fun resolve_parts :: "json option \<Rightarrow> string list \<Rightarrow> json option" where
  "resolve_parts current [] = current"
| "resolve_parts current (part # parts) =
     (if part \<in> set FORBIDDEN_FIELD_SEGMENTS then None
      else case current of
             None \<Rightarrow> None
           | Some value \<Rightarrow>
               (case own_property value part of None \<Rightarrow> None | Some v \<Rightarrow> resolve_parts (Some v) parts))"

definition json_strings :: "string list \<Rightarrow> json" where
  "json_strings xs = JsonArray (map JsonString xs)"

text \<open>The evaluation context as the object the paths start from.\<close>

definition context_object :: "FridayEvaluationContext \<Rightarrow> json" where
  "context_object c = JsonObject (
     [(''resource'', JsonString (resource_name (ev_resource c))),
      (''action'', JsonString (action_name (ev_action c))),
      (''args'', JsonObject (ev_args c)),
      (''source'', JsonString (source_name (ev_source c)))] @
     opt_field ''principalId'' JsonString (ev_principalId c) @
     opt_field ''runId'' JsonString (ev_runId c) @
     opt_field ''workflowId'' JsonString (ev_workflowId c) @
     opt_field ''workflowRunId'' JsonString (ev_workflowRunId c) @
     opt_field ''nodeId'' JsonString (ev_nodeId c) @
     opt_field ''sessionId'' JsonString (ev_sessionId c) @
     opt_field ''scopes'' json_strings (ev_scopes c) @
     opt_field ''metadata'' JsonObject (ev_metadata c) @
     opt_field ''policyBundleIds'' json_strings (ev_policyBundleIds c))"

definition resolveField :: "FridayEvaluationContext \<Rightarrow> string \<Rightarrow> json option" where
  "resolveField context field = resolve_parts (Some (context_object context)) (js_split (CHR ''.'') field)"

section \<open>Operators\<close>

text \<open>
  \<open>===\<close> between a value of the context and a value of a rule: by value on primitives, by
  identity on objects and arrays, which the two never share.
\<close>

fun js_strict_eq :: "json option \<Rightarrow> json option \<Rightarrow> bool" where
  "js_strict_eq None None = True"
| "js_strict_eq (Some JsonNull) (Some JsonNull) = True"
| "js_strict_eq (Some (JsonBool a)) (Some (JsonBool b)) = (a = b)"
| "js_strict_eq (Some (JsonNumber a)) (Some (JsonNumber b)) = (a = b)"
| "js_strict_eq (Some (JsonString a)) (Some (JsonString b)) = (a = b)"
| "js_strict_eq _ _ = False"

definition evaluateRegex :: "regex_engine \<Rightarrow> json option \<Rightarrow> json option \<Rightarrow> bool" where
  "evaluateRegex eng fieldValue pattern =
     (case (fieldValue, pattern) of
        (Some (JsonString v), Some (JsonString p)) \<Rightarrow>
          (case compile_pattern eng p [] of
             Inl err \<Rightarrow> False
           | Inr rx \<Rightarrow> re_test eng (rx_source rx) (rx_flags rx) v)
      | _ \<Rightarrow> False)"

definition evaluateIn :: "json option \<Rightarrow> json option \<Rightarrow> bool" where
  "evaluateIn fieldValue conditionValue =
     (case conditionValue of
        Some (JsonArray xs) \<Rightarrow> fieldValue \<noteq> None \<and> list_ex (\<lambda>x. js_strict_eq fieldValue (Some x)) xs
      | _ \<Rightarrow> False)"

definition compareNumeric :: "json option \<Rightarrow> json option \<Rightarrow> (rat \<Rightarrow> rat \<Rightarrow> bool) \<Rightarrow> bool" where
  "compareNumeric fieldValue conditionValue comparator =
     (case (fieldValue, conditionValue) of
        (Some (JsonNumber a), Some (JsonNumber b)) \<Rightarrow> comparator a b
      | _ \<Rightarrow> False)"

definition field_present :: "json option \<Rightarrow> bool" where
  "field_present v = (v \<noteq> None \<and> v \<noteq> Some JsonNull)"

fun evaluateOperator ::
    "regex_engine \<Rightarrow> FridayRuleConditionOperator \<Rightarrow> json option \<Rightarrow> json option \<Rightarrow> bool" where
  "evaluateOperator eng Op_exists f v = field_present f"
| "evaluateOperator eng Op_not_exists f v = (\<not> field_present f)"
| "evaluateOperator eng Op_equals f v = js_strict_eq f v"
| "evaluateOperator eng Op_not_equals f v = (\<not> js_strict_eq f v)"
| "evaluateOperator eng Op_contains f v =
     (case (f, v) of (Some (JsonString a), Some (JsonString b)) \<Rightarrow> str_includes a b | _ \<Rightarrow> False)"
| "evaluateOperator eng Op_matches f v = evaluateRegex eng f v"
| "evaluateOperator eng Op_in f v = evaluateIn f v"
| "evaluateOperator eng Op_not_in f v = (\<not> evaluateIn f v)"
| "evaluateOperator eng Op_gt f v = compareNumeric f v (\<lambda>a b. a > b)"
| "evaluateOperator eng Op_gte f v = compareNumeric f v (\<lambda>a b. a \<ge> b)"
| "evaluateOperator eng Op_lt f v = compareNumeric f v (\<lambda>a b. a < b)"
| "evaluateOperator eng Op_lte f v = compareNumeric f v (\<lambda>a b. a \<le> b)"
| "evaluateOperator eng (Op_other name) f v = False"

section \<open>Conditions and groups\<close>

definition evaluateCondition :: "regex_engine \<Rightarrow> FridayEvaluationContext \<Rightarrow> FridayRuleCondition \<Rightarrow> bool" where
  "evaluateCondition eng context condition =
     evaluateOperator eng (cond_operator condition) (resolveField context (cond_field condition))
       (cond_value condition)"

fun all_loop :: "('c \<Rightarrow> bool) \<Rightarrow> 'c list \<Rightarrow> bool" where
  "all_loop P [] = True"
| "all_loop P (c # cs) = (if \<not> P c then False else all_loop P cs)"

fun any_loop :: "('c \<Rightarrow> bool) \<Rightarrow> 'c list \<Rightarrow> bool" where
  "any_loop P [] = False"
| "any_loop P (c # cs) = (if P c then True else any_loop P cs)"

definition nonempty :: "'a list option \<Rightarrow> bool" where
  "nonempty xs = (case xs of None \<Rightarrow> False | Some ys \<Rightarrow> length ys > 0)"

definition evaluateConditionGroup ::
    "regex_engine \<Rightarrow> FridayEvaluationContext \<Rightarrow> FridayRuleConditionGroup \<Rightarrow> bool" where
  "evaluateConditionGroup eng context grp =
     (let hasAll = nonempty (grp_all grp);
          hasAny = nonempty (grp_any grp);
          hasNone = nonempty (grp_none grp);
          holds = evaluateCondition eng context
      in if \<not> hasAll \<and> \<not> hasAny \<and> \<not> hasNone then True
         else if hasAll \<and> \<not> all_loop holds (the (grp_all grp)) then False
         else if hasAny \<and> \<not> any_loop holds (the (grp_any grp)) then False
         else if hasNone \<and> any_loop holds (the (grp_none grp)) then False
         else True)"

text \<open>Load-time compilation of the patterns of a group: the first failing pattern is the error.\<close>

definition group_patterns :: "FridayRuleConditionGroup \<Rightarrow> string list" where
  "group_patterns grp =
     concat (map (\<lambda>cs. case cs of None \<Rightarrow> [] | Some conditions \<Rightarrow>
         concat (map (\<lambda>c. case (cond_operator c, cond_value c) of
             (Op_matches, Some (JsonString p)) \<Rightarrow> [p] | _ \<Rightarrow> []) conditions))
       [grp_all grp, grp_any grp, grp_none grp])"

fun compile_all :: "regex_engine \<Rightarrow> string list \<Rightarrow> regex_failure + unit" where
  "compile_all eng [] = Inr ()"
| "compile_all eng (p # ps) =
     (case compile_pattern eng p [] of Inl err \<Rightarrow> Inl err | Inr _ \<Rightarrow> compile_all eng ps)"

definition precompileConditionGroupRegex :: "regex_engine \<Rightarrow> FridayRuleConditionGroup \<Rightarrow> regex_failure + unit" where
  "precompileConditionGroupRegex eng grp = compile_all eng (group_patterns grp)"

text \<open>Sequences of calls on the cache, for stating that it is invisible.\<close>

datatype cache_op = Precompile string string | ClearCache

fun cache_exec :: "regex_engine \<Rightarrow> cache_op \<Rightarrow> regex_cache \<Rightarrow> regex_cache" where
  "cache_exec eng (Precompile pattern flags) cache = snd (precompileRegexPattern eng pattern flags cache)"
| "cache_exec eng ClearCache cache = clearCache cache"

text \<open>What the cache may hold: the compiled form of safe, valid patterns, each under its own key.\<close>

definition cache_entry_ok :: "regex_engine \<Rightarrow> string \<Rightarrow> RegExp \<Rightarrow> bool" where
  "cache_entry_ok eng key rx \<longleftrightarrow>
     key = regex_key (rx_flags rx) (rx_source rx) \<and> flags_ok (rx_flags rx) \<and>
     \<not> isUnsafeRegexPattern eng (rx_source rx) \<and> re_valid eng (rx_source rx) (rx_flags rx)"

definition cache_inv :: "regex_engine \<Rightarrow> regex_cache \<Rightarrow> bool" where
  "cache_inv eng cache \<longleftrightarrow>
     map_ok cache \<and> length cache \<le> MAX_REGEX_CACHE_ENTRIES \<and>
     list_all (\<lambda>(key, rx). cache_entry_ok eng key rx) cache"

definition sample_regex :: regex_engine where
  "sample_regex = \<lparr>re_heuristic = \<lambda>p. False, re_valid = \<lambda>p f. p \<noteq> ''('', re_test = \<lambda>p f v. str_includes v p\<rparr>"

section \<open>Lemmas\<close>

lemma all_loop_iff: "all_loop P cs \<longleftrightarrow> (\<forall>c\<in>set cs. P c)"
  by (induction cs) auto

lemma any_loop_iff: "any_loop P cs \<longleftrightarrow> (\<exists>c\<in>set cs. P c)"
  by (induction cs) auto

lemma regex_key_inj:
  assumes "flags_ok f" and "flags_ok g" and "regex_key f p = regex_key g q"
  shows "f = g \<and> p = q"
proof -
  have nul: "CHR 0x00 \<notin> set f" "CHR 0x00 \<notin> set g" using assms(1,2) by (auto simp: flags_ok_def)
  then have "takeWhile (\<lambda>c. c \<noteq> CHR 0x00) (f @ [CHR 0x00] @ p) = f"
    "takeWhile (\<lambda>c. c \<noteq> CHR 0x00) (g @ [CHR 0x00] @ q) = g"
    by (auto simp: takeWhile_append)
  with assms(3) have "f = g" unfolding regex_key_def by metis
  with assms(3) show ?thesis by (simp add: regex_key_def)
qed

lemma cache_get_ok: "cache_inv eng cache \<Longrightarrow> map_get cache k = Some rx \<Longrightarrow> cache_entry_ok eng k rx"
  by (auto simp: cache_inv_def list_all_iff map_get_def dest!: map_of_SomeD)

lemma length_map_set:
  "length (map_set m k v) = (if k \<in> set (map_keys m) then length m else Suc (length m))"
  by (induction m) (auto simp: map_set_def map_keys_def)

lemma length_map_del: "map_ok m \<Longrightarrow> k \<in> set (map_keys m) \<Longrightarrow> Suc (length (map_del m k)) = length m"
  by (induction m) (auto simp: map_del_def map_ok_def map_keys_def delete_id)

lemma set_map_set: "set (map_set m k v) \<subseteq> insert (k, v) (set m)"
  by (induction m) (auto simp: map_set_def)

lemma set_map_del: "set (map_del m k) \<subseteq> set m"
  by (auto simp: map_del_def AList.delete_eq)

lemma cache_inv_set:
  assumes "map_ok cache" and "length cache < MAX_REGEX_CACHE_ENTRIES"
    and "list_all (\<lambda>(key, rx). cache_entry_ok eng key rx) cache" and "cache_entry_ok eng k rx"
  shows "cache_inv eng (map_set cache k rx)"
proof -
  have "\<forall>(key, rx)\<in>set (map_set cache k rx). cache_entry_ok eng key rx"
    using assms(3,4) set_map_set [of cache k rx] by (auto simp: list_all_iff)
  then show ?thesis using assms(1,2) by (auto simp: cache_inv_def length_map_set list_all_iff)
qed

lemma precompile_inv:
  assumes "cache_inv eng cache"
  shows "cache_inv eng (snd (precompileRegexPattern eng pattern flags cache))"
proof (cases "flags_ok flags \<and> map_get cache (regex_key flags pattern) = None \<and>
    \<not> isUnsafeRegexPattern eng pattern \<and> re_valid eng pattern flags")
  case True
  let ?k = "regex_key flags pattern" and ?rx = "\<lparr>rx_source = pattern, rx_flags = flags\<rparr>"
  let ?c = "if length cache \<ge> MAX_REGEX_CACHE_ENTRIES
      then case map_keys cache of [] \<Rightarrow> cache | key # _ \<Rightarrow> map_del cache key else cache"
  have "map_ok ?c" using assms by (auto simp: cache_inv_def split: list.splits)
  moreover have "length ?c < MAX_REGEX_CACHE_ENTRIES"
    using assms length_map_del [of cache "hd (map_keys cache)"]
    by (auto simp: cache_inv_def MAX_REGEX_CACHE_ENTRIES_def map_keys_def split: list.splits)
  moreover have "list_all (\<lambda>(key, rx). cache_entry_ok eng key rx) ?c"
    using assms set_map_del [of cache] by (fastforce simp: cache_inv_def list_all_iff split: list.splits)
  moreover have "cache_entry_ok eng ?k ?rx" using True by (simp add: cache_entry_ok_def)
  ultimately have "cache_inv eng (map_set ?c ?k ?rx)" by (rule cache_inv_set)
  then show ?thesis using True by (simp add: precompileRegexPattern_def Let_def)
next
  case False
  show ?thesis
  proof (cases "map_get cache (regex_key flags pattern)")
    case None
    with False assms show ?thesis by (auto simp: precompileRegexPattern_def Let_def)
  next
    case (Some rx)
    let ?k = "regex_key flags pattern"
    have "?k \<in> set (map_keys cache)" using Some map_get_keys [of cache ?k] by simp
    then have "length (map_del cache ?k) < MAX_REGEX_CACHE_ENTRIES"
      using assms length_map_del [of cache ?k] by (auto simp: cache_inv_def)
    moreover have "list_all (\<lambda>(key, rx). cache_entry_ok eng key rx) (map_del cache ?k)"
      using assms set_map_del [of cache ?k] by (auto simp: cache_inv_def list_all_iff dest!: subsetD)
    ultimately have "cache_inv eng (map_set (map_del cache ?k) ?k rx)"
      using assms cache_get_ok [OF assms Some] by (intro cache_inv_set) (auto simp: cache_inv_def)
    with Some assms show ?thesis by (simp add: precompileRegexPattern_def Let_def)
  qed
qed

lemma precompile_transparent:
  assumes "cache_inv eng cache"
  shows "fst (precompileRegexPattern eng pattern flags cache) = compile_pattern eng pattern flags"
proof (cases "map_get cache (regex_key flags pattern)")
  case None
  then show ?thesis by (simp add: compile_pattern_def precompileRegexPattern_def Let_def)
next
  case (Some rx)
  show ?thesis
  proof (cases "flags_ok flags")
    case True
    have ok: "cache_entry_ok eng (regex_key flags pattern) rx" by (rule cache_get_ok [OF assms Some])
    then have "flags = rx_flags rx \<and> pattern = rx_source rx"
      using regex_key_inj [OF True] by (auto simp: cache_entry_ok_def)
    with ok Some True show ?thesis
      by (simp add: compile_pattern_def precompileRegexPattern_def Let_def cache_entry_ok_def)
  qed (simp add: compile_pattern_def precompileRegexPattern_def)
qed

lemma cache_run_inv: "cache_inv eng (fold (cache_exec eng) ops map_empty)"
proof -
  have empty: "cache_inv eng map_empty" by (simp add: cache_inv_def map_empty_def map_ok_def map_keys_def)
  have "cache_inv eng c \<Longrightarrow> cache_inv eng (fold (cache_exec eng) ops c)" for c
  proof (induction ops arbitrary: c)
    case (Cons x ops)
    then show ?case by (cases x) (auto simp: precompile_inv clearCache_def empty)
  qed simp
  from this [OF empty] show ?thesis .
qed

lemma resolve_forbidden:
  "\<exists>part\<in>set parts. part \<in> set FORBIDDEN_FIELD_SEGMENTS \<Longrightarrow> resolve_parts current parts = None"
  by (induction current parts rule: resolve_parts.induct) (auto split: option.splits)

lemma compile_all_ok: "compile_all eng ps = Inr () \<longleftrightarrow> (\<forall>p\<in>set ps. \<not> isl (compile_pattern eng p []))"
  by (induction ps) (auto split: sum.splits)

lemma group_semantics:
  "evaluateConditionGroup eng context grp \<longleftrightarrow>
     (\<forall>c\<in>set (case_option [] id (grp_all grp)). evaluateCondition eng context c) \<and>
     (case_option [] id (grp_any grp) = [] \<or>
      (\<exists>c\<in>set (case_option [] id (grp_any grp)). evaluateCondition eng context c)) \<and>
     (\<forall>c\<in>set (case_option [] id (grp_none grp)). \<not> evaluateCondition eng context c)"
  by (cases "grp_all grp"; cases "grp_any grp"; cases "grp_none grp")
    (auto simp: evaluateConditionGroup_def nonempty_def all_loop_iff any_loop_iff Let_def)

section \<open>Properties\<close>

text \<open>
  The regular expression cache is invisible and bounded: after any sequence of calls it holds
  at most 1000 entries, and compiling a pattern gives what compiling it without a cache gives, so
  a pattern the safety check rejects is rejected on every call.
\<close>

theorem regex_cache_transparent:
  "let cache = fold (cache_exec eng) ops map_empty in
   fst (precompileRegexPattern eng pattern flags cache) = compile_pattern eng pattern flags \<and>
   length cache \<le> 1000 \<and>
   (if isUnsafeRegexPattern eng pattern
    then isl (fst (precompileRegexPattern eng pattern flags cache)) else True)"
proof -
  let ?cache = "fold (cache_exec eng) ops map_empty"
  note inv = cache_run_inv [of eng ops]
  have "isUnsafeRegexPattern eng pattern \<Longrightarrow> isl (compile_pattern eng pattern flags)"
    by (simp add: compile_pattern_def precompileRegexPattern_def Let_def)
  then show ?thesis
    using inv by (auto simp: Let_def precompile_transparent [OF inv] cache_inv_def MAX_REGEX_CACHE_ENTRIES_def)
qed

text \<open>
  A condition group holds exactly when all its \<open>all\<close> conditions hold, one of its \<open>any\<close>
  conditions holds (if there are any) and none of its \<open>none\<close> conditions holds; a condition on a
  path through \<open>__proto__\<close>, \<open>constructor\<close> or \<open>prototype\<close> sees an absent field.
\<close>

theorem condition_group_semantics:
  "evaluateConditionGroup eng context grp =
     (list_all (evaluateCondition eng context) (case_option [] id (grp_all grp)) \<and>
      (case_option [] id (grp_any grp) = [] \<or>
       list_ex (evaluateCondition eng context) (case_option [] id (grp_any grp))) \<and>
      \<not> list_ex (evaluateCondition eng context) (case_option [] id (grp_none grp))) \<and>
   (if list_ex (\<lambda>part. part \<in> set FORBIDDEN_FIELD_SEGMENTS) (js_split (CHR ''.'') field)
    then resolveField context field = None else True)"
proof -
  have "evaluateConditionGroup eng context grp =
     (list_all (evaluateCondition eng context) (case_option [] id (grp_all grp)) \<and>
      (case_option [] id (grp_any grp) = [] \<or>
       list_ex (evaluateCondition eng context) (case_option [] id (grp_any grp))) \<and>
      \<not> list_ex (evaluateCondition eng context) (case_option [] id (grp_none grp)))"
    unfolding group_semantics list_all_iff list_ex_iff by blast
  moreover have "resolveField context field = None"
    if "list_ex (\<lambda>part. part \<in> set FORBIDDEN_FIELD_SEGMENTS) (js_split (CHR ''.'') field)"
    using that unfolding resolveField_def list_ex_iff by (rule resolve_forbidden)
  ultimately show ?thesis by presburger
qed

end
