(* ===== verification/Rule_Index.thy ===== *)
theory Rule_Index
  imports Rule_Conditions "HOL-Library.Multiset"
begin

text \<open>
  The rule index, src/src/rules/engine/rule-index.ts: active rules grouped by resource and action
  and sorted by bundle priority, rule priority and stable tie-breakers. \<open>localeCompare\<close> (the
  collation of the host) is the argument \<open>loc\<close>. Freezing and cloning of snapshots have no
  counterpart, since values are immutable here.
\<close>

record CompiledRule =
  cr_rule :: FridayRule
  cr_bundle :: FridayPolicyBundle
  cr_effectivePriority :: int

record PendingCompiledRule =
  pc_rule :: FridayRule
  pc_bundle :: FridayPolicyBundle
  pc_sortOrdinal :: int

record rule_index =
  idx_buckets :: "(string, CompiledRule list) js_map"
  idx_count :: nat

type_synonym bundle_entry = "FridayPolicyBundle \<times> FridayRule list"

definition buildIndexKey :: "FridayRuleResource \<Rightarrow> FridayRuleAction \<Rightarrow> string" where
  "buildIndexKey resource action = resource_name resource @ '':'' @ action_name action"

definition empty_index :: rule_index where
  "empty_index = \<lparr>idx_buckets = map_empty, idx_count = 0\<rparr>"

section \<open>Rebuilding\<close>

text \<open>The local variables of \<open>rebuild\<close> during the scan of the entries.\<close>

record rebuild_state =
  rb_pending :: "(string, PendingCompiledRule list) js_map"
  rb_total :: nat
  rb_hasActiveRules :: bool
  rb_minRulePriority :: int
  rb_maxRulePriority :: int
  rb_sortOrdinal :: int

definition rule_deleted :: "FridayRule \<Rightarrow> bool" where
  "rule_deleted rule = (case rule_deletedAt rule of None \<Rightarrow> False | Some t \<Rightarrow> t \<noteq> [])"

definition scan_rule ::
    "regex_engine \<Rightarrow> FridayPolicyBundle \<Rightarrow> FridayRule \<Rightarrow> rebuild_state \<Rightarrow> regex_failure + rebuild_state" where
  "scan_rule eng bundle rule st =
     (if \<not> rule_enabled rule then Inr st
      else if rule_deleted rule then Inr st
      else case precompileConditionGroupRegex eng (rule_conditions rule) of
        Inl err \<Rightarrow> Inl err
      | Inr _ \<Rightarrow>
          (let (lo, hi) = (if \<not> rb_hasActiveRules st then (rule_priority rule, rule_priority rule)
                           else (min (rb_minRulePriority st) (rule_priority rule),
                                 max (rb_maxRulePriority st) (rule_priority rule)));
               key = buildIndexKey (rule_resource rule) (rule_action rule);
               compiled = \<lparr>pc_rule = rule, pc_bundle = bundle, pc_sortOrdinal = rb_sortOrdinal st\<rparr>;
               bucket = (case map_get (rb_pending st) key of None \<Rightarrow> [] | Some b \<Rightarrow> b)
           in Inr \<lparr>rb_pending = map_set (rb_pending st) key (bucket @ [compiled]),
                   rb_total = rb_total st + 1, rb_hasActiveRules = True,
                   rb_minRulePriority = lo, rb_maxRulePriority = hi,
                   rb_sortOrdinal = rb_sortOrdinal st + 1\<rparr>))"

fun scan_rules ::
    "regex_engine \<Rightarrow> FridayPolicyBundle \<Rightarrow> FridayRule list \<Rightarrow> rebuild_state \<Rightarrow> regex_failure + rebuild_state" where
  "scan_rules eng bundle [] st = Inr st"
| "scan_rules eng bundle (rule # rules) st =
     (case scan_rule eng bundle rule st of Inl err \<Rightarrow> Inl err | Inr st' \<Rightarrow> scan_rules eng bundle rules st')"

fun scan_entries :: "regex_engine \<Rightarrow> bundle_entry list \<Rightarrow> rebuild_state \<Rightarrow> regex_failure + rebuild_state" where
  "scan_entries eng [] st = Inr st"
| "scan_entries eng ((bundle, rules) # entries) st =
     (if \<not> bundle_enabled bundle then scan_entries eng entries st
      else case scan_rules eng bundle rules st of
             Inl err \<Rightarrow> Inl err | Inr st' \<Rightarrow> scan_entries eng entries st')"

text \<open>The comparator of the bucket sort.\<close>

definition compare_pending ::
    "(string \<Rightarrow> string \<Rightarrow> int) \<Rightarrow> PendingCompiledRule \<Rightarrow> PendingCompiledRule \<Rightarrow> int" where
  "compare_pending loc a b =
     (if bundle_priority (pc_bundle a) \<noteq> bundle_priority (pc_bundle b)
      then bundle_priority (pc_bundle a) - bundle_priority (pc_bundle b)
      else if rule_priority (pc_rule a) \<noteq> rule_priority (pc_rule b)
      then rule_priority (pc_rule a) - rule_priority (pc_rule b)
      else if bundle_id (pc_bundle a) \<noteq> bundle_id (pc_bundle b)
      then loc (bundle_id (pc_bundle a)) (bundle_id (pc_bundle b))
      else if rule_id (pc_rule a) \<noteq> rule_id (pc_rule b)
      then loc (rule_id (pc_rule a)) (rule_id (pc_rule b))
      else pc_sortOrdinal a - pc_sortOrdinal b)"

text \<open>\<open>Array.prototype.sort\<close> is a stable sort; for a consistent comparator its result is unique.\<close>

fun insert_by :: "('a \<Rightarrow> 'a \<Rightarrow> int) \<Rightarrow> 'a \<Rightarrow> 'a list \<Rightarrow> 'a list" where
  "insert_by cmp x [] = [x]"
| "insert_by cmp x (y # ys) = (if cmp x y \<le> 0 then x # y # ys else y # insert_by cmp x ys)"

definition sort_by :: "('a \<Rightarrow> 'a \<Rightarrow> int) \<Rightarrow> 'a list \<Rightarrow> 'a list" where
  "sort_by cmp xs = foldr (insert_by cmp) xs []"

definition compile_entry :: "int \<Rightarrow> int \<Rightarrow> PendingCompiledRule \<Rightarrow> CompiledRule" where
  "compile_entry priorityStride minRulePriority entry =
     \<lparr>cr_rule = pc_rule entry, cr_bundle = pc_bundle entry,
      cr_effectivePriority = bundle_priority (pc_bundle entry) * priorityStride +
        (rule_priority (pc_rule entry) - minRulePriority)\<rparr>"

definition rebuild ::
    "regex_engine \<Rightarrow> (string \<Rightarrow> string \<Rightarrow> int) \<Rightarrow> bundle_entry list \<Rightarrow> regex_failure + rule_index" where
  "rebuild eng loc entries =
     (case scan_entries eng entries \<lparr>rb_pending = map_empty, rb_total = 0, rb_hasActiveRules = False,
             rb_minRulePriority = 0, rb_maxRulePriority = 0, rb_sortOrdinal = 0\<rparr> of
        Inl err \<Rightarrow> Inl err
      | Inr st \<Rightarrow>
          (let priorityStride = (if rb_hasActiveRules st
                 then rb_maxRulePriority st - rb_minRulePriority st + 1 else 1)
           in Inr \<lparr>idx_buckets = map (\<lambda>(key, bucket).
                     (key, map (compile_entry priorityStride (rb_minRulePriority st))
                             (sort_by (compare_pending loc) bucket))) (rb_pending st),
                   idx_count = rb_total st\<rparr>))"

section \<open>Lookup\<close>

definition findRules :: "rule_index \<Rightarrow> FridayRuleResource \<Rightarrow> FridayRuleAction \<Rightarrow> CompiledRule list" where
  "findRules index resource action =
     (case map_get (idx_buckets index) (buildIndexKey resource action) of None \<Rightarrow> [] | Some bucket \<Rightarrow> bucket)"

definition findRulesSnapshot :: "rule_index \<Rightarrow> FridayRuleResource \<Rightarrow> FridayRuleAction \<Rightarrow> CompiledRule list" where
  "findRulesSnapshot index resource action =
     (case map_get (idx_buckets index) (buildIndexKey resource action) of None \<Rightarrow> [] | Some bucket \<Rightarrow> bucket)"

definition index_size :: "rule_index \<Rightarrow> nat" where
  "index_size index = idx_count index"

definition getAllRules :: "rule_index \<Rightarrow> CompiledRule list" where
  "getAllRules index = concat (map_values (idx_buckets index))"

definition clear_index :: "rule_index \<Rightarrow> rule_index" where
  "clear_index index = empty_index"

section \<open>Specification vocabulary\<close>

definition rule_active :: "FridayRule \<Rightarrow> bool" where
  "rule_active rule = (rule_enabled rule \<and> \<not> rule_deleted rule)"

definition active_rules :: "bundle_entry list \<Rightarrow> (FridayPolicyBundle \<times> FridayRule) list" where
  "active_rules entries =
     concat (map (\<lambda>(bundle, rules). if bundle_enabled bundle then map (Pair bundle) (filter rule_active rules) else [])
       entries)"

definition rule_key :: "FridayRule \<Rightarrow> string" where
  "rule_key rule = buildIndexKey (rule_resource rule) (rule_action rule)"

text \<open>The scan after the active rules \<open>rs\<close>.\<close>

definition scan_inv :: "(FridayPolicyBundle \<times> FridayRule) list \<Rightarrow> rebuild_state \<Rightarrow> bool" where
  "scan_inv rs st \<longleftrightarrow>
     map_ok (rb_pending st) \<and> rb_total st = length rs \<and> rb_hasActiveRules st = (rs \<noteq> []) \<and>
     (\<forall>k. map (\<lambda>p. (pc_bundle p, pc_rule p)) (case_option [] id (map_get (rb_pending st) k)) =
          filter (\<lambda>(b, r). rule_key r = k) rs) \<and>
     (\<forall>(b, r)\<in>set rs. rb_minRulePriority st \<le> rule_priority r \<and> rule_priority r \<le> rb_maxRulePriority st)"

definition priority_le :: "CompiledRule \<Rightarrow> CompiledRule \<Rightarrow> bool" where
  "priority_le a b \<longleftrightarrow>
     bundle_priority (cr_bundle a) < bundle_priority (cr_bundle b) \<or>
     bundle_priority (cr_bundle a) = bundle_priority (cr_bundle b) \<and>
     rule_priority (cr_rule a) \<le> rule_priority (cr_rule b)"

text \<open>Concrete rules and bundles used by the witnesses.\<close>

definition no_conditions :: FridayRuleConditionGroup where
  "no_conditions = \<lparr>grp_all = None, grp_any = None, grp_none = None\<rparr>"

definition sample_rule :: "string \<Rightarrow> FridayRuleDecision \<Rightarrow> int \<Rightarrow> FridayRule" where
  "sample_rule i d p =
     \<lparr>rule_id = i, rule_policyBundleId = ''bundle'', rule_name = i, rule_description = None, rule_enabled = True,
      rule_resource = R_tool, rule_action = A_execute, rule_conditions = no_conditions, rule_decision = d,
      rule_message = Some (''by '' @ i), rule_priority = p, rule_version = 1, rule_etag = ''e'',
      rule_createdAt = ''t'', rule_updatedAt = ''t'', rule_deletedAt = None\<rparr>"

definition sample_bundle :: FridayPolicyBundle where
  "sample_bundle =
     \<lparr>bundle_id = ''bundle'', bundle_name = ''b'', bundle_description = None, bundle_version = 1,
      bundle_priority = 100, bundle_enabled = True, bundle_tags = [], bundle_source = Src_User,
      bundle_signature = None, bundle_etag = ''e'', bundle_createdAt = ''t'', bundle_updatedAt = ''t'',
      bundle_deletedAt = None\<rparr>"

section \<open>Lemmas\<close>

lemma buildIndexKey_inj: "buildIndexKey r a = buildIndexKey r' a' \<longleftrightarrow> r = r' \<and> a = a'"
  using last_component_inj [of "resource_name r" "CHR '':''" "action_name a" "resource_name r'" "action_name a'"]
  by (auto simp: buildIndexKey_def action_name_no_colon resource_name_inj action_name_inj)

lemma mset_insert_by: "mset (insert_by cmp x xs) = add_mset x (mset xs)"
  by (induction xs) auto

lemma mset_sort_by: "mset (sort_by cmp xs) = mset xs"
  by (induction xs) (auto simp: sort_by_def mset_insert_by)

lemma set_insert_by: "set (insert_by cmp x xs) = insert x (set xs)"
  by (induction xs) auto

lemma sort_by_sorted:
  assumes "\<And>x y. cmp x y \<le> 0 \<Longrightarrow> R x y" and "\<And>x y. \<not> cmp x y \<le> 0 \<Longrightarrow> R y x"
    and "\<And>x y z. R x y \<Longrightarrow> R y z \<Longrightarrow> R x z"
  shows "sorted_wrt R (sort_by cmp xs)"
proof -
  have "sorted_wrt R ys \<Longrightarrow> sorted_wrt R (insert_by cmp x ys)" for x ys
    by (induction ys) (auto simp: set_insert_by intro: assms)
  then show ?thesis by (induction xs) (auto simp: sort_by_def)
qed

lemma scan_rule_inv:
  assumes "scan_inv rs st" and "scan_rule eng bundle rule st = Inr st'"
  shows "scan_inv (rs @ (if rule_active rule then [(bundle, rule)] else [])) st'"
proof (cases "rule_active rule")
  case False
  then have "st' = st" using assms(2) by (auto simp: scan_rule_def rule_active_def split: if_splits)
  with False assms(1) show ?thesis by simp
next
  case True
  then have st': "st' = \<lparr>rb_pending = map_set (rb_pending st) (rule_key rule)
        (case_option [] id (map_get (rb_pending st) (rule_key rule)) @
          [\<lparr>pc_rule = rule, pc_bundle = bundle, pc_sortOrdinal = rb_sortOrdinal st\<rparr>]),
      rb_total = rb_total st + 1, rb_hasActiveRules = True,
      rb_minRulePriority = (if rs = [] then rule_priority rule else min (rb_minRulePriority st) (rule_priority rule)),
      rb_maxRulePriority = (if rs = [] then rule_priority rule else max (rb_maxRulePriority st) (rule_priority rule)),
      rb_sortOrdinal = rb_sortOrdinal st + 1\<rparr>"
    using assms
    by (auto simp: scan_rule_def rule_active_def rule_key_def scan_inv_def Let_def split: sum.splits option.splits)
  show ?thesis
    using assms(1) True by (auto simp: scan_inv_def st' intro: order_trans)
qed

lemma scan_rules_inv:
  "scan_inv rs st \<Longrightarrow> scan_rules eng bundle rules st = Inr st' \<Longrightarrow>
   scan_inv (rs @ map (Pair bundle) (filter rule_active rules)) st'"
proof (induction rules arbitrary: rs st)
  case (Cons rule rules)
  then obtain st1 where "scan_rule eng bundle rule st = Inr st1" "scan_rules eng bundle rules st1 = Inr st'"
    by (auto split: sum.splits)
  with Cons.IH [OF scan_rule_inv [OF Cons.prems(1)]] show ?case by fastforce
qed simp

lemma scan_entries_inv:
  "scan_inv rs st \<Longrightarrow> scan_entries eng entries st = Inr st' \<Longrightarrow> scan_inv (rs @ active_rules entries) st'"
proof (induction eng entries st arbitrary: rs rule: scan_entries.induct)
  case (2 eng bd rls entries st)
  show ?case
  proof (cases "bundle_enabled bd")
    case False
    with 2 show ?thesis by (simp add: active_rules_def)
  next
    case True
    with "2.prems" obtain st1 where s: "scan_rules eng bd rls st = Inr st1" "scan_entries eng entries st1 = Inr st'"
      by (auto split: sum.splits)
    from "2.IH"(2) [OF _ s(1) scan_rules_inv [OF "2.prems"(1) s(1)] s(2)] True
    show ?thesis by (simp add: active_rules_def)
  qed
qed (simp add: active_rules_def)

lemma scan_inv_start:
  "scan_inv [] \<lparr>rb_pending = map_empty, rb_total = 0, rb_hasActiveRules = False,
     rb_minRulePriority = 0, rb_maxRulePriority = 0, rb_sortOrdinal = 0\<rparr>"
  by (simp add: scan_inv_def)

lemma map_get_map: "map_get (map (\<lambda>(k, v). (k, f v)) m) k = map_option f (map_get m k)"
  by (induction m) (auto simp: map_get_def)

text \<open>What a successful rebuild leaves in one bucket.\<close>

lemma rebuild_bucket:
  assumes "rebuild eng loc entries = Inr index"
  shows "\<exists>ps stride lo. findRules index resource action = map (compile_entry stride lo) (sort_by (compare_pending loc) ps) \<and>
    map (\<lambda>p. (pc_bundle p, pc_rule p)) ps =
      filter (\<lambda>(b, r). rule_resource r = resource \<and> rule_action r = action) (active_rules entries) \<and>
    (\<forall>p\<in>set ps. lo \<le> rule_priority (pc_rule p) \<and> rule_priority (pc_rule p) < lo + stride) \<and>
    idx_count index = length (active_rules entries)"
proof -
  obtain st where st: "scan_entries eng entries \<lparr>rb_pending = map_empty, rb_total = 0, rb_hasActiveRules = False,
      rb_minRulePriority = 0, rb_maxRulePriority = 0, rb_sortOrdinal = 0\<rparr> = Inr st"
    using assms by (auto simp: rebuild_def split: sum.splits)
  have inv: "scan_inv (active_rules entries) st"
    using scan_entries_inv [OF scan_inv_start st] by simp
  let ?k = "buildIndexKey resource action"
  let ?ps = "case_option [] id (map_get (rb_pending st) ?k)"
  let ?stride = "if rb_hasActiveRules st then rb_maxRulePriority st - rb_minRulePriority st + 1 else 1"
  have ps: "map (\<lambda>p. (pc_bundle p, pc_rule p)) ?ps = filter (\<lambda>(b, r). rule_key r = ?k) (active_rules entries)"
    using inv by (simp add: scan_inv_def)
  have bound: "rb_minRulePriority st \<le> rule_priority (pc_rule p) \<and> rule_priority (pc_rule p) < rb_minRulePriority st + ?stride"
    if "p \<in> set ?ps" for p
  proof -
    have "(pc_bundle p, pc_rule p) \<in> set (map (\<lambda>p. (pc_bundle p, pc_rule p)) ?ps)" using that by auto
    then have "(pc_bundle p, pc_rule p) \<in> set (active_rules entries)" unfolding ps by simp
    with inv show ?thesis by (auto simp: scan_inv_def)
  qed
  have "findRules index resource action = map (compile_entry ?stride (rb_minRulePriority st)) (sort_by (compare_pending loc) ?ps)"
    using assms by (auto simp: rebuild_def st findRules_def map_get_map sort_by_def Let_def split: option.splits)
  moreover have "idx_count index = length (active_rules entries)"
    using assms inv by (auto simp: rebuild_def st scan_inv_def Let_def)
  moreover have "filter (\<lambda>(b, r). rule_key r = ?k) (active_rules entries) =
      filter (\<lambda>(b, r). rule_resource r = resource \<and> rule_action r = action) (active_rules entries)"
    by (simp add: rule_key_def buildIndexKey_inj)
  ultimately show ?thesis
    using ps bound by (intro exI [of _ ?ps] exI [of _ ?stride] exI [of _ "rb_minRulePriority st"]) auto
qed

lemma effective_priority_mono:
  assumes "lo \<le> rule_priority (pc_rule p)" "rule_priority (pc_rule p) < lo + stride"
    and "lo \<le> rule_priority (pc_rule q)" "rule_priority (pc_rule q) < lo + stride"
    and "priority_le (compile_entry stride lo p) (compile_entry stride lo q)"
  shows "cr_effectivePriority (compile_entry stride lo p) \<le> cr_effectivePriority (compile_entry stride lo q)"
proof (cases "bundle_priority (pc_bundle p) < bundle_priority (pc_bundle q)")
  case True
  have "1 * stride \<le> (bundle_priority (pc_bundle q) - bundle_priority (pc_bundle p)) * stride"
    using True assms(1,2) by (intro mult_right_mono) auto
  then have "bundle_priority (pc_bundle p) * stride + stride \<le> bundle_priority (pc_bundle q) * stride"
    by (simp add: left_diff_distrib)
  then show ?thesis using assms(1-4) by (simp add: compile_entry_def)
next
  case False
  then show ?thesis using assms(5) by (simp add: priority_le_def compile_entry_def)
qed

lemma bucket_sorted:
  assumes "\<And>p. p \<in> set ps \<Longrightarrow> lo \<le> rule_priority (pc_rule p) \<and> rule_priority (pc_rule p) < lo + stride"
  shows "sorted_wrt priority_le (map (compile_entry stride lo) (sort_by (compare_pending loc) ps))"
    "sorted_wrt (\<lambda>a b. cr_effectivePriority a \<le> cr_effectivePriority b)
       (map (compile_entry stride lo) (sort_by (compare_pending loc) ps))"
proof -
  let ?R = "\<lambda>p q. priority_le (compile_entry stride lo p) (compile_entry stride lo q)"
  have sorted: "sorted_wrt ?R (sort_by (compare_pending loc) ps)"
    by (rule sort_by_sorted)
      (auto simp: compare_pending_def priority_le_def compile_entry_def split: if_splits)
  then show "sorted_wrt priority_le (map (compile_entry stride lo) (sort_by (compare_pending loc) ps))"
    by (simp add: sorted_wrt_map)
  have mem: "set (sort_by (compare_pending loc) ps) = set ps"
    by (metis mset_sort_by set_mset_mset)
  show "sorted_wrt (\<lambda>a b. cr_effectivePriority a \<le> cr_effectivePriority b)
      (map (compile_entry stride lo) (sort_by (compare_pending loc) ps))"
    unfolding sorted_wrt_map
    by (rule sorted_wrt_mono_rel [OF _ sorted])
      (use mem assms effective_priority_mono in auto)
qed

lemma findRulesSnapshot_eq [simp]: "findRulesSnapshot = findRules"
  by (simp add: fun_eq_iff findRulesSnapshot_def findRules_def)

lemma mset_map_sort: "mset (map f (sort_by cmp xs)) = mset (map f xs)"
  by (simp add: mset_sort_by)

lemma rebuild_find:
  assumes "rebuild eng loc entries = Inr index"
  shows "mset (map (\<lambda>c. (cr_bundle c, cr_rule c)) (findRules index resource action)) =
      mset (filter (\<lambda>(b, r). rule_resource r = resource \<and> rule_action r = action) (active_rules entries))"
    "sorted_wrt priority_le (findRules index resource action)"
    "sorted_wrt (\<lambda>a b. cr_effectivePriority a \<le> cr_effectivePriority b) (findRules index resource action)"
    "index_size index = length (active_rules entries)"
proof -
  obtain ps stride lo where r: "findRules index resource action = map (compile_entry stride lo) (sort_by (compare_pending loc) ps)"
    "map (\<lambda>p. (pc_bundle p, pc_rule p)) ps =
      filter (\<lambda>(b, r). rule_resource r = resource \<and> rule_action r = action) (active_rules entries)"
    "\<And>p. p \<in> set ps \<Longrightarrow> lo \<le> rule_priority (pc_rule p) \<and> rule_priority (pc_rule p) < lo + stride"
    "idx_count index = length (active_rules entries)"
    using rebuild_bucket [OF assms, of resource action] by blast
  have "map (\<lambda>c. (cr_bundle c, cr_rule c)) (map (compile_entry stride lo) (sort_by (compare_pending loc) ps)) =
      map (\<lambda>p. (pc_bundle p, pc_rule p)) (sort_by (compare_pending loc) ps)"
    by (simp add: compile_entry_def)
  then show "mset (map (\<lambda>c. (cr_bundle c, cr_rule c)) (findRules index resource action)) =
      mset (filter (\<lambda>(b, r). rule_resource r = resource \<and> rule_action r = action) (active_rules entries))"
    unfolding r(1) r(2) [symmetric] by (metis mset_map_sort)
  show "sorted_wrt priority_le (findRules index resource action)"
    "sorted_wrt (\<lambda>a b. cr_effectivePriority a \<le> cr_effectivePriority b) (findRules index resource action)"
    using bucket_sorted [OF r(3)] by (simp_all add: r(1))
  show "index_size index = length (active_rules entries)" using r(4) by (simp add: index_size_def)
qed

lemma active_rules_simps [simp]:
  "active_rules [] = []"
  "active_rules ((b, rs) # entries) =
     (if bundle_enabled b then map (Pair b) (filter rule_active rs) else []) @ active_rules entries"
  by (simp_all add: active_rules_def)

lemma rebuild_ok_iff:
  "(\<exists>index. rebuild eng loc entries = Inr index) \<longleftrightarrow>
     list_all (\<lambda>(b, r). precompileConditionGroupRegex eng (rule_conditions r) = Inr ()) (active_rules entries)"
proof -
  have rule: "(\<exists>st'. scan_rule eng b r st = Inr st') \<longleftrightarrow>
      (rule_active r \<longrightarrow> precompileConditionGroupRegex eng (rule_conditions r) = Inr ())" for b r st
    by (cases "precompileConditionGroupRegex eng (rule_conditions r)")
      (auto simp: scan_rule_def rule_active_def Let_def split: prod.splits)
  have rules: "(\<exists>st'. scan_rules eng b rs st = Inr st') \<longleftrightarrow>
      (\<forall>r\<in>set (filter rule_active rs). precompileConditionGroupRegex eng (rule_conditions r) = Inr ())" for b rs st
  proof (induction rs arbitrary: st)
    case (Cons r rs)
    then show ?case using rule [of b r st] by (cases "scan_rule eng b r st") auto
  qed simp
  have "(\<exists>st'. scan_entries eng entries st = Inr st') \<longleftrightarrow>
      list_all (\<lambda>(b, r). precompileConditionGroupRegex eng (rule_conditions r) = Inr ()) (active_rules entries)" for st
  proof (induction entries arbitrary: st)
    case (Cons e entries)
    obtain bd rls where e: "e = (bd, rls)" by fastforce
    show ?case
      using Cons rules [of bd rls st] by (cases "scan_rules eng bd rls st") (auto simp: e list_all_iff [of _ "map _ _"])
  qed simp
  from this [of "\<lparr>rb_pending = map_empty, rb_total = 0, rb_hasActiveRules = False,
      rb_minRulePriority = 0, rb_maxRulePriority = 0, rb_sortOrdinal = 0\<rparr>"]
  show ?thesis by (auto simp: rebuild_def Let_def split: sum.splits)
qed

section \<open>Properties\<close>

text \<open>
  C25. A rebuilt index holds, under each resource and action, exactly the enabled, undeleted rules
  of enabled bundles with that resource and action, each once, sorted by bundle priority and then
  rule priority; the effective priorities it reports are in the same order. A rebuild fails exactly
  when a pattern of an active rule is unsafe or invalid.
\<close>

theorem rebuild_correct:
  "case rebuild eng loc entries of
     Inl _ \<Rightarrow> \<not> list_all (\<lambda>(b, r). precompileConditionGroupRegex eng (rule_conditions r) = Inr ()) (active_rules entries)
   | Inr index \<Rightarrow>
       list_all (\<lambda>(b, r). precompileConditionGroupRegex eng (rule_conditions r) = Inr ()) (active_rules entries) \<and>
       mset (map (\<lambda>c. (cr_bundle c, cr_rule c)) (findRules index resource action)) =
         mset (filter (\<lambda>(b, r). rule_resource r = resource \<and> rule_action r = action) (active_rules entries)) \<and>
       sorted_wrt priority_le (findRules index resource action) \<and>
       sorted_wrt (\<lambda>a b. cr_effectivePriority a \<le> cr_effectivePriority b) (findRules index resource action) \<and>
       index_size index = length (active_rules entries)"
proof (cases "rebuild eng loc entries")
  case (Inl err)
  with rebuild_ok_iff [of eng loc entries] show ?thesis by simp
next
  case (Inr index)
  with rebuild_ok_iff [of eng loc entries] rebuild_find [OF Inr] show ?thesis by simp
qed

end
