(* ===== verification/Policy_Bundles.thy ===== *)
theory Policy_Bundles
  imports Rule_Index
begin

text \<open>
  Policy bundles: signature checks (src/src/rules/engine/policy-bundle-signature.ts) and the
  bundle manager with its cache and index (policy-bundle-manager.ts). The keyed hash of a
  canonical payload, \<open>createHmac("sha256", secret).update(JSON.stringify(payload)).digest("hex")\<close>,
  is the argument \<open>hmac\<close> and host collation the argument \<open>loc\<close>. Parsing of YAML and JSON text is
  not modelled: loading starts from the parsed document.
\<close>

section \<open>Documents\<close>

record FridayPolicyBundleYamlMetadata =
  ym_id :: string
  ym_name :: string
  ym_description :: "string option"
  ym_version :: int
  ym_priority :: "int option"
  ym_enabled :: "bool option"
  ym_tags :: "string list option"
  ym_signature :: "FridayPolicyBundleSignature option"

record FridayPolicyBundleYamlRule =
  yr_id :: string
  yr_name :: string
  yr_description :: "string option"
  yr_enabled :: "bool option"
  yr_resource :: FridayRuleResource
  yr_action :: FridayRuleAction
  yr_conditions :: "FridayRuleConditionGroup option"
  yr_decision :: FridayRuleDecision
  yr_message :: "string option"
  yr_priority :: "int option"

record FridayPolicyBundleYaml =
  yb_apiVersion :: string
  yb_kind :: string
  yb_metadata :: FridayPolicyBundleYamlMetadata
  yb_rules :: "FridayPolicyBundleYamlRule list"

record LoadedBundle =
  lb_bundle :: FridayPolicyBundle
  lb_rules :: "FridayRule list"

text \<open>Clock reading and fresh etags of one load.\<close>

record load_env =
  le_now :: ISODateTime
  le_bundle_etag :: string
  le_rule_etag :: "nat \<Rightarrow> string"

definition yamlRuleToDomainRule ::
    "string \<Rightarrow> FridayPolicyBundleYamlRule \<Rightarrow> UUID \<Rightarrow> ISODateTime \<Rightarrow> FridayRule" where
  "yamlRuleToDomainRule etag r bundleId now =
     \<lparr>rule_id = yr_id r, rule_policyBundleId = bundleId, rule_name = yr_name r,
      rule_description = yr_description r, rule_enabled = case_option True id (yr_enabled r),
      rule_resource = yr_resource r, rule_action = yr_action r,
      rule_conditions = case_option \<lparr>grp_all = None, grp_any = None, grp_none = None\<rparr> id (yr_conditions r),
      rule_decision = yr_decision r, rule_message = yr_message r,
      rule_priority = case_option 100 id (yr_priority r), rule_version = 1, rule_etag = etag,
      rule_createdAt = now, rule_updatedAt = now, rule_deletedAt = None\<rparr>"

definition yamlBundleToDomain :: "load_env \<Rightarrow> FridayPolicyBundleYaml \<Rightarrow> LoadedBundle" where
  "yamlBundleToDomain le parsed =
     (let meta = yb_metadata parsed; now = le_now le;
          bundle = \<lparr>bundle_id = ym_id meta, bundle_name = ym_name meta,
            bundle_description = ym_description meta, bundle_version = ym_version meta,
            bundle_priority = case_option 100 id (ym_priority meta),
            bundle_enabled = case_option True id (ym_enabled meta),
            bundle_tags = case_option [] id (ym_tags meta), bundle_source = Src_Import,
            bundle_signature = ym_signature meta, bundle_etag = le_bundle_etag le,
            bundle_createdAt = now, bundle_updatedAt = now, bundle_deletedAt = None\<rparr>
      in \<lparr>lb_bundle = bundle,
          lb_rules = map (\<lambda>(i, r). yamlRuleToDomainRule (le_rule_etag le i) r (bundle_id bundle) now)
            (enumerate 0 (yb_rules parsed))\<rparr>)"

section \<open>Signing payloads\<close>

fun operator_name :: "FridayRuleConditionOperator \<Rightarrow> string" where
  "operator_name Op_equals = ''equals''"
| "operator_name Op_not_equals = ''not_equals''"
| "operator_name Op_contains = ''contains''"
| "operator_name Op_matches = ''matches''"
| "operator_name Op_in = ''in''"
| "operator_name Op_not_in = ''not_in''"
| "operator_name Op_gt = ''gt''"
| "operator_name Op_gte = ''gte''"
| "operator_name Op_lt = ''lt''"
| "operator_name Op_lte = ''lte''"
| "operator_name Op_exists = ''exists''"
| "operator_name Op_not_exists = ''not_exists''"
| "operator_name (Op_other name) = name"

fun decision_name :: "FridayRuleDecision \<Rightarrow> string" where
  "decision_name Allow = ''allow''"
| "decision_name Deny = ''deny''"
| "decision_name Warn = ''warn''"
| "decision_name Audit = ''audit''"

definition condition_json :: "FridayRuleCondition \<Rightarrow> json" where
  "condition_json c = JsonObject (
     [(''field'', JsonString (cond_field c)), (''operator'', JsonString (operator_name (cond_operator c)))] @
     opt_field ''value'' id (cond_value c))"

definition group_json :: "FridayRuleConditionGroup \<Rightarrow> json" where
  "group_json grp = JsonObject (
     opt_field ''all'' (\<lambda>cs. JsonArray (map condition_json cs)) (grp_all grp) @
     opt_field ''any'' (\<lambda>cs. JsonArray (map condition_json cs)) (grp_any grp) @
     opt_field ''none'' (\<lambda>cs. JsonArray (map condition_json cs)) (grp_none grp))"

definition createDomainBundleSigningPayload :: "FridayPolicyBundle \<Rightarrow> FridayRule list \<Rightarrow> json" where
  "createDomainBundleSigningPayload bundle rules = JsonObject
     [(''apiVersion'', JsonString ''friday/rules/v1''),
      (''kind'', JsonString ''PolicyBundle''),
      (''metadata'', JsonObject (
         [(''id'', JsonString (bundle_id bundle)), (''name'', JsonString (bundle_name bundle))] @
         opt_field ''description'' JsonString (bundle_description bundle) @
         [(''version'', JsonNumber (of_int (bundle_version bundle))),
          (''priority'', JsonNumber (of_int (bundle_priority bundle))),
          (''enabled'', JsonBool (bundle_enabled bundle)),
          (''tags'', json_strings (bundle_tags bundle))])),
      (''rules'', JsonArray (map (\<lambda>r. JsonObject (
         [(''id'', JsonString (rule_id r)), (''name'', JsonString (rule_name r))] @
         opt_field ''description'' JsonString (rule_description r) @
         [(''enabled'', JsonBool (rule_enabled r)),
          (''resource'', JsonString (resource_name (rule_resource r))),
          (''action'', JsonString (action_name (rule_action r))),
          (''conditions'', group_json (rule_conditions r)),
          (''decision'', JsonString (decision_name (rule_decision r)))] @
         opt_field ''message'' JsonString (rule_message r) @
         [(''priority'', JsonNumber (of_int (rule_priority r)))])) rules))]"

definition createParsedBundleSigningPayload :: "FridayPolicyBundleYaml \<Rightarrow> json" where
  "createParsedBundleSigningPayload parsed = (let meta = yb_metadata parsed in JsonObject
     [(''apiVersion'', JsonString (yb_apiVersion parsed)),
      (''kind'', JsonString (yb_kind parsed)),
      (''metadata'', JsonObject (
         [(''id'', JsonString (ym_id meta)), (''name'', JsonString (ym_name meta))] @
         opt_field ''description'' JsonString (ym_description meta) @
         [(''version'', JsonNumber (of_int (ym_version meta)))] @
         opt_field ''priority'' (\<lambda>p. JsonNumber (of_int p)) (ym_priority meta) @
         opt_field ''enabled'' JsonBool (ym_enabled meta) @
         opt_field ''tags'' json_strings (ym_tags meta))),
      (''rules'', JsonArray (map (\<lambda>r. JsonObject (
         [(''id'', JsonString (yr_id r)), (''name'', JsonString (yr_name r))] @
         opt_field ''description'' JsonString (yr_description r) @
         opt_field ''enabled'' JsonBool (yr_enabled r) @
         [(''resource'', JsonString (resource_name (yr_resource r))),
          (''action'', JsonString (action_name (yr_action r)))] @
         opt_field ''conditions'' group_json (yr_conditions r) @
         [(''decision'', JsonString (decision_name (yr_decision r)))] @
         opt_field ''message'' JsonString (yr_message r) @
         opt_field ''priority'' (\<lambda>p. JsonNumber (of_int p)) (yr_priority r))) (yb_rules parsed)))])"

fun toCanonicalJson :: "(string \<Rightarrow> string \<Rightarrow> int) \<Rightarrow> json \<Rightarrow> json" where
  "toCanonicalJson loc (JsonArray xs) = JsonArray (map (toCanonicalJson loc) xs)"
| "toCanonicalJson loc (JsonObject props) =
     JsonObject (sort_by (\<lambda>a b. loc (fst a) (fst b)) (map (\<lambda>(k, v). (k, toCanonicalJson loc v)) props))"
| "toCanonicalJson loc v = v"

section \<open>Signatures\<close>

datatype PolicyBundleSignatureErrorCode =
    MISSING_SIGNATURE | MISSING_SECRET | INVALID_SIGNATURE | UNSUPPORTED_ALGORITHM | UNSUPPORTED_PAYLOAD

record PolicyBundleSignatureVerificationOptions =
  so_signatureSecrets :: "(string, string) js_map"
  so_enforceBundleSignature :: bool

type_synonym hmac_fun = "string \<Rightarrow> json \<Rightarrow> string"

definition is_hex_digit :: "char \<Rightarrow> bool" where
  "is_hex_digit c = (c \<in> set ''0123456789abcdefABCDEF'')"

definition normalizeSignatureHex :: "string \<Rightarrow> string option" where
  "normalizeSignatureHex v =
     (let trimmed = js_trim v;
          withoutPrefix = (if take 7 trimmed = ''sha256='' then drop 7 trimmed else trimmed)
      in if length withoutPrefix = 64 \<and> list_all is_hex_digit withoutPrefix
         then Some (js_lower withoutPrefix) else None)"

definition createPolicyBundleSignature ::
    "hmac_fun \<Rightarrow> (string \<Rightarrow> string \<Rightarrow> int) \<Rightarrow> json \<Rightarrow> string \<Rightarrow> string" where
  "createPolicyBundleSignature hmac loc payload secret = hmac secret (toCanonicalJson loc payload)"

text \<open>
  The code compares the decoded bytes in constant time; a digest in hex is lower case, so this is
  equality of the normalised text with the digest.
\<close>

definition verifyPolicyBundleSignature ::
    "hmac_fun \<Rightarrow> (string \<Rightarrow> string \<Rightarrow> int) \<Rightarrow> json \<Rightarrow> string \<Rightarrow> string \<Rightarrow> bool" where
  "verifyPolicyBundleSignature hmac loc payload signatureValue secret =
     (case normalizeSignatureHex signatureValue of
        None \<Rightarrow> False
      | Some actual \<Rightarrow> createPolicyBundleSignature hmac loc payload secret = actual)"

definition assertPolicyBundleSignatureValid ::
    "hmac_fun \<Rightarrow> (string \<Rightarrow> string \<Rightarrow> int) \<Rightarrow> json \<Rightarrow> FridayPolicyBundleSignature option
     \<Rightarrow> PolicyBundleSignatureVerificationOptions \<Rightarrow> PolicyBundleSignatureErrorCode + unit" where
  "assertPolicyBundleSignatureValid hmac loc payload signature options =
     (case signature of
        None \<Rightarrow> if so_enforceBundleSignature options then Inl MISSING_SIGNATURE else Inr ()
      | Some sig \<Rightarrow>
          if sig_algorithm sig \<noteq> ''hmac-sha256'' then Inl UNSUPPORTED_ALGORITHM
          else case map_get (so_signatureSecrets options) (sig_keyId sig) of
                 None \<Rightarrow> Inl MISSING_SECRET
               | Some secret \<Rightarrow>
                   if secret = [] then Inl MISSING_SECRET
                   else if \<not> verifyPolicyBundleSignature hmac loc payload (sig_value sig) secret
                   then Inl INVALID_SIGNATURE else Inr ())"

section \<open>The manager\<close>

record bundle_manager =
  bm_cache :: "(UUID, LoadedBundle) js_map"
  bm_index :: rule_index

text \<open>The collaborators and options a manager is constructed with.\<close>

record manager_config =
  mc_hmac :: hmac_fun
  mc_loc :: "string \<Rightarrow> string \<Rightarrow> int"
  mc_regex :: regex_engine
  mc_options :: PolicyBundleSignatureVerificationOptions

datatype load_error = SignatureError PolicyBundleSignatureErrorCode | RegexError regex_failure

definition new_manager :: bundle_manager where
  "new_manager = \<lparr>bm_cache = map_empty, bm_index = empty_index\<rparr>"

definition cache_entries :: "(UUID, LoadedBundle) js_map \<Rightarrow> bundle_entry list" where
  "cache_entries cache = map (\<lambda>lb. (lb_bundle lb, lb_rules lb)) (map_values cache)"

text \<open>Prepare the new cache, rebuild the index from it, then commit both.\<close>

definition applyCacheMutation ::
    "manager_config \<Rightarrow> (UUID, LoadedBundle) js_map \<Rightarrow> bundle_manager \<Rightarrow> (load_error + unit) \<times> bundle_manager" where
  "applyCacheMutation mc nextCache m =
     (case rebuild (mc_regex mc) (mc_loc mc) (cache_entries nextCache) of
        Inl err \<Rightarrow> (Inl (RegexError err), m)
      | Inr index \<Rightarrow> (Inr (), \<lparr>bm_cache = nextCache, bm_index = index\<rparr>))"

definition store_bundle ::
    "manager_config \<Rightarrow> LoadedBundle \<Rightarrow> bundle_manager \<Rightarrow> (load_error + LoadedBundle) \<times> bundle_manager" where
  "store_bundle mc lb m =
     apfst (map_sum id (\<lambda>_. lb)) (applyCacheMutation mc (map_set (bm_cache m) (bundle_id (lb_bundle lb)) lb) m)"

definition loadDomainBundle ::
    "manager_config \<Rightarrow> FridayPolicyBundle \<Rightarrow> FridayRule list \<Rightarrow> bundle_manager
     \<Rightarrow> (load_error + LoadedBundle) \<times> bundle_manager" where
  "loadDomainBundle mc bundle rules m =
     (case assertPolicyBundleSignatureValid (mc_hmac mc) (mc_loc mc)
             (createDomainBundleSigningPayload bundle rules) (bundle_signature bundle) (mc_options mc) of
        Inl code \<Rightarrow> (Inl (SignatureError code), m)
      | Inr _ \<Rightarrow> store_bundle mc \<lparr>lb_bundle = bundle, lb_rules = rules\<rparr> m)"

definition loadParsedBundle ::
    "manager_config \<Rightarrow> load_env \<Rightarrow> FridayPolicyBundleYaml \<Rightarrow> bundle_manager
     \<Rightarrow> (load_error + LoadedBundle) \<times> bundle_manager" where
  "loadParsedBundle mc le parsed m =
     (case assertPolicyBundleSignatureValid (mc_hmac mc) (mc_loc mc)
             (createParsedBundleSigningPayload parsed) (ym_signature (yb_metadata parsed)) (mc_options mc) of
        Inl code \<Rightarrow> (Inl (SignatureError code), m)
      | Inr _ \<Rightarrow> store_bundle mc (yamlBundleToDomain le parsed) m)"

definition removeBundle :: "manager_config \<Rightarrow> UUID \<Rightarrow> bundle_manager \<Rightarrow> (load_error + bool) \<times> bundle_manager" where
  "removeBundle mc bundleId m =
     (if map_get (bm_cache m) bundleId = None then (Inr False, m)
      else apfst (map_sum id (\<lambda>_. True)) (applyCacheMutation mc (map_del (bm_cache m) bundleId) m))"

definition getBundle :: "UUID \<Rightarrow> bundle_manager \<Rightarrow> LoadedBundle option" where
  "getBundle bundleId m = map_get (bm_cache m) bundleId"

definition getAllBundles :: "bundle_manager \<Rightarrow> LoadedBundle list" where
  "getAllBundles m = map_values (bm_cache m)"

record BundleManagerStats =
  st_bundleCount :: nat
  st_ruleCount :: nat
  st_enabledBundleCount :: nat
  st_enabledRuleCount :: nat

definition getStats :: "bundle_manager \<Rightarrow> BundleManagerStats" where
  "getStats m =
     (let bs = map_values (bm_cache m); on = filter (\<lambda>lb. bundle_enabled (lb_bundle lb)) bs in
      \<lparr>st_bundleCount = length (bm_cache m),
       st_ruleCount = sum_list (map (\<lambda>lb. length (lb_rules lb)) bs),
       st_enabledBundleCount = length on,
       st_enabledRuleCount = sum_list (map (\<lambda>lb. length (filter (\<lambda>r. rule_enabled r \<and> \<not> rule_deleted r) (lb_rules lb))) on)\<rparr>)"

definition clear_bundles :: "bundle_manager \<Rightarrow> bundle_manager" where
  "clear_bundles m = \<lparr>bm_cache = map_empty, bm_index = clear_index (bm_index m)\<rparr>"

text \<open>Sequences of calls.\<close>

datatype bundle_op =
    LoadDomain FridayPolicyBundle "FridayRule list"
  | LoadParsed load_env FridayPolicyBundleYaml
  | RemoveBundle UUID
  | ClearBundles

fun bundle_exec :: "manager_config \<Rightarrow> bundle_op \<Rightarrow> bundle_manager \<Rightarrow> bundle_manager" where
  "bundle_exec mc (LoadDomain bundle rules) m = snd (loadDomainBundle mc bundle rules m)"
| "bundle_exec mc (LoadParsed le parsed) m = snd (loadParsedBundle mc le parsed m)"
| "bundle_exec mc (RemoveBundle i) m = snd (removeBundle mc i m)"
| "bundle_exec mc ClearBundles m = clear_bundles m"

section \<open>Specification vocabulary\<close>

definition signature_accepted ::
    "manager_config \<Rightarrow> json \<Rightarrow> FridayPolicyBundleSignature option \<Rightarrow> bool" where
  "signature_accepted mc payload signature =
     (case signature of
        None \<Rightarrow> \<not> so_enforceBundleSignature (mc_options mc)
      | Some sig \<Rightarrow> sig_algorithm sig = ''hmac-sha256'' \<and>
          (case map_get (so_signatureSecrets (mc_options mc)) (sig_keyId sig) of
             None \<Rightarrow> False
           | Some secret \<Rightarrow> secret \<noteq> [] \<and>
               normalizeSignatureHex (sig_value sig) = Some (mc_hmac mc secret (toCanonicalJson (mc_loc mc) payload))))"

definition manager_inv :: "manager_config \<Rightarrow> bundle_manager \<Rightarrow> bool" where
  "manager_inv mc m \<longleftrightarrow>
     map_ok (bm_cache m) \<and>
     list_all (\<lambda>(i, lb). bundle_id (lb_bundle lb) = i) (bm_cache m) \<and>
     rebuild (mc_regex mc) (mc_loc mc) (cache_entries (bm_cache m)) = Inr (bm_index m)"

section \<open>Lemmas\<close>

lemma assert_signature_iff:
  "assertPolicyBundleSignatureValid (mc_hmac mc) (mc_loc mc) payload signature (mc_options mc) = Inr () \<longleftrightarrow>
   signature_accepted mc payload signature"
  by (auto simp: assertPolicyBundleSignatureValid_def signature_accepted_def verifyPolicyBundleSignature_def
      createPolicyBundleSignature_def split: option.splits if_splits)

lemma applyCacheMutation_inv:
  assumes "manager_inv mc m" and "map_ok cache" and "list_all (\<lambda>(i, lb). bundle_id (lb_bundle lb) = i) cache"
  shows "manager_inv mc (snd (applyCacheMutation mc cache m))"
  using assms by (auto simp: applyCacheMutation_def manager_inv_def split: sum.splits)

lemma store_bundle_inv:
  assumes "manager_inv mc m"
  shows "manager_inv mc (snd (store_bundle mc lb m))"
proof -
  have "list_all (\<lambda>(i, lb). bundle_id (lb_bundle lb) = i) (map_set (bm_cache m) (bundle_id (lb_bundle lb)) lb)"
    using assms set_map_set [of "bm_cache m" "bundle_id (lb_bundle lb)" lb]
    by (fastforce simp: manager_inv_def list_all_iff)
  then show ?thesis
    using applyCacheMutation_inv [OF assms] assms by (auto simp: store_bundle_def manager_inv_def)
qed

lemma rebuild_empty: "rebuild eng loc [] = Inr empty_index"
  by (simp add: rebuild_def empty_index_def Let_def map_empty_def)

lemma bundle_exec_inv:
  assumes "manager_inv mc m"
  shows "manager_inv mc (bundle_exec mc x m)"
proof (cases x)
  case (LoadDomain b rs)
  then show ?thesis using assms store_bundle_inv by (auto simp: loadDomainBundle_def split: sum.splits)
next
  case (LoadParsed le p)
  then show ?thesis using assms store_bundle_inv by (auto simp: loadParsedBundle_def split: sum.splits)
next
  case (RemoveBundle i)
  have "list_all (\<lambda>(i, lb). bundle_id (lb_bundle lb) = i) (map_del (bm_cache m) i)" for i
    using assms set_map_del [of "bm_cache m" i] by (auto simp: manager_inv_def list_all_iff dest!: subsetD)
  then show ?thesis
    using RemoveBundle assms applyCacheMutation_inv [OF assms, of "map_del (bm_cache m) i"]
    by (auto simp: removeBundle_def manager_inv_def)
next
  case ClearBundles
  then show ?thesis
    by (simp add: clear_bundles_def clear_index_def manager_inv_def cache_entries_def map_values_def
        map_empty_def map_ok_def map_keys_def rebuild_empty)
qed

lemma manager_run_inv: "manager_inv mc (fold (bundle_exec mc) ops new_manager)"
proof -
  have start: "manager_inv mc new_manager"
    by (simp add: new_manager_def manager_inv_def cache_entries_def map_values_def map_empty_def
        map_ok_def map_keys_def rebuild_empty)
  have "manager_inv mc m \<Longrightarrow> manager_inv mc (fold (bundle_exec mc) ops m)" for m
    by (induction ops arbitrary: m) (simp_all add: bundle_exec_inv del: bundle_exec.simps)
  from this [OF start] show ?thesis .
qed

lemma active_count:
  "length (active_rules (cache_entries cache)) =
     sum_list (map (\<lambda>lb. length (filter (\<lambda>r. rule_enabled r \<and> \<not> rule_deleted r) (lb_rules lb)))
       (filter (\<lambda>lb. bundle_enabled (lb_bundle lb)) (map_values cache)))"
proof -
  have "length (active_rules (map (\<lambda>lb. (lb_bundle lb, lb_rules lb)) bs)) =
      sum_list (map (\<lambda>lb. length (filter (\<lambda>r. rule_enabled r \<and> \<not> rule_deleted r) (lb_rules lb)))
       (filter (\<lambda>lb. bundle_enabled (lb_bundle lb)) bs))" for bs :: "LoadedBundle list"
    by (induction bs) (auto simp: rule_active_def [abs_def])
  then show ?thesis by (simp add: cache_entries_def)
qed

lemma load_outcome:
  "case store_bundle mc lb m of
     (Inl _, m') \<Rightarrow> m' = m
   | (Inr lb', m') \<Rightarrow> lb' = lb \<and> getBundle (bundle_id (lb_bundle lb)) m' = Some lb \<and>
       (\<forall>i. i = bundle_id (lb_bundle lb) \<or> getBundle i m' = getBundle i m)"
  by (auto simp: store_bundle_def applyCacheMutation_def getBundle_def split: sum.splits)

section \<open>Properties\<close>

text \<open>
  Index and cache never get out of step: after any sequence of loads, removals and clears,
  failed ones included, the index is what rebuilding from the cached bundles gives, every bundle is
  cached under its own id, and the number of indexed rules equals the enabled-rule statistic.
\<close>

theorem manager_run_invariant:
  "let m = fold (bundle_exec mc) ops new_manager in
   rebuild (mc_regex mc) (mc_loc mc) (cache_entries (bm_cache m)) = Inr (bm_index m) \<and>
   list_all (\<lambda>(i, lb). bundle_id (lb_bundle lb) = i) (bm_cache m) \<and>
   index_size (bm_index m) = st_enabledRuleCount (getStats m)"
proof -
  let ?m = "fold (bundle_exec mc) ops new_manager"
  have inv: "manager_inv mc ?m" by (rule manager_run_inv)
  then have r: "rebuild (mc_regex mc) (mc_loc mc) (cache_entries (bm_cache ?m)) = Inr (bm_index ?m)"
    by (simp add: manager_inv_def)
  with inv show ?thesis
    by (simp add: Let_def manager_inv_def rebuild_find(4) [OF r] active_count getStats_def)
qed

text \<open>
  A bundle is only ever installed with an acceptable signature: absent where signatures are
  not enforced, otherwise an HMAC-SHA256 signature under a configured key whose value is the
  keyed hash of the canonical payload of the bundle and its rules. A successful load makes exactly
  that bundle current; a failed load changes nothing.
\<close>

theorem bundle_load_verified:
  "case loadDomainBundle mc bundle rules m of
     (Inl _, m') \<Rightarrow> m' = m
   | (Inr lb, m') \<Rightarrow>
       signature_accepted mc (createDomainBundleSigningPayload bundle rules) (bundle_signature bundle) \<and>
       lb = \<lparr>lb_bundle = bundle, lb_rules = rules\<rparr> \<and> getBundle (bundle_id bundle) m' = Some lb \<and>
       (\<forall>i. i = bundle_id bundle \<or> getBundle i m' = getBundle i m)"
proof (cases "assertPolicyBundleSignatureValid (mc_hmac mc) (mc_loc mc)
    (createDomainBundleSigningPayload bundle rules) (bundle_signature bundle) (mc_options mc)")
  case (Inl code)
  then show ?thesis by (simp add: loadDomainBundle_def)
next
  case (Inr u)
  then have "signature_accepted mc (createDomainBundleSigningPayload bundle rules) (bundle_signature bundle)"
    using assert_signature_iff [of mc "createDomainBundleSigningPayload bundle rules" "bundle_signature bundle"] by simp
  with Inr load_outcome [where mc = mc and m = m and lb = "\<lparr>lb_bundle = bundle, lb_rules = rules\<rparr>"] show ?thesis
    by (auto simp: loadDomainBundle_def split: sum.splits prod.splits)
qed

end
