(* ===== verification/Context_Redactor.thy ===== *)
theory Context_Redactor
  imports Rule_Conditions
begin

text \<open>
  Redaction of evaluation contexts before they reach the audit log,
  src/src/rules/engine/context-redactor.ts. String lengths count bytes, which agrees with the code
  on ASCII text. A property named \<open>__proto__\<close> does not survive: assigning it on the result object
  sets the prototype.
\<close>

definition DEFAULT_SENSITIVE_KEYS :: "string list" where
  "DEFAULT_SENSITIVE_KEYS =
     [''password'', ''passphrase'', ''secret'', ''token'', ''authorization'', ''cookie'', ''api_key'',
      ''apikey'', ''credential'']"

definition DEFAULT_REDACTED_VALUE :: string where
  "DEFAULT_REDACTED_VALUE = ''[REDACTED]''"

definition DEFAULT_MAX_STRING_LENGTH :: nat where
  "DEFAULT_MAX_STRING_LENGTH = 256"

text \<open>
  The default pattern \<open>/^.*(password|...|api[_-]?key|credential).*$/i\<close>: one of the words occurs,
  ignoring case, in a key without line terminators (\<open>.\<close> does not match them).
\<close>

definition line_terminators :: "string list" where
  "line_terminators = [[CHR 0x0A], [CHR 0x0D], [CHR 0xE2, CHR 0x80, CHR 0xA8], [CHR 0xE2, CHR 0x80, CHR 0xA9]]"

definition DEFAULT_SENSITIVE_KEY_PATTERN :: "string \<Rightarrow> bool" where
  "DEFAULT_SENSITIVE_KEY_PATTERN key =
     (list_ex (str_includes (js_lower key))
        [''password'', ''passphrase'', ''secret'', ''token'', ''authorization'', ''cookie'', ''apikey'',
         ''api_key'', ''api-key'', ''credential''] \<and>
      \<not> list_ex (str_includes key) line_terminators)"

record NormalizedRedactionRules =
  nr_sensitiveKeys :: "string list"
  nr_sensitiveKeyPatterns :: "(string \<Rightarrow> bool) list"
  nr_sensitivePaths :: "string list"
  nr_replacement :: string
  nr_maxStringLength :: nat

record RedactionResult =
  rd_redacted :: "(string \<times> json) list"
  rd_redactionApplied :: bool
  rd_redactedFields :: "string list"

fun compile_key_patterns :: "regex_engine \<Rightarrow> string list \<Rightarrow> regex_failure + (string \<Rightarrow> bool) list" where
  "compile_key_patterns eng [] = Inr []"
| "compile_key_patterns eng (p # ps) =
     (case compile_pattern eng p ''i'' of
        Inl err \<Rightarrow> Inl err
      | Inr rx \<Rightarrow>
          map_sum id (\<lambda>fs. re_test eng (rx_source rx) (rx_flags rx) # fs) (compile_key_patterns eng ps))"

definition normalizeRedactionRules ::
    "regex_engine \<Rightarrow> ContextRedactionRules option \<Rightarrow> regex_failure + NormalizedRedactionRules" where
  "normalizeRedactionRules eng rules =
     (let keys = map js_lower DEFAULT_SENSITIVE_KEYS @
            map js_lower (case_option [] (\<lambda>r. case_option [] id (rr_sensitiveKeys r)) rules)
      in case compile_key_patterns eng (case_option [] (\<lambda>r. case_option [] id (rr_sensitiveKeyPatterns r)) rules) of
           Inl err \<Rightarrow> Inl err
         | Inr patterns \<Rightarrow>
             Inr \<lparr>nr_sensitiveKeys = keys,
                  nr_sensitiveKeyPatterns = DEFAULT_SENSITIVE_KEY_PATTERN # patterns,
                  nr_sensitivePaths = case_option [] (\<lambda>r. case_option [] id (rr_sensitivePaths r)) rules,
                  nr_replacement = case_option DEFAULT_REDACTED_VALUE
                    (\<lambda>r. case_option DEFAULT_REDACTED_VALUE id (rr_replacement r)) rules,
                  nr_maxStringLength =
                    (case rules of None \<Rightarrow> DEFAULT_MAX_STRING_LENGTH
                     | Some r \<Rightarrow> (case rr_maxStringLength r of None \<Rightarrow> DEFAULT_MAX_STRING_LENGTH
                        | Some m \<Rightarrow> if m = of_int \<lfloor>m\<rfloor> \<and> m \<ge> 0 then nat \<lfloor>m\<rfloor> else DEFAULT_MAX_STRING_LENGTH))\<rparr>)"

definition shouldRedact :: "string \<Rightarrow> string \<Rightarrow> NormalizedRedactionRules \<Rightarrow> bool" where
  "shouldRedact path key rules =
     (path \<in> set (nr_sensitivePaths rules) \<or>
      js_lower key \<in> set (nr_sensitiveKeys rules) \<or>
      list_ex (\<lambda>pattern. pattern key) (nr_sensitiveKeyPatterns rules))"

definition recordRedactedField :: "string list \<Rightarrow> string \<Rightarrow> string list" where
  "recordRedactedField redactedFields path =
     (if path \<in> set redactedFields then redactedFields else redactedFields @ [path])"

definition child_path :: "string \<Rightarrow> string \<Rightarrow> string" where
  "child_path prefix key = (if prefix \<noteq> [] then prefix @ ''.'' @ key else key)"

definition item_path :: "string \<Rightarrow> nat \<Rightarrow> string" where
  "item_path path i = path @ ''['' @ show_nat i @ '']''"

definition set_property :: "string \<Rightarrow> json \<Rightarrow> (string \<times> json) list \<Rightarrow> (string \<times> json) list" where
  "set_property key v props = (if key = ''__proto__'' then props else (key, v) # props)"

text \<open>
  \<open>redactObject\<close>, \<open>redactValue\<close> and the array loop of \<open>redactValue\<close>; the list of redacted paths
  is threaded through. Properties are visited in order, so building the result from the right
  keeps them in order.
\<close>

fun redactObject ::
      "NormalizedRedactionRules \<Rightarrow> (string \<times> json) list \<Rightarrow> string \<Rightarrow> string list
       \<Rightarrow> (string \<times> json) list \<times> string list"
  and redactValue :: "NormalizedRedactionRules \<Rightarrow> json \<Rightarrow> string \<Rightarrow> string list \<Rightarrow> json \<times> string list"
  and redactItems :: "NormalizedRedactionRules \<Rightarrow> json list \<Rightarrow> nat \<Rightarrow> string \<Rightarrow> string list \<Rightarrow> json list \<times> string list" where
  "redactObject rules [] prefix acc = ([], acc)"
| "redactObject rules ((key, v) # props) prefix acc =
     (let path = child_path prefix key in
      if shouldRedact path key rules
      then let r = redactObject rules props prefix (recordRedactedField acc path)
           in (set_property key (JsonString (nr_replacement rules)) (fst r), snd r)
      else let x = redactValue rules v path acc;
               r = redactObject rules props prefix (snd x)
           in (set_property key (fst x) (fst r), snd r))"
| "redactValue rules v path acc =
     (if path \<in> set (nr_sensitivePaths rules)
      then (JsonString (nr_replacement rules), recordRedactedField acc path)
      else case v of
             JsonNull \<Rightarrow> (JsonNull, acc)
           | JsonString s \<Rightarrow>
               (JsonString (if length s > nr_maxStringLength rules
                  then take (nr_maxStringLength rules) s @ [CHR 0xE2, CHR 0x80, CHR 0xA6] else s), acc)
           | JsonNumber n \<Rightarrow> (JsonNumber n, acc)
           | JsonBool b \<Rightarrow> (JsonBool b, acc)
           | JsonArray xs \<Rightarrow> apfst JsonArray (redactItems rules xs 0 path acc)
           | JsonObject props \<Rightarrow> apfst JsonObject (redactObject rules props path acc))"
| "redactItems rules [] i path acc = ([], acc)"
| "redactItems rules (x # xs) i path acc =
     (let y = redactValue rules x (item_path path i) acc;
          ys = redactItems rules xs (Suc i) path (snd y)
      in (fst y # fst ys, snd ys))"

definition redactContext ::
    "regex_engine \<Rightarrow> (string \<times> json) list \<Rightarrow> ContextRedactionRules option \<Rightarrow> regex_failure + RedactionResult" where
  "redactContext eng context rules =
     (case normalizeRedactionRules eng rules of
        Inl err \<Rightarrow> Inl err
      | Inr normalized \<Rightarrow>
          (let r = redactObject normalized context [] []
           in Inr \<lparr>rd_redacted = fst r, rd_redactionApplied = length (snd r) > 0, rd_redactedFields = snd r\<rparr>))"

section \<open>Specification vocabulary\<close>

text \<open>No sensitive value is left: every property that should be redacted holds the replacement.\<close>

fun clean_object :: "NormalizedRedactionRules \<Rightarrow> (string \<times> json) list \<Rightarrow> string \<Rightarrow> bool"
  and clean_value :: "NormalizedRedactionRules \<Rightarrow> json \<Rightarrow> string \<Rightarrow> bool"
  and clean_items :: "NormalizedRedactionRules \<Rightarrow> json list \<Rightarrow> nat \<Rightarrow> string \<Rightarrow> bool" where
  "clean_object rules [] prefix = True"
| "clean_object rules ((key, v) # props) prefix =
     ((if shouldRedact (child_path prefix key) key rules then v = JsonString (nr_replacement rules)
       else clean_value rules v (child_path prefix key)) \<and> clean_object rules props prefix)"
| "clean_value rules v path =
     (if path \<in> set (nr_sensitivePaths rules) then v = JsonString (nr_replacement rules)
      else case v of
             JsonString s \<Rightarrow> length s \<le> nr_maxStringLength rules + 3
           | JsonArray xs \<Rightarrow> clean_items rules xs 0 path
           | JsonObject props \<Rightarrow> clean_object rules props path
           | _ \<Rightarrow> True)"
| "clean_items rules [] i path = True"
| "clean_items rules (x # xs) i path = (clean_value rules x (item_path path i) \<and> clean_items rules xs (Suc i) path)"

section \<open>Lemmas\<close>

lemma clean_set_property:
  "clean_object rules props prefix \<Longrightarrow>
   (if shouldRedact (child_path prefix key) key rules then v = JsonString (nr_replacement rules)
    else clean_value rules v (child_path prefix key)) \<Longrightarrow>
   clean_object rules (set_property key v props) prefix"
  by (simp add: set_property_def del: clean_value.simps)

lemma redact_clean:
  "clean_object rules (fst (redactObject rules props prefix acc)) prefix"
  "clean_value rules (fst (redactValue rules v path acc)) path"
  "clean_items rules (fst (redactItems rules xs i path acc)) i path"
proof (induction rules props prefix acc and rules v path acc and rules xs i path acc
    rule: redactObject_redactValue_redactItems.induct)
  case (2 rules key v props prefix acc)
  show ?case
  proof (cases "shouldRedact (child_path prefix key) key rules")
    case True
    with "2.IH"(1) [OF refl True] show ?thesis
      by (simp add: Let_def clean_set_property del: redactValue.simps)
  next
    case False
    with "2.IH"(2,3) [OF refl False] show ?thesis
      by (simp add: Let_def clean_set_property del: redactValue.simps clean_value.simps)
  qed
next
  case (3 rules v path acc)
  then show ?case by (cases v) auto
next
  case (5 rules x xs i path acc)
  from "5.IH"(1) "5.IH"(2) [OF refl] show ?case
    by (simp add: Let_def del: redactValue.simps clean_value.simps)
qed simp_all

lemma default_keys_sensitive:
  "normalizeRedactionRules eng rules = Inr n \<Longrightarrow> js_lower key \<in> js_lower ` set DEFAULT_SENSITIVE_KEYS \<Longrightarrow>
   shouldRedact path key n"
  by (auto simp: normalizeRedactionRules_def shouldRedact_def Let_def split: sum.splits)

section \<open>Properties\<close>

text \<open>
  C29. Redaction is complete: in the redacted context every property, at any depth and inside
  arrays, whose key or path is sensitive holds the replacement text and nothing else, and strings
  are cut to the maximal length (plus the ellipsis); the built-in sensitive keys stay sensitive
  whatever rules are configured. Only an unusable configured key pattern makes it fail.
\<close>

theorem redaction_complete:
  "case redactContext eng context rules of
     Inl err \<Rightarrow> normalizeRedactionRules eng rules = Inl err
   | Inr r \<Rightarrow> \<exists>n. normalizeRedactionRules eng rules = Inr n \<and> clean_object n (rd_redacted r) [] \<and>
       (\<forall>path. list_all (\<lambda>key. shouldRedact path key n) DEFAULT_SENSITIVE_KEYS)"
  using redact_clean(1) default_keys_sensitive [of eng rules]
  by (auto simp: redactContext_def Let_def list_all_iff split: sum.splits)

end
