(* ===== verification/Rule_Engine.thy ===== *)
theory Rule_Engine
  imports Policy_Bundles Context_Redactor
begin

text \<open>
  The rule engine, src/src/rules/engine/rule-engine.ts: evaluation of a context against the loaded
  bundles, the decision, hooks, the transition trace and the audit trail. Fresh identifiers, clock
  readings and durations of one evaluation are the record \<open>eval_env\<close>; the audit sink reports
  whether it threw; a hook reports whether it threw and may modify the context and the result it
  is given. Observers of transitions cannot influence anything and are left out. An evaluation
  fails only when a configured redaction pattern cannot be compiled.
\<close>

section \<open>State\<close>

datatype FridayRuleHookPhase = PreHook | PostHook

record FridayRuleHookRegistration =
  hk_source :: FridayEvaluationSource
  hk_phase :: FridayRuleHookPhase
  hk_handler :: "FridayEvaluationContext \<Rightarrow> FridayEvaluationResult option
    \<Rightarrow> bool \<times> FridayEvaluationContext \<times> FridayEvaluationResult option"

record AuditLogEntry =
  al_evaluationId :: UUID
  al_auditReferenceId :: UUID
  al_actor :: string
  al_decision :: FridayRuleDecision
  al_resource :: FridayRuleResource
  al_action :: FridayRuleAction
  al_contextRedacted :: RedactionResult
  al_matchedRules :: "FridayMatchedRule list"
  al_matchedRuleIds :: "UUID list"
  al_durationMs :: rat
  al_runId :: "string option"
  al_workflowId :: "string option"
  al_principalId :: "string option"
  al_evaluatedAt :: ISODateTime

record rule_engine =
  re_manager :: bundle_manager
  re_hooks :: "FridayRuleHookRegistration list"
  re_auditTrail :: "AuditLogEntry list"

record engine_config =
  ec_manager :: manager_config
  ec_defaultDecision :: FridayRuleDecision
  ec_auditLogSink :: "(AuditLogEntry \<Rightarrow> bool) option"
  ec_redactionRules :: "ContextRedactionRules option"

record eval_env =
  ve_evaluationId :: UUID
  ve_auditReferenceId :: UUID
  ve_durationMs :: rat
  ve_evaluatedAt :: ISODateTime
  ve_at :: "nat \<Rightarrow> ISODateTime"

definition new_engine :: rule_engine where
  "new_engine = \<lparr>re_manager = new_manager, re_hooks = [], re_auditTrail = []\<rparr>"

definition REQUIRED_EVALUATION_SCOPE :: string where
  "REQUIRED_EVALUATION_SCOPE = ''rules:evaluate''"

section \<open>Decisions\<close>

definition toMatchedRule :: "CompiledRule \<Rightarrow> FridayMatchedRule" where
  "toMatchedRule compiled =
     \<lparr>mr_ruleId = rule_id (cr_rule compiled), mr_ruleName = rule_name (cr_rule compiled),
      mr_policyBundleId = rule_policyBundleId (cr_rule compiled), mr_decision = rule_decision (cr_rule compiled),
      mr_message = rule_message (cr_rule compiled), mr_priority = cr_effectivePriority compiled\<rparr>"

definition decision_index :: "FridayRuleDecision \<Rightarrow> nat" where
  "decision_index d = (case find_index (\<lambda>x. x = d) FRIDAY_RULE_DECISION_PRIORITY of Some i \<Rightarrow> i | None \<Rightarrow> 0)"

fun decision_loop :: "FridayMatchedRule list \<Rightarrow> FridayRuleDecision \<Rightarrow> nat \<Rightarrow> FridayRuleDecision" where
  "decision_loop [] winningDecision winningIndex = winningDecision"
| "decision_loop (rule # rules) winningDecision winningIndex =
     (let index = decision_index (mr_decision rule) in
      if index < winningIndex then decision_loop rules (mr_decision rule) index
      else decision_loop rules winningDecision winningIndex)"

definition computeFinalDecision :: "FridayMatchedRule list \<Rightarrow> FridayRuleDecision \<Rightarrow> FridayRuleDecision" where
  "computeFinalDecision matchedRules defaultDecision =
     (if length matchedRules = 0 then defaultDecision
      else decision_loop matchedRules defaultDecision (length FRIDAY_RULE_DECISION_PRIORITY))"

definition has_message :: "FridayMatchedRule \<Rightarrow> bool" where
  "has_message r = (case mr_message r of None \<Rightarrow> False | Some m \<Rightarrow> m \<noteq> [])"

definition findDecisionMessage :: "FridayMatchedRule list \<Rightarrow> FridayRuleDecision \<Rightarrow> string option" where
  "findDecisionMessage matchedRules decision =
     (case List.find (\<lambda>r. mr_decision r = decision \<and> has_message r) matchedRules of
        None \<Rightarrow> None | Some r \<Rightarrow> mr_message r)"

definition resolveActor :: "FridayEvaluationContext \<Rightarrow> string" where
  "resolveActor c =
     (case or_else (ev_principalId c) (or_else (ev_runId c) (or_else (ev_workflowId c)
             (or_else (ev_workflowRunId c) (ev_sessionId c)))) of
        None \<Rightarrow> ''unknown'' | Some a \<Rightarrow> a)"

definition hasRequiredScope :: "FridayEvaluationContext \<Rightarrow> bool" where
  "hasRequiredScope c = (case ev_scopes c of None \<Rightarrow> False | Some s \<Rightarrow> REQUIRED_EVALUATION_SCOPE \<in> set s)"

section \<open>Transition trace and audit\<close>

type_synonym transition_step = "FridayEvaluationTransitionState \<times> FridayEvaluationTransitionReason option"

fun trace_of :: "(nat \<Rightarrow> ISODateTime) \<Rightarrow> nat \<Rightarrow> FridayEvaluationTransitionState \<Rightarrow> transition_step list
    \<Rightarrow> FridayEvaluationTransition list" where
  "trace_of at_time i currentState [] = []"
| "trace_of at_time i currentState ((state, reason) # steps) =
     \<lparr>tr_from = currentState, tr_to = state, tr_at = at_time i, tr_reason = reason\<rparr>
     # trace_of at_time (Suc i) state steps"

definition finalizeEvaluationResult ::
    "eval_env \<Rightarrow> bool \<Rightarrow> transition_step list \<Rightarrow> FridayEvaluationResult \<Rightarrow> FridayEvaluationResult" where
  "finalizeEvaluationResult env includeTransitionTrace steps result =
     (if includeTransitionTrace
      then result\<lparr>res_transitionTrace := Some (trace_of (ve_at env) 0 T_Init steps)\<rparr> else result)"

definition audit_entry ::
    "FridayEvaluationResult \<Rightarrow> FridayEvaluationContext \<Rightarrow> UUID \<Rightarrow> RedactionResult \<Rightarrow> AuditLogEntry" where
  "audit_entry result c auditReferenceId redacted =
     \<lparr>al_evaluationId = res_evaluationId result, al_auditReferenceId = auditReferenceId,
      al_actor = resolveActor c, al_decision = res_decision result, al_resource = ev_resource c,
      al_action = ev_action c, al_contextRedacted = redacted, al_matchedRules = res_matchedRules result,
      al_matchedRuleIds = map mr_ruleId (res_matchedRules result), al_durationMs = res_durationMs result,
      al_runId = ev_runId c, al_workflowId = ev_workflowId c, al_principalId = ev_principalId c,
      al_evaluatedAt = res_evaluatedAt result\<rparr>"

definition emitAuditEntry ::
    "engine_config \<Rightarrow> FridayEvaluationResult \<Rightarrow> FridayEvaluationContext \<Rightarrow> UUID \<Rightarrow> rule_engine
     \<Rightarrow> (regex_failure + bool) \<times> rule_engine" where
  "emitAuditEntry cfg result c auditReferenceId e =
     (case redactContext (mc_regex (ec_manager cfg)) (ev_args c) (ec_redactionRules cfg) of
        Inl err \<Rightarrow> (Inl err, e)
      | Inr redacted \<Rightarrow>
          (let entry = audit_entry result c auditReferenceId redacted
           in (Inr (case ec_auditLogSink cfg of None \<Rightarrow> True | Some sink \<Rightarrow> sink entry),
               e\<lparr>re_auditTrail := re_auditTrail e @ [entry]\<rparr>)))"

text \<open>Emit the audit entry of a result; a sink that throws only shows in the trace.\<close>

definition audit_result ::
    "engine_config \<Rightarrow> eval_env \<Rightarrow> FridayEvaluationResult \<Rightarrow> FridayEvaluationContext \<Rightarrow> transition_step list \<Rightarrow> rule_engine
     \<Rightarrow> (regex_failure + FridayEvaluationResult \<times> transition_step list) \<times> rule_engine" where
  "audit_result cfg env result c steps e =
     (case emitAuditEntry cfg result c (ve_auditReferenceId env) e of
        (Inl err, e') \<Rightarrow> (Inl err, e')
      | (Inr auditSucceeded, e') \<Rightarrow>
          (Inr (result, steps @ [(T_Audit, None)] @
             (if auditSucceeded then [] else [(T_Rollback, Some Audit_Sink_Failure)])), e'))"

definition attachRuleDenyError :: "FridayEvaluationResult \<Rightarrow> UUID \<Rightarrow> FridayEvaluationResult" where
  "attachRuleDenyError result auditReferenceId =
     (if res_decision result \<noteq> Deny then result
      else result\<lparr>res_error := Some \<lparr>ee_code = Rule_Denied,
             ee_message = case_option ''Denied by policy'' id (res_message result),
             ee_auditReferenceId = auditReferenceId\<rparr>\<rparr>)"

section \<open>Evaluation\<close>

definition filter_candidates :: "FridayEvaluationContext \<Rightarrow> CompiledRule list \<Rightarrow> CompiledRule list" where
  "filter_candidates c candidates =
     (case ev_policyBundleIds c of
        None \<Rightarrow> candidates
      | Some ids \<Rightarrow> if ids = [] then candidates
          else filter (\<lambda>x. bundle_id (cr_bundle x) \<in> set ids) candidates)"

definition matched_rules :: "engine_config \<Rightarrow> FridayEvaluationContext \<Rightarrow> rule_engine \<Rightarrow> FridayMatchedRule list" where
  "matched_rules cfg c e =
     map toMatchedRule
       (filter (\<lambda>compiled. evaluateConditionGroup (mc_regex (ec_manager cfg)) c (rule_conditions (cr_rule compiled)))
         (filter_candidates c (findRulesSnapshot (bm_index (re_manager e)) (ev_resource c) (ev_action c))))"

definition evaluateCore ::
    "engine_config \<Rightarrow> eval_env \<Rightarrow> FridayEvaluationContext \<Rightarrow> rule_engine
     \<Rightarrow> (regex_failure + FridayEvaluationResult \<times> transition_step list) \<times> rule_engine" where
  "evaluateCore cfg env c e =
     (let matchedRules = matched_rules cfg c e;
          decision = computeFinalDecision matchedRules (ec_defaultDecision cfg);
          message = findDecisionMessage matchedRules decision;
          result = attachRuleDenyError
            \<lparr>res_evaluationId = ve_evaluationId env, res_decision = decision, res_matchedRules = matchedRules,
             res_message = message, res_durationMs = ve_durationMs env, res_allowed = (decision \<noteq> Deny),
             res_evaluatedAt = ve_evaluatedAt env, res_error = None, res_transitionTrace = None\<rparr>
            (ve_auditReferenceId env)
      in audit_result cfg env result c [(T_Match, None), (T_Decide, None)] e)"

definition evaluateInsufficientScope ::
    "engine_config \<Rightarrow> eval_env \<Rightarrow> FridayEvaluationContext \<Rightarrow> rule_engine
     \<Rightarrow> (regex_failure + FridayEvaluationResult \<times> transition_step list) \<times> rule_engine" where
  "evaluateInsufficientScope cfg env c e =
     (let message = ''Missing required scope: '' @ REQUIRED_EVALUATION_SCOPE;
          result = \<lparr>res_evaluationId = ve_evaluationId env, res_decision = Deny, res_matchedRules = [],
             res_message = Some message, res_durationMs = ve_durationMs env, res_allowed = False,
             res_evaluatedAt = ve_evaluatedAt env,
             res_error = Some \<lparr>ee_code = Insufficient_Scope, ee_message = message,
               ee_auditReferenceId = ve_auditReferenceId env\<rparr>, res_transitionTrace = None\<rparr>
      in audit_result cfg env result c [(T_Decide, None)] e)"

definition finish_evaluation ::
    "eval_env \<Rightarrow> bool \<Rightarrow> (regex_failure + FridayEvaluationResult \<times> transition_step list) \<times> rule_engine
     \<Rightarrow> (regex_failure + FridayEvaluationResult) \<times> rule_engine" where
  "finish_evaluation env includeTrace r =
     apfst (map_sum id (\<lambda>(result, steps). finalizeEvaluationResult env includeTrace (steps @ [(T_Done, None)]) result)) r"

definition evaluate ::
    "engine_config \<Rightarrow> eval_env \<Rightarrow> bool \<Rightarrow> FridayEvaluationContext \<Rightarrow> rule_engine
     \<Rightarrow> (regex_failure + FridayEvaluationResult) \<times> rule_engine" where
  "evaluate cfg env includeTrace c e =
     finish_evaluation env includeTrace
       (if hasRequiredScope c then evaluateCore cfg env c e else evaluateInsufficientScope cfg env c e)"

section \<open>Hooks\<close>

fun runHooks ::
    "FridayRuleHookPhase \<Rightarrow> FridayEvaluationSource \<Rightarrow> FridayRuleHookRegistration list
     \<Rightarrow> FridayEvaluationContext \<Rightarrow> FridayEvaluationResult option
     \<Rightarrow> bool \<times> FridayEvaluationContext \<times> FridayEvaluationResult option" where
  "runHooks phase source [] c result = (True, c, result)"
| "runHooks phase source (hook # hooks) c result =
     (if hk_phase hook = phase \<and> hk_source hook = source
      then case hk_handler hook c result of
             (ok, c', result') \<Rightarrow>
               (case runHooks phase source hooks c' result' of (oks, x) \<Rightarrow> (ok \<and> oks, x))
      else runHooks phase source hooks c result)"

definition evaluateWithHooks ::
    "engine_config \<Rightarrow> eval_env \<Rightarrow> bool \<Rightarrow> FridayEvaluationContext \<Rightarrow> rule_engine
     \<Rightarrow> (regex_failure + FridayEvaluationResult) \<times> rule_engine" where
  "evaluateWithHooks cfg env includeTrace c e =
     (if \<not> hasRequiredScope c
      then finish_evaluation env includeTrace (evaluateInsufficientScope cfg env c e)
      else case runHooks PreHook (ev_source c) (re_hooks e) c None of
             (preOk, c', _) \<Rightarrow>
               (case evaluateCore cfg env c' e of
                  (Inl err, e') \<Rightarrow> (Inl err, e')
                | (Inr (result, steps), e') \<Rightarrow>
                    (case runHooks PostHook (ev_source c') (re_hooks e) c' (Some result) of
                       (postOk, _, result') \<Rightarrow>
                         finish_evaluation env includeTrace
                           (Inr (case_option result id result',
                              (if preOk then [] else [(T_Rollback, Some Pre_Hook_Failure)]) @ steps @
                              (if postOk then [] else [(T_Rollback, Some Post_Hook_Failure)])), e'))))"

definition registerPreHook where
  "registerPreHook source handler e =
     e\<lparr>re_hooks := re_hooks e @ [\<lparr>hk_source = source, hk_phase = PreHook, hk_handler = handler\<rparr>]\<rparr>"

definition registerPostHook where
  "registerPostHook source handler e =
     e\<lparr>re_hooks := re_hooks e @ [\<lparr>hk_source = source, hk_phase = PostHook, hk_handler = handler\<rparr>]\<rparr>"

definition removeHooks :: "FridayEvaluationSource \<Rightarrow> rule_engine \<Rightarrow> rule_engine" where
  "removeHooks source e = e\<lparr>re_hooks := filter (\<lambda>h. hk_source h \<noteq> source) (re_hooks e)\<rparr>"

definition engine_load ::
    "engine_config \<Rightarrow> FridayPolicyBundle \<Rightarrow> FridayRule list \<Rightarrow> rule_engine \<Rightarrow> (load_error + LoadedBundle) \<times> rule_engine" where
  "engine_load cfg b rules e =
     (case loadDomainBundle (ec_manager cfg) b rules (re_manager e) of (r, m) \<Rightarrow> (r, e\<lparr>re_manager := m\<rparr>))"

definition engine_load_parsed ::
    "engine_config \<Rightarrow> load_env \<Rightarrow> FridayPolicyBundleYaml \<Rightarrow> rule_engine \<Rightarrow> (load_error + LoadedBundle) \<times> rule_engine" where
  "engine_load_parsed cfg le parsed e =
     (case loadParsedBundle (ec_manager cfg) le parsed (re_manager e) of (r, m) \<Rightarrow> (r, e\<lparr>re_manager := m\<rparr>))"

definition removePolicyBundle :: "engine_config \<Rightarrow> UUID \<Rightarrow> rule_engine \<Rightarrow> (load_error + bool) \<times> rule_engine" where
  "removePolicyBundle cfg bundleId e =
     (case removeBundle (ec_manager cfg) bundleId (re_manager e) of (r, m) \<Rightarrow> (r, e\<lparr>re_manager := m\<rparr>))"

definition clear_engine :: "rule_engine \<Rightarrow> rule_engine" where
  "clear_engine e = \<lparr>re_manager = clear_bundles (re_manager e), re_hooks = [], re_auditTrail = []\<rparr>"

section \<open>Specification vocabulary\<close>

text \<open>The rules that bear on a context: loaded, enabled, of its resource and action, in one of the
  requested bundles (if the context names any) and with conditions that hold.\<close>

definition applicable_rules ::
    "engine_config \<Rightarrow> FridayEvaluationContext \<Rightarrow> bundle_manager \<Rightarrow> (FridayPolicyBundle \<times> FridayRule) list" where
  "applicable_rules cfg c m =
     filter (\<lambda>(b, r). rule_resource r = ev_resource c \<and> rule_action r = ev_action c \<and>
         (case_option [] id (ev_policyBundleIds c) = [] \<or> bundle_id b \<in> set (case_option [] id (ev_policyBundleIds c))) \<and>
         evaluateConditionGroup (mc_regex (ec_manager cfg)) c (rule_conditions r))
       (active_rules (cache_entries (bm_cache m)))"

definition strongest :: "FridayRuleDecision list \<Rightarrow> FridayRuleDecision" where
  "strongest ds = (if Deny \<in> set ds then Deny else if Warn \<in> set ds then Warn
     else if Audit \<in> set ds then Audit else Allow)"

definition final_decision :: "engine_config \<Rightarrow> FridayEvaluationContext \<Rightarrow> bundle_manager \<Rightarrow> FridayRuleDecision" where
  "final_decision cfg c m =
     (let rs = applicable_rules cfg c m in
      if rs = [] then ec_defaultDecision cfg else strongest (map (rule_decision \<circ> snd) rs))"

text \<open>Hooks that leave the context and the result as they are, whether or not they throw.\<close>

definition passive_hooks :: "FridayRuleHookRegistration list \<Rightarrow> bool" where
  "passive_hooks hooks \<longleftrightarrow> (\<forall>h\<in>set hooks. \<forall>c r. snd (hk_handler h c r) = (c, r))"

definition sample_engine_config :: engine_config where
  "sample_engine_config =
     \<lparr>ec_manager = \<lparr>mc_hmac = \<lambda>s p. s, mc_loc = \<lambda>a b. 0, mc_regex = sample_regex,
        mc_options = \<lparr>so_signatureSecrets = [], so_enforceBundleSignature = False\<rparr>\<rparr>,
      ec_defaultDecision = Allow, ec_auditLogSink = None, ec_redactionRules = None\<rparr>"

definition sample_eval_env :: eval_env where
  "sample_eval_env = \<lparr>ve_evaluationId = ''ev'', ve_auditReferenceId = ''au'', ve_durationMs = 1,
     ve_evaluatedAt = ''t'', ve_at = \<lambda>_. ''t''\<rparr>"

definition sample_eval_context :: "string list option \<Rightarrow> FridayEvaluationContext" where
  "sample_eval_context scopes =
     \<lparr>ev_resource = R_tool, ev_action = A_execute, ev_args = [], ev_source = From_Workflow, ev_principalId = None,
      ev_runId = None, ev_workflowId = None, ev_workflowRunId = None, ev_nodeId = None, ev_sessionId = None,
      ev_scopes = scopes, ev_metadata = None, ev_policyBundleIds = None\<rparr>"

definition sample_ops :: "bundle_op list" where
  "sample_ops = [LoadDomain sample_bundle [sample_rule ''r1'' Allow 1, sample_rule ''r2'' Deny 2]]"

definition sample_engine :: rule_engine where
  "sample_engine = new_engine\<lparr>re_manager := fold (bundle_exec (ec_manager sample_engine_config)) sample_ops new_manager\<rparr>"

section \<open>Lemmas\<close>

lemma decision_index_simps [simp]:
  "decision_index Deny = 0" "decision_index Warn = 1" "decision_index Audit = 2" "decision_index Allow = 3"
  by (simp_all add: decision_index_def FRIDAY_RULE_DECISION_PRIORITY_def)

lemma decision_index_bound: "decision_index d < 4"
  by (cases d) simp_all

lemma decision_loop_strongest:
  "decision_loop ms w (decision_index w) = strongest (w # map mr_decision ms)"
proof (induction ms arbitrary: w)
  case Nil
  show ?case by (cases w) (simp_all add: strongest_def)
next
  case (Cons r ms)
  have "strongest (w # mr_decision r # ds) =
      strongest ((if decision_index (mr_decision r) < decision_index w then mr_decision r else w) # ds)" for ds
    by (cases w; cases "mr_decision r") (simp_all add: strongest_def)
  with Cons show ?case by (simp add: Let_def)
qed

lemma computeFinalDecision_strongest:
  "computeFinalDecision ms d = (if ms = [] then d else strongest (map mr_decision ms))"
proof (cases ms)
  case (Cons r rs)
  have "decision_index (mr_decision r) < length FRIDAY_RULE_DECISION_PRIORITY"
    using decision_index_bound [of "mr_decision r"] by (simp add: FRIDAY_RULE_DECISION_PRIORITY_def)
  with Cons show ?thesis
    by (simp add: computeFinalDecision_def Let_def decision_loop_strongest)
qed (simp add: computeFinalDecision_def)

lemma strongest_mset:
  assumes "mset xs = mset ys"
  shows "strongest xs = strongest ys"
  unfolding strongest_def mset_eq_setD [OF assms] ..

lemma mset_map_filter: "mset (map f (filter (\<lambda>x. P (f x)) xs)) = filter_mset P (mset (map f xs))"
  by (induction xs) auto

text \<open>The rules the engine matches are the applicable ones.\<close>

lemma matched_applicable:
  assumes "manager_inv (ec_manager cfg) (re_manager e)"
  shows "mset (map mr_decision (matched_rules cfg c e)) =
      mset (map (rule_decision \<circ> snd) (applicable_rules cfg c (re_manager e)))"
    "sorted_wrt (\<lambda>a b. mr_priority a \<le> mr_priority b) (matched_rules cfg c e)"
proof -
  let ?m = "re_manager e" and ?eng = "mc_regex (ec_manager cfg)"
  let ?found = "findRules (bm_index ?m) (ev_resource c) (ev_action c)"
  let ?pair = "\<lambda>x. (cr_bundle x, cr_rule x)"
  let ?ids = "case_option [] id (ev_policyBundleIds c)"
  let ?P = "\<lambda>(b, r). (?ids = [] \<or> bundle_id b \<in> set ?ids) \<and> evaluateConditionGroup ?eng c (rule_conditions r)"
  have index: "rebuild (mc_regex (ec_manager cfg)) (mc_loc (ec_manager cfg)) (cache_entries (bm_cache ?m)) = Inr (bm_index ?m)"
    using assms by (simp add: manager_inv_def)
  have matched: "matched_rules cfg c e = map toMatchedRule (filter (\<lambda>x. ?P (?pair x)) ?found)"
    by (cases "ev_policyBundleIds c") (auto simp: matched_rules_def filter_candidates_def conj_commute intro!: filter_cong)
  have "mset (map mr_decision (matched_rules cfg c e)) =
      mset (map (rule_decision \<circ> snd) (map ?pair (filter (\<lambda>x. ?P (?pair x)) ?found)))"
    unfolding matched by (simp add: toMatchedRule_def comp_def)
  also have "\<dots> = image_mset (rule_decision \<circ> snd) (filter_mset ?P (mset (map ?pair ?found)))"
    unfolding mset_map [of "rule_decision \<circ> snd"] mset_map_filter [where f = ?pair and P = ?P and xs = ?found] ..
  also have "mset (map ?pair ?found) = mset (filter (\<lambda>(b, r). rule_resource r = ev_resource c \<and> rule_action r = ev_action c)
      (active_rules (cache_entries (bm_cache ?m))))"
    by (rule rebuild_find(1) [OF index])
  also have "image_mset (rule_decision \<circ> snd) (filter_mset ?P (mset (filter (\<lambda>(b, r). rule_resource r = ev_resource c \<and>
        rule_action r = ev_action c) (active_rules (cache_entries (bm_cache ?m)))))) =
      mset (map (rule_decision \<circ> snd) (applicable_rules cfg c ?m))"
    unfolding applicable_rules_def mset_filter [symmetric] mset_map [symmetric] filter_filter
    by (intro arg_cong [where f = mset] arg_cong [where f = "map (rule_decision \<circ> snd)"] filter_cong) auto
  finally show "mset (map mr_decision (matched_rules cfg c e)) =
      mset (map (rule_decision \<circ> snd) (applicable_rules cfg c ?m))" .
  show "sorted_wrt (\<lambda>a b. mr_priority a \<le> mr_priority b) (matched_rules cfg c e)"
    using rebuild_find(3) [OF index, of "ev_resource c" "ev_action c"]
    unfolding matched by (simp add: sorted_wrt_map toMatchedRule_def sorted_wrt_filter)
qed

lemma core_decision:
  assumes "manager_inv (ec_manager cfg) (re_manager e)"
  shows "computeFinalDecision (matched_rules cfg c e) (ec_defaultDecision cfg) = final_decision cfg c (re_manager e)"
proof -
  have "matched_rules cfg c e = [] \<longleftrightarrow> applicable_rules cfg c (re_manager e) = []"
    using matched_applicable(1) [OF assms, of c] by (metis map_is_Nil_conv mset_zero_iff)
  with matched_applicable(1) [OF assms, of c] show ?thesis
    by (simp add: computeFinalDecision_strongest final_decision_def Let_def strongest_mset)
qed

text \<open>What an evaluation returns and leaves behind, given the decision of its core.\<close>

lemma evaluate_cases:
  assumes "evaluate cfg env tr c e = (Inr res, e')"
  shows "\<exists>red. redactContext (mc_regex (ec_manager cfg)) (ev_args c) (ec_redactionRules cfg) = Inr red \<and>
    e' = e\<lparr>re_auditTrail := re_auditTrail e @ [audit_entry res c (ve_auditReferenceId env) red]\<rparr> \<and>
    (if hasRequiredScope c
     then res_matchedRules res = matched_rules cfg c e \<and>
       res_decision res = computeFinalDecision (matched_rules cfg c e) (ec_defaultDecision cfg) \<and>
       res_message res = findDecisionMessage (matched_rules cfg c e) (res_decision res) \<and>
       res_allowed res = (res_decision res \<noteq> Deny) \<and>
       map_option ee_code (res_error res) = (if res_decision res = Deny then Some Rule_Denied else None)
     else res_matchedRules res = [] \<and> res_decision res = Deny \<and> \<not> res_allowed res \<and>
       map_option ee_code (res_error res) = Some Insufficient_Scope)"
  using assms
  by (auto simp: evaluate_def finish_evaluation_def evaluateCore_def evaluateInsufficientScope_def audit_result_def
      emitAuditEntry_def attachRuleDenyError_def audit_entry_def finalizeEvaluationResult_def Let_def
      split: sum.splits if_splits)

lemma find_first:
  "List.find P xs = Some x \<Longrightarrow> sorted_wrt R xs \<Longrightarrow> (\<And>a. R a a) \<Longrightarrow>
   x \<in> set xs \<and> P x \<and> (\<forall>y\<in>set xs. P y \<longrightarrow> R x y)"
  by (induction xs) (auto split: if_splits)

lemma passive_runHooks: "passive_hooks hooks \<Longrightarrow> snd (runHooks phase source hooks c r) = (c, r)"
proof (induction hooks arbitrary: c r)
  case (Cons h hooks)
  have "snd (hk_handler h c r) = (c, r)" using Cons.prems by (simp add: passive_hooks_def)
  moreover have "snd (runHooks phase source hooks c r) = (c, r)"
    using Cons by (auto simp: passive_hooks_def)
  ultimately show ?case by (auto split: prod.splits)
qed simp

lemma evaluate_returns:
  assumes "redactContext (mc_regex (ec_manager cfg)) (ev_args c) (ec_redactionRules cfg) = Inr red"
  shows "\<exists>res e'. evaluate cfg env tr c e = (Inr res, e')"
  using assms by (cases "hasRequiredScope c")
    (auto simp: evaluate_def finish_evaluation_def evaluateCore_def evaluateInsufficientScope_def audit_result_def
      emitAuditEntry_def Let_def split: if_splits option.splits)

lemma sample_redaction: "redactContext sample_regex [] None = Inr \<lparr>rd_redacted = [], rd_redactionApplied = False, rd_redactedFields = []\<rparr>"
  by code_simp

lemma sample_evaluates: "\<exists>res e'. evaluate sample_engine_config env tr (sample_eval_context sc) e = (Inr res, e')"
  by (rule evaluate_returns [where red = "\<lparr>rd_redacted = [], rd_redactionApplied = False, rd_redactedFields = []\<rparr>"])
    (simp add: sample_engine_config_def sample_eval_context_def sample_redaction)

lemma sample_applicable:
  "(sample_bundle, sample_rule ''r2'' Deny 2) \<in>
     set (applicable_rules sample_engine_config (sample_eval_context (Some [''rules:evaluate''])) (re_manager sample_engine))"
  by code_simp

section \<open>Properties\<close>

text \<open>
  C8. The decision of an evaluation is determined by the loaded bundles alone: after any sequence
  of bundle operations, a context with the scope \<open>rules:evaluate\<close> gets the strongest decision
  (deny over warn over audit over allow) among the applicable rules, or the default decision when
  there is none, and is allowed exactly when that is not deny; without the scope it is denied
  whatever the rules say.
\<close>

theorem evaluate_decision:
  assumes "re_manager e = fold (bundle_exec (ec_manager cfg)) ops new_manager"
    and "evaluate cfg env tr c e = (Inr res, e')"
  shows "res_decision res = (if hasRequiredScope c then final_decision cfg c (re_manager e) else Deny) \<and>
    res_allowed res = (res_decision res \<noteq> Deny) \<and>
    map_option ee_code (res_error res) =
      (if res_allowed res then None else Some (if hasRequiredScope c then Rule_Denied else Insufficient_Scope))"
proof -
  have "manager_inv (ec_manager cfg) (re_manager e)" unfolding assms(1) by (rule manager_run_inv)
  from core_decision [OF this, of c] evaluate_cases [OF assms(2)] show ?thesis
    by (auto split: if_splits)
qed

theorem evaluate_decision_witness:
  "\<exists>res e'. evaluate sample_engine_config sample_eval_env False (sample_eval_context None) sample_engine = (Inr res, e') \<and>
    \<not> res_allowed res \<and> map_option ee_code (res_error res) = Some Insufficient_Scope"
proof -
  obtain res e' where ev:
    "evaluate sample_engine_config sample_eval_env False (sample_eval_context None) sample_engine = (Inr res, e')"
    using sample_evaluates by blast
  have "re_manager sample_engine = fold (bundle_exec (ec_manager sample_engine_config)) sample_ops new_manager"
    by (simp add: sample_engine_def)
  moreover have "\<not> hasRequiredScope (sample_eval_context None)"
    by (simp add: hasRequiredScope_def sample_eval_context_def)
  ultimately show ?thesis using evaluate_decision [OF _ ev, of sample_ops] ev by auto
qed

text \<open>
  Deny wins: if one applicable rule of the loaded bundles denies, no evaluation of the context
  allows it, however many other rules allow it and whatever their priorities; the message it
  reports is that of the denying rule of highest priority that has one.
\<close>

theorem deny_wins:
  assumes "re_manager e = fold (bundle_exec (ec_manager cfg)) ops new_manager"
    and "(b, r) \<in> set (applicable_rules cfg c (re_manager e))" and "rule_decision r = Deny"
    and "evaluate cfg env tr c e = (Inr res, e')"
  shows "\<not> res_allowed res \<and>
    (\<forall>m. hasRequiredScope c \<and> res_message res = Some m \<longrightarrow>
      (\<exists>x\<in>set (res_matchedRules res). mr_decision x = Deny \<and> mr_message x = Some m \<and>
        (\<forall>y\<in>set (res_matchedRules res). mr_decision y = Deny \<and> has_message y \<longrightarrow> mr_priority x \<le> mr_priority y)))"
proof -
  have inv: "manager_inv (ec_manager cfg) (re_manager e)" unfolding assms(1) by (rule manager_run_inv)
  have deny: "final_decision cfg c (re_manager e) = Deny"
    using assms(2,3) by (force simp: final_decision_def strongest_def Let_def)
  then have "\<not> res_allowed res"
    using core_decision [OF inv, of c] evaluate_cases [OF assms(4)] by (auto split: if_splits)
  moreover have "\<exists>x\<in>set (res_matchedRules res). mr_decision x = Deny \<and> mr_message x = Some m \<and>
      (\<forall>y\<in>set (res_matchedRules res). mr_decision y = Deny \<and> has_message y \<longrightarrow> mr_priority x \<le> mr_priority y)"
    if scope: "hasRequiredScope c" and m: "res_message res = Some m" for m
  proof -
    have r: "res_matchedRules res = matched_rules cfg c e" "findDecisionMessage (matched_rules cfg c e) Deny = Some m"
      using evaluate_cases [OF assms(4)] core_decision [OF inv, of c] deny scope m by auto
    then obtain x where x: "List.find (\<lambda>r. mr_decision r = Deny \<and> has_message r) (matched_rules cfg c e) = Some x"
      "mr_message x = Some m"
      by (auto simp: findDecisionMessage_def split: option.splits)
    from find_first [OF x(1) matched_applicable(2) [OF inv, of c]] x(2) r(1) show ?thesis by auto
  qed
  ultimately show ?thesis by blast
qed

theorem deny_wins_witness:
  "\<exists>res e'. evaluate sample_engine_config sample_eval_env False (sample_eval_context (Some [''rules:evaluate''])) sample_engine
     = (Inr res, e') \<and> \<not> res_allowed res"
proof -
  obtain res e' where ev:
    "evaluate sample_engine_config sample_eval_env False (sample_eval_context (Some [''rules:evaluate''])) sample_engine
     = (Inr res, e')"
    using sample_evaluates by blast
  have "re_manager sample_engine = fold (bundle_exec (ec_manager sample_engine_config)) sample_ops new_manager"
    by (simp add: sample_engine_def)
  moreover have "rule_decision (sample_rule ''r2'' Deny 2) = Deny" by (simp add: sample_rule_def)
  ultimately show ?thesis using deny_wins [OF _ sample_applicable _ ev] ev by blast
qed

text \<open>
  C28. Every evaluation that returns leaves exactly one more audit entry, which carries the
  evaluation's id, decision and matched rules and a redacted copy of the arguments; the loaded
  bundles and hooks are untouched, and neither the audit sink nor the requested trace has any
  influence on the outcome.
\<close>

theorem evaluation_audited:
  assumes "evaluate cfg env tr c e = (Inr res, e')"
  shows "(\<exists>entry. e' = e\<lparr>re_auditTrail := re_auditTrail e @ [entry]\<rparr> \<and>
      al_evaluationId entry = res_evaluationId res \<and> al_decision entry = res_decision res \<and>
      al_matchedRules entry = res_matchedRules res \<and>
      redactContext (mc_regex (ec_manager cfg)) (ev_args c) (ec_redactionRules cfg) = Inr (al_contextRedacted entry)) \<and>
    (\<exists>res'' e''. evaluate (cfg\<lparr>ec_auditLogSink := sink\<rparr>) env tr' c e = (Inr res'', e'') \<and>
      res_decision res'' = res_decision res \<and> res_allowed res'' = res_allowed res \<and>
      res_matchedRules res'' = res_matchedRules res)"
proof -
  obtain red where red: "redactContext (mc_regex (ec_manager cfg)) (ev_args c) (ec_redactionRules cfg) = Inr red"
    "e' = e\<lparr>re_auditTrail := re_auditTrail e @ [audit_entry res c (ve_auditReferenceId env) red]\<rparr>"
    using evaluate_cases [OF assms] by blast
  have "\<exists>res'' e''. evaluate (cfg\<lparr>ec_auditLogSink := sink\<rparr>) env tr' c e = (Inr res'', e'')"
    using red(1) by (intro evaluate_returns) simp
  then obtain res'' e'' where r2: "evaluate (cfg\<lparr>ec_auditLogSink := sink\<rparr>) env tr' c e = (Inr res'', e'')"
    by blast
  have "matched_rules (cfg\<lparr>ec_auditLogSink := sink\<rparr>) c e = matched_rules cfg c e" by (simp add: matched_rules_def)
  with evaluate_cases [OF assms] evaluate_cases [OF r2]
  have "res_decision res'' = res_decision res \<and> res_allowed res'' = res_allowed res \<and>
      res_matchedRules res'' = res_matchedRules res"
    by (auto split: if_splits)
  with red r2 show ?thesis by (auto simp: audit_entry_def)
qed

theorem evaluation_audited_witness:
  "\<exists>e' entry. snd (evaluate sample_engine_config sample_eval_env True (sample_eval_context None) sample_engine) = e' \<and>
    re_auditTrail e' = re_auditTrail sample_engine @ [entry]"
proof -
  obtain res e' where ev:
    "evaluate sample_engine_config sample_eval_env True (sample_eval_context None) sample_engine = (Inr res, e')"
    using sample_evaluates by blast
  from evaluation_audited [OF ev, of None False] obtain entry where
    "e' = sample_engine\<lparr>re_auditTrail := re_auditTrail sample_engine @ [entry]\<rparr>" by blast
  with ev show ?thesis by simp
qed

text \<open>
  Hooks that only observe, whether or not they throw, do not change what an evaluation
  decides.
\<close>

theorem passive_hooks_irrelevant:
  assumes "passive_hooks (re_hooks e)" and "evaluate cfg env tr c e = (Inr res, e')"
  shows "\<exists>res''. evaluateWithHooks cfg env tr c e = (Inr res'', e') \<and>
    res_decision res'' = res_decision res \<and> res_allowed res'' = res_allowed res \<and>
    res_matchedRules res'' = res_matchedRules res \<and> res_message res'' = res_message res"
proof (cases "hasRequiredScope c")
  case False
  with assms(2) show ?thesis by (auto simp: evaluate_def evaluateWithHooks_def)
next
  case True
  obtain preOk where pre: "runHooks PreHook (ev_source c) (re_hooks e) c None = (preOk, c, None)"
    using passive_runHooks [OF assms(1), of PreHook "ev_source c" c None]
    by (cases "runHooks PreHook (ev_source c) (re_hooks e) c None") auto
  obtain r steps where core: "evaluateCore cfg env c e = (Inr (r, steps), e')"
    and res: "res = finalizeEvaluationResult env tr (steps @ [(T_Done, None)]) r"
    using assms(2) True by (cases "evaluateCore cfg env c e"; cases "fst (evaluateCore cfg env c e)")
      (auto simp: evaluate_def finish_evaluation_def)
  obtain postOk where post: "runHooks PostHook (ev_source c) (re_hooks e) c (Some r) = (postOk, c, Some r)"
    using passive_runHooks [OF assms(1), of PostHook "ev_source c" c "Some r"]
    by (cases "runHooks PostHook (ev_source c) (re_hooks e) c (Some r)") auto
  from True pre core post res show ?thesis
    by (simp add: evaluateWithHooks_def finish_evaluation_def finalizeEvaluationResult_def)
qed

theorem passive_hooks_irrelevant_witness:
  "\<exists>res e'. evaluateWithHooks sample_engine_config sample_eval_env False (sample_eval_context (Some [''rules:evaluate'']))
     (registerPostHook From_Workflow (\<lambda>c r. (False, c, r)) sample_engine) = (Inr res, e')"
proof -
  let ?e = "registerPostHook From_Workflow (\<lambda>c r. (False, c, r)) sample_engine"
  obtain res e' where ev:
    "evaluate sample_engine_config sample_eval_env False (sample_eval_context (Some [''rules:evaluate''])) ?e = (Inr res, e')"
    using sample_evaluates by blast
  have "passive_hooks (re_hooks ?e)"
    by (simp add: passive_hooks_def registerPostHook_def sample_engine_def new_engine_def)
  from passive_hooks_irrelevant [OF this ev] show ?thesis by blast
qed

end
