(* ===== verification/Node_Runner.thy ===== *)
theory Node_Runner
  imports Rule_Engine Workflow_Dag
begin

text \<open>
  The node runner: the execution state machine, the adapter registry, the rules-context builders
  and the six-step pipeline of src/src/node-runner/engine (state-machine.ts, adapter-registry.ts,
  rules-context-builder.ts, node-runner-pipeline.ts) on the data model of
  src/src/node-runner/model/friday-node-runner.types.ts.

  An adapter is a record of functions. Each takes the execution context and may modify it, as the
  object is passed by reference; it also threads a value of a type \<open>'w\<close>, the rest of the world,
  which the rules evaluator shares. What a function throws is represented by the string
  \<open>errorMessage\<close> extracts from it. The composed abort signal is a reading for each step and each
  place the pipeline looks at it; elapsed times and the final timestamp are readings too.
\<close>

section \<open>State machine\<close>

datatype FridayNodeRunnerStepName = Load | Pre_Validate | Pre_Rules | Execute | Post_Validate | Post_Rules

fun step_name :: "FridayNodeRunnerStepName \<Rightarrow> string" where
  "step_name Load = ''load''"
| "step_name Pre_Validate = ''pre-validate''"
| "step_name Pre_Rules = ''pre-rules''"
| "step_name Execute = ''execute''"
| "step_name Post_Validate = ''post-validate''"
| "step_name Post_Rules = ''post-rules''"

definition FRIDAY_NODE_RUNNER_STEP_ORDER :: "FridayNodeRunnerStepName list" where
  "FRIDAY_NODE_RUNNER_STEP_ORDER = [Load, Pre_Validate, Pre_Rules, Execute, Post_Validate, Post_Rules]"

datatype FridayNodeExecutionStatus =
    X_Loading | X_Validating | X_Checking_Rules | X_Executing | X_Post_Validating | X_Post_Rules
  | X_Completed | X_Failed | X_Timed_Out | X_Cancelled

fun exec_status_name :: "FridayNodeExecutionStatus \<Rightarrow> string" where
  "exec_status_name X_Loading = ''loading''"
| "exec_status_name X_Validating = ''validating''"
| "exec_status_name X_Checking_Rules = ''checking-rules''"
| "exec_status_name X_Executing = ''executing''"
| "exec_status_name X_Post_Validating = ''post-validating''"
| "exec_status_name X_Post_Rules = ''post-rules''"
| "exec_status_name X_Completed = ''completed''"
| "exec_status_name X_Failed = ''failed''"
| "exec_status_name X_Timed_Out = ''timed-out''"
| "exec_status_name X_Cancelled = ''cancelled''"

text \<open>The trigger descriptions of the table are documentation only and left out.\<close>

definition FRIDAY_NODE_RUNNER_TRANSITIONS :: "(FridayNodeExecutionStatus \<times> FridayNodeExecutionStatus) list" where
  "FRIDAY_NODE_RUNNER_TRANSITIONS =
     [(X_Loading, X_Validating), (X_Loading, X_Failed), (X_Loading, X_Timed_Out), (X_Loading, X_Cancelled),
      (X_Validating, X_Checking_Rules), (X_Validating, X_Failed), (X_Validating, X_Timed_Out),
      (X_Validating, X_Cancelled),
      (X_Checking_Rules, X_Executing), (X_Checking_Rules, X_Failed), (X_Checking_Rules, X_Timed_Out),
      (X_Checking_Rules, X_Cancelled),
      (X_Executing, X_Post_Validating), (X_Executing, X_Failed), (X_Executing, X_Timed_Out),
      (X_Executing, X_Cancelled),
      (X_Post_Validating, X_Post_Rules), (X_Post_Validating, X_Failed), (X_Post_Validating, X_Timed_Out),
      (X_Post_Validating, X_Cancelled),
      (X_Post_Rules, X_Completed), (X_Post_Rules, X_Failed), (X_Post_Rules, X_Timed_Out),
      (X_Post_Rules, X_Cancelled)]"

definition TERMINAL_STATES :: "FridayNodeExecutionStatus list" where
  "TERMINAL_STATES = [X_Completed, X_Failed, X_Timed_Out, X_Cancelled]"

text \<open>\<open>targets.add(to)\<close> on a \<open>Set\<close> keeps the first occurrence.\<close>

definition set_add :: "'a \<Rightarrow> 'a list \<Rightarrow> 'a list" where
  "set_add x xs = (if x \<in> set xs then xs else xs @ [x])"

fun buildTransitionIndex ::
    "(FridayNodeExecutionStatus \<times> FridayNodeExecutionStatus) list
     \<Rightarrow> (FridayNodeExecutionStatus, FridayNodeExecutionStatus list) js_map
     \<Rightarrow> (FridayNodeExecutionStatus, FridayNodeExecutionStatus list) js_map" where
  "buildTransitionIndex [] index = index"
| "buildTransitionIndex ((from, to) # transitions) index =
     buildTransitionIndex transitions
       (map_set index from (set_add to (case map_get index from of None \<Rightarrow> [] | Some targets \<Rightarrow> targets)))"

definition TRANSITION_INDEX :: "(FridayNodeExecutionStatus, FridayNodeExecutionStatus list) js_map" where
  "TRANSITION_INDEX = buildTransitionIndex FRIDAY_NODE_RUNNER_TRANSITIONS map_empty"

definition isValidTransition :: "FridayNodeExecutionStatus \<Rightarrow> FridayNodeExecutionStatus \<Rightarrow> bool" where
  "isValidTransition from to =
     (case map_get TRANSITION_INDEX from of None \<Rightarrow> False | Some targets \<Rightarrow> to \<in> set targets)"

definition isTerminalState :: "FridayNodeExecutionStatus \<Rightarrow> bool" where
  "isTerminalState status = (status \<in> set TERMINAL_STATES)"

definition getValidTargets :: "FridayNodeExecutionStatus \<Rightarrow> FridayNodeExecutionStatus list" where
  "getValidTargets from = (case map_get TRANSITION_INDEX from of None \<Rightarrow> [] | Some targets \<Rightarrow> targets)"

text \<open>A double-quoted string in a message.\<close>

definition dquoted :: "string \<Rightarrow> string" where
  "dquoted s = [CHR 0x22] @ s @ [CHR 0x22]"

text \<open>The arrow of the message is U+2192, three bytes of UTF-8.\<close>

definition transition :: "FridayNodeExecutionStatus \<Rightarrow> FridayNodeExecutionStatus \<Rightarrow> FridayNodeExecutionStatus result" where
  "transition from to =
     (if \<not> isValidTransition from to
      then Inl (FridayDomainError ''VALIDATION_ERROR''
             (''Invalid state transition: '' @ dquoted (exec_status_name from) @ [CHR 0x20, CHR 0xE2, CHR 0x86, CHR 0x92, CHR 0x20] @
              dquoted (exec_status_name to) @ ''. Valid targets from '' @ dquoted (exec_status_name from) @ '': ['' @
              js_join '', '' (map exec_status_name (getValidTargets from)) @ '']'') 400)
      else Inr to)"

fun stepToActiveStatus :: "FridayNodeRunnerStepName \<Rightarrow> FridayNodeExecutionStatus" where
  "stepToActiveStatus Load = X_Loading"
| "stepToActiveStatus Pre_Validate = X_Validating"
| "stepToActiveStatus Pre_Rules = X_Checking_Rules"
| "stepToActiveStatus Execute = X_Executing"
| "stepToActiveStatus Post_Validate = X_Post_Validating"
| "stepToActiveStatus Post_Rules = X_Post_Rules"

section \<open>Contexts, adapters and results\<close>

type_synonym json_object = "(string \<times> json) list"
type_synonym FridayNodeRunnerErrorCode = string
type_synonym thrown = string

record FridayNodeArtifact =
  ar_artifactType :: string
  ar_uri :: string
  ar_checksum :: "string option"
  ar_metadata :: "json_object option"

record FridayNodeExecutionContext =
  nc_executionId :: UUID
  nc_runId :: UUID
  nc_workflowId :: UUID
  nc_nodeId :: string
  nc_attemptNumber :: int
  nc_node :: FridayWorkflowNode
  nc_inputData :: json_object
  nc_resolvedConfig :: "json_object option"
  nc_resolvedDeps :: "json_object option"
  nc_validatedInput :: "json_object option"
  nc_preRulesResult :: "FridayEvaluationResult option"
  nc_output :: "json option"
  nc_artifacts :: "FridayNodeArtifact list option"
  nc_validatedOutput :: "json option"
  nc_postRulesResult :: "FridayEvaluationResult option"
  nc_timeoutMs :: "rat option"
  nc_startedAt :: ISODateTime
  nc_metadata :: json_object

record FridayValidationError =
  vl_field :: string
  vl_constraint :: string
  vl_message :: string

record FridayValidationResult =
  vl_valid :: bool
  vl_errors :: "FridayValidationError list"

text \<open>A call of an adapter: an error or a value, the context as it left it, the world.\<close>

type_synonym ('w, 'a) adapter_call = "'w \<Rightarrow> (thrown + 'a) \<times> FridayNodeExecutionContext \<times> 'w"

record 'w FridayNodeAdapter =
  ad_nodeType :: string
  ad_load :: "FridayNodeExecutionContext \<Rightarrow> ('w, json_object) adapter_call"
  ad_validateInput :: "FridayNodeExecutionContext \<Rightarrow> json_object option \<Rightarrow> ('w, FridayValidationResult) adapter_call"
  ad_execute :: "FridayNodeExecutionContext \<Rightarrow> json_object option \<Rightarrow> json_object \<Rightarrow> ('w, json) adapter_call"
  ad_validateOutput :: "FridayNodeExecutionContext \<Rightarrow> json option \<Rightarrow> ('w, FridayValidationResult) adapter_call"

datatype FridayNodeRunnerStepOutcome = Step_Success | Step_Failure | Step_Skipped

record FridayNodeRunnerStepResult =
  sr_step :: FridayNodeRunnerStepName
  sr_outcome :: FridayNodeRunnerStepOutcome
  sr_durationMs :: rat
  sr_errorCode :: "FridayNodeRunnerErrorCode option"
  sr_errorMessage :: "string option"
  sr_rulesResult :: "FridayEvaluationResult option"
  sr_validationErrors :: "FridayValidationError list option"

record FridayNodeExecutionResult =
  xr_executionId :: UUID
  xr_status :: FridayNodeExecutionStatus
  xr_output :: "json option"
  xr_artifacts :: "FridayNodeArtifact list option"
  xr_stepResults :: "FridayNodeRunnerStepResult list"
  xr_durationMs :: rat
  xr_errorCode :: "FridayNodeRunnerErrorCode option"
  xr_errorMessage :: "string option"
  xr_startedAt :: ISODateTime
  xr_completedAt :: ISODateTime

section \<open>Adapter registry\<close>

type_synonym 'w adapter_registry = "(string, 'w FridayNodeAdapter) js_map"

definition register :: "'w FridayNodeAdapter \<Rightarrow> 'w adapter_registry \<Rightarrow> unit result \<times> 'w adapter_registry" where
  "register adapter adapters =
     (if ad_nodeType adapter = []
      then (Inl (FridayDomainError ''VALIDATION_ERROR'' ''Adapter must have a non-empty nodeType'' 400), adapters)
      else (Inr (), map_set adapters (ad_nodeType adapter) adapter))"

definition string_property :: "json_object \<Rightarrow> string \<Rightarrow> string option" where
  "string_property config key =
     (case map_get config key of Some (JsonString s) \<Rightarrow> if s = [] then None else Some s | _ \<Rightarrow> None)"

definition resolve :: "'w adapter_registry \<Rightarrow> string \<Rightarrow> json_object \<Rightarrow> 'w FridayNodeAdapter option" where
  "resolve adapters type config =
     or_else (case string_property config ''adapterKey'' of None \<Rightarrow> None | Some adapterKey \<Rightarrow> map_get adapters adapterKey)
       (or_else (case string_property config ''actionType'' of None \<Rightarrow> None
                 | Some actionType \<Rightarrow> map_get adapters (type @ '':'' @ actionType))
          (map_get adapters type))"

definition listTypes :: "'w adapter_registry \<Rightarrow> string list" where
  "listTypes adapters = map_keys adapters"

section \<open>Rules contexts\<close>

definition NODE_TYPE_RESOURCE_MAP :: "(string, FridayRuleResource) js_map" where
  "NODE_TYPE_RESOURCE_MAP =
     [(''action'', R_tool), (''ai'', R_agent), (''condition'', R_workflow), (''data'', R_workflow),
      (''trigger'', R_workflow), (''approval'', R_workflow)]"

definition mapNodeTypeToResource :: "string \<Rightarrow> thrown + FridayRuleResource" where
  "mapNodeTypeToResource nodeType =
     (case map_get NODE_TYPE_RESOURCE_MAP nodeType of
        Some resource \<Rightarrow> Inr resource
      | None \<Rightarrow> Inl (''No rules resource mapping defined for node type '' @ dquoted nodeType))"

definition effective_input :: "FridayNodeExecutionContext \<Rightarrow> json_object" where
  "effective_input ctx = (case nc_validatedInput ctx of None \<Rightarrow> nc_inputData ctx | Some i \<Rightarrow> i)"

text \<open>\<open>a ?? b\<close> on JSON values: null counts as missing.\<close>

definition nullish :: "json option \<Rightarrow> json option \<Rightarrow> json option" where
  "nullish a b = (if a = None \<or> a = Some JsonNull then b else a)"

definition workflow_context ::
    "FridayNodeExecutionContext \<Rightarrow> FridayRuleResource \<Rightarrow> json_object \<Rightarrow> json_object \<Rightarrow> FridayEvaluationContext" where
  "workflow_context ctx resource args meta =
     \<lparr>ev_resource = resource, ev_action = A_execute, ev_args = args, ev_source = From_Workflow,
      ev_principalId = None, ev_runId = None, ev_workflowId = Some (nc_workflowId ctx),
      ev_workflowRunId = Some (nc_runId ctx), ev_nodeId = Some (nc_nodeId ctx), ev_sessionId = None,
      ev_scopes = None, ev_metadata = Some meta, ev_policyBundleIds = None\<rparr>"

definition buildPreRulesContext ::
    "FridayNodeExecutionContext \<Rightarrow> string \<Rightarrow> thrown + FridayEvaluationContext" where
  "buildPreRulesContext ctx adapterNodeType =
     map_sum id (\<lambda>resource. workflow_context ctx resource (effective_input ctx)
         [(''nodeType'', JsonString (wn_type (nc_node ctx))), (''adapterId'', JsonString adapterNodeType)])
       (mapNodeTypeToResource (wn_type (nc_node ctx)))"

definition buildPostRulesContext ::
    "FridayNodeExecutionContext \<Rightarrow> string \<Rightarrow> rat \<Rightarrow> thrown + FridayEvaluationContext" where
  "buildPostRulesContext ctx adapterNodeType executeDurationMs =
     (let outputValue = nullish (nc_validatedOutput ctx) (nc_output ctx) in
      map_sum id (\<lambda>resource. workflow_context ctx resource
         (map_set (effective_input ctx) ''_output'' (case_option JsonNull id (nullish outputValue None)))
         [(''nodeType'', JsonString (wn_type (nc_node ctx))), (''adapterId'', JsonString adapterNodeType),
          (''phase'', JsonString ''post''), (''durationMs'', JsonNumber executeDurationMs)])
       (mapNodeTypeToResource (wn_type (nc_node ctx))))"

section \<open>Abort signals and errors\<close>

text \<open>
  The reason of an aborted signal: the pipeline's own timeout, a \<open>DOMException\<close> with its name, an
  object or a function with the properties \<open>name\<close> and \<open>timeout\<close> (where it has them), a primitive.
\<close>

datatype abort_reason =
    NodeRunnerTimeoutReason rat
  | DOMException string
  | ObjectReason "json option" "json option"
  | FunctionReason "json option"
  | PrimitiveReason

datatype signal_probe = Before_Step | After_Step | On_Failure

record pipeline_env =
  pe_signal :: "FridayNodeRunnerStepName \<Rightarrow> signal_probe \<Rightarrow> abort_reason option"
  pe_elapsed :: "FridayNodeRunnerStepName \<Rightarrow> rat"
  pe_nowIso :: ISODateTime

definition isInternalTimeoutReason :: "abort_reason \<Rightarrow> bool" where
  "isInternalTimeoutReason why = (case why of NodeRunnerTimeoutReason _ \<Rightarrow> True | _ \<Rightarrow> False)"

definition isDomTimeoutError :: "abort_reason \<Rightarrow> bool" where
  "isDomTimeoutError why = (case why of DOMException name \<Rightarrow> name = ''TimeoutError'' | _ \<Rightarrow> False)"

definition hasTimeoutErrorName :: "abort_reason \<Rightarrow> bool" where
  "hasTimeoutErrorName why =
     (case why of
        NodeRunnerTimeoutReason _ \<Rightarrow> False
      | DOMException name \<Rightarrow> name = ''TimeoutError''
      | ObjectReason name _ \<Rightarrow> name = Some (JsonString ''TimeoutError'')
      | FunctionReason name \<Rightarrow> name = Some (JsonString ''TimeoutError'')
      | PrimitiveReason \<Rightarrow> False)"

definition hasExplicitTimeoutMarker :: "abort_reason \<Rightarrow> bool" where
  "hasExplicitTimeoutMarker why =
     (case why of ObjectReason _ timeout \<Rightarrow> timeout = Some (JsonBool True) | _ \<Rightarrow> False)"

definition isTimeoutAbortReason :: "abort_reason \<Rightarrow> bool" where
  "isTimeoutAbortReason why =
     (isInternalTimeoutReason why \<or> isDomTimeoutError why \<or> hasTimeoutErrorName why \<or>
      hasExplicitTimeoutMarker why)"

definition classifyAbortError :: "abort_reason \<Rightarrow> FridayNodeRunnerErrorCode" where
  "classifyAbortError why = (if isTimeoutAbortReason why then ''NODE_TIMEOUT'' else ''NODE_CANCELLED'')"

definition upper_alpha :: "char \<Rightarrow> bool" where
  "upper_alpha ch = (65 \<le> (of_char ch :: nat) \<and> (of_char ch :: nat) \<le> 90)"

definition code_char :: "char \<Rightarrow> bool" where
  "code_char ch = (upper_alpha ch \<or> 48 \<le> (of_char ch :: nat) \<and> (of_char ch :: nat) \<le> 57 \<or> ch = CHR ''_'')"

text \<open>The match of \<open>/^([A-Z][A-Z0-9_]+):/\<close>: the run of code characters up to a colon.\<close>

definition code_prefix :: "string \<Rightarrow> string option" where
  "code_prefix message =
     (let candidate = takeWhile code_char message in
      if 2 \<le> length candidate \<and> upper_alpha (hd candidate) \<and> take 1 (dropWhile code_char message) = '':''
      then Some candidate else None)"

definition extractPrefixedErrorCode :: "thrown \<Rightarrow> FridayNodeRunnerErrorCode option" where
  "extractPrefixedErrorCode message =
     (case code_prefix message of
        None \<Rightarrow> None
      | Some candidate \<Rightarrow>
          if take 5 candidate = ''NODE_'' \<or> candidate \<in> {''VALIDATION_FAILED'', ''RULE_EVALUATION_FAILED'',
               ''PRE_RULES_DENIED'', ''POST_RULES_DENIED'', ''ACCEPTANCE_FAILED'', ''EXECUTION_NOT_CANCELLABLE''}
          then Some candidate else None)"

definition classifyStepError :: "FridayNodeRunnerStepName \<Rightarrow> thrown \<Rightarrow> FridayNodeRunnerErrorCode" where
  "classifyStepError step error =
     (case extractPrefixedErrorCode error of
        Some passthroughCode \<Rightarrow> passthroughCode
      | None \<Rightarrow>
          (case step of
             Load \<Rightarrow> ''NODE_LOAD_FAILED''
           | Pre_Validate \<Rightarrow> ''VALIDATION_FAILED''
           | Post_Validate \<Rightarrow> ''VALIDATION_FAILED''
           | Pre_Rules \<Rightarrow> ''RULE_EVALUATION_FAILED''
           | Execute \<Rightarrow> ''NODE_EXECUTION_FAILED''
           | Post_Rules \<Rightarrow> ''RULE_EVALUATION_FAILED''))"

definition transitionToFailure ::
    "FridayNodeExecutionStatus \<Rightarrow> FridayNodeRunnerStepResult \<Rightarrow> abort_reason option \<Rightarrow> FridayNodeExecutionStatus" where
  "transitionToFailure currentStatus failedStep signal =
     (let aborted = (signal \<noteq> None);
          target = (if aborted \<and> sr_errorCode failedStep = Some ''NODE_CANCELLED'' then X_Cancelled
            else if aborted \<and> sr_errorCode failedStep = Some ''NODE_TIMEOUT'' then X_Timed_Out
            else X_Failed)
      in if isValidTransition currentStatus target then target
         else if target \<noteq> X_Failed \<and> isValidTransition currentStatus X_Failed then X_Failed
         else currentStatus)"

definition formatValidationErrors :: "FridayValidationResult \<Rightarrow> string" where
  "formatValidationErrors result =
     (if length (vl_errors result) = 0 then ''Validation failed''
      else js_join ''; '' (map (\<lambda>e. vl_field e @ '': '' @ vl_message e @ '' ('' @ vl_constraint e @ '')'') (vl_errors result)))"

definition round2 :: "rat \<Rightarrow> rat" where
  "round2 n = of_int (js_round (n * 100)) / 100"

section \<open>Step runner\<close>

record StepFailureInfo =
  sf_errorCode :: "FridayNodeRunnerErrorCode option"
  sf_errorMessage :: "string option"
  sf_rulesResult :: "FridayEvaluationResult option"
  sf_validationErrors :: "FridayValidationError list option"

text \<open>The variables of one run that the step bodies share.\<close>

record 'w pipeline_run =
  pr_context :: FridayNodeExecutionContext
  pr_adapter :: "'w FridayNodeAdapter option"
  pr_config :: "json_object option"
  pr_world :: 'w

type_synonym 'w step_body = "'w pipeline_run \<Rightarrow> (thrown + StepFailureInfo option) \<times> 'w pipeline_run"

record 'w pipeline_config =
  pc_registry :: "'w adapter_registry"
  pc_evaluateRules :: "FridayEvaluationContext \<Rightarrow> 'w \<Rightarrow> (thrown + FridayEvaluationResult) \<times> 'w"

definition truthy_string :: "string option \<Rightarrow> string option" where
  "truthy_string s = (if s = Some [] then None else s)"

definition buildStepResult ::
    "FridayNodeRunnerStepName \<Rightarrow> rat \<Rightarrow> FridayNodeRunnerStepOutcome \<Rightarrow> StepFailureInfo \<Rightarrow> FridayNodeRunnerStepResult" where
  "buildStepResult step durationMs out options =
     \<lparr>sr_step = step, sr_outcome = out, sr_durationMs = durationMs,
      sr_errorCode = truthy_string (sf_errorCode options), sr_errorMessage = truthy_string (sf_errorMessage options),
      sr_rulesResult = sf_rulesResult options, sr_validationErrors = sf_validationErrors options\<rparr>"

definition no_info :: StepFailureInfo where
  "no_info = \<lparr>sf_errorCode = None, sf_errorMessage = None, sf_rulesResult = None, sf_validationErrors = None\<rparr>"

definition error_info :: "FridayNodeRunnerErrorCode \<Rightarrow> string \<Rightarrow> StepFailureInfo" where
  "error_info code message = no_info\<lparr>sf_errorCode := Some code, sf_errorMessage := Some message\<rparr>"

definition runStep ::
    "pipeline_env \<Rightarrow> FridayNodeRunnerStepName \<Rightarrow> 'w step_body \<Rightarrow> 'w pipeline_run
     \<Rightarrow> FridayNodeRunnerStepResult \<times> 'w pipeline_run" where
  "runStep env step fn st =
     (let durationMs = round2 (pe_elapsed env step); label = ''Step '' @ dquoted (step_name step) in
      case pe_signal env step Before_Step of
        Some why \<Rightarrow>
          (buildStepResult step durationMs Step_Failure
             (error_info (classifyAbortError why) (label @ '' aborted before execution'')), st)
      | None \<Rightarrow>
          (case fn st of
             (Inr failureInfo, st') \<Rightarrow>
               (case pe_signal env step After_Step of
                  Some why \<Rightarrow>
                    (buildStepResult step durationMs Step_Failure
                       (error_info (classifyAbortError why) (label @ '' aborted after execution'')), st')
                | None \<Rightarrow>
                    (let info = case_option no_info id failureInfo in
                     if truthy_string (sf_errorCode info) \<noteq> None
                     then (buildStepResult step durationMs Step_Failure info, st')
                     else (buildStepResult step durationMs Step_Success (no_info\<lparr>sf_rulesResult := sf_rulesResult info\<rparr>), st')))
           | (Inl error, st') \<Rightarrow>
               (case pe_signal env step After_Step of
                  Some why \<Rightarrow>
                    (buildStepResult step durationMs Step_Failure
                       (error_info (classifyAbortError why) (label @ '' aborted: '' @ error)), st')
                | None \<Rightarrow>
                    (buildStepResult step durationMs Step_Failure
                       (error_info (classifyStepError step error) (label @ '' failed: '' @ error)), st'))))"

section \<open>Step bodies\<close>

definition resolveAdapter :: "'w pipeline_config \<Rightarrow> FridayNodeExecutionContext \<Rightarrow> thrown + 'w FridayNodeAdapter" where
  "resolveAdapter cfg ctx =
     (case resolve (pc_registry cfg) (wn_type (nc_node ctx)) (wn_config (nc_node ctx)) of
        Some adapter \<Rightarrow> Inr adapter
      | None \<Rightarrow> Inl (''No adapter found for node type '' @ dquoted (wn_type (nc_node ctx)) @
                  '' (node: '' @ nc_nodeId ctx @ '')''))"

definition evaluateRulesSafe ::
    "'w pipeline_config \<Rightarrow> FridayEvaluationContext \<Rightarrow> 'w \<Rightarrow> (thrown + FridayEvaluationResult) \<times> 'w" where
  "evaluateRulesSafe cfg evalContext w =
     apfst (map_sum (\<lambda>error. ''Rules evaluation failed: '' @ error) id) (pc_evaluateRules cfg evalContext w)"

text \<open>Run a call of the run's adapter and store the context and the world as it leaves them.\<close>

definition call_adapter ::
    "('w FridayNodeAdapter \<Rightarrow> ('w, 'a) adapter_call) \<Rightarrow> 'w pipeline_run \<Rightarrow> (thrown + 'a) \<times> 'w pipeline_run" where
  "call_adapter f st =
     (case pr_adapter st of
        None \<Rightarrow> (Inl ''Cannot read properties of undefined'', st)
      | Some adapter \<Rightarrow>
          (case f adapter (pr_world st) of (r, ctx, w) \<Rightarrow> (r, st\<lparr>pr_context := ctx, pr_world := w\<rparr>)))"

definition load_body :: "'w pipeline_config \<Rightarrow> 'w step_body" where
  "load_body cfg st =
     (case resolveAdapter cfg (pr_context st) of
        Inl error \<Rightarrow> (Inl error, st)
      | Inr adapter \<Rightarrow>
          (case call_adapter (\<lambda>a. ad_load a (pr_context st)) (st\<lparr>pr_adapter := Some adapter\<rparr>) of
             (Inl error, st') \<Rightarrow> (Inl error, st')
           | (Inr config, st') \<Rightarrow>
               (Inr None, st'\<lparr>pr_config := Some config,
                  pr_context := (pr_context st')\<lparr>nc_resolvedConfig := Some config\<rparr>\<rparr>)))"

definition validation_failure :: "FridayValidationResult \<Rightarrow> StepFailureInfo" where
  "validation_failure validation =
     (error_info ''VALIDATION_FAILED'' (formatValidationErrors validation))\<lparr>sf_validationErrors := Some (vl_errors validation)\<rparr>"

definition pre_validate_body :: "'w step_body" where
  "pre_validate_body st =
     (case call_adapter (\<lambda>a. ad_validateInput a (pr_context st) (pr_config st)) st of
        (Inl error, st') \<Rightarrow> (Inl error, st')
      | (Inr validation, st') \<Rightarrow>
          if \<not> vl_valid validation then (Inr (Some (validation_failure validation)), st')
          else (Inr None, st'\<lparr>pr_context := (pr_context st')\<lparr>nc_validatedInput := Some (nc_inputData (pr_context st'))\<rparr>\<rparr>))"

text \<open>Evaluate a rules context, store the result in the context and turn a denial into a failure.\<close>

definition rules_verdict :: "FridayNodeRunnerErrorCode \<Rightarrow> string \<Rightarrow> FridayEvaluationResult \<Rightarrow> StepFailureInfo option" where
  "rules_verdict code fallback result =
     (if \<not> res_allowed result
      then Some ((error_info code (case_option fallback id (res_message result)))\<lparr>sf_rulesResult := Some result\<rparr>)
      else Some (no_info\<lparr>sf_rulesResult := Some result\<rparr>))"

definition pre_rules_body :: "'w pipeline_config \<Rightarrow> 'w step_body" where
  "pre_rules_body cfg st =
     (case pr_adapter st of
        None \<Rightarrow> (Inl ''Cannot read properties of undefined'', st)
      | Some adapter \<Rightarrow>
     (case buildPreRulesContext (pr_context st) (ad_nodeType adapter) of
        Inl error \<Rightarrow> (Inl error, st)
      | Inr evalContext \<Rightarrow>
          (case evaluateRulesSafe cfg evalContext (pr_world st) of
             (Inl error, w) \<Rightarrow> (Inl error, st\<lparr>pr_world := w\<rparr>)
           | (Inr result, w) \<Rightarrow>
               (Inr (rules_verdict ''PRE_RULES_DENIED'' ''Pre-rules evaluation denied execution'' result),
                st\<lparr>pr_world := w, pr_context := (pr_context st)\<lparr>nc_preRulesResult := Some result\<rparr>\<rparr>))))"

definition execute_body :: "'w step_body" where
  "execute_body st =
     (case call_adapter (\<lambda>a. ad_execute a (pr_context st) (pr_config st) (effective_input (pr_context st))) st of
        (Inl error, st') \<Rightarrow> (Inl error, st')
      | (Inr output, st') \<Rightarrow> (Inr None, st'\<lparr>pr_context := (pr_context st')\<lparr>nc_output := Some output\<rparr>\<rparr>))"

definition post_validate_body :: "'w step_body" where
  "post_validate_body st =
     (case call_adapter (\<lambda>a. ad_validateOutput a (pr_context st) (nc_output (pr_context st))) st of
        (Inl error, st') \<Rightarrow> (Inl error, st')
      | (Inr validation, st') \<Rightarrow>
          if \<not> vl_valid validation then (Inr (Some (validation_failure validation)), st')
          else (Inr None, st'\<lparr>pr_context := (pr_context st')\<lparr>nc_validatedOutput := nc_output (pr_context st')\<rparr>\<rparr>))"

definition post_rules_body :: "'w pipeline_config \<Rightarrow> rat \<Rightarrow> 'w step_body" where
  "post_rules_body cfg executeDurationMs st =
     (case pr_adapter st of
        None \<Rightarrow> (Inl ''Cannot read properties of undefined'', st)
      | Some adapter \<Rightarrow>
     (case buildPostRulesContext (pr_context st) (ad_nodeType adapter) executeDurationMs of
        Inl error \<Rightarrow> (Inl error, st)
      | Inr evalContext \<Rightarrow>
          (case evaluateRulesSafe cfg evalContext (pr_world st) of
             (Inl error, w) \<Rightarrow> (Inl error, st\<lparr>pr_world := w\<rparr>)
           | (Inr result, w) \<Rightarrow>
               (Inr (rules_verdict ''POST_RULES_DENIED'' ''Post-rules evaluation denied output'' result),
                st\<lparr>pr_world := w, pr_context := (pr_context st)\<lparr>nc_postRulesResult := Some result\<rparr>\<rparr>))))"

section \<open>Pipeline\<close>

definition buildResult ::
    "pipeline_env \<Rightarrow> FridayNodeExecutionContext \<Rightarrow> FridayNodeExecutionStatus \<Rightarrow> FridayNodeRunnerStepResult list
     \<Rightarrow> FridayNodeRunnerStepResult option \<Rightarrow> FridayNodeExecutionResult" where
  "buildResult env ctx status stepResults failedStep =
     (let completedSteps = map sr_step stepResults;
          stepResults' = stepResults @ map (\<lambda>step. buildStepResult step 0 Step_Skipped no_info)
            (filter (\<lambda>step. step \<notin> set completedSteps) FRIDAY_NODE_RUNNER_STEP_ORDER)
      in \<lparr>xr_executionId = nc_executionId ctx, xr_status = status,
          xr_output = (if status = X_Completed then nullish (nc_validatedOutput ctx) (nc_output ctx) else None),
          xr_artifacts = (if status = X_Completed then nc_artifacts ctx else None),
          xr_stepResults = stepResults', xr_durationMs = round2 (sum_list (map sr_durationMs stepResults')),
          xr_errorCode = Option.bind failedStep sr_errorCode, xr_errorMessage = Option.bind failedStep sr_errorMessage,
          xr_startedAt = nc_startedAt ctx, xr_completedAt = pe_nowIso env\<rparr>)"

text \<open>
  One step of \<open>execute\<close>: run it and push its result; a failure ends the run, otherwise the status
  moves on (or \<open>transition\<close> throws out of the pipeline) and \<open>continue\<close> takes over.
\<close>

definition stage ::
    "pipeline_env \<Rightarrow> FridayNodeRunnerStepName \<Rightarrow> 'w step_body \<Rightarrow> FridayNodeExecutionStatus
     \<Rightarrow> (FridayNodeRunnerStepResult \<Rightarrow> FridayNodeExecutionStatus \<times> FridayNodeRunnerStepResult list \<times> 'w pipeline_run
         \<Rightarrow> FridayNodeExecutionResult result \<times> 'w pipeline_run)
     \<Rightarrow> FridayNodeExecutionStatus \<times> FridayNodeRunnerStepResult list \<times> 'w pipeline_run
     \<Rightarrow> FridayNodeExecutionResult result \<times> 'w pipeline_run" where
  "stage env step fn next_status continue s =
     (case s of (status, stepResults, st) \<Rightarrow>
      (case runStep env step fn st of (r, st') \<Rightarrow>
         if sr_outcome r = Step_Failure
         then (Inr (buildResult env (pr_context st') (transitionToFailure status r (pe_signal env step On_Failure))
                (stepResults @ [r]) (Some r)), st')
         else (case transition status next_status of
                 Inl err \<Rightarrow> (Inl err, st')
               | Inr status' \<Rightarrow> continue r (status', stepResults @ [r], st'))))"

definition pipeline_execute ::
    "'w pipeline_config \<Rightarrow> pipeline_env \<Rightarrow> FridayNodeExecutionContext \<Rightarrow> 'w
     \<Rightarrow> FridayNodeExecutionResult result \<times> 'w pipeline_run" where
  "pipeline_execute cfg env ctx w =
     stage env Load (load_body cfg) X_Validating (\<lambda>_.
     stage env Pre_Validate pre_validate_body X_Checking_Rules (\<lambda>_.
     stage env Pre_Rules (pre_rules_body cfg) X_Executing (\<lambda>_.
     stage env Execute execute_body X_Post_Validating (\<lambda>executeResult.
     stage env Post_Validate post_validate_body X_Post_Rules (\<lambda>_.
     stage env Post_Rules (post_rules_body cfg (sr_durationMs executeResult)) X_Completed (\<lambda>_ (status, stepResults, st).
       (Inr (buildResult env (pr_context st) status stepResults None), st)))))))
     (X_Loading, [], \<lparr>pr_context = ctx, pr_adapter = None, pr_config = None, pr_world = w\<rparr>)"

section \<open>Specification vocabulary\<close>

definition index_targets :: "(FridayNodeExecutionStatus, FridayNodeExecutionStatus list) js_map
    \<Rightarrow> FridayNodeExecutionStatus \<Rightarrow> FridayNodeExecutionStatus set" where
  "index_targets index from = (case map_get index from of None \<Rightarrow> {} | Some targets \<Rightarrow> set targets)"

fun exec_rank :: "FridayNodeExecutionStatus \<Rightarrow> nat" where
  "exec_rank X_Loading = 0"
| "exec_rank X_Validating = 1"
| "exec_rank X_Checking_Rules = 2"
| "exec_rank X_Executing = 3"
| "exec_rank X_Post_Validating = 4"
| "exec_rank X_Post_Rules = 5"
| "exec_rank _ = 6"

text \<open>The status that follows the successful step.\<close>

fun status_after :: "FridayNodeRunnerStepName \<Rightarrow> FridayNodeExecutionStatus" where
  "status_after Load = X_Validating"
| "status_after Pre_Validate = X_Checking_Rules"
| "status_after Pre_Rules = X_Executing"
| "status_after Execute = X_Post_Validating"
| "status_after Post_Validate = X_Post_Rules"
| "status_after Post_Rules = X_Completed"

text \<open>The outcomes of the six steps when the first \<open>k\<close> succeed and the run stops there.\<close>

definition outcomes_of :: "nat \<Rightarrow> FridayNodeRunnerStepOutcome list" where
  "outcomes_of k = replicate k Step_Success @ (if k < 6 then Step_Failure # replicate (5 - k) Step_Skipped else [])"

definition run_report :: "nat \<Rightarrow> FridayNodeExecutionResult \<Rightarrow> bool" where
  "run_report k res \<longleftrightarrow>
     map sr_step (xr_stepResults res) = FRIDAY_NODE_RUNNER_STEP_ORDER \<and>
     map sr_outcome (xr_stepResults res) = outcomes_of k \<and>
     xr_durationMs res = round2 (sum_list (map sr_durationMs (xr_stepResults res))) \<and>
     (if k < 6
      then xr_status res \<in> {X_Failed, X_Timed_Out, X_Cancelled} \<and> xr_output res = None \<and> xr_artifacts res = None \<and>
        xr_errorCode res \<noteq> None \<and> xr_errorCode res = sr_errorCode (xr_stepResults res ! k) \<and>
        xr_errorMessage res = sr_errorMessage (xr_stepResults res ! k)
      else xr_status res = X_Completed \<and> xr_errorCode res = None \<and> xr_errorMessage res = None)"

text \<open>The run on adapters with another \<open>execute\<close>.\<close>

definition replace_execute ::
    "(FridayNodeExecutionContext \<Rightarrow> json_object option \<Rightarrow> json_object \<Rightarrow> ('w, json) adapter_call)
     \<Rightarrow> 'w pipeline_config \<Rightarrow> 'w pipeline_config" where
  "replace_execute g cfg =
     cfg\<lparr>pc_registry := map (\<lambda>(key, adapter). (key, adapter\<lparr>ad_execute := g\<rparr>)) (pc_registry cfg)\<rparr>"

definition replace_run ::
    "(FridayNodeExecutionContext \<Rightarrow> json_object option \<Rightarrow> json_object \<Rightarrow> ('w, json) adapter_call)
     \<Rightarrow> 'w pipeline_run \<Rightarrow> 'w pipeline_run" where
  "replace_run g st = st\<lparr>pr_adapter := map_option (\<lambda>a. a\<lparr>ad_execute := g\<rparr>) (pr_adapter st)\<rparr>"

text \<open>
  A condition on the execution context and the world under which the evaluator allows no context
  of the pre-rules step (it denies, or it throws), and that loading and validating keep.
\<close>

definition refuses_pre_rules :: "(FridayNodeExecutionContext \<Rightarrow> 'w \<Rightarrow> bool) \<Rightarrow> 'w pipeline_config \<Rightarrow> bool" where
  "refuses_pre_rules J cfg \<longleftrightarrow>
     (\<forall>ctx adapterId c w r w'. J ctx w \<longrightarrow> buildPreRulesContext ctx adapterId = Inr c \<longrightarrow>
        pc_evaluateRules cfg c w = (Inr r, w') \<longrightarrow> \<not> res_allowed r)"

definition adapters_keep :: "(FridayNodeExecutionContext \<Rightarrow> 'w \<Rightarrow> bool) \<Rightarrow> 'w pipeline_config \<Rightarrow> bool" where
  "adapters_keep J cfg \<longleftrightarrow>
     (\<forall>a\<in>set (map snd (pc_registry cfg)). \<forall>ctx config w. J ctx w \<longrightarrow>
        (case ad_load a ctx w of (_, ctx', w') \<Rightarrow> \<forall>x. J (ctx'\<lparr>nc_resolvedConfig := x\<rparr>) w') \<and>
        (case ad_validateInput a ctx config w of (_, ctx', w') \<Rightarrow>
           J (ctx'\<lparr>nc_validatedInput := Some (nc_inputData ctx')\<rparr>) w'))"

text \<open>The evaluator allowed the context with this result.\<close>

definition allowed_by :: "'w pipeline_config \<Rightarrow> FridayEvaluationContext \<Rightarrow> FridayEvaluationResult \<Rightarrow> bool" where
  "allowed_by cfg c result \<longleftrightarrow> (\<exists>w w'. pc_evaluateRules cfg c w = (Inr result, w')) \<and> res_allowed result"

definition undisturbed :: "pipeline_env \<Rightarrow> FridayNodeRunnerStepName \<Rightarrow> bool" where
  "undisturbed env step \<longleftrightarrow> pe_signal env step Before_Step = None \<and> pe_signal env step After_Step = None"

text \<open>An abort signal never goes back: once aborted, it stays aborted with the same reason.\<close>

definition probe_time :: "FridayNodeRunnerStepName \<Rightarrow> signal_probe \<Rightarrow> nat" where
  "probe_time step probe =
     3 * exec_rank (stepToActiveStatus step) + (case probe of Before_Step \<Rightarrow> 0 | After_Step \<Rightarrow> 1 | On_Failure \<Rightarrow> 2)"

definition signal_stable :: "pipeline_env \<Rightarrow> bool" where
  "signal_stable env \<longleftrightarrow>
     (\<forall>step probe step' probe' why. pe_signal env step probe = Some why \<longrightarrow>
        probe_time step probe \<le> probe_time step' probe' \<longrightarrow> pe_signal env step' probe' = Some why)"

definition idle_env :: pipeline_env where
  "idle_env = \<lparr>pe_signal = \<lambda>_ _. None, pe_elapsed = \<lambda>_. 1, pe_nowIso = ''t''\<rparr>"

definition sample_adapter :: "nat FridayNodeAdapter" where
  "sample_adapter =
     \<lparr>ad_nodeType = ''action'', ad_load = \<lambda>ctx w. (Inr [], ctx, w),
      ad_validateInput = \<lambda>ctx config w. (Inr \<lparr>vl_valid = True, vl_errors = []\<rparr>, ctx, w),
      ad_execute = \<lambda>ctx config input w. (Inr (JsonString ''out''), ctx, Suc w),
      ad_validateOutput = \<lambda>ctx output w. (Inr \<lparr>vl_valid = True, vl_errors = []\<rparr>, ctx, w)\<rparr>"

definition sample_verdict :: "bool \<Rightarrow> FridayEvaluationResult" where
  "sample_verdict ok =
     \<lparr>res_evaluationId = ''e'', res_decision = (if ok then Allow else Deny), res_matchedRules = [], res_message = None,
      res_durationMs = 0, res_allowed = ok, res_evaluatedAt = ''t'', res_error = None, res_transitionTrace = None\<rparr>"

definition sample_pipeline :: "bool \<Rightarrow> nat pipeline_config" where
  "sample_pipeline ok =
     \<lparr>pc_registry = [(''action'', sample_adapter)], pc_evaluateRules = \<lambda>c w. (Inr (sample_verdict ok), w)\<rparr>"

definition sample_node_context :: FridayNodeExecutionContext where
  "sample_node_context =
     \<lparr>nc_executionId = ''x'', nc_runId = ''r'', nc_workflowId = ''w'', nc_nodeId = ''n'', nc_attemptNumber = 1,
      nc_node = \<lparr>wn_id = ''n'', wn_type = ''action'', wn_label = ''n'', wn_config = [], wn_retryPolicy = None,
        wn_timeoutMs = None\<rparr>,
      nc_inputData = [], nc_resolvedConfig = None, nc_resolvedDeps = None, nc_validatedInput = None,
      nc_preRulesResult = None, nc_output = None, nc_artifacts = None, nc_validatedOutput = None,
      nc_postRulesResult = None, nc_timeoutMs = None, nc_startedAt = ''t'', nc_metadata = []\<rparr>"

text \<open>A completed run has passed both rules steps.\<close>

definition passed_rules :: "'w pipeline_config \<Rightarrow> pipeline_env \<Rightarrow> FridayNodeExecutionResult \<Rightarrow> bool" where
  "passed_rules cfg env res \<longleftrightarrow>
     (\<forall>step. undisturbed env step) \<and>
     (\<exists>ctx aid c pre. buildPreRulesContext ctx aid = Inr c \<and> allowed_by cfg c pre \<and>
        sr_rulesResult (xr_stepResults res ! 2) = Some pre) \<and>
     (\<exists>ctx aid d c post. buildPostRulesContext ctx aid d = Inr c \<and> allowed_by cfg c post \<and>
        sr_rulesResult (xr_stepResults res ! 5) = Some post \<and>
        map_get (ev_args c) ''_output'' = Some (case_option JsonNull id (xr_output res)))"

section \<open>Lemmas\<close>



text \<open>The transition table, read through its index.\<close>

lemma buildTransitionIndex_targets:
  "index_targets (buildTransitionIndex ts index) a = index_targets index a \<union> {b. (a, b) \<in> set ts}"
proof (induction ts index rule: buildTransitionIndex.induct)
  case (2 a1 a2 ts index)
  then show ?case by (auto simp: index_targets_def set_add_def js_simps split: option.splits)
qed simp

lemma isValidTransition_table: "isValidTransition a b \<longleftrightarrow> (a, b) \<in> set FRIDAY_NODE_RUNNER_TRANSITIONS"
proof -
  have "isValidTransition a b \<longleftrightarrow> b \<in> index_targets TRANSITION_INDEX a"
    by (auto simp: isValidTransition_def index_targets_def split: option.splits)
  then show ?thesis
    by (simp add: TRANSITION_INDEX_def buildTransitionIndex_targets) (simp add: index_targets_def map_empty_def map_get_def)
qed

interpretation exec: ranked_lifecycle isValidTransition isTerminalState exec_rank 6
proof unfold_locales
  fix s t
  show "isTerminalState s \<Longrightarrow> \<not> isValidTransition s t"
    by (auto simp: isValidTransition_table FRIDAY_NODE_RUNNER_TRANSITIONS_def isTerminalState_def TERMINAL_STATES_def)
  show "isValidTransition s t \<Longrightarrow> exec_rank s < exec_rank t"
    by (auto simp: isValidTransition_table FRIDAY_NODE_RUNNER_TRANSITIONS_def)
  show "exec_rank s \<le> 6" by (cases s) simp_all
qed

lemma active_transitions:
  "isValidTransition (stepToActiveStatus step) (status_after step)"
  "t \<in> {X_Failed, X_Timed_Out, X_Cancelled} \<Longrightarrow> isValidTransition (stepToActiveStatus step) t"
  by (cases step; auto simp: isValidTransition_table FRIDAY_NODE_RUNNER_TRANSITIONS_def)+

lemma transition_active: "transition (stepToActiveStatus step) (status_after step) = Inr (status_after step)"
  by (simp add: transition_def active_transitions)

lemma transitionToFailure_active:
  "transitionToFailure (stepToActiveStatus step) r signal =
     (if signal \<noteq> None \<and> sr_errorCode r = Some ''NODE_CANCELLED'' then X_Cancelled
      else if signal \<noteq> None \<and> sr_errorCode r = Some ''NODE_TIMEOUT'' then X_Timed_Out else X_Failed)"
  by (simp add: transitionToFailure_def Let_def active_transitions)

lemma code_prefix_nonempty: "code_prefix m = Some c \<Longrightarrow> c \<noteq> []"
  by (auto simp: code_prefix_def Let_def split: if_splits)

lemma classifyStepError_nonempty: "classifyStepError step err \<noteq> []"
  by (auto simp: classifyStepError_def extractPrefixedErrorCode_def dest: code_prefix_nonempty
      split: option.splits if_splits FridayNodeRunnerStepName.splits)

lemma classifyAbortError_nonempty: "classifyAbortError why \<noteq> []"
  by (simp add: classifyAbortError_def)

text \<open>What a step reports: it fails with an error code, or it ran to the end undisturbed.\<close>

lemma runStep_cases:
  assumes "runStep env step fn st = (r, st')"
  obtains (failure) code where "sr_step r = step" "sr_outcome r = Step_Failure" "sr_errorCode r = Some code"
    "sr_durationMs r = round2 (pe_elapsed env step)"
    "pe_signal env step Before_Step \<noteq> None \<and> st' = st \<or> st' = snd (fn st)"
  | (success) info where "sr_step r = step" "sr_outcome r = Step_Success" "sr_errorCode r = None"
    "sr_durationMs r = round2 (pe_elapsed env step)"
    "pe_signal env step Before_Step = None" "pe_signal env step After_Step = None"
    "fn st = (Inr info, st')" "truthy_string (sf_errorCode (case_option no_info id info)) = None"
    "sr_rulesResult r = sf_rulesResult (case_option no_info id info)"
  using assms classifyStepError_nonempty classifyAbortError_nonempty
  by (auto simp: runStep_def Let_def buildStepResult_def error_info_def truthy_string_def no_info_def
      split: option.splits prod.splits sum.splits if_splits)

text \<open>A step of the pipeline on the status that belongs to it.\<close>

lemma stage_eq:
  "stage env step fn (status_after step) k (stepToActiveStatus step, rs, st) =
     (case runStep env step fn st of (r, st') \<Rightarrow>
        if sr_outcome r = Step_Failure
        then (Inr (buildResult env (pr_context st') (transitionToFailure (stepToActiveStatus step) r
               (pe_signal env step On_Failure)) (rs @ [r]) (Some r)), st')
        else k r (status_after step, rs @ [r], st'))"
  by (simp add: stage_def transition_active split: prod.splits)

lemmas stage_at =
  stage_eq [of _ Load, simplified] stage_eq [of _ Pre_Validate, simplified] stage_eq [of _ Pre_Rules, simplified]
  stage_eq [of _ Execute, simplified] stage_eq [of _ Post_Validate, simplified] stage_eq [of _ Post_Rules, simplified]

lemma stage_rule:
  assumes "\<And>r st'. runStep env step fn st = (r, st') \<Longrightarrow> sr_outcome r = Step_Failure \<Longrightarrow>
      Q (Inr (buildResult env (pr_context st') (transitionToFailure (stepToActiveStatus step) r
        (pe_signal env step On_Failure)) (rs @ [r]) (Some r)), st')"
    and "\<And>r st'. runStep env step fn st = (r, st') \<Longrightarrow> sr_outcome r = Step_Success \<Longrightarrow>
      Q (k r (status_after step, rs @ [r], st'))"
    and "s = stepToActiveStatus step" "n = status_after step"
  shows "Q (stage env step fn n k (s, rs, st))"
proof -
  obtain r st' where run: "runStep env step fn st = (r, st')" by (cases "runStep env step fn st")
  from run have "sr_outcome r = Step_Failure \<or> sr_outcome r = Step_Success" by (cases rule: runStep_cases) auto
  with run assms show ?thesis by (auto simp: stage_eq)
qed

lemma step_order_cases: "k < 6 \<Longrightarrow> k = 0 \<or> k = 1 \<or> k = 2 \<or> k = 3 \<or> k = 4 \<or> k = (5 :: nat)"
  by arith

lemma step_count: "length FRIDAY_NODE_RUNNER_STEP_ORDER = 6"
  by (simp add: FRIDAY_NODE_RUNNER_STEP_ORDER_def)

text \<open>A failure of step \<open>k\<close> after \<open>k\<close> successes is reported as such.\<close>

lemma failure_report:
  assumes "k < 6" and "map sr_step rs = take k FRIDAY_NODE_RUNNER_STEP_ORDER" and "map sr_outcome rs = replicate k Step_Success"
    and "runStep env (FRIDAY_NODE_RUNNER_STEP_ORDER ! k) fn st = (r, st')" and "sr_outcome r = Step_Failure"
    and "status \<in> {X_Failed, X_Timed_Out, X_Cancelled}"
  shows "run_report k (buildResult env ctx status (rs @ [r]) (Some r))"
proof -
  have r: "sr_step r = FRIDAY_NODE_RUNNER_STEP_ORDER ! k" "sr_errorCode r \<noteq> None"
    using assms(4,5) by (cases rule: runStep_cases; simp)+
  have len: "length rs = k"
    using assms(1) arg_cong [OF assms(2), of length] by (simp add: FRIDAY_NODE_RUNNER_STEP_ORDER_def)
  have "set (map sr_step (rs @ [r])) = set (take (Suc k) FRIDAY_NODE_RUNNER_STEP_ORDER)"
    using assms(1,2) r by (simp add: take_Suc_conv_app_nth step_count flip: set_map)
  moreover have "filter (\<lambda>step. step \<notin> set (take (Suc k) FRIDAY_NODE_RUNNER_STEP_ORDER)) FRIDAY_NODE_RUNNER_STEP_ORDER =
      drop (Suc k) FRIDAY_NODE_RUNNER_STEP_ORDER"
    using step_order_cases [OF assms(1)] by (auto simp: FRIDAY_NODE_RUNNER_STEP_ORDER_def)
  ultimately have skipped: "filter (\<lambda>step. step \<notin> set (map sr_step (rs @ [r]))) FRIDAY_NODE_RUNNER_STEP_ORDER =
      drop (Suc k) FRIDAY_NODE_RUNNER_STEP_ORDER" by simp
  have steps: "map sr_step rs @ FRIDAY_NODE_RUNNER_STEP_ORDER ! k # drop (Suc k) FRIDAY_NODE_RUNNER_STEP_ORDER =
      FRIDAY_NODE_RUNNER_STEP_ORDER"
    using assms(1,2) by (simp add: id_take_nth_drop [symmetric] step_count)
  have "map (sr_outcome \<circ> (\<lambda>step. buildStepResult step 0 Step_Skipped no_info)) (drop (Suc k) FRIDAY_NODE_RUNNER_STEP_ORDER) =
      replicate (5 - k) Step_Skipped"
    using step_order_cases [OF assms(1)] by (auto simp: FRIDAY_NODE_RUNNER_STEP_ORDER_def buildStepResult_def eval_nat_numeral)
  moreover have "map (sr_step \<circ> (\<lambda>step. buildStepResult step 0 Step_Skipped no_info)) xs = xs" for xs
    by (induction xs) (simp_all add: buildStepResult_def)
  ultimately show ?thesis
    using assms r len steps skipped
    by (auto simp: run_report_def buildResult_def Let_def outcomes_of_def nth_append)
qed

lemma transitionToFailure_range:
  "transitionToFailure (stepToActiveStatus step) r signal \<in> {X_Failed, X_Timed_Out, X_Cancelled}"
  by (simp add: transitionToFailure_active)

lemma completed_report:
  assumes "map sr_step rs = FRIDAY_NODE_RUNNER_STEP_ORDER" and "map sr_outcome rs = replicate 6 Step_Success"
  shows "run_report 6 (buildResult env ctx X_Completed rs None)"
  using assms by (simp add: run_report_def buildResult_def Let_def outcomes_of_def)

lemma success_step: "runStep env step fn st = (r, st') \<Longrightarrow> sr_outcome r = Step_Success \<Longrightarrow> sr_step r = step"
  by (erule runStep_cases) simp_all

lemma stage_report:
  assumes "k < 6" "k \<le> m" "step = FRIDAY_NODE_RUNNER_STEP_ORDER ! k"
    and "map sr_step rs = take k FRIDAY_NODE_RUNNER_STEP_ORDER" "map sr_outcome rs = replicate k Step_Success"
    and "s = stepToActiveStatus step" "n = status_after step"
    and "\<And>r st'. runStep env step fn st = (r, st') \<Longrightarrow> sr_outcome r = Step_Success \<Longrightarrow>
      map sr_step (rs @ [r]) = take (Suc k) FRIDAY_NODE_RUNNER_STEP_ORDER \<Longrightarrow>
      map sr_outcome (rs @ [r]) = replicate (Suc k) Step_Success \<Longrightarrow>
      \<exists>j\<le>m. \<exists>res. fst (c r (status_after step, rs @ [r], st')) = Inr res \<and> run_report j res"
  shows "\<exists>j\<le>m. \<exists>res. fst (stage env step fn n c (s, rs, st)) = Inr res \<and> run_report j res"
proof (rule stage_rule [OF _ _ assms(6,7)])
  fix r st'
  assume run: "runStep env step fn st = (r, st')" and "sr_outcome r = Step_Failure"
  then have "run_report k (buildResult env (pr_context st') (transitionToFailure (stepToActiveStatus step) r
        (pe_signal env step On_Failure)) (rs @ [r]) (Some r))"
    using assms(1-5) transitionToFailure_range by (intro failure_report) auto
  with assms(2) show "\<exists>j\<le>m. \<exists>res. fst (Inr (buildResult env (pr_context st') (transitionToFailure (stepToActiveStatus step) r
        (pe_signal env step On_Failure)) (rs @ [r]) (Some r)), st') = Inr res \<and> run_report j res"
    by (intro exI [of _ k]) simp
next
  fix r st'
  assume run: "runStep env step fn st = (r, st')" and r: "sr_outcome r = Step_Success"
  then have "sr_step r = step" by (rule success_step)
  with r assms(1-5) show "\<exists>j\<le>m. \<exists>res. fst (c r (status_after step, rs @ [r], st')) = Inr res \<and> run_report j res"
    by (intro assms(8) run) (simp_all add: take_Suc_conv_app_nth step_count replicate_append_same)
qed

lemma last_stage_report:
  assumes "map sr_step rs = FRIDAY_NODE_RUNNER_STEP_ORDER" and "map sr_outcome rs = replicate 6 Step_Success"
  shows "\<exists>j\<le>6. \<exists>res. fst ((\<lambda>(status, stepResults, st). (Inr (buildResult env (pr_context st) status stepResults None), st))
      (status_after Post_Rules, rs, st)) = Inr res \<and> run_report j res"
  using completed_report [OF assms, of env "pr_context st"] by (intro exI [of _ 6]) simp

lemmas pipeline_stages =
  stage_report [of 0] stage_report [of 1] stage_report [of 2] stage_report [of 3] stage_report [of 4] stage_report [of 5]

lemma pipeline_report: "\<exists>k\<le>6. \<exists>res. fst (pipeline_execute cfg env ctx w) = Inr res \<and> run_report k res"
  unfolding pipeline_execute_def
  by (rule pipeline_stages last_stage_report; (simp add: FRIDAY_NODE_RUNNER_STEP_ORDER_def eval_nat_numeral; fail)?)+

text \<open>Up to the pre-rules step the adapter's \<open>execute\<close> is not consulted.\<close>

lemma resolve_replace_execute:
  "resolve (pc_registry (replace_execute g cfg)) type config =
     map_option (\<lambda>a. a\<lparr>ad_execute := g\<rparr>) (resolve (pc_registry cfg) type config)"
proof -
  have get: "map_get (map (\<lambda>(key, a). (key, a\<lparr>ad_execute := g\<rparr>)) reg) key =
      map_option (\<lambda>a. a\<lparr>ad_execute := g\<rparr>) (map_get reg key)"
    for reg :: "(string, 'a FridayNodeAdapter) js_map" and key
    by (simp add: map_get_def map_of_map)
  show ?thesis
    by (auto simp: resolve_def replace_execute_def get or_else_def split: option.splits)
qed

lemma call_adapter_replace:
  assumes "\<And>a. f' (a\<lparr>ad_execute := g\<rparr>) = f a"
  shows "call_adapter f' (replace_run g st) = apsnd (replace_run g) (call_adapter f st)"
  using assms by (auto simp: call_adapter_def replace_run_def split: option.splits prod.splits)

lemma replace_run_simps [simp]:
  "pr_context (replace_run g st) = pr_context st" "pr_config (replace_run g st) = pr_config st"
  "pr_world (replace_run g st) = pr_world st"
  "pr_adapter (replace_run g st) = map_option (\<lambda>a. a\<lparr>ad_execute := g\<rparr>) (pr_adapter st)"
  "replace_run g (st\<lparr>pr_context := c\<rparr>) = (replace_run g st)\<lparr>pr_context := c\<rparr>"
  "replace_run g (st\<lparr>pr_config := d\<rparr>) = (replace_run g st)\<lparr>pr_config := d\<rparr>"
  "replace_run g (st\<lparr>pr_world := w\<rparr>) = (replace_run g st)\<lparr>pr_world := w\<rparr>"
  "replace_run g (st\<lparr>pr_adapter := Some a\<rparr>) = (replace_run g st)\<lparr>pr_adapter := Some (a\<lparr>ad_execute := g\<rparr>)\<rparr>"
  by (simp_all add: replace_run_def)

lemma load_body_replace: "load_body (replace_execute g cfg) (replace_run g st) = apsnd (replace_run g) (load_body cfg st)"
proof (cases "resolveAdapter cfg (pr_context st)")
  case (Inl err)
  then show ?thesis by (auto simp: load_body_def resolveAdapter_def resolve_replace_execute split: option.splits)
next
  case (Inr a)
  then have "resolveAdapter (replace_execute g cfg) (pr_context st) = Inr (a\<lparr>ad_execute := g\<rparr>)"
    by (auto simp: resolveAdapter_def resolve_replace_execute split: option.splits)
  moreover have "call_adapter (\<lambda>a. ad_load a (pr_context st)) (replace_run g (st\<lparr>pr_adapter := Some a\<rparr>)) =
      apsnd (replace_run g) (call_adapter (\<lambda>a. ad_load a (pr_context st)) (st\<lparr>pr_adapter := Some a\<rparr>))"
    by (rule call_adapter_replace) simp
  ultimately show ?thesis using Inr by (auto simp: load_body_def split: prod.splits sum.splits)
qed

lemma pre_validate_body_replace: "pre_validate_body (replace_run g st) = apsnd (replace_run g) (pre_validate_body st)"
proof -
  have "call_adapter (\<lambda>a. ad_validateInput a (pr_context st) (pr_config st)) (replace_run g st) =
      apsnd (replace_run g) (call_adapter (\<lambda>a. ad_validateInput a (pr_context st) (pr_config st)) st)"
    by (rule call_adapter_replace) simp
  then show ?thesis by (auto simp: pre_validate_body_def split: prod.splits sum.splits)
qed

lemma pre_rules_body_replace:
  "pre_rules_body (replace_execute g cfg) (replace_run g st) = apsnd (replace_run g) (pre_rules_body cfg st)"
  by (auto simp: pre_rules_body_def evaluateRulesSafe_def replace_execute_def split: option.splits prod.splits sum.splits)

lemma runStep_replace:
  assumes "fn' (replace_run g st) = apsnd (replace_run g) (fn st)"
  shows "runStep env step fn' (replace_run g st) = apsnd (replace_run g) (runStep env step fn st)"
  using assms by (auto simp: runStep_def Let_def split: option.splits prod.splits sum.splits)

text \<open>What a rules step that succeeded has seen.\<close>

lemma rules_verdict_success:
  "truthy_string (sf_errorCode (case_option no_info id (rules_verdict code msg res))) = None \<Longrightarrow> code \<noteq> [] \<Longrightarrow> res_allowed res"
  "sf_rulesResult (case_option no_info id (rules_verdict code msg res)) = Some res"
  by (auto simp: rules_verdict_def error_info_def truthy_string_def no_info_def split: if_splits)

lemma pre_rules_body_ok:
  assumes "pre_rules_body cfg st = (Inr info, st')"
  shows "\<exists>a c res w. pr_adapter st = Some a \<and> buildPreRulesContext (pr_context st) (ad_nodeType a) = Inr c \<and>
    pc_evaluateRules cfg c (pr_world st) = (Inr res, w) \<and>
    info = rules_verdict ''PRE_RULES_DENIED'' ''Pre-rules evaluation denied execution'' res"
proof -
  from assms obtain a where a: "pr_adapter st = Some a" by (cases "pr_adapter st") (auto simp: pre_rules_body_def)
  with assms obtain c where c: "buildPreRulesContext (pr_context st) (ad_nodeType a) = Inr c"
    by (cases "buildPreRulesContext (pr_context st) (ad_nodeType a)") (auto simp: pre_rules_body_def)
  from assms a c show ?thesis
    by (cases "pc_evaluateRules cfg c (pr_world st)"; cases "fst (pc_evaluateRules cfg c (pr_world st))")
      (auto simp: pre_rules_body_def evaluateRulesSafe_def)
qed

lemma post_rules_body_ok:
  assumes "post_rules_body cfg d st = (Inr info, st')"
  shows "\<exists>a c res w. pr_adapter st = Some a \<and> buildPostRulesContext (pr_context st) (ad_nodeType a) d = Inr c \<and>
    pc_evaluateRules cfg c (pr_world st) = (Inr res, w) \<and>
    info = rules_verdict ''POST_RULES_DENIED'' ''Post-rules evaluation denied output'' res \<and>
    pr_context st' = (pr_context st)\<lparr>nc_postRulesResult := Some res\<rparr>"
proof -
  from assms obtain a where a: "pr_adapter st = Some a" by (cases "pr_adapter st") (auto simp: post_rules_body_def)
  with assms obtain c where c: "buildPostRulesContext (pr_context st) (ad_nodeType a) d = Inr c"
    by (cases "buildPostRulesContext (pr_context st) (ad_nodeType a) d") (auto simp: post_rules_body_def)
  from assms a c show ?thesis
    by (cases "pc_evaluateRules cfg c (pr_world st)"; cases "fst (pc_evaluateRules cfg c (pr_world st))")
      (auto simp: post_rules_body_def evaluateRulesSafe_def)
qed

lemma pre_rules_success:
  assumes "runStep env Pre_Rules (pre_rules_body cfg) st = (r, st')" and "sr_outcome r = Step_Success"
  shows "\<exists>a c res w. pr_adapter st = Some a \<and> buildPreRulesContext (pr_context st) (ad_nodeType a) = Inr c \<and>
    pc_evaluateRules cfg c (pr_world st) = (Inr res, w) \<and> res_allowed res \<and> sr_rulesResult r = Some res"
  using assms(1)
proof (cases rule: runStep_cases)
  case (success info)
  from pre_rules_body_ok [OF success(7)] success(8,9) show ?thesis
    using rules_verdict_success [where code = "''PRE_RULES_DENIED''"] by auto
qed (use assms(2) in simp)

lemma post_rules_success:
  assumes "runStep env Post_Rules (post_rules_body cfg d) st = (r, st')" and "sr_outcome r = Step_Success"
  shows "\<exists>a c res w. pr_adapter st = Some a \<and> buildPostRulesContext (pr_context st) (ad_nodeType a) d = Inr c \<and>
    pc_evaluateRules cfg c (pr_world st) = (Inr res, w) \<and> res_allowed res \<and> sr_rulesResult r = Some res \<and>
    pr_context st' = (pr_context st)\<lparr>nc_postRulesResult := Some res\<rparr>"
  using assms(1)
proof (cases rule: runStep_cases)
  case (success info)
  from post_rules_body_ok [OF success(7)] success(8,9) show ?thesis
    using rules_verdict_success [where code = "''POST_RULES_DENIED''"] by auto
qed (use assms(2) in simp)

lemma pre_rules_refused:
  assumes "refuses_pre_rules J cfg" and "J (pr_context st) (pr_world st)"
    and "runStep env Pre_Rules (pre_rules_body cfg) st = (r, st')"
  shows "sr_outcome r \<noteq> Step_Success"
  using assms(1,2) pre_rules_success [OF assms(3)] unfolding refuses_pre_rules_def by blast

text \<open>The condition holds after a successful load and after a successful validation.\<close>

lemma resolve_registered: "resolve reg type config = Some a \<Longrightarrow> a \<in> set (map snd reg)"
  by (force simp: resolve_def map_get_def or_else_def split: option.splits dest: map_of_SomeD)

lemma adapters_keepD:
  assumes "adapters_keep J cfg" "a \<in> set (map snd (pc_registry cfg))" "J ctx w"
  shows "ad_load a ctx w = (x, ctx', w') \<Longrightarrow> J (ctx'\<lparr>nc_resolvedConfig := y\<rparr>) w'"
    and "ad_validateInput a ctx config w = (v, ctx', w') \<Longrightarrow> J (ctx'\<lparr>nc_validatedInput := Some (nc_inputData ctx')\<rparr>) w'"
proof -
  have "(case ad_load a ctx w of (_, ctx', w') \<Rightarrow> \<forall>x. J (ctx'\<lparr>nc_resolvedConfig := x\<rparr>) w') \<and>
      (case ad_validateInput a ctx config w of (_, ctx', w') \<Rightarrow> J (ctx'\<lparr>nc_validatedInput := Some (nc_inputData ctx')\<rparr>) w')"
    by (rule assms(1) [unfolded adapters_keep_def, THEN bspec, OF assms(2), THEN spec, THEN spec, THEN spec, THEN mp])
      (rule assms(3))
  then show "ad_load a ctx w = (x, ctx', w') \<Longrightarrow> J (ctx'\<lparr>nc_resolvedConfig := y\<rparr>) w'"
    "ad_validateInput a ctx config w = (v, ctx', w') \<Longrightarrow> J (ctx'\<lparr>nc_validatedInput := Some (nc_inputData ctx')\<rparr>) w'"
    by auto
qed

lemma load_keeps:
  assumes "adapters_keep J cfg" and "J (pr_context st) (pr_world st)"
    and "runStep env Load (load_body cfg) st = (r, st')" and "sr_outcome r = Step_Success"
  shows "J (pr_context st') (pr_world st') \<and> (\<exists>a\<in>set (map snd (pc_registry cfg)). pr_adapter st' = Some a)"
  using assms(3)
proof (cases rule: runStep_cases)
  case (success info)
  from success(7) obtain a where a: "resolveAdapter cfg (pr_context st) = Inr a"
    by (cases "resolveAdapter cfg (pr_context st)") (auto simp: load_body_def)
  then have mem: "a \<in> set (map snd (pc_registry cfg))"
    by (auto simp: resolveAdapter_def dest!: resolve_registered split: option.splits)
  obtain x ctx w where call: "ad_load a (pr_context st) (pr_world st) = (x, ctx, w)"
    by (cases "ad_load a (pr_context st) (pr_world st)")
  then have "J (ctx\<lparr>nc_resolvedConfig := y\<rparr>) w" for y
    using adapters_keepD(1) [OF assms(1) mem assms(2)] by blast
  moreover from success(7) a call have "pr_adapter st' = Some a"
    "\<exists>y. pr_context st' = ctx\<lparr>nc_resolvedConfig := y\<rparr>" "pr_world st' = w"
    by (auto simp: load_body_def call_adapter_def split: sum.splits)
  ultimately show ?thesis using mem by auto
qed (use assms(4) in simp)

lemma validate_keeps:
  assumes "adapters_keep J cfg" and "J (pr_context st) (pr_world st)"
    and "a \<in> set (map snd (pc_registry cfg))" and "pr_adapter st = Some a"
    and "runStep env Pre_Validate pre_validate_body st = (r, st')" and "sr_outcome r = Step_Success"
  shows "J (pr_context st') (pr_world st')"
  using assms(5)
proof (cases rule: runStep_cases)
  case (success info)
  obtain x ctx w where call: "ad_validateInput a (pr_context st) (pr_config st) (pr_world st) = (x, ctx, w)"
    by (cases "ad_validateInput a (pr_context st) (pr_config st) (pr_world st)")
  then have J: "J (ctx\<lparr>nc_validatedInput := Some (nc_inputData ctx)\<rparr>) w"
    using adapters_keepD(2) [OF assms(1,3,2)] by blast
  from success(7) assms(4) call consider
      (invalid) v where "info = Some (validation_failure v)"
    | (valid) "st' = st\<lparr>pr_context := ctx\<lparr>nc_validatedInput := Some (nc_inputData ctx)\<rparr>, pr_world := w\<rparr>"
    by (auto simp: pre_validate_body_def call_adapter_def split: sum.splits if_splits)
  then show ?thesis
  proof cases
    case invalid
    with success(8) show ?thesis by (simp add: validation_failure_def error_info_def truthy_string_def)
  next
    case valid
    with J show ?thesis by simp
  qed
qed (use assms(6) in simp)

lemma stage_replace:
  assumes "fn' (replace_run g st) = apsnd (replace_run g) (fn st)"
    and "\<And>r st' s'. runStep env step fn st = (r, st') \<Longrightarrow> sr_outcome r = Step_Success \<Longrightarrow>
      c' r (s', rs @ [r], replace_run g st') = apsnd (replace_run g) (c r (s', rs @ [r], st'))"
  shows "stage env step fn' n c' (s, rs, replace_run g st) = apsnd (replace_run g) (stage env step fn n c (s, rs, st))"
proof -
  obtain r st' where run: "runStep env step fn st = (r, st')" by (cases "runStep env step fn st")
  from run have "sr_outcome r = Step_Failure \<or> sr_outcome r = Step_Success" by (cases rule: runStep_cases) auto
  with run assms(2) runStep_replace [where fn' = fn' and fn = fn, OF assms(1)] show ?thesis
    by (auto simp: stage_def split: sum.splits)
qed

lemma refused_run_replace:
  assumes "adapters_keep J cfg" "refuses_pre_rules J cfg" "J ctx w"
  shows "pipeline_execute (replace_execute g cfg) env ctx w = apsnd (replace_run g) (pipeline_execute cfg env ctx w)"
proof -
  let ?st = "\<lparr>pr_context = ctx, pr_adapter = None, pr_config = None, pr_world = w\<rparr>"
  have init: "?st = replace_run g ?st" by (simp add: replace_run_def)
  have J: "J (pr_context ?st) (pr_world ?st)" using assms(3) by simp
  show ?thesis
    unfolding pipeline_execute_def
    by (subst init)
      (intro stage_replace load_body_replace pre_validate_body_replace pre_rules_body_replace,
       auto dest: pre_rules_refused [OF assms(2)] load_keeps [OF assms(1) J] validate_keeps [OF assms(1)])
qed

lemma refused_run_report:
  assumes "adapters_keep J cfg" "refuses_pre_rules J cfg" "J ctx w"
  shows "\<exists>k\<le>2. \<exists>res. fst (pipeline_execute cfg env ctx w) = Inr res \<and> run_report k res"
proof -
  let ?st = "\<lparr>pr_context = ctx, pr_adapter = None, pr_config = None, pr_world = w\<rparr>"
  have J: "J (pr_context ?st) (pr_world ?st)" using assms(3) by simp
  show ?thesis
    unfolding pipeline_execute_def
    by (rule pipeline_stages; (simp add: FRIDAY_NODE_RUNNER_STEP_ORDER_def eval_nat_numeral; fail)?)+
      (auto dest: pre_rules_refused [OF assms(2)] load_keeps [OF assms(1) J] validate_keeps [OF assms(1)])
qed

lemma post_context_output:
  assumes "buildPostRulesContext ctx aid d = Inr c"
  shows "map_get (ev_args c) ''_output'' = Some (case_option JsonNull id (nullish (nc_validatedOutput ctx) (nc_output ctx)))"
proof -
  from assms obtain resource where "c = workflow_context ctx resource
      (map_set (effective_input ctx) ''_output''
        (case_option JsonNull id (nullish (nullish (nc_validatedOutput ctx) (nc_output ctx)) None)))
      [(''nodeType'', JsonString (wn_type (nc_node ctx))), (''adapterId'', JsonString aid),
       (''phase'', JsonString ''post''), (''durationMs'', JsonNumber d)]"
    by (cases "mapNodeTypeToResource (wn_type (nc_node ctx))") (auto simp: buildPostRulesContext_def Let_def)
  then show ?thesis by (simp add: workflow_context_def js_simps nullish_def)
qed

lemma success_undisturbed: "runStep env step fn st = (r, st') \<Longrightarrow> sr_outcome r = Step_Success \<Longrightarrow> undisturbed env step"
  by (erule runStep_cases) (simp_all add: undisturbed_def)

lemma all_steps: "(\<forall>step. P step) \<longleftrightarrow> P Load \<and> P Pre_Validate \<and> P Pre_Rules \<and> P Execute \<and> P Post_Validate \<and> P Post_Rules"
  by (metis FridayNodeRunnerStepName.exhaust)

text \<open>A completed run has passed every step.\<close>

lemma stage_completed:
  assumes "\<And>r st'. runStep env step fn st = (r, st') \<Longrightarrow> sr_outcome r = Step_Success \<Longrightarrow>
      (\<forall>res. fst (k r (status_after step, rs @ [r], st')) = Inr res \<longrightarrow> xr_status res = X_Completed \<longrightarrow> P res)"
    and "s = stepToActiveStatus step" "n = status_after step"
  shows "\<forall>res. fst (stage env step fn n k (s, rs, st)) = Inr res \<longrightarrow> xr_status res = X_Completed \<longrightarrow> P res"
proof (rule stage_rule [OF _ _ assms(2,3)])
  show "\<forall>res. fst (Inr (buildResult env (pr_context st') (transitionToFailure (stepToActiveStatus step) r
        (pe_signal env step On_Failure)) (rs @ [r]) (Some r)), st') = Inr res \<longrightarrow> xr_status res = X_Completed \<longrightarrow> P res" for r st'
    using transitionToFailure_range [of step r "pe_signal env step On_Failure"] by (auto simp: buildResult_def Let_def)
qed (rule assms(1))

lemma completed_passed_rules:
  assumes "fst (pipeline_execute cfg env ctx w) = Inr res" and "xr_status res = X_Completed"
  shows "passed_rules cfg env res"
proof -
  have final: "passed_rules cfg env (buildResult env (pr_context st6) X_Completed [r1, r2, r3, r4, r5, r6] None)"
    if H: "undisturbed env Load" "undisturbed env Pre_Validate"
      "runStep env Pre_Rules (pre_rules_body cfg) st2 = (r3, st3)" "sr_outcome r3 = Step_Success"
      "undisturbed env Execute" "undisturbed env Post_Validate"
      "runStep env Post_Rules (post_rules_body cfg d) st5 = (r6, st6)" "sr_outcome r6 = Step_Success"
    for r1 r2 r3 r4 r5 r6 st2 st3 st5 st6 d
  proof -
    obtain c pre aid where "buildPreRulesContext (pr_context st2) aid = Inr c" "allowed_by cfg c pre"
      "sr_rulesResult r3 = Some pre"
      using pre_rules_success [OF H(3,4)] unfolding allowed_by_def by blast
    moreover obtain c post aid where "buildPostRulesContext (pr_context st5) aid d = Inr c" "allowed_by cfg c post"
      "sr_rulesResult r6 = Some post" "pr_context st6 = (pr_context st5)\<lparr>nc_postRulesResult := Some post\<rparr>"
      using post_rules_success [OF H(7,8)] unfolding allowed_by_def by blast
    moreover note post_context_output [OF this(1)]
    moreover have "undisturbed env Pre_Rules" "undisturbed env Post_Rules"
      using success_undisturbed H(3,4,7,8) by metis+
    ultimately show ?thesis using H(1,2,5,6)
      unfolding passed_rules_def all_steps by (auto simp: buildResult_def Let_def)
  qed
  have "\<forall>res. fst (pipeline_execute cfg env ctx w) = Inr res \<longrightarrow> xr_status res = X_Completed \<longrightarrow> passed_rules cfg env res"
    unfolding pipeline_execute_def
    by ((rule stage_completed, ((simp; fail)+)?)+)
      (auto intro!: final dest: success_undisturbed)
  with assms show ?thesis by blast
qed

lemma buildResult_fields:
  "xr_status (buildResult env ctx status rs failed) = status"
  "xr_errorCode (buildResult env ctx status rs failed) = Option.bind failed sr_errorCode"
  "i < length rs \<Longrightarrow> xr_stepResults (buildResult env ctx status rs failed) ! i = rs ! i"
  by (simp_all add: buildResult_def Let_def nth_append)

lemma aborted_start:
  assumes "pe_signal env Load Before_Step = Some why"
  shows "\<exists>res st. pipeline_execute cfg env ctx w = (Inr res, st) \<and> pr_world st = w \<and> run_report 0 res \<and>
    xr_status res = transitionToFailure X_Loading (xr_stepResults res ! 0) (pe_signal env Load On_Failure) \<and>
    xr_errorCode res = Some (classifyAbortError why)"
proof -
  let ?st = "\<lparr>pr_context = ctx, pr_adapter = None, pr_config = None, pr_world = w\<rparr>"
  obtain r where run: "runStep env Load (load_body cfg) ?st = (r, ?st)"
    and r: "sr_outcome r = Step_Failure" "sr_errorCode r = Some (classifyAbortError why)"
    using assms by (simp add: runStep_def buildStepResult_def error_info_def truthy_string_def no_info_def
        classifyAbortError_nonempty)
  have "run_report 0 (buildResult env ctx (transitionToFailure X_Loading r (pe_signal env Load On_Failure)) ([] @ [r]) (Some r))"
    using run r transitionToFailure_range [of Load]
    by (intro failure_report) (auto simp: FRIDAY_NODE_RUNNER_STEP_ORDER_def)
  moreover have "pipeline_execute cfg env ctx w =
      (Inr (buildResult env ctx (transitionToFailure X_Loading r (pe_signal env Load On_Failure)) ([] @ [r]) (Some r)), ?st)"
    using run r(1) by (simp add: pipeline_execute_def stage_def)
  ultimately show ?thesis using r(2) by (simp add: buildResult_fields)
qed

lemma stage_unaborted:
  assumes "\<And>r st'. runStep env step fn st = (r, st') \<Longrightarrow> sr_outcome r = Step_Success \<Longrightarrow>
      (\<forall>res. fst (k r (status_after step, rs @ [r], st')) = Inr res \<longrightarrow> xr_status res \<in> {X_Completed, X_Failed})"
    and "s = stepToActiveStatus step" "n = status_after step" and "pe_signal env step On_Failure = None"
  shows "\<forall>res. fst (stage env step fn n k (s, rs, st)) = Inr res \<longrightarrow> xr_status res \<in> {X_Completed, X_Failed}"
  by (rule stage_rule [OF _ _ assms(2,3)])
    (use assms(1,4) in \<open>auto simp: buildResult_def Let_def transitionToFailure_active\<close>)

lemma unaborted_status:
  assumes "\<forall>step. pe_signal env step On_Failure = None" and "fst (pipeline_execute cfg env ctx w) = Inr res"
  shows "xr_status res \<in> {X_Completed, X_Failed}"
proof -
  have "\<forall>res. fst (pipeline_execute cfg env ctx w) = Inr res \<longrightarrow> xr_status res \<in> {X_Completed, X_Failed}"
    unfolding pipeline_execute_def
    by ((rule stage_unaborted, ((simp add: assms(1); fail)+)?)+) (auto simp: buildResult_def Let_def assms(1))
  with assms(2) show ?thesis by blast
qed

lemma report_skipped:
  assumes "run_report k res" "k \<le> 2"
  shows "sr_outcome (xr_stepResults res ! 3) = Step_Skipped"
proof -
  have "map sr_step (xr_stepResults res) = FRIDAY_NODE_RUNNER_STEP_ORDER" using assms(1) by (simp add: run_report_def)
  from arg_cong [OF this, of length] have "length (xr_stepResults res) = 6" by (simp add: step_count)
  then have "sr_outcome (xr_stepResults res ! 3) = outcomes_of k ! 3"
    using assms(1) by (auto simp: run_report_def simp flip: nth_map)
  also have "\<dots> = Step_Skipped"
    using assms(2) by (auto simp: outcomes_of_def nth_append le_Suc_eq eval_nat_numeral)
  finally show ?thesis .
qed

section \<open>Properties\<close>

text \<open>
  C9. The pipeline never throws, whatever its adapters and its rules evaluator do: it returns a
  result with exactly one entry per step, in the declared order, where some number of steps
  succeeded, the next one failed and the others were skipped. The status is completed exactly
  when all six succeeded; otherwise it is a failure status, the error is that of the failing step
  and neither output nor artifacts are released.
\<close>

theorem pipeline_never_throws:
  "\<exists>k\<le>6. \<exists>res. fst (pipeline_execute cfg env ctx w) = Inr res \<and> run_report k res"
  by (rule pipeline_report)

text \<open>
  Fail closed: when the rules evaluator allows no pre-rules context under a condition that
  holds at the start and that loading and validating keep (it denies, throws, or the node type has
  no resource), the node is not executed: the result, the context and the world are those of a
  run with any other \<open>execute\<close>, and the execute step is reported as skipped.
\<close>

theorem denied_node_not_executed:
  assumes "adapters_keep J cfg" and "refuses_pre_rules J cfg" and "J ctx w"
  shows "fst (pipeline_execute (replace_execute g cfg) env ctx w) = fst (pipeline_execute cfg env ctx w) \<and>
    pr_world (snd (pipeline_execute (replace_execute g cfg) env ctx w)) = pr_world (snd (pipeline_execute cfg env ctx w)) \<and>
    pr_context (snd (pipeline_execute (replace_execute g cfg) env ctx w)) = pr_context (snd (pipeline_execute cfg env ctx w)) \<and>
    (\<exists>res. fst (pipeline_execute cfg env ctx w) = Inr res \<and> xr_status res \<noteq> X_Completed \<and>
      sr_outcome (xr_stepResults res ! 3) = Step_Skipped)"
proof -
  obtain k res where k: "k \<le> 2" and res: "fst (pipeline_execute cfg env ctx w) = Inr res" "run_report k res"
    using refused_run_report [OF assms] by blast
  from k res(2) have "sr_outcome (xr_stepResults res ! 3) = Step_Skipped" by (simp add: report_skipped)
  moreover from k res(2) have "xr_status res \<noteq> X_Completed" by (auto simp: run_report_def)
  ultimately show ?thesis using res(1) by (auto simp: refused_run_replace [OF assms])
qed

theorem denied_node_not_executed_witness:
  "pr_world (snd (pipeline_execute (sample_pipeline False) idle_env sample_node_context 0)) =
     pr_world (snd (pipeline_execute (replace_execute (\<lambda>ctx c i w. (Inr JsonNull, ctx, 9)) (sample_pipeline False))
       idle_env sample_node_context 0)) \<and>
   pr_world (snd (pipeline_execute (sample_pipeline False) idle_env sample_node_context 0)) = 0"
proof -
  have "adapters_keep (\<lambda>_ _. True) (sample_pipeline False)" "refuses_pre_rules (\<lambda>_ _. True) (sample_pipeline False)"
    by (auto simp: adapters_keep_def refuses_pre_rules_def sample_pipeline_def sample_verdict_def split: prod.splits)
  from denied_node_not_executed [OF this TrueI, of "\<lambda>ctx c i w. (Inr JsonNull, ctx, 9)" idle_env sample_node_context 0]
  show ?thesis by (auto intro: trans) code_simp
qed



text \<open>
  Cancellation and timeout: a run whose signal is aborted before it starts calls no adapter
  and no evaluator and ends as timed out or cancelled, by the reason of the abort; a run whose
  signal is never aborted ends as completed or failed only; and a run that saw an abort around any
  step does not complete.
\<close>

theorem pipeline_abort_status:
  assumes "signal_stable env" and "pipeline_execute cfg env ctx w = (Inr res, st)"
  shows "(\<forall>why. pe_signal env Load Before_Step = Some why \<longrightarrow> pr_world st = w \<and> run_report 0 res \<and>
      xr_status res = (if isTimeoutAbortReason why then X_Timed_Out else X_Cancelled)) \<and>
    ((\<forall>step probe. pe_signal env step probe = None) \<longrightarrow> xr_status res \<in> {X_Completed, X_Failed}) \<and>
    ((\<exists>step. \<not> undisturbed env step) \<longrightarrow> xr_status res \<noteq> X_Completed)"
proof (intro conjI allI impI)
  fix why
  assume abort: "pe_signal env Load Before_Step = Some why"
  then have later: "pe_signal env Load On_Failure = Some why"
    using assms(1) unfolding signal_stable_def by (metis add_le_cancel_left probe_time_def signal_probe.case(1) zero_le)
  have res: "pr_world st = w" "run_report 0 res"
    "xr_status res = transitionToFailure X_Loading (xr_stepResults res ! 0) (pe_signal env Load On_Failure)"
    "xr_errorCode res = Some (classifyAbortError why)"
    using aborted_start [OF abort, of cfg ctx w] assms(2) by auto
  then have "sr_errorCode (xr_stepResults res ! 0) = Some (classifyAbortError why)" by (simp add: run_report_def)
  with later res(3) have "xr_status res = (if isTimeoutAbortReason why then X_Timed_Out else X_Cancelled)"
    using transitionToFailure_active [of Load] by (simp add: classifyAbortError_def)
  with res show "pr_world st = w" "run_report 0 res"
    "xr_status res = (if isTimeoutAbortReason why then X_Timed_Out else X_Cancelled)" by auto
next
  assume "\<forall>step probe. pe_signal env step probe = None"
  then show "xr_status res \<in> {X_Completed, X_Failed}" using unaborted_status [of env cfg ctx w res] assms(2) by simp
next
  assume "\<exists>step. \<not> undisturbed env step"
  then show "xr_status res \<noteq> X_Completed"
    using completed_passed_rules [of cfg env ctx w res] assms(2) by (auto simp: passed_rules_def)
qed

theorem pipeline_abort_status_witness:
  "\<exists>res st. pipeline_execute (sample_pipeline True) (idle_env\<lparr>pe_signal := \<lambda>_ _. Some PrimitiveReason\<rparr>) sample_node_context 0
     = (Inr res, st) \<and> xr_status res = X_Cancelled \<and> pr_world st = 0"
proof -
  let ?env = "idle_env\<lparr>pe_signal := \<lambda>_ _. Some PrimitiveReason\<rparr>"
  have env: "signal_stable ?env" by (simp add: signal_stable_def)
  obtain res st where run: "pipeline_execute (sample_pipeline True) ?env sample_node_context 0 = (Inr res, st)"
    using aborted_start [of ?env PrimitiveReason "sample_pipeline True" sample_node_context 0] by auto
  have "\<not> isTimeoutAbortReason PrimitiveReason" by code_simp
  with pipeline_abort_status [OF env run] run show ?thesis by simp
qed

end
