(* ===== verification/Workflow_Rules.thy ===== *)
theory Workflow_Rules
  imports Node_Runner
begin

text \<open>
  How the workflow runtime wires the rule engine into the node-runner pipeline: the function
  \<open>evaluateRules\<close> of src/src/workflows/runtime/friday-workflow-runtime.ts. It adds the scope
  \<open>rules:evaluate\<close>, evaluates with the engine and, unless the pipeline runs in enforce mode, turns
  a denial into a warning. The fresh identifiers of the n-th evaluation of an engine, and an error
  that publishing its events raises, are readings of the environment.
\<close>

section \<open>Wiring\<close>

record runtime_env =
  rt_eval :: "nat \<Rightarrow> eval_env"
  rt_emit :: "nat \<Rightarrow> thrown option"
  rt_errorMessage :: "regex_failure \<Rightarrow> string"

record pipeline_mode =
  pm_enabled :: bool
  pm_mode :: string

definition RULES_EVALUATE_SCOPE :: string where
  "RULES_EVALUATE_SCOPE = ''rules:evaluate''"

definition with_scope :: "FridayEvaluationContext \<Rightarrow> FridayEvaluationContext" where
  "with_scope c =
     c\<lparr>ev_scopes := Some (set_add RULES_EVALUATE_SCOPE (fold set_add (case_option [] id (ev_scopes c)) []))\<rparr>"

definition relax_result :: "pipeline_mode \<Rightarrow> FridayEvaluationResult \<Rightarrow> FridayEvaluationResult" where
  "relax_result pm rawResult =
     (if pm_enabled pm \<and> pm_mode pm = ''enforce'' then rawResult
      else if res_allowed rawResult then rawResult
      else rawResult\<lparr>res_decision := Warn, res_allowed := True,
        res_message := Some (case truthy_string (res_message rawResult) of
            Some message \<Rightarrow> ''['' @ pm_mode pm @ ''] '' @ message
          | None \<Rightarrow> ''['' @ pm_mode pm @ ''] policy denied but enforcement is relaxed'')\<rparr>)"

definition evaluateRules ::
    "engine_config \<Rightarrow> pipeline_mode \<Rightarrow> runtime_env \<Rightarrow> FridayEvaluationContext \<Rightarrow> rule_engine
     \<Rightarrow> (thrown + FridayEvaluationResult) \<times> rule_engine" where
  "evaluateRules cfg pm env c e =
     (let n = length (re_auditTrail e) in
      case evaluate cfg (rt_eval env n) True (with_scope c) e of
        (Inl failure, e') \<Rightarrow> (Inl (rt_errorMessage env failure), e')
      | (Inr rawResult, e') \<Rightarrow>
          (case rt_emit env n of
             Some error \<Rightarrow> (Inl error, e')
           | None \<Rightarrow> (Inr (relax_result pm rawResult), e')))"

text \<open>The pipeline of the runtime: the world of the adapters holds the rule engine.\<close>

definition runtime_pipeline ::
    "engine_config \<Rightarrow> pipeline_mode \<Rightarrow> runtime_env \<Rightarrow> (rule_engine \<times> 'x) adapter_registry \<Rightarrow> (rule_engine \<times> 'x) pipeline_config" where
  "runtime_pipeline cfg pm env reg =
     \<lparr>pc_registry = reg,
      pc_evaluateRules = \<lambda>c (e, x). case evaluateRules cfg pm env c e of (r, e') \<Rightarrow> (r, (e', x))\<rparr>"

section \<open>Specification vocabulary\<close>

text \<open>The context still describes the same node with the same input.\<close>

definition same_node :: "FridayNodeExecutionContext \<Rightarrow> FridayNodeExecutionContext \<Rightarrow> bool" where
  "same_node ctx ctx' \<longleftrightarrow>
     nc_node ctx' = nc_node ctx \<and> nc_workflowId ctx' = nc_workflowId ctx \<and> nc_runId ctx' = nc_runId ctx \<and>
     nc_nodeId ctx' = nc_nodeId ctx \<and> nc_inputData ctx' = nc_inputData ctx \<and>
     effective_input ctx' = nc_inputData ctx"

definition node_and_bundles ::
    "FridayNodeExecutionContext \<Rightarrow> bundle_manager \<Rightarrow> FridayNodeExecutionContext \<Rightarrow> rule_engine \<times> 'x \<Rightarrow> bool" where
  "node_and_bundles ctx m ctx' w \<longleftrightarrow> same_node ctx ctx' \<and> re_manager (fst w) = m"

text \<open>The loaded bundles deny the node, whichever adapter runs it.\<close>

definition bundles_deny :: "engine_config \<Rightarrow> bundle_manager \<Rightarrow> FridayNodeExecutionContext \<Rightarrow> bool" where
  "bundles_deny cfg m ctx \<longleftrightarrow>
     (\<forall>adapterId c. buildPreRulesContext ctx adapterId = Inr c \<longrightarrow>
        list_ex (\<lambda>(b, r). rule_decision r = Deny) (applicable_rules cfg (with_scope c) m))"

definition counting_adapter :: "(rule_engine \<times> nat) FridayNodeAdapter" where
  "counting_adapter =
     \<lparr>ad_nodeType = ''action'', ad_load = \<lambda>ctx w. (Inr [], ctx, w),
      ad_validateInput = \<lambda>ctx config w. (Inr \<lparr>vl_valid = True, vl_errors = []\<rparr>, ctx, w),
      ad_execute = \<lambda>ctx config input (e, n). (Inr JsonNull, ctx, (e, Suc n)),
      ad_validateOutput = \<lambda>ctx output w. (Inr \<lparr>vl_valid = True, vl_errors = []\<rparr>, ctx, w)\<rparr>"

definition sample_runtime_env :: runtime_env where
  "sample_runtime_env =
     \<lparr>rt_eval = \<lambda>_. sample_eval_env, rt_emit = \<lambda>_. None, rt_errorMessage = \<lambda>_. ''invalid pattern''\<rparr>"

section \<open>Lemmas\<close>

lemma same_node_context:
  assumes "same_node ctx ctx'" "same_node ctx ctx"
  shows "buildPreRulesContext ctx' aid = buildPreRulesContext ctx aid"
  using assms by (simp add: buildPreRulesContext_def workflow_context_def same_node_def)

lemma with_scope_required: "hasRequiredScope (with_scope c)"
  by (auto simp: hasRequiredScope_def with_scope_def set_add_def RULES_EVALUATE_SCOPE_def REQUIRED_EVALUATION_SCOPE_def)

lemma evaluateRules_denies:
  assumes "re_manager e = fold (bundle_exec (ec_manager cfg)) ops new_manager"
    and "list_ex (\<lambda>(b, r). rule_decision r = Deny) (applicable_rules cfg (with_scope c) (re_manager e))"
    and "evaluateRules cfg \<lparr>pm_enabled = True, pm_mode = ''enforce''\<rparr> env c e = (Inr res, e')"
  shows "\<not> res_allowed res"
proof -
  obtain b r where r: "(b, r) \<in> set (applicable_rules cfg (with_scope c) (re_manager e))" "rule_decision r = Deny"
    using assms(2) by (auto simp: list_ex_iff)
  have inv: "manager_inv (ec_manager cfg) (re_manager e)" unfolding assms(1) by (rule manager_run_inv)
  have deny: "final_decision cfg (with_scope c) (re_manager e) = Deny"
    using r by (force simp: final_decision_def strongest_def Let_def)
  obtain env' where ev: "evaluate cfg env' True (with_scope c) e = (Inr res, e')"
    using assms(3) by (auto simp: evaluateRules_def relax_result_def Let_def split: prod.splits sum.splits option.splits)
  from evaluate_cases [OF ev] with_scope_required [of c] have "res_allowed res = (res_decision res \<noteq> Deny)"
    "res_decision res = computeFinalDecision (matched_rules cfg (with_scope c) e) (ec_defaultDecision cfg)" by auto
  with core_decision [OF inv, of "with_scope c"] deny show ?thesis by simp
qed

lemma runtime_refuses:
  assumes "m = fold (bundle_exec (ec_manager cfg)) ops new_manager" and "bundles_deny cfg m ctx" and "same_node ctx ctx"
  shows "refuses_pre_rules (node_and_bundles ctx m) (runtime_pipeline cfg \<lparr>pm_enabled = True, pm_mode = ''enforce''\<rparr> env reg)"
  unfolding refuses_pre_rules_def
proof (intro allI impI)
  fix ctx' adapterId c w r w'
  assume J: "node_and_bundles ctx m ctx' w" and c: "buildPreRulesContext ctx' adapterId = Inr c"
    and ev: "pc_evaluateRules (runtime_pipeline cfg \<lparr>pm_enabled = True, pm_mode = ''enforce''\<rparr> env reg) c w = (Inr r, w')"
  have "buildPreRulesContext ctx adapterId = Inr c"
    using same_node_context [of ctx ctx' adapterId] J c assms(3) by (simp add: node_and_bundles_def)
  then have deny: "list_ex (\<lambda>(b, r). rule_decision r = Deny) (applicable_rules cfg (with_scope c) m)"
    using assms(2) unfolding bundles_deny_def by blast
  obtain e x where w: "w = (e, x)" by (cases w)
  with J have m: "re_manager e = m" by (simp add: node_and_bundles_def)
  from ev w obtain e' where "evaluateRules cfg \<lparr>pm_enabled = True, pm_mode = ''enforce''\<rparr> env c e = (Inr r, e')"
    by (auto simp: runtime_pipeline_def split: prod.splits)
  from evaluateRules_denies [OF _ _ this, of ops] m assms(1) deny show "\<not> res_allowed r" by simp
qed

lemma sample_active:
  "active_rules (cache_entries (bm_cache (re_manager sample_engine))) =
     [(sample_bundle, sample_rule ''r1'' Allow 1), (sample_bundle, sample_rule ''r2'' Deny 2)]"
  by code_simp

lemma sample_bundles_deny: "bundles_deny sample_engine_config (re_manager sample_engine) sample_node_context"
proof -
  have "buildPreRulesContext sample_node_context aid = Inr (workflow_context sample_node_context R_tool []
      [(''nodeType'', JsonString ''action''), (''adapterId'', JsonString aid)])" for aid
    by (simp add: buildPreRulesContext_def sample_node_context_def mapNodeTypeToResource_def NODE_TYPE_RESOURCE_MAP_def
        map_get_def effective_input_def)
  then show ?thesis
    by (auto simp: bundles_deny_def applicable_rules_def sample_active list_ex_iff sample_rule_def with_scope_def
        workflow_context_def no_conditions_def evaluateConditionGroup_def nonempty_def)
qed

section \<open>Properties\<close>

text \<open>
  Policy holds end to end: with the pipeline in enforce mode, if the policy bundles loaded by any
  sequence of bundle operations contain an applicable deny rule for a node, the runtime's pipeline
  does not execute the node: its result does not depend on the adapter's \<open>execute\<close>, it is not
  completed and the execute step is skipped. (The adapters may do anything else, as long as
  loading and validating leave the node, its input and the loaded bundles as they are.)
\<close>

theorem policy_denied_node_not_executed:
  assumes "m = fold (bundle_exec (ec_manager cfg)) ops new_manager" and "re_manager (fst w) = m"
    and "bundles_deny cfg m ctx" and "same_node ctx ctx"
    and "adapters_keep (node_and_bundles ctx m) (runtime_pipeline cfg \<lparr>pm_enabled = True, pm_mode = ''enforce''\<rparr> env reg)"
  shows "let P = runtime_pipeline cfg \<lparr>pm_enabled = True, pm_mode = ''enforce''\<rparr> env reg in
    fst (pipeline_execute (replace_execute g P) penv ctx w) = fst (pipeline_execute P penv ctx w) \<and>
    (\<exists>res. fst (pipeline_execute P penv ctx w) = Inr res \<and> xr_status res \<noteq> X_Completed \<and>
      sr_outcome (xr_stepResults res ! 3) = Step_Skipped)"
proof -
  let ?P = "runtime_pipeline cfg \<lparr>pm_enabled = True, pm_mode = ''enforce''\<rparr> env reg"
  have J: "node_and_bundles ctx m ctx w" using assms(2,4) by (simp add: node_and_bundles_def)
  have refuses: "refuses_pre_rules (node_and_bundles ctx m) ?P" by (rule runtime_refuses [OF assms(1,3,4)])
  obtain k res where k: "k \<le> 2" and res: "fst (pipeline_execute ?P penv ctx w) = Inr res" "run_report k res"
    using refused_run_report [OF assms(5) refuses J] by blast
  then have "sr_outcome (xr_stepResults res ! 3) = Step_Skipped" by (simp add: report_skipped)
  moreover have "xr_status res \<noteq> X_Completed" using k res(2) by (auto simp: run_report_def)
  ultimately show ?thesis
    using res(1) by (simp add: Let_def refused_run_replace [OF assms(5) refuses J])
qed

theorem policy_denied_node_not_executed_witness:
  "\<exists>res. fst (pipeline_execute (runtime_pipeline sample_engine_config \<lparr>pm_enabled = True, pm_mode = ''enforce''\<rparr>
       sample_runtime_env [(''action'', counting_adapter)]) idle_env sample_node_context (sample_engine, 0)) = Inr res \<and>
     xr_status res \<noteq> X_Completed \<and> sr_outcome (xr_stepResults res ! 3) = Step_Skipped"
proof -
  have keep: "adapters_keep (node_and_bundles sample_node_context (re_manager sample_engine))
      (runtime_pipeline sample_engine_config \<lparr>pm_enabled = True, pm_mode = ''enforce''\<rparr> sample_runtime_env
        [(''action'', counting_adapter)])"
    by (auto simp: adapters_keep_def runtime_pipeline_def counting_adapter_def node_and_bundles_def same_node_def
        effective_input_def split: option.splits)
  have node: "same_node sample_node_context sample_node_context"
    by (simp add: same_node_def effective_input_def sample_node_context_def)
  have m: "re_manager sample_engine = fold (bundle_exec (ec_manager sample_engine_config)) sample_ops new_manager"
    by (simp add: sample_engine_def)
  from policy_denied_node_not_executed [OF m _ sample_bundles_deny node keep, of "(sample_engine, 0)"
      "\<lambda>ctx c i w. (Inr JsonNull, ctx, w)" idle_env]
  show ?thesis by (simp add: Let_def)
qed

end
