(* ===== verification/Stable_Json.thy ===== *)
theory Stable_Json
  imports Friday_Prelude "HOL-Library.Multiset" "HOL-Library.Char_ord" "HOL-Library.List_Lexorder"
begin

text \<open>
  The canonical JSON text that action digests and approval signatures are computed from:
  \<open>stableStringify\<close> and \<open>normalizeForStableStringify\<close> of
  src/src/security/friday-mutating-action-gate.ts on JSON values, with the part of \<open>JSON.stringify\<close>
  they use. Only the decimal text of a number, which the language defines on doubles, is an
  argument \<open>num\<close>. Values that are not JSON (bigints, dates, functions, symbols) do not occur in
  the model; a property that is \<open>undefined\<close> is absent.
\<close>

section \<open>Text of a JSON value\<close>

definition hex_digit :: "nat \<Rightarrow> char" where
  "hex_digit n = (if n < 10 then char_of (48 + n) else char_of (87 + n))"

text \<open>\<open>QuoteJSONString\<close>: short escapes, six-character escapes for the other control characters.\<close>

definition escape_char :: "char \<Rightarrow> string" where
  "escape_char c =
     (let n = of_char c :: nat in
      if n = 0x22 then [CHR 0x5C, CHR 0x22]
      else if n = 0x5C then [CHR 0x5C, CHR 0x5C]
      else if n = 0x08 then [CHR 0x5C, CHR ''b'']
      else if n = 0x0C then [CHR 0x5C, CHR ''f'']
      else if n = 0x0A then [CHR 0x5C, CHR ''n'']
      else if n = 0x0D then [CHR 0x5C, CHR ''r'']
      else if n = 0x09 then [CHR 0x5C, CHR ''t'']
      else if n < 0x20 then [CHR 0x5C, CHR ''u'', CHR ''0'', CHR ''0'', hex_digit (n div 16), hex_digit (n mod 16)]
      else [c])"

definition json_quote :: "string \<Rightarrow> string" where
  "json_quote s = [CHR 0x22] @ concat (map escape_char s) @ [CHR 0x22]"

fun comma_join :: "string list \<Rightarrow> string" where
  "comma_join [] = []"
| "comma_join [s] = s"
| "comma_join (s # t # ss) = s @ '','' @ comma_join (t # ss)"

fun json_text :: "(rat \<Rightarrow> string) \<Rightarrow> json \<Rightarrow> string" where
  "json_text num JsonNull = ''null''"
| "json_text num (JsonBool b) = (if b then ''true'' else ''false'')"
| "json_text num (JsonNumber r) = num r"
| "json_text num (JsonString s) = json_quote s"
| "json_text num (JsonArray xs) = ''['' @ comma_join (map (json_text num) xs) @ '']''"
| "json_text num (JsonObject ps) =
     ''{'' @ comma_join (map (\<lambda>(k, v). json_quote k @ '':'' @ json_text num v) ps) @ ''}''"

section \<open>Normal form\<close>

text \<open>
  Enumeration order of the properties of an object: array indices in ascending order, then the
  other keys in insertion order.
\<close>

definition index_key :: "string \<Rightarrow> nat option" where
  "index_key s =
     (let value = fold (\<lambda>c n. 10 * n + (of_char c - 48)) s (0 :: nat) in
      if s \<noteq> [] \<and> list_all (\<lambda>c. 48 \<le> (of_char c :: nat) \<and> (of_char c :: nat) \<le> 57) s
         \<and> (hd s = CHR ''0'' \<longrightarrow> s = ''0'') \<and> value < 4294967295
      then Some value else None)"

definition own_order :: "(string \<times> 'v) list \<Rightarrow> (string \<times> 'v) list" where
  "own_order ps =
     sort_key (\<lambda>(k, v). case_option 0 id (index_key k)) (filter (\<lambda>(k, v). index_key k \<noteq> None) ps)
     @ filter (\<lambda>(k, v). index_key k = None) ps"

fun normalizeForStableStringify :: "json \<Rightarrow> json" where
  "normalizeForStableStringify (JsonArray xs) = JsonArray (map normalizeForStableStringify xs)"
| "normalizeForStableStringify (JsonObject ps) =
     JsonObject (own_order (sort_key fst (map (\<lambda>(k, v). (k, normalizeForStableStringify v)) ps)))"
| "normalizeForStableStringify v = v"

definition stableStringify :: "(rat \<Rightarrow> string) \<Rightarrow> json \<Rightarrow> string" where
  "stableStringify num value = json_text num (normalizeForStableStringify value)"

section \<open>Specification vocabulary\<close>

text \<open>
  What the language guarantees of the text of numbers: it is not empty, it starts with a digit or
  a minus sign, it has no delimiter of JSON in it, and different numbers have different texts.
\<close>

definition number_text :: "(rat \<Rightarrow> string) \<Rightarrow> bool" where
  "number_text num \<longleftrightarrow> inj num \<and>
     (\<forall>r. num r \<noteq> [] \<and> hd (num r) \<in> insert (CHR ''-'') digit_chars \<and>
        list_all (\<lambda>c. c \<notin> {CHR '','', CHR '']'', CHR ''}'', CHR '':''}) (num r))"

text \<open>A text is followed by nothing or by a delimiter.\<close>

definition delimited :: "string \<Rightarrow> bool" where
  "delimited s \<longleftrightarrow> s = [] \<or> hd s \<in> {CHR '','', CHR '']'', CHR ''}'', CHR '':''}"

text \<open>Reading back one character of a quoted string.\<close>

definition unhex :: "char \<Rightarrow> nat" where
  "unhex c = (if of_char c < (58 :: nat) then of_char c - 48 else of_char c - 87)"

fun unescape :: "string \<Rightarrow> char \<times> string" where
  "unescape (c # s) =
     (if c \<noteq> CHR 0x5C then (c, s)
      else case s of
             [] \<Rightarrow> (c, s)
           | k # s' \<Rightarrow>
               if k = CHR ''u'' then (char_of (16 * unhex (s' ! 2) + unhex (s' ! 3)), drop 4 s')
               else (if k = CHR ''b'' then CHR 0x08 else if k = CHR ''f'' then CHR 0x0C else if k = CHR ''n'' then CHR 0x0A
                     else if k = CHR ''r'' then CHR 0x0D else if k = CHR ''t'' then CHR 0x09 else k, s'))"
| "unescape [] = (CHR 0x00, [])"

fun first_char :: "(rat \<Rightarrow> string) \<Rightarrow> json \<Rightarrow> char" where
  "first_char num JsonNull = CHR ''n''"
| "first_char num (JsonBool b) = (if b then CHR ''t'' else CHR ''f'')"
| "first_char num (JsonNumber r) = hd (num r)"
| "first_char num (JsonString s) = CHR 0x22"
| "first_char num (JsonArray xs) = CHR ''[''"
| "first_char num (JsonObject ps) = CHR ''{''"

section \<open>Lemmas\<close>

lemma unhex_hex_digit: "n < 16 \<Longrightarrow> unhex (hex_digit n) = n"
  by (simp add: unhex_def hex_digit_def of_char_of take_bit_eq_mod)

lemma unescape_escape: "unescape (escape_char c @ s) = (c, s)"
proof (cases "c \<in> {CHR 0x22, CHR 0x5C, CHR 0x08, CHR 0x0C, CHR 0x0A, CHR 0x0D, CHR 0x09}")
  case True
  then show ?thesis by (elim insertE emptyE) (simp_all add: escape_char_def)
next
  case False
  define n where "n = (of_char c :: nat)"
  have "n \<noteq> of_char (CHR 0x22)" "n \<noteq> of_char (CHR 0x5C)" "n \<noteq> of_char (CHR 0x08)" "n \<noteq> of_char (CHR 0x0C)"
    "n \<noteq> of_char (CHR 0x0A)" "n \<noteq> of_char (CHR 0x0D)" "n \<noteq> of_char (CHR 0x09)"
    unfolding n_def of_char_eq_iff using False by blast+
  then have not: "n \<noteq> 0x22" "n \<noteq> 0x5C" "n \<noteq> 0x08" "n \<noteq> 0x0C" "n \<noteq> 0x0A" "n \<noteq> 0x0D" "n \<noteq> 0x09"
    by simp_all
  show ?thesis
  proof (cases "n < 32")
    case True
    then have "16 * unhex (hex_digit (n div 16)) + unhex (hex_digit (n mod 16)) = n"
      by (simp add: unhex_hex_digit)
    then have "char_of (16 * unhex (hex_digit (n div 16)) + unhex (hex_digit (n mod 16))) = c" by (simp add: n_def)
    moreover have "escape_char c =
        [CHR 0x5C, CHR ''u'', CHR ''0'', CHR ''0'', hex_digit (n div 16), hex_digit (n mod 16)]"
      unfolding escape_char_def Let_def n_def [symmetric] using not True by simp
    ultimately show ?thesis by simp
  next
    case False
    with not have "escape_char c = [c]" unfolding escape_char_def Let_def n_def [symmetric] by simp
    with \<open>c \<notin> _\<close> show ?thesis by simp
  qed
qed

lemma escape_char_hd: "escape_char c \<noteq> []" "hd (escape_char c) \<noteq> CHR 0x22"
  by (auto simp: escape_char_def Let_def)

lemma escape_char_prefix: "escape_char c @ x = escape_char d @ y \<Longrightarrow> c = d \<and> x = y"
  by (metis unescape_escape prod.inject)

lemma escape_inj:
  "concat (map escape_char s) @ CHR 0x22 # x = concat (map escape_char t) @ CHR 0x22 # y \<Longrightarrow> s = t \<and> x = y"
proof (induction s arbitrary: t)
  case Nil
  then show ?case using escape_char_hd [of "hd t"] by (cases t) (auto simp: hd_append dest!: arg_cong [where f = hd])
next
  case (Cons c s)
  show ?case
  proof (cases t)
    case Nil
    with Cons.prems escape_char_hd [of c] show ?thesis
      by (auto simp: hd_append dest!: arg_cong [where f = hd])
  next
    case t: (Cons d t')
    with Cons.prems have "escape_char c @ (concat (map escape_char s) @ CHR 0x22 # x) =
        escape_char d @ (concat (map escape_char t') @ CHR 0x22 # y)" by simp
    from escape_char_prefix [OF this] Cons.IH t show ?thesis by simp
  qed
qed

lemma json_quote_inj: "json_quote s @ x = json_quote t @ y \<Longrightarrow> s = t \<and> x = y"
  using escape_inj [of s x t y] by (simp add: json_quote_def)

lemma comma_join_Cons: "comma_join (s # ss) = s @ (if ss = [] then [] else '','' @ comma_join ss)"
  by (cases ss) simp_all

lemma delimited_simps [simp]:
  "delimited []" "delimited (CHR '','' # s)" "delimited (CHR '']'' # s)" "delimited (CHR ''}'' # s)"
  "delimited (CHR '':'' # s)"
  by (simp_all add: delimited_def)

text \<open>Items that can be told apart in front of a delimiter can be told apart in a list.\<close>

lemma comma_join_inj:
  assumes dec: "\<And>x y u v. x \<in> set xs \<Longrightarrow> f x @ u = f y @ v \<Longrightarrow> delimited u \<Longrightarrow> delimited v \<Longrightarrow> x = y \<and> u = v"
    and ne: "\<And>x. f x \<noteq> [] \<and> \<not> delimited (f x)" and cl: "cl = CHR '']'' \<or> cl = CHR ''}''"
    and eq: "comma_join (map f xs) @ cl # r = comma_join (map f ys) @ cl # r'"
  shows "xs = ys \<and> r = r'"
  using dec eq
proof (induction xs arbitrary: ys)
  case Nil
  then show ?case using ne [of "hd ys"] cl by (cases ys) (auto simp: comma_join_Cons delimited_def hd_append dest!: arg_cong [where f = hd])
next
  case (Cons x xs)
  show ?case
  proof (cases ys)
    case Nil
    with Cons.prems(2) ne [of x] cl show ?thesis
      by (auto simp: comma_join_Cons delimited_def hd_append dest!: arg_cong [where f = hd])
  next
    case ys: (Cons y ys')
    let ?rest = "\<lambda>zs r. (if zs = [] then [] else '','' @ comma_join (map f zs)) @ cl # r"
    have eq: "f x @ ?rest xs r = f y @ ?rest ys' r'"
      using Cons.prems(2) ys by (simp add: comma_join_Cons)
    moreover have "delimited (?rest zs q)" for zs q using cl by auto
    ultimately have x: "x = y" "?rest xs r = ?rest ys' r'"
      using Cons.prems(1) [of x "?rest xs r" y "?rest ys' r'"] by auto
    from x(2) cl have "xs = [] \<longleftrightarrow> ys' = []" by (auto split: if_splits)
    with x(2) cl have "comma_join (map f xs) @ cl # r = comma_join (map f ys') @ cl # r'"
      by (auto split: if_splits)
    with Cons.IH [of ys'] Cons.prems(1) have "xs = ys' \<and> r = r'" by auto
    with x ys show ?thesis by simp
  qed
qed

lemma number_text_inj:
  assumes "number_text num" "num a @ u = num b @ v" "delimited u" "delimited v"
  shows "a = b \<and> u = v"
proof -
  let ?D = "{CHR '','', CHR '']'', CHR ''}'', CHR '':''}"
  have "takeWhile (\<lambda>c. c \<notin> ?D) (num r @ w) = num r" if "delimited w" for r w
    using assms(1) that unfolding number_text_def list_all_iff delimited_def
    by (subst takeWhile_append2) (auto simp: takeWhile_eq_Nil_iff)
  with assms have "num a = num b" by metis
  with assms(1,2) show ?thesis by (auto simp: number_text_def dest: injD)
qed

lemma number_first: "number_text num \<Longrightarrow> hd (num r) \<notin> {CHR ''n'', CHR ''t'', CHR ''f'', CHR 0x22, CHR ''['', CHR ''{'',
    CHR '','', CHR '']'', CHR ''}'', CHR '':''}"
  by (auto simp: number_text_def digit_chars_def dest!: spec [where x = r]
      dest: arg_cong [where f = "of_char :: char \<Rightarrow> nat"])

lemma json_text_first:
  assumes "number_text num"
  shows "json_text num v \<noteq> [] \<and> hd (json_text num v) = first_char num v \<and> \<not> delimited (json_text num v)"
  using assms number_first [OF assms]
  by (cases v) (auto simp: json_quote_def delimited_def number_text_def)

lemma first_char_eq:
  assumes "number_text num" "first_char num v = first_char num w"
  shows "(v = JsonNull \<longleftrightarrow> w = JsonNull) \<and> (\<forall>b. v = JsonBool b \<longleftrightarrow> w = JsonBool b) \<and>
    ((\<exists>r. v = JsonNumber r) \<longleftrightarrow> (\<exists>r. w = JsonNumber r)) \<and> ((\<exists>s. v = JsonString s) \<longleftrightarrow> (\<exists>s. w = JsonString s)) \<and>
    ((\<exists>xs. v = JsonArray xs) \<longleftrightarrow> (\<exists>xs. w = JsonArray xs)) \<and> ((\<exists>ps. v = JsonObject ps) \<longleftrightarrow> (\<exists>ps. w = JsonObject ps))"
  using assms number_first [OF assms(1)] by (cases v; cases w) (auto split: if_splits; metis)+

lemma same_first:
  assumes "number_text num" "json_text num v @ x = json_text num w @ y"
  shows "first_char num v = first_char num w"
proof -
  have "hd (json_text num v @ x) = hd (json_text num w @ y)" using assms(2) by simp
  then show ?thesis using json_text_first [OF assms(1)] by (simp add: hd_append)
qed

lemmas same_kind = first_char_eq [OF _ same_first]

text \<open>The text of a value in front of a delimiter determines the value.\<close>

lemma json_text_inj:
  assumes num: "number_text num"
  shows "json_text num v @ x = json_text num w @ y \<Longrightarrow> delimited x \<Longrightarrow> delimited y \<Longrightarrow> v = w \<and> x = y"
proof (induction v arbitrary: w x y)
  case JsonNull
  from same_kind [OF num num JsonNull.prems(1)] have "w = JsonNull" by blast
  with JsonNull show ?case by simp
next
  case (JsonBool b)
  from same_kind [OF num num JsonBool.prems(1)] have "w = JsonBool b" by blast
  with JsonBool show ?case by simp
next
  case (JsonNumber r)
  from same_kind [OF num num JsonNumber.prems(1)] obtain r' where w: "w = JsonNumber r'" by blast
  with JsonNumber.prems(1) have "num r @ x = num r' @ y" by simp
  from number_text_inj [OF num this JsonNumber.prems(2,3)] w show ?case by simp
next
  case (JsonString s)
  from same_kind [OF num num JsonString.prems(1)] obtain s' where w: "w = JsonString s'" by blast
  with JsonString.prems(1) have "json_quote s @ x = json_quote s' @ y" by simp
  from json_quote_inj [OF this] w show ?case by simp
next
  case (JsonArray xs)
  from same_kind [OF num num JsonArray.prems(1)] obtain ys where w: "w = JsonArray ys" by blast
  with JsonArray.prems have "comma_join (map (json_text num) xs) @ CHR '']'' # x =
      comma_join (map (json_text num) ys) @ CHR '']'' # y" by simp
  then have "xs = ys \<and> x = y"
    by (rule comma_join_inj [rotated 3]) (use JsonArray.IH json_text_first [OF num] in \<open>auto\<close>)
  with w show ?case by simp
next
  case (JsonObject ps)
  from same_kind [OF num num JsonObject.prems(1)] obtain qs where w: "w = JsonObject qs" by blast
  let ?f = "\<lambda>(k, v). json_quote k @ '':'' @ json_text num v"
  have dec: "p = q \<and> u = u'"
    if "p \<in> set ps" "?f p @ u = ?f q @ u'" "delimited u" "delimited u'" for p q u u'
  proof -
    obtain k v k' v' where pq: "p = (k, v)" "q = (k', v')" by (cases p; cases q)
    with that(2) have "json_quote k @ (CHR '':'' # json_text num v @ u) = json_quote k' @ (CHR '':'' # json_text num v' @ u')"
      by simp
    from json_quote_inj [OF this] have "k = k'" "json_text num v @ u = json_text num v' @ u'" by auto
    moreover from this(2) JsonObject.IH [of p v u v' u'] that pq have "v = v' \<and> u = u'" by auto
    ultimately show ?thesis using pq by simp
  qed
  from w JsonObject.prems have "comma_join (map ?f ps) @ CHR ''}'' # x = comma_join (map ?f qs) @ CHR ''}'' # y" by simp
  then have "ps = qs \<and> x = y"
  proof (rule comma_join_inj [rotated 3])
    show "?f p \<noteq> [] \<and> \<not> delimited (?f p)" for p by (cases p) (simp add: json_quote_def delimited_def)
  qed (rule dec, assumption+, simp)
  with w show ?case by simp
qed

lemma stableStringify_inj:
  assumes "number_text num" "stableStringify num v = stableStringify num w"
  shows "normalizeForStableStringify v = normalizeForStableStringify w"
  using json_text_inj [OF assms(1), of "normalizeForStableStringify v" "[]" "normalizeForStableStringify w" "[]"] assms(2)
  by (simp add: stableStringify_def)

text \<open>The normal form does not depend on the order of properties.\<close>

lemma normalize_permutation:
  assumes "mset ps = mset qs" "distinct (map fst ps)"
  shows "normalizeForStableStringify (JsonObject ps) = normalizeForStableStringify (JsonObject qs)"
proof -
  let ?n = "map (\<lambda>(k, v). (k, normalizeForStableStringify v))"
  have "mset (?n ps) = mset (?n qs)" using assms(1) by simp
  moreover have "distinct (map fst (?n ps))" using assms(2) by (simp add: comp_def case_prod_unfold)
  ultimately have "sort_key fst (?n ps) = sort_key fst (?n qs)"
    by (intro sort_key_inj_key_eq) (auto simp only: distinct_map mset_sort sorted_sort_key)
  then show ?thesis by simp
qed

lemma set_own_order [simp]: "set (own_order ps) = set ps"
  by (auto simp: own_order_def)

lemma normalize_object_fields:
  assumes "normalizeForStableStringify (JsonObject ps) = normalizeForStableStringify (JsonObject qs)"
  shows "(\<lambda>(k, v). (k, normalizeForStableStringify v)) ` set ps = (\<lambda>(k, v). (k, normalizeForStableStringify v)) ` set qs"
proof -
  have "own_order (sort_key fst (map (\<lambda>(k, v). (k, normalizeForStableStringify v)) ps)) =
      own_order (sort_key fst (map (\<lambda>(k, v). (k, normalizeForStableStringify v)) qs))"
    using assms by simp
  from arg_cong [OF this, of set] show ?thesis by simp
qed

end
