(* ===== verification/Action_Gate.thy ===== *)
theory Action_Gate
  imports Stable_Json
begin

text \<open>
  The canonical mutating-action gate, src/src/security/friday-mutating-action-gate.ts: risk
  derivation, action digests, signed approvals and the evaluation of a request, with the set of
  consumed approvals as its state; and the requests built from system intents.

  The cryptographic functions of Node (\<open>createHash\<close>, \<open>createHmac\<close>, in hexadecimal), the text of
  numbers and \<open>Date.parse\<close> (\<open>None\<close> for a result that is not finite) are arguments, gathered in the
  record \<open>gate_lib\<close>. The clock reading and the fresh ticket id of one evaluation are arguments of
  the evaluation.
\<close>

section \<open>Requests, approvals and results\<close>

datatype FridayMutatingActionRisk = Read_Only | Low | Medium | High | Critical

datatype FridayMutatingActionDecision = Gate_Allow | Gate_Deny | Requires_Approval

datatype FridayCanonicalApprovalDecision = Approved | Denied

record FridayMutatingActionActor =
  act_kind :: string
  act_id :: string
  act_principalId :: "string option"
  act_displayName :: "string option"

record FridayMutatingActionResource =
  rsc_type :: string
  rsc_id :: "string option"
  rsc_displayName :: "string option"
  rsc_digest :: "string option"
  rsc_attributes :: "(string \<times> json) list option"

record FridayMutatingActionRollbackScope =
  rb_planned :: bool
  rb_planDigest :: "string option"
  rb_actions :: "string list option"

record FridayMutatingActionLocalClaim =
  lc_guardId :: string
  lc_decision :: FridayMutatingActionDecision
  lc_risk :: "FridayMutatingActionRisk option"
  lc_reason :: "string option"
  lc_evidence :: "(string \<times> json) list option"

record FridayCanonicalApprovalResolution =
  ca_decision :: FridayCanonicalApprovalDecision
  ca_approvalId :: string
  ca_decidedByPrincipalId :: string
  ca_actionDigest :: string
  ca_reason :: "string option"
  ca_expiresAt :: "string option"
  ca_childOfLifecycleTicketId :: "string option"
  ca_issuer :: "string option"
  ca_signature :: "string option"

record FridayMutatingActionRequest =
  rq_action :: string
  rq_actor :: FridayMutatingActionActor
  rq_surface :: string
  rq_resource :: FridayMutatingActionResource
  rq_mutating :: bool
  rq_risk :: "FridayMutatingActionRisk option"
  rq_parameters :: "(string \<times> json) list option"
  rq_planDigest :: "string option"
  rq_rollback :: "FridayMutatingActionRollbackScope option"
  rq_idempotencyKey :: "string option"
  rq_localClaims :: "FridayMutatingActionLocalClaim list option"
  rq_canonicalApproval :: "FridayCanonicalApprovalResolution option"
  rq_requestedAt :: "string option"

record FridaySystemIntentGateInput =
  si_action :: "string option"
  si_actorId :: "string option"
  si_actorKind :: "string option"
  si_target :: "string option"
  si_targetKind :: "string option"
  si_appIdentifier :: "string option"
  si_windowId :: "string option"
  si_url :: "string option"
  si_projectPath :: "string option"
  si_query :: "string option"
  si_value :: "string option"
  si_notificationId :: "string option"
  si_notificationAction :: "string option"
  si_approvalId :: "string option"
  si_deviceId :: "string option"
  si_riskLevel :: "string option"
  si_reason :: "string option"
  si_force :: "bool option"
  si_leaseTtlMs :: "rat option"
  si_layout :: "string option"
  si_idempotencyKey :: "string option"

record FridaySystemIntentGateRequestOptions =
  so_surface :: "string option"
  so_defaultActorKind :: "string option"
  so_defaultActorId :: "string option"
  so_localClaims :: "FridayMutatingActionLocalClaim list option"

record FridayMutatingActionTicket =
  tk_ticketId :: string
  tk_actionDigest :: string
  tk_action :: string
  tk_actor :: FridayMutatingActionActor
  tk_surface :: string
  tk_resource :: FridayMutatingActionResource
  tk_risk :: FridayMutatingActionRisk
  tk_approvalId :: string
  tk_approvedByPrincipalId :: string
  tk_issuedAt :: string
  tk_expiresAt :: "string option"
  tk_planDigest :: "string option"
  tk_childOfLifecycleTicketId :: "string option"
  tk_idempotencyKey :: "string option"

record FridayMutatingActionGateEvidenceRecord =
  er_evaluatedAt :: string
  er_decision :: FridayMutatingActionDecision
  er_reason :: string
  er_actionDigest :: string
  er_action :: string
  er_actor :: FridayMutatingActionActor
  er_surface :: string
  er_resource :: FridayMutatingActionResource
  er_mutating :: bool
  er_risk :: FridayMutatingActionRisk
  er_approvalRequired :: bool
  er_deniedBy :: "string option"
  er_ticketId :: "string option"
  er_approvalId :: "string option"
  er_planDigest :: "string option"
  er_rollback :: "FridayMutatingActionRollbackScope option"
  er_localClaims :: "FridayMutatingActionLocalClaim list"

record FridayMutatingActionGateResult =
  gr_decision :: FridayMutatingActionDecision
  gr_reason :: string
  gr_risk :: FridayMutatingActionRisk
  gr_actionDigest :: string
  gr_approvalRequired :: bool
  gr_deniedBy :: "string option"
  gr_ticket :: "FridayMutatingActionTicket option"
  gr_localClaims :: "FridayMutatingActionLocalClaim list"
  gr_evidenceRecord :: FridayMutatingActionGateEvidenceRecord

record gate_lib =
  gl_sha256 :: "string \<Rightarrow> string"
  gl_hmac :: "string \<Rightarrow> string \<Rightarrow> string"
  gl_num :: "rat \<Rightarrow> string"
  gl_dateParse :: "string \<Rightarrow> int option"

record FridayMutatingActionGateOptions =
  go_approvalSignatureSecret :: "string option"
  go_requireApprovalSignature :: bool

section \<open>Risk\<close>

fun RISK_WEIGHT :: "FridayMutatingActionRisk \<Rightarrow> int" where
  "RISK_WEIGHT Read_Only = 0"
| "RISK_WEIGHT Low = 1"
| "RISK_WEIGHT Medium = 2"
| "RISK_WEIGHT High = 3"
| "RISK_WEIGHT Critical = 4"

fun risk_name :: "FridayMutatingActionRisk \<Rightarrow> string" where
  "risk_name Read_Only = ''read_only''"
| "risk_name Low = ''low''"
| "risk_name Medium = ''medium''"
| "risk_name High = ''high''"
| "risk_name Critical = ''critical''"

definition compareFridayMutatingActionRisk :: "FridayMutatingActionRisk \<Rightarrow> FridayMutatingActionRisk \<Rightarrow> int" where
  "compareFridayMutatingActionRisk left right = RISK_WEIGHT left - RISK_WEIGHT right"

definition isFridayMutatingActionRiskAtLeast :: "FridayMutatingActionRisk \<Rightarrow> FridayMutatingActionRisk \<Rightarrow> bool" where
  "isFridayMutatingActionRiskAtLeast risk minimum = (compareFridayMutatingActionRisk risk minimum \<ge> 0)"

definition raise_risk :: "FridayMutatingActionLocalClaim \<Rightarrow> FridayMutatingActionRisk \<Rightarrow> FridayMutatingActionRisk" where
  "raise_risk claim risk =
     (case lc_risk claim of
        None \<Rightarrow> risk
      | Some r \<Rightarrow> if compareFridayMutatingActionRisk r risk > 0 then r else risk)"

definition claims_of :: "FridayMutatingActionRequest \<Rightarrow> FridayMutatingActionLocalClaim list" where
  "claims_of request = case_option [] id (rq_localClaims request)"

definition deriveFridayMutatingActionRisk :: "FridayMutatingActionRequest \<Rightarrow> FridayMutatingActionRisk" where
  "deriveFridayMutatingActionRisk request =
     fold raise_risk (claims_of request)
       (case rq_risk request of Some risk \<Rightarrow> risk | None \<Rightarrow> if rq_mutating request then Medium else Read_Only)"

definition requiresCanonicalApproval ::
    "FridayMutatingActionRequest \<Rightarrow> FridayMutatingActionRisk \<Rightarrow> FridayMutatingActionLocalClaim list \<Rightarrow> bool" where
  "requiresCanonicalApproval request risk localClaims =
     (if rq_mutating request then True
      else if isFridayMutatingActionRiskAtLeast risk High then True
      else list_ex (\<lambda>claim. lc_decision claim = Requires_Approval) localClaims)"

section \<open>Reserved actions\<close>

definition AGENT_RESERVED_APPROVAL_ACTIONS :: "string list" where
  "AGENT_RESERVED_APPROVAL_ACTIONS = [''approve'', ''deny'', ''system.approve'', ''system.deny'']"

definition isFridayReservedApprovalActionForActor :: "FridayMutatingActionRequest \<Rightarrow> bool" where
  "isFridayReservedApprovalActionForActor request =
     (if act_kind (rq_actor request) \<noteq> ''agent'' then False
      else
        (let normalizedAction = js_lower (js_trim (rq_action request)) in
         if normalizedAction \<in> set AGENT_RESERVED_APPROVAL_ACTIONS then True
         else rq_surface request = ''system'' \<and> normalizedAction \<in> set AGENT_RESERVED_APPROVAL_ACTIONS))"

section \<open>Digests and signatures\<close>

definition rollback_json :: "FridayMutatingActionRollbackScope \<Rightarrow> json" where
  "rollback_json rb = JsonObject (
     [(''planned'', JsonBool (rb_planned rb))] @
     opt_field ''planDigest'' JsonString (rb_planDigest rb) @
     opt_field ''actions'' (\<lambda>xs. JsonArray (map JsonString xs)) (rb_actions rb))"

definition action_payload :: "FridayMutatingActionRequest \<Rightarrow> FridayMutatingActionRisk \<Rightarrow> json" where
  "action_payload request effectiveRisk = JsonObject (
     [(''version'', JsonNumber 1),
      (''action'', JsonString (rq_action request)),
      (''actor'', JsonObject (
         [(''kind'', JsonString (act_kind (rq_actor request))), (''id'', JsonString (act_id (rq_actor request)))] @
         opt_field ''principalId'' JsonString (act_principalId (rq_actor request)))),
      (''surface'', JsonString (rq_surface request)),
      (''resource'', JsonObject (
         [(''type'', JsonString (rsc_type (rq_resource request)))] @
         opt_field ''id'' JsonString (rsc_id (rq_resource request)) @
         opt_field ''digest'' JsonString (rsc_digest (rq_resource request)) @
         opt_field ''attributes'' JsonObject (rsc_attributes (rq_resource request)))),
      (''mutating'', JsonBool (rq_mutating request)),
      (''risk'', JsonString (risk_name effectiveRisk))] @
     opt_field ''parameters'' JsonObject (rq_parameters request) @
     opt_field ''planDigest'' JsonString (rq_planDigest request) @
     opt_field ''rollback'' rollback_json (rq_rollback request) @
     opt_field ''idempotencyKey'' JsonString (rq_idempotencyKey request))"

definition createFridayMutatingActionDigest ::
    "gate_lib \<Rightarrow> FridayMutatingActionRequest \<Rightarrow> FridayMutatingActionRisk \<Rightarrow> string" where
  "createFridayMutatingActionDigest lib request effectiveRisk =
     gl_sha256 lib (stableStringify (gl_num lib) (action_payload request effectiveRisk))"

fun approval_decision_name :: "FridayCanonicalApprovalDecision \<Rightarrow> string" where
  "approval_decision_name Approved = ''approved''"
| "approval_decision_name Denied = ''denied''"

definition createCanonicalApprovalSignaturePayload :: "FridayCanonicalApprovalResolution \<Rightarrow> json" where
  "createCanonicalApprovalSignaturePayload approval = JsonObject (
     [(''version'', JsonNumber 1),
      (''decision'', JsonString (approval_decision_name (ca_decision approval))),
      (''approvalId'', JsonString (ca_approvalId approval)),
      (''decidedByPrincipalId'', JsonString (ca_decidedByPrincipalId approval)),
      (''actionDigest'', JsonString (ca_actionDigest approval))] @
     opt_field ''reason'' JsonString (ca_reason approval) @
     opt_field ''expiresAt'' JsonString (ca_expiresAt approval) @
     opt_field ''childOfLifecycleTicketId'' JsonString (ca_childOfLifecycleTicketId approval))"

definition createFridayCanonicalApprovalSignature :: "gate_lib \<Rightarrow> FridayCanonicalApprovalResolution \<Rightarrow> string \<Rightarrow> string" where
  "createFridayCanonicalApprovalSignature lib approval secret =
     gl_hmac lib secret (stableStringify (gl_num lib) (createCanonicalApprovalSignaturePayload approval))"

definition signFridayCanonicalApproval ::
    "gate_lib \<Rightarrow> FridayCanonicalApprovalResolution \<Rightarrow> string \<Rightarrow> FridayCanonicalApprovalResolution" where
  "signFridayCanonicalApproval lib approval secret =
     approval\<lparr>ca_issuer := Some ''friday_canonical_gate'',
       ca_signature := Some (createFridayCanonicalApprovalSignature lib approval secret)\<rparr>"

definition hex_value :: "char \<Rightarrow> nat option" where
  "hex_value c =
     (let n = of_char c :: nat in
      if 48 \<le> n \<and> n \<le> 57 then Some (n - 48)
      else if 97 \<le> n \<and> n \<le> 102 then Some (n - 87)
      else if 65 \<le> n \<and> n \<le> 70 then Some (n - 55)
      else None)"

text \<open>\<open>Buffer.from(s, "hex")\<close>: the bytes up to the first pair that is not hexadecimal.\<close>

fun hex_bytes :: "string \<Rightarrow> nat list" where
  "hex_bytes (a # b # s) =
     (case (hex_value a, hex_value b) of
        (Some x, Some y) \<Rightarrow> (16 * x + y) # hex_bytes s
      | _ \<Rightarrow> [])"
| "hex_bytes _ = []"

definition normalizeCanonicalApprovalSignatureText :: "string option \<Rightarrow> string option" where
  "normalizeCanonicalApprovalSignatureText signature =
     (case signature of
        None \<Rightarrow> None
      | Some s \<Rightarrow> if length s = 64 \<and> list_all (\<lambda>c. hex_value c \<noteq> None) s then Some (js_lower s) else None)"

definition verifyFridayCanonicalApprovalSignature :: "gate_lib \<Rightarrow> FridayCanonicalApprovalResolution \<Rightarrow> string \<Rightarrow> bool" where
  "verifyFridayCanonicalApprovalSignature lib approval secret =
     (if ca_issuer approval \<noteq> Some ''friday_canonical_gate'' \<or> ca_signature approval = None then False
      else case normalizeCanonicalApprovalSignatureText (ca_signature approval) of
             None \<Rightarrow> False
           | Some normalizedSignature \<Rightarrow>
               (let expected = createFridayCanonicalApprovalSignature lib approval secret;
                    actualBuffer = hex_bytes normalizedSignature; expectedBuffer = hex_bytes expected
                in length actualBuffer = length expectedBuffer \<and> actualBuffer = expectedBuffer))"

definition createCanonicalApprovalUseKey :: "FridayCanonicalApprovalResolution \<Rightarrow> string" where
  "createCanonicalApprovalUseKey approval =
     ca_approvalId approval @ '':'' @ ca_actionDigest approval @ '':'' @ case_option [] id (ca_issuer approval) @ '':'' @
     case_option [] id (normalizeCanonicalApprovalSignatureText (ca_signature approval))"

section \<open>Evaluation\<close>

definition gate_result ::
    "FridayMutatingActionRequest \<Rightarrow> string \<Rightarrow> FridayMutatingActionRisk \<Rightarrow> FridayMutatingActionLocalClaim list \<Rightarrow> string
     \<Rightarrow> FridayMutatingActionDecision \<Rightarrow> string \<Rightarrow> bool \<Rightarrow> string option \<Rightarrow> FridayMutatingActionTicket option \<Rightarrow> string option
     \<Rightarrow> FridayMutatingActionGateResult" where
  "gate_result request actionDigest risk localClaims evaluatedAt decision reason approvalRequired deniedBy ticket approvalId =
     \<lparr>gr_decision = decision, gr_reason = reason, gr_risk = risk, gr_actionDigest = actionDigest,
      gr_approvalRequired = approvalRequired, gr_deniedBy = deniedBy, gr_ticket = ticket, gr_localClaims = localClaims,
      gr_evidenceRecord =
        \<lparr>er_evaluatedAt = evaluatedAt, er_decision = decision, er_reason = reason, er_actionDigest = actionDigest,
         er_action = rq_action request, er_actor = rq_actor request, er_surface = rq_surface request,
         er_resource = rq_resource request, er_mutating = rq_mutating request, er_risk = risk,
         er_approvalRequired = approvalRequired, er_deniedBy = deniedBy, er_ticketId = map_option tk_ticketId ticket,
         er_approvalId = or_else approvalId (map_option tk_approvalId ticket), er_planDigest = rq_planDigest request,
         er_rollback = rq_rollback request, er_localClaims = localClaims\<rparr>\<rparr>"

text \<open>The checks of an approval that was given: a reason to deny the request, if there is one.\<close>

definition approval_objection ::
    "gate_lib \<Rightarrow> FridayMutatingActionGateOptions \<Rightarrow> string \<Rightarrow> FridayCanonicalApprovalResolution \<Rightarrow> string option" where
  "approval_objection lib options evaluatedAt approval =
     (if ca_decision approval = Approved \<and>
         (go_requireApprovalSignature options \<or> go_approvalSignatureSecret options \<noteq> None) \<and>
         (case go_approvalSignatureSecret options of
            None \<Rightarrow> True | Some secret \<Rightarrow> \<not> verifyFridayCanonicalApprovalSignature lib approval secret)
      then Some ''canonical_approval_signature_invalid''
      else if ca_decision approval = Denied
      then Some (case_option ''canonical_approval_denied'' id (ca_reason approval))
      else case ca_expiresAt approval of
             None \<Rightarrow> Some ''canonical_approval_expiration_required''
           | Some expiresAt \<Rightarrow>
               (case (gl_dateParse lib expiresAt, gl_dateParse lib evaluatedAt) of
                  (Some approvalExpiresAtMs, Some evaluatedAtMs) \<Rightarrow>
                    if approvalExpiresAtMs \<le> evaluatedAtMs then Some ''canonical_approval_expired'' else None
                | _ \<Rightarrow> Some ''canonical_approval_expiration_invalid''))"

definition make_ticket ::
    "string \<Rightarrow> FridayMutatingActionRequest \<Rightarrow> string \<Rightarrow> FridayMutatingActionRisk \<Rightarrow> string
     \<Rightarrow> FridayCanonicalApprovalResolution \<Rightarrow> FridayMutatingActionTicket" where
  "make_ticket ticketId request actionDigest risk evaluatedAt approval =
     \<lparr>tk_ticketId = ticketId, tk_actionDigest = actionDigest, tk_action = rq_action request,
      tk_actor = rq_actor request, tk_surface = rq_surface request, tk_resource = rq_resource request, tk_risk = risk,
      tk_approvalId = ca_approvalId approval, tk_approvedByPrincipalId = ca_decidedByPrincipalId approval,
      tk_issuedAt = evaluatedAt, tk_expiresAt = ca_expiresAt approval, tk_planDigest = rq_planDigest request,
      tk_childOfLifecycleTicketId = ca_childOfLifecycleTicketId approval,
      tk_idempotencyKey = rq_idempotencyKey request\<rparr>"

definition gate_evaluate ::
    "gate_lib \<Rightarrow> FridayMutatingActionGateOptions \<Rightarrow> string \<Rightarrow> string \<Rightarrow> FridayMutatingActionRequest \<Rightarrow> string list
     \<Rightarrow> FridayMutatingActionGateResult \<times> string list" where
  "gate_evaluate lib options evaluatedAt ticketId request consumed =
     (let localClaims = claims_of request;
          risk = deriveFridayMutatingActionRisk request;
          actionDigest = createFridayMutatingActionDigest lib request risk;
          answer = gate_result request actionDigest risk localClaims evaluatedAt
      in if isFridayReservedApprovalActionForActor request
      then (answer Gate_Deny ''agent_cannot_execute_reserved_approval_action'' False (Some ''canonical_gate'') None None, consumed)
      else case List.find (\<lambda>claim. lc_decision claim = Gate_Deny) localClaims of
        Some localDeny \<Rightarrow>
          (answer Gate_Deny (case_option ''local_guard_denied'' id (lc_reason localDeny)) False (Some (lc_guardId localDeny))
             None None, consumed)
      | None \<Rightarrow>
     (let approvalRequired = requiresCanonicalApproval request risk localClaims in
      case rq_canonicalApproval request of
        None \<Rightarrow>
          if \<not> approvalRequired
          then (answer Gate_Allow ''read_only_action_allowed_without_ticket'' False None None None, consumed)
          else (answer Requires_Approval ''canonical_approval_required'' True None None None, consumed)
      | Some approval \<Rightarrow>
          if ca_actionDigest approval \<noteq> actionDigest
          then (answer Gate_Deny ''canonical_approval_digest_mismatch'' approvalRequired (Some ''canonical_gate'') None None, consumed)
          else case approval_objection lib options evaluatedAt approval of
            Some why \<Rightarrow>
              (answer Gate_Deny why approvalRequired (Some ''canonical_gate'') None (Some (ca_approvalId approval)), consumed)
          | None \<Rightarrow>
              if \<not> approvalRequired
              then (answer Gate_Allow ''read_only_action_allowed_without_ticket'' False None None None, consumed)
              else let useKey = createCanonicalApprovalUseKey approval in
                if useKey \<in> set consumed
                then (answer Gate_Deny ''canonical_approval_already_used'' True (Some ''canonical_gate'') None
                        (Some (ca_approvalId approval)), consumed)
                else (answer Gate_Allow ''canonical_approval_ticket_issued'' True None
                        (Some (make_ticket ticketId request actionDigest risk evaluatedAt approval))
                        (Some (ca_approvalId approval)), consumed @ [useKey])))"

section \<open>System intents\<close>

definition SYSTEM_MUTATING_INTENTS :: "string list" where
  "SYSTEM_MUTATING_INTENTS =
     [''open'', ''focus'', ''arrange_windows'', ''launch_app'', ''close_app'', ''open_url'', ''open_project'',
      ''handoff_to_browser'', ''handoff_to_terminal'', ''notification_act'', ''resume_task'', ''recover_ui'',
      ''clipboard_read'', ''clipboard_write'', ''request_control'', ''release_control'', ''approve'', ''deny'']"

definition SYSTEM_HIGH_RISK_INTENTS :: "string list" where
  "SYSTEM_HIGH_RISK_INTENTS = [''approve'', ''deny'', ''close_app'', ''clipboard_read'', ''notification_act'']"

definition SYSTEM_MEDIUM_RISK_INTENTS :: "string list" where
  "SYSTEM_MEDIUM_RISK_INTENTS =
     [''arrange_windows'', ''launch_app'', ''open'', ''open_url'', ''open_project'', ''handoff_to_browser'',
      ''handoff_to_terminal'', ''clipboard_write'', ''request_control'', ''release_control'', ''resume_task'',
      ''recover_ui'']"

definition isFridaySystemIntentMutatingAction :: "string \<Rightarrow> bool" where
  "isFridaySystemIntentMutatingAction action = (action \<in> set SYSTEM_MUTATING_INTENTS)"

definition mapSystemRiskLevel :: "string option \<Rightarrow> string \<Rightarrow> FridayMutatingActionRisk" where
  "mapSystemRiskLevel riskLevel action =
     (if riskLevel = Some ''critical'' then Critical
      else if riskLevel = Some ''high'' then High
      else if riskLevel = Some ''medium'' then Medium
      else if riskLevel = Some ''low'' then Low
      else if riskLevel = Some ''none'' then Read_Only
      else if action \<in> set SYSTEM_HIGH_RISK_INTENTS then High
      else if action \<in> set SYSTEM_MEDIUM_RISK_INTENTS then Medium
      else if isFridaySystemIntentMutatingAction action then Low else Read_Only)"

text \<open>\<open>input.action?.trim() || "unknown"\<close>.\<close>

definition intent_action :: "FridaySystemIntentGateInput \<Rightarrow> string" where
  "intent_action input =
     (case map_option js_trim (si_action input) of None \<Rightarrow> ''unknown'' | Some a \<Rightarrow> if a = [] then ''unknown'' else a)"

definition createSystemIntentResource :: "FridaySystemIntentGateInput \<Rightarrow> FridayMutatingActionResource" where
  "createSystemIntentResource input =
     (let action = intent_action input;
          resourceId = or_else (si_appIdentifier input) (or_else (si_windowId input) (or_else (si_url input)
            (or_else (si_projectPath input) (or_else (si_notificationId input) (or_else (si_approvalId input)
            (or_else (si_deviceId input) (or_else (si_target input) (Some action))))))))
      in \<lparr>rsc_type = ''system_intent'', rsc_id = resourceId, rsc_displayName = None, rsc_digest = None,
          rsc_attributes = Some (
            [(''action'', JsonString action)] @
            opt_field ''targetKind'' JsonString (si_targetKind input) @
            opt_field ''windowId'' JsonString (si_windowId input) @
            opt_field ''notificationAction'' JsonString (si_notificationAction input) @
            opt_field ''layout'' JsonString (si_layout input) @
            opt_field ''force'' JsonBool (si_force input))\<rparr>)"

definition createSystemIntentDigestParameters :: "FridaySystemIntentGateInput \<Rightarrow> (string \<times> json) list" where
  "createSystemIntentDigestParameters input =
     opt_field ''target'' JsonString (si_target input) @
     opt_field ''targetKind'' JsonString (si_targetKind input) @
     opt_field ''appIdentifier'' JsonString (si_appIdentifier input) @
     opt_field ''windowId'' JsonString (si_windowId input) @
     opt_field ''url'' JsonString (si_url input) @
     opt_field ''projectPath'' JsonString (si_projectPath input) @
     opt_field ''query'' JsonString (si_query input) @
     opt_field ''value'' JsonString (si_value input) @
     opt_field ''notificationId'' JsonString (si_notificationId input) @
     opt_field ''notificationAction'' JsonString (si_notificationAction input) @
     opt_field ''approvalId'' JsonString (si_approvalId input) @
     opt_field ''deviceId'' JsonString (si_deviceId input) @
     opt_field ''riskLevel'' JsonString (si_riskLevel input) @
     opt_field ''reason'' JsonString (si_reason input) @
     opt_field ''force'' JsonBool (si_force input) @
     opt_field ''leaseTtlMs'' JsonNumber (si_leaseTtlMs input) @
     opt_field ''layout'' JsonString (si_layout input)"

definition createFridaySystemIntentMutatingActionRequest ::
    "FridaySystemIntentGateInput \<Rightarrow> FridaySystemIntentGateRequestOptions \<Rightarrow> FridayMutatingActionRequest" where
  "createFridaySystemIntentMutatingActionRequest input options =
     (let action = intent_action input;
          actorKind = case_option ''api'' id (or_else (si_actorKind input) (so_defaultActorKind options));
          actorId = case_option (actorKind @ '':system-intent'') id (or_else (si_actorId input) (so_defaultActorId options))
      in \<lparr>rq_action = ''system.'' @ action,
          rq_actor = \<lparr>act_kind = actorKind, act_id = actorId, act_principalId = Some actorId, act_displayName = None\<rparr>,
          rq_surface = case_option ''system'' id (so_surface options),
          rq_resource = createSystemIntentResource input,
          rq_mutating = isFridaySystemIntentMutatingAction action,
          rq_risk = Some (mapSystemRiskLevel (si_riskLevel input) action),
          rq_parameters = Some (createSystemIntentDigestParameters input), rq_planDigest = None, rq_rollback = None,
          rq_idempotencyKey = si_idempotencyKey input, rq_localClaims = so_localClaims options,
          rq_canonicalApproval = None, rq_requestedAt = None\<rparr>)"

section \<open>Specification vocabulary\<close>

text \<open>A sequence of evaluations by one gate: the requests and the results, each with its clock reading and ticket id.\<close>

type_synonym gate_call = "string \<times> string \<times> FridayMutatingActionRequest"

fun gate_run ::
    "gate_lib \<Rightarrow> FridayMutatingActionGateOptions \<Rightarrow> gate_call list \<Rightarrow> string list
     \<Rightarrow> (FridayMutatingActionRequest \<times> FridayMutatingActionGateResult) list" where
  "gate_run lib options [] consumed = []"
| "gate_run lib options ((tm, tid, request) # calls) consumed =
     (case gate_evaluate lib options tm tid request consumed of
        (result, consumed') \<Rightarrow> (request, result) # gate_run lib options calls consumed')"

text \<open>The approvals that gave a ticket in a run, by the key of their use.\<close>

definition ticket_keys :: "(FridayMutatingActionRequest \<times> FridayMutatingActionGateResult) list \<Rightarrow> string list" where
  "ticket_keys run = concat (map (\<lambda>(request, result).
     case (gr_ticket result, rq_canonicalApproval request) of
       (Some _, Some approval) \<Rightarrow> [createCanonicalApprovalUseKey approval] | _ \<Rightarrow> []) run)"

text \<open>An approval that is good for a request at a time.\<close>

definition approval_good ::
    "gate_lib \<Rightarrow> FridayMutatingActionGateOptions \<Rightarrow> string \<Rightarrow> FridayMutatingActionRequest
     \<Rightarrow> FridayCanonicalApprovalResolution \<Rightarrow> bool" where
  "approval_good lib options tm request approval \<longleftrightarrow>
     ca_decision approval = Approved \<and>
     ca_actionDigest approval =
       createFridayMutatingActionDigest lib request (deriveFridayMutatingActionRisk request) \<and>
     (\<exists>expiresAt e n. ca_expiresAt approval = Some expiresAt \<and> gl_dateParse lib expiresAt = Some e \<and>
        gl_dateParse lib tm = Some n \<and> n < e) \<and>
     (case go_approvalSignatureSecret options of
        Some secret \<Rightarrow> verifyFridayCanonicalApprovalSignature lib approval secret
      | None \<Rightarrow> \<not> go_requireApprovalSignature options)"

text \<open>An action that needs an approval: it mutates, its own or a claimed risk is high, or a guard asks for one.\<close>

definition needs_approval :: "FridayMutatingActionRequest \<Rightarrow> bool" where
  "needs_approval request \<longleftrightarrow> rq_mutating request \<or>
     (\<exists>r \<in> insert (case_option Read_Only id (rq_risk request)) (set (List.map_filter lc_risk (claims_of request))). r \<in> {High, Critical}) \<or>
     (\<exists>claim \<in> set (claims_of request). lc_decision claim = Requires_Approval)"

text \<open>Hash functions give 64 lower-case hexadecimal digits.\<close>

definition hex_digest :: "string \<Rightarrow> bool" where
  "hex_digest s \<longleftrightarrow> length s = 64 \<and> list_all (\<lambda>c. hex_value c \<noteq> None \<and> lower_char c = c) s"

text \<open>Two requests for the same action, as far as an approval is concerned.\<close>

definition same_action :: "FridayMutatingActionRequest \<Rightarrow> FridayMutatingActionRequest \<Rightarrow> bool" where
  "same_action p q \<longleftrightarrow>
     rq_action p = rq_action q \<and> act_kind (rq_actor p) = act_kind (rq_actor q) \<and> act_id (rq_actor p) = act_id (rq_actor q) \<and>
     act_principalId (rq_actor p) = act_principalId (rq_actor q) \<and> rq_surface p = rq_surface q \<and>
     rsc_type (rq_resource p) = rsc_type (rq_resource q) \<and> rsc_id (rq_resource p) = rsc_id (rq_resource q) \<and>
     rsc_digest (rq_resource p) = rsc_digest (rq_resource q) \<and>
     map_option (normalizeForStableStringify \<circ> JsonObject) (rsc_attributes (rq_resource p)) =
       map_option (normalizeForStableStringify \<circ> JsonObject) (rsc_attributes (rq_resource q)) \<and>
     rq_mutating p = rq_mutating q \<and> deriveFridayMutatingActionRisk p = deriveFridayMutatingActionRisk q \<and>
     map_option (normalizeForStableStringify \<circ> JsonObject) (rq_parameters p) =
       map_option (normalizeForStableStringify \<circ> JsonObject) (rq_parameters q) \<and>
     rq_planDigest p = rq_planDigest q \<and> rq_rollback p = rq_rollback q \<and> rq_idempotencyKey p = rq_idempotencyKey q"

text \<open>A number text for witnesses: the fraction, in decimal.\<close>

definition fraction_text :: "rat \<Rightarrow> string" where
  "fraction_text r = show_int (fst (quotient_of r)) @ ''/'' @ show_int (snd (quotient_of r))"

definition sample_lib :: gate_lib where
  "sample_lib =
     \<lparr>gl_sha256 = \<lambda>s. s, gl_hmac = \<lambda>k m. replicate 64 (CHR ''0''), gl_num = fraction_text,
      gl_dateParse = \<lambda>s. Some (int (length s))\<rparr>"

definition sample_request :: "FridayCanonicalApprovalResolution option \<Rightarrow> FridayMutatingActionRequest" where
  "sample_request approval =
     \<lparr>rq_action = ''file.write'',
      rq_actor = \<lparr>act_kind = ''agent'', act_id = ''a'', act_principalId = None, act_displayName = None\<rparr>,
      rq_surface = ''tool'',
      rq_resource = \<lparr>rsc_type = ''file'', rsc_id = Some ''f'', rsc_displayName = None, rsc_digest = None,
        rsc_attributes = None\<rparr>,
      rq_mutating = True, rq_risk = None, rq_parameters = None, rq_planDigest = None, rq_rollback = None,
      rq_idempotencyKey = None, rq_localClaims = None, rq_canonicalApproval = approval, rq_requestedAt = None\<rparr>"

definition sample_approval :: FridayCanonicalApprovalResolution where
  "sample_approval =
     \<lparr>ca_decision = Approved, ca_approvalId = ''ap'', ca_decidedByPrincipalId = ''user'',
      ca_actionDigest = createFridayMutatingActionDigest sample_lib (sample_request None) Medium,
      ca_reason = None, ca_expiresAt = Some ''tt'', ca_childOfLifecycleTicketId = None, ca_issuer = None,
      ca_signature = None\<rparr>"

definition sample_options :: FridayMutatingActionGateOptions where
  "sample_options = \<lparr>go_approvalSignatureSecret = None, go_requireApprovalSignature = False\<rparr>"

definition sample_intent :: FridaySystemIntentGateInput where
  "sample_intent =
     \<lparr>si_action = Some '' open_url '', si_actorId = None, si_actorKind = Some ''agent'', si_target = None,
      si_targetKind = None, si_appIdentifier = None, si_windowId = None, si_url = Some ''u'', si_projectPath = None,
      si_query = None, si_value = None, si_notificationId = None, si_notificationAction = None, si_approvalId = None,
      si_deviceId = None, si_riskLevel = Some ''none'', si_reason = None, si_force = None, si_leaseTtlMs = None,
      si_layout = None, si_idempotencyKey = None\<rparr>"

definition sample_intent_options :: FridaySystemIntentGateRequestOptions where
  "sample_intent_options =
     \<lparr>so_surface = None, so_defaultActorKind = None, so_defaultActorId = None, so_localClaims = None\<rparr>"

text \<open>Two approvals that say the same, and a pair of texts on which a hash function collides.\<close>

definition same_approval :: "FridayCanonicalApprovalResolution \<Rightarrow> FridayCanonicalApprovalResolution \<Rightarrow> bool" where
  "same_approval a b \<longleftrightarrow>
     ca_decision a = ca_decision b \<and> ca_approvalId a = ca_approvalId b \<and>
     ca_decidedByPrincipalId a = ca_decidedByPrincipalId b \<and> ca_actionDigest a = ca_actionDigest b \<and>
     ca_reason a = ca_reason b \<and> ca_expiresAt a = ca_expiresAt b \<and>
     ca_childOfLifecycleTicketId a = ca_childOfLifecycleTicketId b"

definition collision :: "(string \<Rightarrow> string) \<Rightarrow> string \<Rightarrow> string \<Rightarrow> bool" where
  "collision h s t \<longleftrightarrow> s \<noteq> t \<and> h s = h t"

definition action_text :: "gate_lib \<Rightarrow> FridayMutatingActionRequest \<Rightarrow> string" where
  "action_text lib request = stableStringify (gl_num lib) (action_payload request (deriveFridayMutatingActionRisk request))"

definition approval_text :: "gate_lib \<Rightarrow> FridayCanonicalApprovalResolution \<Rightarrow> string" where
  "approval_text lib approval = stableStringify (gl_num lib) (createCanonicalApprovalSignaturePayload approval)"

section \<open>Lemmas\<close>



lemma RISK_WEIGHT_inj: "RISK_WEIGHT a = RISK_WEIGHT b \<longleftrightarrow> a = b"
  by (cases a; cases b) simp_all

lemma raise_risk_weight:
  "RISK_WEIGHT (raise_risk claim risk) =
     max (RISK_WEIGHT risk) (case lc_risk claim of None \<Rightarrow> 0 | Some r \<Rightarrow> RISK_WEIGHT r)"
  by (cases risk) (auto simp: raise_risk_def compareFridayMutatingActionRisk_def max_def split: option.splits)

lemma high_weight: "r \<in> {High, Critical} \<longleftrightarrow> 3 \<le> RISK_WEIGHT r"
  by (cases r) simp_all

lemma fold_raise_high:
  "3 \<le> RISK_WEIGHT (fold raise_risk claims risk) \<longleftrightarrow>
     3 \<le> RISK_WEIGHT risk \<or> (\<exists>r\<in>set (List.map_filter lc_risk claims). 3 \<le> RISK_WEIGHT r)"
  by (induction claims arbitrary: risk)
    (auto simp: raise_risk_weight List.map_filter_simps split: option.splits)

text \<open>The gate asks for an approval exactly when the action needs one.\<close>

lemma requires_needs:
  "requiresCanonicalApproval request (deriveFridayMutatingActionRisk request) (claims_of request) \<longleftrightarrow> needs_approval request"
proof -
  have "isFridayMutatingActionRiskAtLeast (deriveFridayMutatingActionRisk request) High \<longleftrightarrow>
      3 \<le> RISK_WEIGHT (case rq_risk request of Some risk \<Rightarrow> risk | None \<Rightarrow> if rq_mutating request then Medium else Read_Only) \<or>
      (\<exists>r\<in>set (List.map_filter lc_risk (claims_of request)). 3 \<le> RISK_WEIGHT r)"
    by (simp add: isFridayMutatingActionRiskAtLeast_def compareFridayMutatingActionRisk_def
        deriveFridayMutatingActionRisk_def fold_raise_high)
  then show ?thesis
    unfolding requiresCanonicalApproval_def needs_approval_def high_weight
    by (auto simp: list_ex_iff split: option.splits)
qed

lemma objection_good:
  "ca_actionDigest approval = createFridayMutatingActionDigest lib request (deriveFridayMutatingActionRisk request) \<Longrightarrow>
   approval_objection lib options tm approval = None \<longleftrightarrow> approval_good lib options tm request approval"
  by (cases "ca_decision approval"; cases "go_approvalSignatureSecret options")
    (auto simp: approval_objection_def approval_good_def split: option.splits if_splits)

text \<open>The decision of the gate in terms of what it was asked.\<close>

lemma gate_cases:
  "gate_evaluate lib options tm tid request consumed =
     (let claims = claims_of request; risk = deriveFridayMutatingActionRisk request;
          digest = createFridayMutatingActionDigest lib request risk;
          answer = gate_result request digest risk claims tm
      in if isFridayReservedApprovalActionForActor request
         then (answer Gate_Deny ''agent_cannot_execute_reserved_approval_action'' False (Some ''canonical_gate'') None None, consumed)
         else case List.find (\<lambda>claim. lc_decision claim = Gate_Deny) claims of
           Some d \<Rightarrow> (answer Gate_Deny (case_option ''local_guard_denied'' id (lc_reason d)) False (Some (lc_guardId d)) None None, consumed)
         | None \<Rightarrow>
           (case rq_canonicalApproval request of
              None \<Rightarrow>
                (if needs_approval request
                 then (answer Requires_Approval ''canonical_approval_required'' True None None None, consumed)
                 else (answer Gate_Allow ''read_only_action_allowed_without_ticket'' False None None None, consumed))
            | Some approval \<Rightarrow>
                if approval_good lib options tm request approval
                then if \<not> needs_approval request
                  then (answer Gate_Allow ''read_only_action_allowed_without_ticket'' False None None None, consumed)
                  else if createCanonicalApprovalUseKey approval \<in> set consumed
                  then (answer Gate_Deny ''canonical_approval_already_used'' True (Some ''canonical_gate'') None
                          (Some (ca_approvalId approval)), consumed)
                  else (answer Gate_Allow ''canonical_approval_ticket_issued'' True None
                          (Some (make_ticket tid request digest risk tm approval)) (Some (ca_approvalId approval)),
                        consumed @ [createCanonicalApprovalUseKey approval])
                else (answer Gate_Deny
                  (if ca_actionDigest approval \<noteq> digest then ''canonical_approval_digest_mismatch''
                   else case_option [] id (approval_objection lib options tm approval))
                  (needs_approval request) (Some ''canonical_gate'') None
                  (if ca_actionDigest approval \<noteq> digest then None else Some (ca_approvalId approval)), consumed)))"
proof -
  have bad: "approval_objection lib options tm approval = Some why \<Longrightarrow> \<not> approval_good lib options tm request approval"
    for approval why
    using objection_good [of approval lib request options tm] by (auto simp: approval_good_def)
  have good: "ca_actionDigest approval = createFridayMutatingActionDigest lib request (deriveFridayMutatingActionRisk request) \<Longrightarrow>
      approval_objection lib options tm approval = None \<Longrightarrow> approval_good lib options tm request approval" for approval
    using objection_good by blast
  have digest: "approval_good lib options tm request approval \<Longrightarrow>
      ca_actionDigest approval = createFridayMutatingActionDigest lib request (deriveFridayMutatingActionRisk request)" for approval
    by (simp add: approval_good_def)
  show ?thesis
    unfolding gate_evaluate_def requires_needs Let_def
    by (auto split: option.splits dest: bad good digest)
qed

text \<open>Signatures.\<close>

lemma hex_value_inj: "lower_char c = c \<Longrightarrow> lower_char d = d \<Longrightarrow> hex_value c = Some n \<Longrightarrow> hex_value d = Some n \<Longrightarrow> c = d"
proof -
  have "hex_value c = Some n \<Longrightarrow> lower_char c = c \<Longrightarrow> of_char c = (if n < 10 then 48 + n else 87 + n)" for c
  proof -
    assume h: "hex_value c = Some n" and l: "lower_char c = c"
    have "\<not> (65 \<le> (of_char c :: nat) \<and> of_char c \<le> (70 :: nat))"
    proof
      assume u: "65 \<le> (of_char c :: nat) \<and> of_char c \<le> (70 :: nat)"
      then have "of_char (lower_char c) = (of_char c + 32 :: nat)"
        by (simp add: lower_char_def of_char_of take_bit_eq_mod)
      with l show False by simp
    qed
    with h show ?thesis by (auto simp: hex_value_def Let_def split: if_splits)
  qed
  moreover assume "lower_char c = c" "lower_char d = d" "hex_value c = Some n" "hex_value d = Some n"
  ultimately have "of_char c = (of_char d :: nat)" by metis
  then show "c = d" by simp
qed

lemma hex_value_bound: "hex_value c = Some n \<Longrightarrow> n < 16"
  by (auto simp: hex_value_def Let_def split: if_splits)

lemma hex_bytes_inj:
  assumes "length s = length t" "even (length s)"
    "list_all (\<lambda>c. hex_value c \<noteq> None \<and> lower_char c = c) s" "list_all (\<lambda>c. hex_value c \<noteq> None \<and> lower_char c = c) t"
    "hex_bytes s = hex_bytes t"
  shows "s = t"
  using assms
proof (induction s arbitrary: t rule: induct_list012)
  case (3 a b s)
  then obtain c d u where t: "t = c # d # u" by (cases t; cases "tl t") auto
  obtain x y where x: "hex_value a = Some x" "hex_value b = Some y" using 3(5) by auto
  obtain z w where z: "hex_value c = Some z" "hex_value d = Some w" using 3(6) t by auto
  from 3(7) t x z have eq: "16 * x + y = 16 * z + w" "hex_bytes s = hex_bytes u" by auto
  have "y < 16" "w < 16" using hex_value_bound x(2) z(2) by auto
  then have "x = z" "y = w"
    using arg_cong [OF eq(1), of "\<lambda>n. n div 16"] arg_cong [OF eq(1), of "\<lambda>n. n mod 16"] by simp_all
  then have "a = c"
    using 3(5,6) t z by (intro hex_value_inj [OF _ _ x(1)]) simp_all
  moreover have "b = d"
    using 3(5,6) t z \<open>y = w\<close> by (intro hex_value_inj [OF _ _ x(2)]) simp_all
  moreover have "s = u" by (rule 3(1)) (use 3(3-6) eq(2) t in auto)
  ultimately show ?case using t by simp
next
  case (2 x)
  from 2(2) show ?case by simp
qed simp

lemma lower_hex: "hex_value (lower_char c) = None \<longleftrightarrow> hex_value c = None"
  by (auto simp: hex_value_def lower_char_def Let_def of_char_of take_bit_eq_mod split: if_splits)

lemma lower_lower: "lower_char (lower_char c) = lower_char c"
  by (auto simp: lower_char_def Let_def of_char_of take_bit_eq_mod split: if_splits)

lemma normalize_signature:
  "normalizeCanonicalApprovalSignatureText sg = Some n \<longleftrightarrow> map_option js_lower sg = Some n \<and> hex_digest n"
  by (cases sg) (auto simp: normalizeCanonicalApprovalSignatureText_def hex_digest_def js_lower_def list.pred_map
      comp_def lower_hex lower_lower simp del: not_None_eq)

lemma verify_iff:
  assumes "\<And>k m. hex_digest (gl_hmac lib k m)"
  shows "verifyFridayCanonicalApprovalSignature lib approval secret \<longleftrightarrow>
    ca_issuer approval = Some ''friday_canonical_gate'' \<and>
    map_option js_lower (ca_signature approval) = Some (createFridayCanonicalApprovalSignature lib approval secret)"
proof -
  have hex: "hex_digest (createFridayCanonicalApprovalSignature lib approval secret)"
    by (simp add: createFridayCanonicalApprovalSignature_def assms)
  have "verifyFridayCanonicalApprovalSignature lib approval secret \<longleftrightarrow>
      ca_issuer approval = Some ''friday_canonical_gate'' \<and>
      normalizeCanonicalApprovalSignatureText (ca_signature approval) =
        Some (createFridayCanonicalApprovalSignature lib approval secret)"
  proof (cases "normalizeCanonicalApprovalSignatureText (ca_signature approval)")
    case None
    then show ?thesis by (simp add: verifyFridayCanonicalApprovalSignature_def)
  next
    case (Some m)
    then have m: "hex_digest m" "ca_signature approval \<noteq> None" by (auto simp: normalize_signature)
    have "hex_bytes m = hex_bytes (createFridayCanonicalApprovalSignature lib approval secret) \<longleftrightarrow>
        m = createFridayCanonicalApprovalSignature lib approval secret"
      using hex m(1) hex_bytes_inj [of m] by (auto simp: hex_digest_def)
    with Some m(2) show ?thesis by (auto simp: verifyFridayCanonicalApprovalSignature_def Let_def)
  qed
  with hex show ?thesis by (simp add: normalize_signature)
qed

lemma hex_digest_lower: "hex_digest s \<Longrightarrow> js_lower s = s"
  by (simp add: hex_digest_def js_lower_def list_all_iff map_idI)

text \<open>Digests.\<close>

declare map_of_opt_field [simp]

lemmas lookup_simps = map_of_opt_field_append or_else_None

lemma normalized_lookup:
  assumes "normalizeForStableStringify (JsonObject ps) = normalizeForStableStringify (JsonObject qs)"
    and "distinct (map fst ps)" "distinct (map fst qs)"
  shows "map_option normalizeForStableStringify (map_of ps k) = map_option normalizeForStableStringify (map_of qs k)"
proof -
  have look: "map_option normalizeForStableStringify (map_of xs k) = Some v \<longleftrightarrow>
      (k, v) \<in> (\<lambda>(k, v). (k, normalizeForStableStringify v)) ` set xs" if "distinct (map fst xs)" for xs v
  proof -
    let ?n = "map (\<lambda>(k, v). (k, normalizeForStableStringify v)) xs"
    have "distinct (map fst ?n)" using that by (simp add: comp_def case_prod_unfold)
    moreover have "map_of ?n k = map_option normalizeForStableStringify (map_of xs k)" by (simp add: map_of_map)
    ultimately show ?thesis using map_of_eq_Some_iff [of ?n k v] by simp
  qed
  show ?thesis
    using look [OF assms(2)] look [OF assms(3)] normalize_object_fields [OF assms(1)]
    by (metis (no_types, lifting) option.exhaust)
qed

lemma opt_field_keys: "map fst (opt_field n f v) = (if v = None then [] else [n])"
  by (auto simp: opt_field_def split: option.splits)

lemma risk_name_inj: "risk_name a = risk_name b \<longleftrightarrow> a = b"
  by (cases a; cases b) simp_all

lemma rollback_json_inj:
  assumes "normalizeForStableStringify (rollback_json a) = normalizeForStableStringify (rollback_json b)"
  shows "a = b"
proof -
  let ?ps = "\<lambda>rb. [(''planned'', JsonBool (rb_planned rb))] @ opt_field ''planDigest'' JsonString (rb_planDigest rb) @
     opt_field ''actions'' (\<lambda>xs. JsonArray (map JsonString xs)) (rb_actions rb)"
  have "distinct (map fst (?ps rb))" for rb by (simp add: opt_field_keys)
  with assms have l: "map_option normalizeForStableStringify (map_of (?ps a) k) =
      map_option normalizeForStableStringify (map_of (?ps b) k)" for k
    unfolding rollback_json_def by (intro normalized_lookup)
  have "rb_planned a = rb_planned b" using l [of "''planned''"] by (simp add: map_add_def)
  moreover have "rb_planDigest a = rb_planDigest b"
    using l [of "''planDigest''"] by (cases "rb_planDigest a"; cases "rb_planDigest b") (simp_all add: map_add_def)
  moreover have "rb_actions a = rb_actions b"
    using l [of "''actions''"] by (cases "rb_actions a"; cases "rb_actions b") (simp_all add: map_add_def comp_def map_injective inj_def)
  ultimately show ?thesis by simp
qed

lemma string_option_inj:
  "map_option normalizeForStableStringify (map_option JsonString x) =
     map_option normalizeForStableStringify (map_option JsonString y) \<Longrightarrow> x = y"
  by (cases x; cases y) simp_all

lemma payload_inj:
  assumes "normalizeForStableStringify (action_payload p (deriveFridayMutatingActionRisk p)) =
      normalizeForStableStringify (action_payload q (deriveFridayMutatingActionRisk q))"
  shows "same_action p q"
proof -
  let ?actor = "\<lambda>r. [(''kind'', JsonString (act_kind (rq_actor r))), (''id'', JsonString (act_id (rq_actor r)))] @
     opt_field ''principalId'' JsonString (act_principalId (rq_actor r))"
  let ?res = "\<lambda>r. [(''type'', JsonString (rsc_type (rq_resource r)))] @
     opt_field ''id'' JsonString (rsc_id (rq_resource r)) @ opt_field ''digest'' JsonString (rsc_digest (rq_resource r)) @
     opt_field ''attributes'' JsonObject (rsc_attributes (rq_resource r))"
  let ?ps = "\<lambda>r. [(''version'', JsonNumber 1), (''action'', JsonString (rq_action r)), (''actor'', JsonObject (?actor r)),
      (''surface'', JsonString (rq_surface r)), (''resource'', JsonObject (?res r)), (''mutating'', JsonBool (rq_mutating r)),
      (''risk'', JsonString (risk_name (deriveFridayMutatingActionRisk r)))] @
     opt_field ''parameters'' JsonObject (rq_parameters r) @ opt_field ''planDigest'' JsonString (rq_planDigest r) @
     opt_field ''rollback'' rollback_json (rq_rollback r) @ opt_field ''idempotencyKey'' JsonString (rq_idempotencyKey r)"
  have d: "distinct (map fst (?ps r))" "distinct (map fst (?actor r))" "distinct (map fst (?res r))" for r
    by (simp_all add: opt_field_keys)
  have l: "map_option normalizeForStableStringify (map_of (?ps p) k) = map_option normalizeForStableStringify (map_of (?ps q) k)" for k
    using assms d(1) unfolding action_payload_def by (intro normalized_lookup)
  have "normalizeForStableStringify (JsonObject (?actor p)) = normalizeForStableStringify (JsonObject (?actor q))"
    using l [of "''actor''"] by (simp add: lookup_simps del: normalizeForStableStringify.simps map_of_append)
  then have a: "map_option normalizeForStableStringify (map_of (?actor p) k) =
      map_option normalizeForStableStringify (map_of (?actor q) k)" for k
    using d(2) by (intro normalized_lookup)
  have "normalizeForStableStringify (JsonObject (?res p)) = normalizeForStableStringify (JsonObject (?res q))"
    using l [of "''resource''"] by (simp add: lookup_simps del: normalizeForStableStringify.simps map_of_append)
  then have r: "map_option normalizeForStableStringify (map_of (?res p) k) =
      map_option normalizeForStableStringify (map_of (?res q) k)" for k
    using d(3) by (intro normalized_lookup)
  have rb: "map_option normalizeForStableStringify (map_option rollback_json x) =
      map_option normalizeForStableStringify (map_option rollback_json y) \<Longrightarrow> x = y" for x y
    by (cases x; cases y) (auto dest: rollback_json_inj)
  have "rq_action p = rq_action q" "rq_surface p = rq_surface q" "rq_mutating p = rq_mutating q"
    "deriveFridayMutatingActionRisk p = deriveFridayMutatingActionRisk q"
    using l [of "''action''"] l [of "''surface''"] l [of "''mutating''"] l [of "''risk''"]
    by (simp_all add: lookup_simps risk_name_inj del: map_of_append)
  moreover have "rq_planDigest p = rq_planDigest q" "rq_idempotencyKey p = rq_idempotencyKey q"
    using l [of "''planDigest''"] l [of "''idempotencyKey''"]
    by (auto intro!: string_option_inj simp: lookup_simps simp del: option.map_comp map_of_append)
  moreover have "rq_rollback p = rq_rollback q"
    using l [of "''rollback''"] by (auto intro!: rb simp: lookup_simps simp del: option.map_comp map_of_append)
  moreover have "map_option (normalizeForStableStringify \<circ> JsonObject) (rq_parameters p) =
      map_option (normalizeForStableStringify \<circ> JsonObject) (rq_parameters q)"
    using l [of "''parameters''"] by (simp add: lookup_simps option.map_comp del: map_of_append)
  moreover have "act_kind (rq_actor p) = act_kind (rq_actor q)" "act_id (rq_actor p) = act_id (rq_actor q)"
    using a [of "''kind''"] a [of "''id''"] by (simp_all add: lookup_simps del: map_of_append)
  moreover have "act_principalId (rq_actor p) = act_principalId (rq_actor q)"
    using a [of "''principalId''"] by (auto intro!: string_option_inj simp: lookup_simps simp del: option.map_comp map_of_append)
  moreover have "rsc_type (rq_resource p) = rsc_type (rq_resource q)" using r [of "''type''"] by (simp add: lookup_simps del: map_of_append)
  moreover have "rsc_id (rq_resource p) = rsc_id (rq_resource q)" "rsc_digest (rq_resource p) = rsc_digest (rq_resource q)"
    using r [of "''id''"] r [of "''digest''"] by (auto intro!: string_option_inj simp: lookup_simps simp del: option.map_comp map_of_append)
  moreover have "map_option (normalizeForStableStringify \<circ> JsonObject) (rsc_attributes (rq_resource p)) =
      map_option (normalizeForStableStringify \<circ> JsonObject) (rsc_attributes (rq_resource q))"
    using r [of "''attributes''"] by (simp add: lookup_simps option.map_comp del: map_of_append)
  ultimately show ?thesis unfolding same_action_def by blast
qed

lemma approval_payload_inj:
  assumes "normalizeForStableStringify (createCanonicalApprovalSignaturePayload a) =
      normalizeForStableStringify (createCanonicalApprovalSignaturePayload b)"
  shows "same_approval a b"
proof -
  let ?ps = "\<lambda>r. [(''version'', JsonNumber 1), (''decision'', JsonString (approval_decision_name (ca_decision r))),
      (''approvalId'', JsonString (ca_approvalId r)), (''decidedByPrincipalId'', JsonString (ca_decidedByPrincipalId r)),
      (''actionDigest'', JsonString (ca_actionDigest r))] @
     opt_field ''reason'' JsonString (ca_reason r) @ opt_field ''expiresAt'' JsonString (ca_expiresAt r) @
     opt_field ''childOfLifecycleTicketId'' JsonString (ca_childOfLifecycleTicketId r)"
  have "distinct (map fst (?ps r))" for r by (simp add: opt_field_keys)
  then have l: "map_option normalizeForStableStringify (map_of (?ps a) k) = map_option normalizeForStableStringify (map_of (?ps b) k)" for k
    using assms unfolding createCanonicalApprovalSignaturePayload_def by (intro normalized_lookup)
  have "ca_approvalId a = ca_approvalId b" "ca_decidedByPrincipalId a = ca_decidedByPrincipalId b"
    "ca_actionDigest a = ca_actionDigest b"
    using l [of "''approvalId''"] l [of "''decidedByPrincipalId''"] l [of "''actionDigest''"]
    by (simp_all add: lookup_simps del: map_of_append)
  moreover have "ca_decision a = ca_decision b"
    using l [of "''decision''"] by (cases "ca_decision a"; cases "ca_decision b") (simp_all add: lookup_simps del: map_of_append)
  moreover have "ca_reason a = ca_reason b" "ca_expiresAt a = ca_expiresAt b"
    "ca_childOfLifecycleTicketId a = ca_childOfLifecycleTicketId b"
    using l [of "''reason''"] l [of "''expiresAt''"] l [of "''childOfLifecycleTicketId''"]
    by (auto intro!: string_option_inj simp: lookup_simps simp del: option.map_comp map_of_append)
  ultimately show ?thesis by (simp add: same_approval_def)
qed

lemma ticket_keys_Cons:
  "ticket_keys ((request, result) # run) =
     (case (gr_ticket result, rq_canonicalApproval request) of
        (Some _, Some approval) \<Rightarrow> [createCanonicalApprovalUseKey approval] | _ \<Rightarrow> []) @ ticket_keys run"
  by (simp add: ticket_keys_def)

lemma gate_run_keys:
  "distinct (ticket_keys (gate_run lib options calls consumed)) \<and>
   set (ticket_keys (gate_run lib options calls consumed)) \<inter> set consumed = {}"
proof (induction calls arbitrary: consumed)
  case Nil
  show ?case by (simp add: ticket_keys_def)
next
  case (Cons call calls)
  obtain tm tid request where call: "call = (tm, tid, request)" by (cases call)
  obtain result consumed' where ev: "gate_evaluate lib options tm tid request consumed = (result, consumed')"
    by (cases "gate_evaluate lib options tm tid request consumed")
  have "(gr_ticket result = None \<and> consumed' = consumed) \<or>
      (\<exists>approval. rq_canonicalApproval request = Some approval \<and> gr_ticket result \<noteq> None \<and>
        createCanonicalApprovalUseKey approval \<notin> set consumed \<and> consumed' = consumed @ [createCanonicalApprovalUseKey approval])"
    using ev unfolding gate_cases Let_def by (auto simp: gate_result_def split: option.splits if_splits)
  then show ?case
  proof
    assume "gr_ticket result = None \<and> consumed' = consumed"
    then show ?thesis using Cons.IH [of consumed] ev call by (simp add: ticket_keys_Cons)
  next
    assume "\<exists>approval. rq_canonicalApproval request = Some approval \<and> gr_ticket result \<noteq> None \<and>
        createCanonicalApprovalUseKey approval \<notin> set consumed \<and> consumed' = consumed @ [createCanonicalApprovalUseKey approval]"
    then show ?thesis using Cons.IH [of consumed'] ev call by (auto simp: ticket_keys_Cons)
  qed
qed

lemma fraction_text_ok: "number_text fraction_text"
proof -
  have chars: "set (fraction_text r) \<subseteq> insert (CHR ''/'') (insert (CHR ''-'') digit_chars)" for r
    using show_int_chars by (auto simp: fraction_text_def)
  have ne: "show_int i \<noteq> []" for i by (simp add: show_int_def show_nat_not_Nil)
  have slash: "CHR ''/'' \<notin> set (show_int i)" for i
  proof -
    have "CHR ''/'' \<notin> insert (CHR ''-'') digit_chars"
      by (auto simp: digit_chars_def dest!: arg_cong [where f = "of_char :: char \<Rightarrow> nat"])
    then show ?thesis using show_int_chars by blast
  qed
  have "inj fraction_text"
  proof (rule injI)
    fix a b
    assume "fraction_text a = fraction_text b"
    then have "show_int (fst (quotient_of a)) = show_int (fst (quotient_of b)) \<and>
        show_int (snd (quotient_of a)) = show_int (snd (quotient_of b))"
      unfolding fraction_text_def by (intro last_component_inj) (auto simp: slash)
    then show "a = b" by (metis prod.expand quotient_of_inject show_int_inj)
  qed
  moreover have "hd (fraction_text r) \<in> insert (CHR ''-'') digit_chars" for r
  proof -
    have "hd (fraction_text r) = hd (show_int (fst (quotient_of r)))" using ne by (simp add: fraction_text_def)
    also have "\<dots> \<in> set (show_int (fst (quotient_of r)))" using ne by simp
    finally show ?thesis using show_int_chars by blast
  qed
  moreover have "c \<notin> {CHR '','', CHR '']'', CHR ''}'', CHR '':''}" if "c \<in> set (fraction_text r)" for c r
    using subsetD [OF chars that]
    by (auto simp: digit_chars_def dest!: arg_cong [where f = "of_char :: char \<Rightarrow> nat"])
  ultimately show ?thesis using ne by (auto simp: number_text_def list_all_iff fraction_text_def)
qed

lemma sample_good:
  "approval_good sample_lib sample_options ''t'' (sample_request (Some sample_approval)) sample_approval"
proof -
  have "deriveFridayMutatingActionRisk (sample_request x) = Medium" for x
    by (simp add: deriveFridayMutatingActionRisk_def sample_request_def claims_of_def)
  moreover have "createFridayMutatingActionDigest sample_lib (sample_request x) Medium =
      createFridayMutatingActionDigest sample_lib (sample_request None) Medium" for x
    by (simp add: createFridayMutatingActionDigest_def action_payload_def sample_request_def)
  ultimately have "ca_actionDigest sample_approval = createFridayMutatingActionDigest sample_lib
      (sample_request (Some sample_approval)) (deriveFridayMutatingActionRisk (sample_request (Some sample_approval)))"
    by (metis sample_approval_def FridayCanonicalApprovalResolution.select_convs(4))
  then show ?thesis
    by (simp add: approval_good_def) (simp add: sample_approval_def sample_lib_def sample_options_def)
qed

lemma sample_unreserved: "\<not> isFridayReservedApprovalActionForActor (sample_request x)"
  by code_simp

lemma list_ex_find: "list_ex P xs \<longleftrightarrow> List.find P xs \<noteq> None"
  by (induction xs) simp_all

lemma sample_fields:
  "rq_canonicalApproval (sample_request x) = x" "claims_of (sample_request x) = []" "needs_approval (sample_request x)"
  by (simp_all add: sample_request_def claims_of_def needs_approval_def)

lemma sample_allowed:
  "gr_decision (fst (gate_evaluate sample_lib sample_options ''t'' ''id'' (sample_request (Some sample_approval)) [])) = Gate_Allow"
  using sample_good sample_unreserved by (simp add: gate_cases Let_def sample_fields gate_result_def)

section \<open>Properties\<close>

text \<open>
  C1. No mutation without approval: the gate allows an action that mutates, that is of high risk by
  its own account or a guard's, or for which a guard asks for approval, only against an approval
  of exactly this action (by its digest) that is approved, unexpired, validly signed where
  signatures are configured or required, and not used before; the approval is then used up and
  the ticket names the action, the approval and who gave it.
\<close>

theorem gate_allow_sound:
  assumes "gate_evaluate lib options tm tid request consumed = (result, consumed')"
    and "gr_decision result = Gate_Allow" and "needs_approval request"
  shows "\<exists>approval. rq_canonicalApproval request = Some approval \<and> approval_good lib options tm request approval \<and>
    createCanonicalApprovalUseKey approval \<notin> set consumed \<and>
    consumed' = consumed @ [createCanonicalApprovalUseKey approval] \<and>
    gr_ticket result = Some (make_ticket tid request
      (createFridayMutatingActionDigest lib request (deriveFridayMutatingActionRisk request))
      (deriveFridayMutatingActionRisk request) tm approval)"
  using assms unfolding gate_cases Let_def
  by (auto simp: gate_result_def split: option.splits if_splits)

theorem gate_allow_sound_witness:
  "\<exists>result. gate_evaluate sample_lib sample_options ''t'' ''id'' (sample_request (Some sample_approval)) [] =
     (result, [createCanonicalApprovalUseKey sample_approval])"
proof -
  obtain result consumed' where run:
    "gate_evaluate sample_lib sample_options ''t'' ''id'' (sample_request (Some sample_approval)) [] = (result, consumed')"
    by (cases "gate_evaluate sample_lib sample_options ''t'' ''id'' (sample_request (Some sample_approval)) []")
  then have "gr_decision result = Gate_Allow" using sample_allowed by simp
  from gate_allow_sound [OF run this sample_fields(3)] run show ?thesis by (simp add: sample_fields)
qed

text \<open>
  C24. What the gate allows, exactly: the actor is not an agent performing a reserved approval
  action, no local guard denies, and the approval that comes with the request is good and unused,
  or there is none and the action needs none. Whatever else happens leaves the consumed approvals
  as they were.
\<close>

theorem gate_allows_iff:
  "(gr_decision (fst (gate_evaluate lib options tm tid request consumed)) = Gate_Allow \<longleftrightarrow>
      \<not> isFridayReservedApprovalActionForActor request \<and>
      \<not> list_ex (\<lambda>claim. lc_decision claim = Gate_Deny) (claims_of request) \<and>
      (case rq_canonicalApproval request of
         None \<Rightarrow> \<not> needs_approval request
       | Some approval \<Rightarrow> approval_good lib options tm request approval \<and>
           (needs_approval request \<longrightarrow> createCanonicalApprovalUseKey approval \<notin> set consumed))) \<and>
   (gr_ticket (fst (gate_evaluate lib options tm tid request consumed)) = None \<longrightarrow>
      snd (gate_evaluate lib options tm tid request consumed) = consumed)"
  unfolding gate_cases Let_def list_ex_find
  by (auto simp: gate_result_def split: option.splits)

theorem gate_allows_iff_witness:
  "gr_decision (fst (gate_evaluate sample_lib sample_options ''t'' ''id'' (sample_request (Some sample_approval)) [])) = Gate_Allow"
proof -
  from gate_allows_iff [of sample_lib sample_options "''t''" "''id''" "sample_request (Some sample_approval)" "[]"]
    sample_good sample_unreserved
  show ?thesis by (simp add: sample_fields)
qed

text \<open>
  C3. An approval is good for one ticket: in any sequence of evaluations by one gate, no two
  tickets rest on the same approval.
\<close>

theorem approvals_single_use:
  "distinct (ticket_keys (gate_run lib options calls []))"
  using gate_run_keys by blast



text \<open>
  Signing and verifying fit together: a signed approval verifies under the same secret, and an
  approval verifies only if it names the gate as issuer and carries, up to letter case, the
  signature of its own contents.
\<close>

theorem signature_roundtrip:
  assumes "\<forall>k m. hex_digest (gl_hmac lib k m)"
  shows "verifyFridayCanonicalApprovalSignature lib (signFridayCanonicalApproval lib approval secret) secret \<and>
    (verifyFridayCanonicalApprovalSignature lib b secret \<longleftrightarrow>
      ca_issuer b = Some ''friday_canonical_gate'' \<and>
      map_option js_lower (ca_signature b) = Some (createFridayCanonicalApprovalSignature lib b secret))"
proof -
  have hex: "\<And>k m. hex_digest (gl_hmac lib k m)" using assms by blast
  have "createFridayCanonicalApprovalSignature lib (signFridayCanonicalApproval lib approval secret) secret =
      createFridayCanonicalApprovalSignature lib approval secret"
    by (simp add: createFridayCanonicalApprovalSignature_def signFridayCanonicalApproval_def
        createCanonicalApprovalSignaturePayload_def)
  moreover have "js_lower (createFridayCanonicalApprovalSignature lib approval secret) =
      createFridayCanonicalApprovalSignature lib approval secret"
    unfolding createFridayCanonicalApprovalSignature_def by (rule hex_digest_lower) (rule hex)
  ultimately show ?thesis by (simp add: verify_iff [OF hex] signFridayCanonicalApproval_def)
qed

theorem signature_roundtrip_witness:
  "verifyFridayCanonicalApprovalSignature sample_lib (signFridayCanonicalApproval sample_lib sample_approval ''s'') ''s''"
proof -
  have "hex_digest (replicate 64 (CHR ''0''))" by (simp add: hex_digest_def hex_value_def lower_char_def list_all_iff)
  then have "\<forall>k m. hex_digest (gl_hmac sample_lib k m)" by (simp add: sample_lib_def)
  from signature_roundtrip [OF this] show ?thesis by blast
qed

text \<open>
  C26. A signature fixes what was approved: two approvals that verify with the same signature agree
  on the decision, the approval id, who decided, the digest, the reason, the expiry and the
  parent ticket, or their canonical texts are a collision of the keyed hash.
\<close>

theorem signature_binds_approval:
  assumes "\<forall>k m. hex_digest (gl_hmac lib k m)" and "number_text (gl_num lib)"
    and "verifyFridayCanonicalApprovalSignature lib a secret" "verifyFridayCanonicalApprovalSignature lib b secret"
    and "ca_signature a = ca_signature b"
  shows "same_approval a b \<or> collision (gl_hmac lib secret) (approval_text lib a) (approval_text lib b)"
proof (cases "approval_text lib a = approval_text lib b")
  case True
  then have "same_approval a b"
    unfolding approval_text_def by (intro approval_payload_inj stableStringify_inj [OF assms(2)])
  then show ?thesis ..
next
  case False
  have hex: "\<And>k m. hex_digest (gl_hmac lib k m)" using assms(1) by blast
  have "gl_hmac lib secret (approval_text lib a) = gl_hmac lib secret (approval_text lib b)"
    using assms(3-5) unfolding verify_iff [OF hex] createFridayCanonicalApprovalSignature_def approval_text_def by simp
  with False show ?thesis by (simp add: collision_def)
qed

theorem signature_binds_approval_witness:
  "same_approval (signFridayCanonicalApproval sample_lib sample_approval ''s'')
     (signFridayCanonicalApproval sample_lib sample_approval ''s'') \<or>
   collision (gl_hmac sample_lib ''s'') (approval_text sample_lib (signFridayCanonicalApproval sample_lib sample_approval ''s''))
     (approval_text sample_lib (signFridayCanonicalApproval sample_lib sample_approval ''s''))"
proof -
  let ?a = "signFridayCanonicalApproval sample_lib sample_approval ''s''"
  have "hex_digest (replicate 64 (CHR ''0''))" by (simp add: hex_digest_def hex_value_def lower_char_def list_all_iff)
  then have hex: "\<forall>k m. hex_digest (gl_hmac sample_lib k m)" by (simp add: sample_lib_def)
  then have "\<And>k m. hex_digest (gl_hmac sample_lib k m)" by blast
  then have "verifyFridayCanonicalApprovalSignature sample_lib ?a ''s''"
    by (subst verify_iff) (auto simp: signFridayCanonicalApproval_def createFridayCanonicalApprovalSignature_def
        createCanonicalApprovalSignaturePayload_def intro: hex_digest_lower)
  from signature_binds_approval [OF hex _ this this] show ?thesis by (simp add: sample_lib_def fraction_text_ok)
qed

text \<open>
  System intents are gated by what they do, not by what the caller declares: the request built
  from a mutating intent is never allowed as it stands, whatever risk level was declared, and an
  agent's approve or deny intent is denied outright.
\<close>

theorem system_intent_gated:
  assumes "isFridaySystemIntentMutatingAction (intent_action input)"
  shows "gr_decision (fst (gate_evaluate lib options tm tid
      (createFridaySystemIntentMutatingActionRequest input intent_options) consumed)) \<noteq> Gate_Allow \<and>
    (or_else (si_actorKind input) (so_defaultActorKind intent_options) = Some ''agent'' \<and>
       intent_action input \<in> {''approve'', ''deny''} \<longrightarrow>
     gr_decision (fst (gate_evaluate lib options tm tid
      (createFridaySystemIntentMutatingActionRequest input intent_options) consumed)) = Gate_Deny)"
proof (intro conjI impI)
  let ?rq = "createFridaySystemIntentMutatingActionRequest input intent_options"
  have "needs_approval ?rq" "rq_canonicalApproval ?rq = None"
    using assms by (simp_all add: needs_approval_def createFridaySystemIntentMutatingActionRequest_def Let_def)
  then show "gr_decision (fst (gate_evaluate lib options tm tid ?rq consumed)) \<noteq> Gate_Allow"
    by (auto simp: gate_cases gate_result_def Let_def split: option.splits)
next
  let ?rq = "createFridaySystemIntentMutatingActionRequest input intent_options"
  assume "or_else (si_actorKind input) (so_defaultActorKind intent_options) = Some ''agent'' \<and>
      intent_action input \<in> {''approve'', ''deny''}"
  moreover have "js_lower (js_trim ''system.approve'') = ''system.approve''" by code_simp
  moreover have "js_lower (js_trim ''system.deny'') = ''system.deny''" by code_simp
  ultimately have "isFridayReservedApprovalActionForActor ?rq"
    by (auto simp: isFridayReservedApprovalActionForActor_def createFridaySystemIntentMutatingActionRequest_def Let_def
        AGENT_RESERVED_APPROVAL_ACTIONS_def)
  then show "gr_decision (fst (gate_evaluate lib options tm tid ?rq consumed)) = Gate_Deny"
    by (simp add: gate_cases gate_result_def Let_def)
qed

theorem system_intent_gated_witness:
  "gr_decision (fst (gate_evaluate sample_lib sample_options ''t'' ''id''
     (createFridaySystemIntentMutatingActionRequest sample_intent sample_intent_options) [])) \<noteq> Gate_Allow"
proof -
  have "isFridaySystemIntentMutatingAction (intent_action sample_intent)" by code_simp
  from system_intent_gated [OF this] show ?thesis by blast
qed

end
