(* ===== verification/Js_Number.thy ===== *)
theory Js_Number
  imports Friday_Prelude
begin

text \<open>
  The numbers of the language where their special values matter: IEEE 754 doubles as rationals with
  the two infinities, not-a-number and the negative zero, the operators of expressions on them, and
  \<open>Number(s)\<close> on strings. A finite result is the exact rational rounded to the nearest double, ties
  to even.
\<close>

datatype js_number = NaN | Infinite bool | NegZero | Finite rat

section \<open>Rounding\<close>

definition round_half_even :: "rat \<Rightarrow> int" where
  "round_half_even x =
     (let f = \<lfloor>x\<rfloor>; d = x - of_int f in
      if d < 1 / 2 then f else if 1 / 2 < d then f + 1 else if even f then f else f + 1)"

text \<open>The exponent of the unit in the last place: the largest power that leaves at least 53 bits.\<close>

fun bit_length :: "nat \<Rightarrow> nat" where
  "bit_length n = (if n = 0 then 0 else Suc (bit_length (n div 2)))"

declare bit_length.simps [simp del]

definition ulp_exponent :: "rat \<Rightarrow> int" where
  "ulp_exponent x =
     (case quotient_of \<bar>x\<bar> of (p, q) \<Rightarrow>
        let e = int (bit_length (nat p)) - int (bit_length (nat q));
            e' = (if \<bar>x\<bar> < 2 powi e then e - 1 else e)
        in max (e' - 52) (- 1074))"

definition round_double :: "rat \<Rightarrow> js_number" where
  "round_double x =
     (let e = ulp_exponent x; m = round_half_even (\<bar>x\<bar> / 2 powi e); r = of_int m * 2 powi e in
      if r = 0 then if x < 0 then NegZero else Finite 0
      else if 2 ^ 1024 \<le> r then Infinite (x < 0)
      else Finite (if x < 0 then - r else r))"

section \<open>Operators\<close>

fun num_neg :: "js_number \<Rightarrow> js_number" where
  "num_neg NaN = NaN"
| "num_neg (Infinite s) = Infinite (\<not> s)"
| "num_neg NegZero = Finite 0"
| "num_neg (Finite x) = (if x = 0 then NegZero else Finite (- x))"

fun num_value :: "js_number \<Rightarrow> rat option" where
  "num_value NegZero = Some 0"
| "num_value (Finite x) = Some x"
| "num_value _ = None"

fun negative :: "js_number \<Rightarrow> bool" where
  "negative NaN = False"
| "negative (Infinite s) = s"
| "negative NegZero = True"
| "negative (Finite x) = (x < 0)"

definition signed_zero :: "bool \<Rightarrow> js_number" where
  "signed_zero s = (if s then NegZero else Finite 0)"

fun num_add :: "js_number \<Rightarrow> js_number \<Rightarrow> js_number" where
  "num_add NaN b = NaN"
| "num_add a NaN = NaN"
| "num_add (Infinite s) (Infinite t) = (if s = t then Infinite s else NaN)"
| "num_add (Infinite s) b = Infinite s"
| "num_add a (Infinite t) = Infinite t"
| "num_add NegZero NegZero = NegZero"
| "num_add NegZero (Finite y) = Finite y"
| "num_add (Finite x) NegZero = Finite x"
| "num_add (Finite x) (Finite y) = (if x + y = 0 then Finite 0 else round_double (x + y))"

definition num_sub :: "js_number \<Rightarrow> js_number \<Rightarrow> js_number" where
  "num_sub a b = num_add a (num_neg b)"

definition num_mul :: "js_number \<Rightarrow> js_number \<Rightarrow> js_number" where
  "num_mul a b =
     (if a = NaN \<or> b = NaN then NaN
      else let s = (negative a \<noteq> negative b) in
      case (num_value a, num_value b) of
        (Some x, Some y) \<Rightarrow> if x * y = 0 then signed_zero s else round_double (x * y)
      | (x, y) \<Rightarrow> if x = Some 0 \<or> y = Some 0 then NaN else Infinite s)"

definition num_div :: "js_number \<Rightarrow> js_number \<Rightarrow> js_number" where
  "num_div a b =
     (if a = NaN \<or> b = NaN then NaN
      else let s = (negative a \<noteq> negative b) in
      case (num_value a, num_value b) of
        (Some x, Some y) \<Rightarrow>
          if y = 0 then if x = 0 then NaN else Infinite s
          else if x = 0 then signed_zero s else round_double (x / y)
      | (Some x, None) \<Rightarrow> signed_zero s
      | (None, Some y) \<Rightarrow> Infinite s
      | (None, None) \<Rightarrow> NaN)"

text \<open>The remainder has the sign of the dividend and is exact.\<close>

definition truncate :: "rat \<Rightarrow> int" where
  "truncate x = (if x < 0 then \<lceil>x\<rceil> else \<lfloor>x\<rfloor>)"

definition num_rem :: "js_number \<Rightarrow> js_number \<Rightarrow> js_number" where
  "num_rem a b =
     (if a = NaN \<or> b = NaN then NaN
      else case (num_value a, num_value b) of
        (Some x, Some y) \<Rightarrow>
          if y = 0 then NaN
          else let r = x - y * of_int (truncate (x / y)) in if r = 0 then signed_zero (negative a) else Finite r
      | (Some x, None) \<Rightarrow> a
      | (None, _) \<Rightarrow> NaN)"

text \<open>Equality and order: \<open>NaN\<close> is unequal and unordered, the zeros are equal.\<close>

fun num_less :: "js_number \<Rightarrow> js_number \<Rightarrow> bool" where
  "num_less NaN b = False"
| "num_less a NaN = False"
| "num_less (Infinite s) (Infinite t) = (s \<and> \<not> t)"
| "num_less (Infinite s) b = s"
| "num_less a (Infinite t) = (\<not> t)"
| "num_less a b = (the (num_value a) < the (num_value b))"

definition num_eq :: "js_number \<Rightarrow> js_number \<Rightarrow> bool" where
  "num_eq a b = (a \<noteq> NaN \<and> b \<noteq> NaN \<and> \<not> num_less a b \<and> \<not> num_less b a)"

definition num_le :: "js_number \<Rightarrow> js_number \<Rightarrow> bool" where
  "num_le a b = (num_less a b \<or> num_eq a b)"

section \<open>Strings as numbers\<close>

definition is_digit :: "char \<Rightarrow> bool" where
  "is_digit c = (c \<in> set ''0123456789'')"

definition digit_value :: "char \<Rightarrow> nat" where
  "digit_value c =
     (let n = of_char c :: nat in
      if n < 58 then n - 48 else if n < 91 then n - 55 else n - 87)"

definition base_value :: "nat \<Rightarrow> string \<Rightarrow> nat" where
  "base_value b s = fold (\<lambda>c n. b * n + digit_value c) s 0"

text \<open>Digits with an optional fraction and exponent, in full; the value before rounding.\<close>

definition exponent_value :: "string \<Rightarrow> int option" where
  "exponent_value s =
     (case s of
        [] \<Rightarrow> Some 0
      | c # t \<Rightarrow>
          if c \<notin> {CHR ''e'', CHR ''E''} then None
          else let digits = (if t \<noteq> [] \<and> hd t \<in> {CHR ''+'', CHR ''-''} then tl t else t) in
               if digits = [] \<or> \<not> list_all is_digit digits then None
               else Some ((if hd t = CHR ''-'' then - 1 else 1) * int (base_value 10 digits)))"

definition decimal_value :: "string \<Rightarrow> rat option" where
  "decimal_value s =
     (let whole = takeWhile is_digit s;
          r = dropWhile is_digit s;
          point = (r \<noteq> [] \<and> hd r = CHR ''.'');
          fraction = (if point then takeWhile is_digit (tl r) else []);
          r' = (if point then dropWhile is_digit (tl r) else r)
      in if whole = [] \<and> fraction = [] then None
         else map_option (\<lambda>e. of_nat (base_value 10 (whole @ fraction)) * 10 powi (e - int (length fraction)))
                (exponent_value r'))"

definition unsigned_number :: "string \<Rightarrow> js_number" where
  "unsigned_number s =
     (if s = ''Infinity'' then Infinite False
      else case decimal_value s of None \<Rightarrow> NaN | Some x \<Rightarrow> round_double x)"

text \<open>\<open>0x\<close>, \<open>0o\<close>, \<open>0b\<close> literals, which take no sign.\<close>

definition radix_number :: "string \<Rightarrow> js_number option" where
  "radix_number s =
     (let p = take 2 s; digits = drop 2 s;
          number = (\<lambda>b cs. Some (if digits \<noteq> [] \<and> list_all (\<lambda>c. c \<in> set cs) digits
                                 then round_double (of_nat (base_value b digits)) else NaN))
      in if p \<in> {''0x'', ''0X''} then number 16 ''0123456789abcdefABCDEF''
         else if p \<in> {''0o'', ''0O''} then number 8 ''01234567''
         else if p \<in> {''0b'', ''0B''} then number 2 ''01''
         else None)"

definition string_to_number :: "string \<Rightarrow> js_number" where
  "string_to_number text =
     (let s = js_trim text in
      if s = [] then Finite 0
      else case radix_number s of
        Some n \<Rightarrow> n
      | None \<Rightarrow>
          if hd s = CHR ''-'' then num_neg (unsigned_number (tl s))
          else if hd s = CHR ''+'' then unsigned_number (tl s)
          else unsigned_number s)"

section \<open>Integers\<close>

lemma bit_length_bounds: "0 < n \<Longrightarrow> 2 ^ (bit_length n - 1) \<le> n \<and> n < 2 ^ bit_length n \<and> 0 < bit_length n"
proof (induction n rule: bit_length.induct)
  case (1 n)
  show ?case
  proof (cases "n div 2 = 0")
    case True
    with 1 have "n = 1" by simp
    then show ?thesis by (simp add: bit_length.simps)
  next
    case False
    define k where "k = bit_length (n div 2) - 1"
    from False 1 have "2 ^ k \<le> n div 2" "n div 2 < 2 ^ bit_length (n div 2)" "bit_length (n div 2) = Suc k"
      by (auto simp: k_def)
    then have "2 * 2 ^ k \<le> n" "n < 2 * (2 * 2 ^ k)" by simp_all
    moreover have "bit_length n = Suc (Suc k)"
      using 1(2) \<open>bit_length (n div 2) = Suc k\<close> by (subst bit_length.simps) simp
    ultimately show ?thesis by simp
  qed
qed

lemma bit_length_le: "0 < n \<Longrightarrow> n < 2 ^ k \<Longrightarrow> bit_length n \<le> k"
  using bit_length_bounds [of n] power_strict_increasing_iff [of "2 :: nat" "bit_length n - 1" k] by linarith

lemma round_half_even_of_int [simp]: "round_half_even (of_int n) = n"
  by (simp add: round_half_even_def)

text \<open>A number that is a multiple of its unit in the last place is a double.\<close>

lemma round_double_exact:
  assumes "\<bar>x\<bar> = of_int m * 2 powi (ulp_exponent x)" and "\<bar>x\<bar> < 2 ^ 1024"
  shows "round_double x = Finite x"
proof -
  have "\<bar>x\<bar> / 2 powi (ulp_exponent x) = of_int m" using assms(1) by simp
  then have "round_half_even (\<bar>x\<bar> / 2 powi (ulp_exponent x)) = m" by simp
  then show ?thesis using assms by (auto simp: round_double_def Let_def)
qed

lemma ulp_exponent_of_int:
  assumes "0 < n" and "n \<le> 2 ^ 53"
  shows "ulp_exponent (of_int n) \<le> 0 \<or> n = 2 ^ 53 \<and> ulp_exponent (of_int n) = 1"
proof -
  let ?l = "bit_length (nat n)"
  have l: "2 ^ (?l - 1) \<le> nat n" "0 < ?l" using bit_length_bounds [of "nat n"] assms by auto
  have "(2 :: int) ^ (?l - 1) \<le> n" using l(1) assms(1) by (metis nat_0_le le_nat_iff less_imp_le of_nat_numeral of_nat_power)
  then have le: "(2 :: rat) ^ (?l - 1) \<le> of_int n" by (metis of_int_le_iff of_int_numeral of_int_power)
  have "bit_length (Suc 0) = 1" by (simp add: bit_length.simps)
  moreover have "(2 :: rat) powi (int ?l - 1) = 2 ^ (?l - 1)"
    using l(2) by (simp add: power_int_def nat_diff_distrib)
  ultimately have u: "ulp_exponent (of_int n) = max (int ?l - 53) (- 1074)"
    using le assms(1) by (simp add: ulp_exponent_def Let_def)
  show ?thesis
  proof (cases "n = 2 ^ 53")
    case True
    then have "nat n = 2 ^ 53" by (simp add: nat_power_eq)
    have "?l = 54"
    proof (rule antisym)
      show "?l \<le> 54" by (rule bit_length_le) (use \<open>nat n = 2 ^ 53\<close> in simp_all)
      have "nat n < 2 ^ ?l" using bit_length_bounds [of "nat n"] assms by auto
      then have "(2 :: nat) ^ 53 < 2 ^ ?l" using \<open>nat n = 2 ^ 53\<close> by simp
      then show "54 \<le> ?l" by (metis power_less_imp_less_exp one_less_numeral_iff semiring_norm(76) Suc_leI eval_nat_numeral(2) semiring_norm(26) semiring_norm(27) semiring_norm(28))
    qed
    then show ?thesis using u True by simp
  next
    case False
    then have "nat n < 2 ^ 53" using assms by auto
    then have "?l \<le> 53" by (rule bit_length_le [rotated]) (use assms in simp)
    then show ?thesis using u by simp
  qed
qed

text \<open>The integers up to \<open>2\<^sup>5\<^sup>3\<close> are exact.\<close>

lemma round_double_of_int:
  assumes "\<bar>n\<bar> \<le> 2 ^ 53"
  shows "round_double (of_int n) = Finite (of_int n)"
proof (cases "n = 0")
  case True
  then show ?thesis by (simp add: round_double_def round_half_even_def Let_def)
next
  case False
  let ?e = "ulp_exponent (of_int \<bar>n\<bar>)"
  have same: "ulp_exponent (of_int n) = ?e" by (simp add: ulp_exponent_def)
  have "\<exists>m. of_int \<bar>n\<bar> = of_int m * (2 :: rat) powi ?e"
  proof (cases "?e \<le> 0")
    case True
    then have "(of_int \<bar>n\<bar> :: rat) = of_int (\<bar>n\<bar> * 2 ^ nat (- ?e)) * 2 powi ?e"
      by (simp add: power_int_def field_simps)
    then show ?thesis by blast
  next
    case False
    have "0 < \<bar>n\<bar>" using \<open>n \<noteq> 0\<close> by simp
    from ulp_exponent_of_int [OF this assms] False have "\<bar>n\<bar> = 2 ^ 53" "?e = 1" by blast+
    then have "(of_int \<bar>n\<bar> :: rat) = of_int (2 ^ 52) * 2 powi ?e" by (simp only: power_int_1_right) simp
    then show ?thesis by blast
  qed
  then obtain m where m: "\<bar>of_int n\<bar> = of_int m * (2 :: rat) powi ulp_exponent (of_int n)" by (auto simp: same)
  have "(of_int \<bar>n\<bar> :: rat) \<le> of_int (2 ^ 53)" using assms by (simp only: of_int_le_iff)
  also have "\<dots> < 2 ^ 1024" by simp
  finally show ?thesis using round_double_exact [OF m] by simp
qed

lemma num_add_of_int:
  assumes "\<bar>a + b\<bar> \<le> 2 ^ 53"
  shows "num_add (Finite (of_int a)) (Finite (of_int b)) = Finite (of_int (a + b))"
  using round_double_of_int [OF assms] by (simp flip: of_int_add)

section \<open>Reading decimal numbers\<close>

lemma strip_words_none: "s = [] \<or> hd s \<notin> hd ` set ws \<Longrightarrow> [] \<notin> set ws \<Longrightarrow> strip_words n ws s = s"
proof (cases n)
  case (Suc m)
  assume asm: "s = [] \<or> hd s \<notin> hd ` set ws" "[] \<notin> set ws"
  have "take (length w) s \<noteq> w" if "w \<in> set ws" for w
    using asm that by (cases w; cases s) (auto simp: image_iff)
  then have "List.find (\<lambda>w. take (length w) s = w) ws = None" by (auto simp: find_None_iff)
  then show ?thesis using Suc by simp
qed simp

lemma digit_chars_iff: "c \<in> digit_chars \<longleftrightarrow> is_digit c"
proof -
  have "(map char_of [48..<58 :: nat] :: string) = ''0123456789''" by code_simp
  then have "digit_chars = set ''0123456789''" by (metis atLeastLessThan_upt digit_chars_def image_set)
  then show ?thesis by (simp only: is_digit_def)
qed

lemma js_trim_digits:
  assumes "set s \<subseteq> digit_chars"
  shows "js_trim s = s"
proof -
  have head: "t = [] \<or> hd t \<in> digit_chars" if "set t \<subseteq> digit_chars" for t
    using that by (cases t) auto
  have "hd ` set WHITE_SPACE \<inter> digit_chars = {}" "hd ` set (map rev WHITE_SPACE) \<inter> digit_chars = {}"
    by (auto simp: WHITE_SPACE_def digit_chars_iff is_digit_def)
  moreover have "[] \<notin> set WHITE_SPACE" "[] \<notin> set (map rev WHITE_SPACE)" by (auto simp: WHITE_SPACE_def)
  ultimately have "strip_words n WHITE_SPACE t = t \<and> strip_words n (map rev WHITE_SPACE) t = t"
    if "set t \<subseteq> digit_chars" for n t
    using head [OF that] by (intro conjI strip_words_none) blast+
  then show ?thesis using assms by (simp add: js_trim_def Let_def)
qed

text \<open>The decimal text of a natural number reads back as that number.\<close>

lemma digit_value_char: "n < 10 \<Longrightarrow> digit_value (char_of (48 + n)) = n"
  by (simp add: digit_value_def of_char_of take_bit_eq_mod Let_def)

lemma base_value_show_nat: "base_value 10 (show_nat n) = n"
proof (induction n rule: show_nat.induct)
  case (1 n)
  then show ?case
    by (subst show_nat.simps) (auto simp: base_value_def digit_value_char)
qed

lemma show_nat_all_digits: "list_all is_digit (show_nat n)"
  using show_nat_digits [of n] by (auto simp: list_all_iff simp flip: digit_chars_iff)

lemma string_to_number_show_nat:
  assumes "n \<le> 2 ^ 53"
  shows "string_to_number (show_nat n) = Finite (of_nat n)"
proof -
  let ?s = "show_nat n"
  have d: "\<And>c. c \<in> set ?s \<Longrightarrow> is_digit c" using show_nat_all_digits by (auto simp: list_all_iff)
  have ne: "?s \<noteq> []" by (rule show_nat_not_Nil)
  have whole: "takeWhile is_digit ?s = ?s" "dropWhile is_digit ?s = []" using d by simp_all
  have "decimal_value ?s = Some (of_nat n)"
    using ne by (simp add: decimal_value_def whole exponent_value_def base_value_show_nat Let_def)
  moreover have "?s \<noteq> ''Infinity''" using d [of "CHR ''I''"] by (auto simp: is_digit_def)
  moreover have "round_double (of_nat n) = Finite (of_nat n)"
    using round_double_of_int [of "int n"] assms by simp
  ultimately have u: "unsigned_number ?s = Finite (of_nat n)" by (simp add: unsigned_number_def)
  have "hd ?s \<noteq> CHR ''-''" "hd ?s \<noteq> CHR ''+''" using d [of "hd ?s"] ne by (auto simp: is_digit_def)
  moreover have "radix_number ?s = None"
  proof -
    have "list_all is_digit (take 2 ?s)" using d by (auto simp: list_all_iff dest: in_set_takeD)
    then have "take 2 ?s \<notin> {''0x'', ''0X'', ''0o'', ''0O'', ''0b'', ''0B''}" by (auto simp: is_digit_def)
    then show ?thesis by (auto simp: radix_number_def Let_def)
  qed
  moreover have "js_trim ?s = ?s" using d by (intro js_trim_digits) (auto simp: digit_chars_iff)
  ultimately show ?thesis using u ne by (simp add: string_to_number_def)
qed

end
