(* ===== verification/Expression_Eval.thy ===== *)
theory Expression_Eval
  imports Js_Number Stable_Json
begin

text \<open>
  The expression language of workflow conditions,
  src/src/workflows/engine/friday-workflow-expression-evaluator.ts with the types of
  src/src/workflows/model/friday-workflow-expression.types.ts: tokenizer, recursive-descent parser
  and evaluator. Texts are UTF-8; lengths and positions count UTF-16 units as the language does.
  (A character outside the basic plane, which the code reads as two units, appears whole in the
  message about an unexpected character.)
  The context is JSON data without sharing, so that two objects are identical exactly when they are
  at the same place. The text of a number is the argument \<open>num\<close>.
\<close>

section \<open>Syntax trees and contexts\<close>

datatype FridayExprLiteral = L_String string | L_Number js_number | L_Boolean bool | L_Null

datatype binary_op =
    Op_Eq | Op_Ne | Op_Gt | Op_Lt | Op_Ge | Op_Le | Op_And | Op_Or
  | Op_Add | Op_Sub | Op_Mul | Op_Div | Op_Mod

datatype unary_op = Op_Not | Op_Neg

datatype FridayExprNode =
    Literal FridayExprLiteral
  | Ref "string list"
  | Binary binary_op FridayExprNode FridayExprNode
  | Unary unary_op FridayExprNode

record FridayExpressionContext =
  ex_inputs :: "(string \<times> json) list"
  ex_steps :: "(string \<times> json) list"
  ex_env :: "(string \<times> json) list option"

definition MAX_EXPR_LENGTH :: nat where
  "MAX_EXPR_LENGTH = 4096"

definition MAX_DEPTH :: nat where
  "MAX_DEPTH = 32"

definition parse_error :: "string \<Rightarrow> friday_error" where
  "parse_error what = FridayDomainError ''EXPRESSION_PARSE_ERROR'' (''EXPRESSION_PARSE_ERROR: '' @ what) 400"

section \<open>Tokenizer\<close>

datatype TokenKind =
    TK_REF | TK_STRING | TK_NUMBER | TK_BOOLEAN | TK_NULL | TK_OP | TK_LPAREN | TK_RPAREN | TK_NOT | TK_EOF

fun kind_name :: "TokenKind \<Rightarrow> string" where
  "kind_name TK_REF = ''REF''"
| "kind_name TK_STRING = ''STRING''"
| "kind_name TK_NUMBER = ''NUMBER''"
| "kind_name TK_BOOLEAN = ''BOOLEAN''"
| "kind_name TK_NULL = ''NULL''"
| "kind_name TK_OP = ''OP''"
| "kind_name TK_LPAREN = ''LPAREN''"
| "kind_name TK_RPAREN = ''RPAREN''"
| "kind_name TK_NOT = ''NOT''"
| "kind_name TK_EOF = ''EOF''"

record Token =
  tok_kind :: TokenKind
  tok_value :: string

definition token :: "TokenKind \<Rightarrow> string \<Rightarrow> Token" where
  "token kind v = \<lparr>tok_kind = kind, tok_value = v\<rparr>"

definition utf16_units :: "char \<Rightarrow> nat" where
  "utf16_units c = (let n = of_char c :: nat in if 128 \<le> n \<and> n < 192 then 0 else if 240 \<le> n then 2 else 1)"

definition utf16_length :: "string \<Rightarrow> nat" where
  "utf16_length s = sum_list (map utf16_units s)"

definition is_letter :: "char \<Rightarrow> bool" where
  "is_letter c = (let n = of_char c :: nat in 97 \<le> n \<and> n \<le> 122 \<or> 65 \<le> n \<and> n \<le> 90)"

definition ref_char :: "char \<Rightarrow> bool" where
  "ref_char c = (is_letter c \<or> is_digit c \<or> c \<in> set ''_.-'')"

definition word_char :: "char \<Rightarrow> bool" where
  "word_char c = (is_letter c \<or> c = CHR ''_'')"

definition number_char :: "char \<Rightarrow> bool" where
  "number_char c = (is_digit c \<or> c = CHR ''.'')"

text \<open>The body of a string literal after the opening quote, and what follows the closing one.\<close>

fun read_string :: "char \<Rightarrow> string \<Rightarrow> (string \<times> string) option" where
  "read_string quote [] = None"
| "read_string quote (c # cs) =
     (if c = quote then Some ([], cs)
      else if c = CHR 0x5C
      then (case cs of
              [] \<Rightarrow> None
            | d # ds \<Rightarrow> map_option (\<lambda>(s, r). (d # s, r)) (read_string quote ds))
      else map_option (\<lambda>(s, r). (c # s, r)) (read_string quote cs))"

definition TWO_CHAR_OPERATORS :: "string list" where
  "TWO_CHAR_OPERATORS = [''=='', ''!='', ''>='', ''<='', ''&&'', ''||'']"

definition ONE_CHAR_OPERATORS :: string where
  "ONE_CHAR_OPERATORS = ''><+-*/%''"

definition white_prefix :: "string \<Rightarrow> string option" where
  "white_prefix s = List.find (\<lambda>w. take (length w) s = w) WHITE_SPACE"

definition first_character :: "string \<Rightarrow> string" where
  "first_character s = hd s # takeWhile (\<lambda>c. utf16_units c = 0) (tl s)"

text \<open>One round of the loop on a text that does not start with white space.\<close>

definition lex_word :: "string \<Rightarrow> (Token \<times> string) result" where
  "lex_word s =
     (let word = takeWhile word_char s; r = dropWhile word_char s in
      if word = ''true'' \<or> word = ''false'' then Inr (token TK_BOOLEAN word, r)
      else if word = ''null'' then Inr (token TK_NULL ''null'', r)
      else Inl (parse_error (''unexpected identifier '' @ [CHR 0x27] @ word @ [CHR 0x27] @ ''; use $'' @ word @ '' for references'')))"

definition lex_token :: "nat \<Rightarrow> string \<Rightarrow> (Token \<times> string) result" where
  "lex_token i s =
     (let ch = hd s in
      if take 2 s \<in> set TWO_CHAR_OPERATORS then Inr (token TK_OP (take 2 s), drop 2 s)
      else if ch \<in> set ONE_CHAR_OPERATORS then Inr (token TK_OP [ch], tl s)
      else if ch = CHR ''!'' then Inr (token TK_NOT ''!'', tl s)
      else if ch = CHR ''('' then Inr (token TK_LPAREN ''('', tl s)
      else if ch = CHR '')'' then Inr (token TK_RPAREN '')'', tl s)
      else if ch = CHR ''$''
      then let ref = takeWhile ref_char (tl s) in
           if ref = [] then Inl (parse_error (''expected identifier after '' @ [CHR 0x27, CHR ''$'', CHR 0x27]))
           else Inr (token TK_REF ref, dropWhile ref_char (tl s))
      else if ch = CHR 0x22 \<or> ch = CHR 0x27
      then (case read_string ch (tl s) of
              None \<Rightarrow> Inl (parse_error ''unterminated string literal'')
            | Some (str, r) \<Rightarrow> Inr (token TK_STRING str, r))
      else if is_digit ch then Inr (token TK_NUMBER (takeWhile number_char s), dropWhile number_char s)
      else if is_letter ch then lex_word s
      else Inl (parse_error (''unexpected character '' @ [CHR 0x27] @ first_character s @ [CHR 0x27] @
             '' at position '' @ show_nat i)))"

lemma read_string_shrinks: "read_string q s = Some (str, r) \<Longrightarrow> length r < length s"
  by (induction q s arbitrary: str r rule: read_string.induct)
    (fastforce split: if_splits list.splits)+

lemma dropWhile_shrinks: "s \<noteq> [] \<Longrightarrow> P (hd s) \<Longrightarrow> length (dropWhile P s) < length s"
  by (cases s) (auto simp: length_dropWhile_le le_imp_less_Suc)

lemma lex_token_shrinks:
  assumes "s \<noteq> []" and "lex_token i s = Inr (t, r)"
  shows "length r < length s"
proof -
  have 1: "length (dropWhile P (tl s)) < length s" for P
    using assms(1) length_dropWhile_le [of P "tl s"] by (cases s) auto
  have 2: "read_string q (tl s) = Some (str, r) \<Longrightarrow> length r < length s" for q str
    using assms(1) read_string_shrinks [of q "tl s" str r] by (cases s) auto
  have 3: "is_digit (hd s) \<Longrightarrow> length (dropWhile number_char s) < length s"
    by (rule dropWhile_shrinks [OF assms(1)]) (simp add: number_char_def)
  have 4: "is_letter (hd s) \<Longrightarrow> length (dropWhile word_char s) < length s"
    by (rule dropWhile_shrinks [OF assms(1)]) (simp add: word_char_def)
  show ?thesis
    using assms 1 2 3 4
    by (auto simp: lex_token_def lex_word_def Let_def split: if_splits option.splits)
qed

lemma white_prefix_not_Nil: "white_prefix s = Some w \<Longrightarrow> w \<noteq> []"
  by (auto simp: white_prefix_def WHITE_SPACE_def find_Some_iff nth_Cons' split: if_splits)

function tokenize_from :: "nat \<Rightarrow> string \<Rightarrow> Token list result" where
  "tokenize_from i s =
     (if s = [] then Inr [token TK_EOF []]
      else case white_prefix s of
        Some w \<Rightarrow> tokenize_from (i + utf16_length w) (drop (length w) s)
      | None \<Rightarrow>
          (case lex_token i s of
             Inl e \<Rightarrow> Inl e
           | Inr (t, r) \<Rightarrow>
               map_sum id (\<lambda>ts. t # ts) (tokenize_from (i + utf16_length (take (length s - length r) s)) r)))"
  by pat_completeness auto
termination
  by (relation "measure (\<lambda>(i, s). length s)") (auto dest: white_prefix_not_Nil lex_token_shrinks)

declare tokenize_from.simps [simp del]

definition tokenize :: "string \<Rightarrow> Token list result" where
  "tokenize expr = tokenize_from 0 expr"

section \<open>Parser\<close>

text \<open>
  The parser keeps its position as the list of remaining tokens. The depth counter is incremented
  on entry and decremented on exit of the nested productions, so it is passed down: \<open>b\<close> is how many
  more levels \<open>checkDepth\<close> admits.
\<close>

type_synonym parser = "Token list \<Rightarrow> (FridayExprNode \<times> Token list) result"

definition peek :: "Token list \<Rightarrow> Token" where
  "peek ts = (case ts of [] \<Rightarrow> token TK_EOF [] | t # _ \<Rightarrow> t)"

definition shown_token :: "Token \<Rightarrow> string" where
  "shown_token t = kind_name (tok_kind t) @ '' '' @ [CHR 0x27] @ tok_value t @ [CHR 0x27]"

definition expect :: "TokenKind \<Rightarrow> Token list \<Rightarrow> Token list result" where
  "expect kind ts =
     (if tok_kind (peek ts) \<noteq> kind
      then Inl (parse_error (''expected '' @ kind_name kind @ '' but got '' @ shown_token (peek ts)))
      else Inr (tl ts))"

definition depth_error :: friday_error where
  "depth_error = FridayDomainError ''EXPRESSION_DEPTH_EXCEEDED''
     ''EXPRESSION_DEPTH_EXCEEDED: maximum nesting depth of 32 exceeded'' 400"

definition OR_OPS :: "(string \<times> binary_op) list" where
  "OR_OPS = [(''||'', Op_Or)]"

definition AND_OPS :: "(string \<times> binary_op) list" where
  "AND_OPS = [(''&&'', Op_And)]"

definition COMPARE_OPS :: "(string \<times> binary_op) list" where
  "COMPARE_OPS = [(''=='', Op_Eq), (''!='', Op_Ne), (''>'', Op_Gt), (''<'', Op_Lt), (''>='', Op_Ge), (''<='', Op_Le)]"

definition ADD_OPS :: "(string \<times> binary_op) list" where
  "ADD_OPS = [(''+'', Op_Add), (''-'', Op_Sub)]"

definition MUL_OPS :: "(string \<times> binary_op) list" where
  "MUL_OPS = [(''*'', Op_Mul), (''/'', Op_Div), (''%'', Op_Mod)]"

definition peek_op :: "(string \<times> binary_op) list \<Rightarrow> Token list \<Rightarrow> binary_op option" where
  "peek_op table ts = (if tok_kind (peek ts) = TK_OP then map_of table (tok_value (peek ts)) else None)"

text \<open>
  A left-associative chain \<open>operand (op operand)*\<close>. Every round consumes its operator, so the number
  of remaining tokens bounds the rounds.
\<close>

fun chain_loop :: "nat \<Rightarrow> parser \<Rightarrow> (string \<times> binary_op) list \<Rightarrow> FridayExprNode \<Rightarrow> parser" where
  "chain_loop 0 operand table left ts = Inr (left, ts)"
| "chain_loop (Suc n) operand table left ts =
     (case peek_op table ts of
        None \<Rightarrow> Inr (left, ts)
      | Some opr \<Rightarrow>
          (case operand (tl ts) of
             Inl e \<Rightarrow> Inl e
           | Inr (right, r) \<Rightarrow> chain_loop n operand table (Binary opr left right) r))"

definition chain :: "parser \<Rightarrow> (string \<times> binary_op) list \<Rightarrow> parser" where
  "chain operand table ts =
     (case operand ts of Inl e \<Rightarrow> Inl e | Inr (left, r) \<Rightarrow> chain_loop (length r) operand table left r)"

definition compare_with :: "parser \<Rightarrow> parser" where
  "compare_with operand ts =
     (case operand ts of
        Inl e \<Rightarrow> Inl e
      | Inr (left, r) \<Rightarrow>
          (case peek_op COMPARE_OPS r of
             None \<Rightarrow> Inr (left, r)
           | Some opr \<Rightarrow>
               (case operand (tl r) of Inl e \<Rightarrow> Inl e | Inr (right, r') \<Rightarrow> Inr (Binary opr left right, r'))))"

definition primary_with :: "parser \<Rightarrow> parser" where
  "primary_with nested ts =
     (let t = peek ts in
      case tok_kind t of
        TK_REF \<Rightarrow> Inr (Ref (js_split (CHR ''.'') (tok_value t)), tl ts)
      | TK_STRING \<Rightarrow> Inr (Literal (L_String (tok_value t)), tl ts)
      | TK_NUMBER \<Rightarrow> Inr (Literal (L_Number (string_to_number (tok_value t))), tl ts)
      | TK_BOOLEAN \<Rightarrow> Inr (Literal (L_Boolean (tok_value t = ''true'')), tl ts)
      | TK_NULL \<Rightarrow> Inr (Literal L_Null, tl ts)
      | TK_LPAREN \<Rightarrow>
          (case nested (tl ts) of
             Inl e \<Rightarrow> Inl e
           | Inr (inner, r) \<Rightarrow> (case expect TK_RPAREN r of Inl e \<Rightarrow> Inl e | Inr r' \<Rightarrow> Inr (inner, r')))
      | _ \<Rightarrow> Inl (parse_error (''unexpected token '' @ shown_token t)))"

definition is_minus :: "Token \<Rightarrow> bool" where
  "is_minus t = (tok_kind t = TK_OP \<and> tok_value t = ''-'')"

definition unary_result :: "unary_op \<Rightarrow> (FridayExprNode \<times> Token list) result \<Rightarrow> (FridayExprNode \<times> Token list) result" where
  "unary_result opr r = map_sum id (\<lambda>(operand, ts). (Unary opr operand, ts)) r"

function (sequential) parse_or :: "nat \<Rightarrow> parser" and parse_and :: "nat \<Rightarrow> parser" and parse_not :: "nat \<Rightarrow> parser"
  and parse_compare :: "nat \<Rightarrow> parser" and parse_additive :: "nat \<Rightarrow> parser"
  and parse_multiplicative :: "nat \<Rightarrow> parser" and parse_unary :: "nat \<Rightarrow> parser"
  and parse_primary :: "nat \<Rightarrow> parser" and parse_nested :: "nat \<Rightarrow> parser"
where
  "parse_nested 0 ts = Inl depth_error"
| "parse_nested (Suc b) ts = parse_or b ts"
| "parse_or b ts = chain (parse_and b) OR_OPS ts"
| "parse_and b ts = chain (parse_not b) AND_OPS ts"
| "parse_not b ts =
     (if tok_kind (peek ts) = TK_NOT
      then (case b of 0 \<Rightarrow> Inl depth_error | Suc b' \<Rightarrow> unary_result Op_Not (parse_not b' (tl ts)))
      else parse_compare b ts)"
| "parse_compare b ts = compare_with (parse_additive b) ts"
| "parse_additive b ts = chain (parse_multiplicative b) ADD_OPS ts"
| "parse_multiplicative b ts = chain (parse_unary b) MUL_OPS ts"
| "parse_unary b ts =
     (if is_minus (peek ts)
      then (case b of 0 \<Rightarrow> Inl depth_error | Suc b' \<Rightarrow> unary_result Op_Neg (parse_unary b' (tl ts)))
      else parse_primary b ts)"
| "parse_primary b ts = primary_with (parse_nested b) ts"
  by pat_completeness auto
termination
  by (relation "measure (case_sum
       (case_sum (case_sum (\<lambda>(b, _). 9 * b + 8) (\<lambda>(b, _). 9 * b + 7)) (case_sum (\<lambda>(b, _). 9 * b + 6) (\<lambda>(b, _). 9 * b + 5)))
       (case_sum (case_sum (\<lambda>(b, _). 9 * b + 4) (\<lambda>(b, _). 9 * b + 3))
         (case_sum (\<lambda>(b, _). 9 * b + 2) (case_sum (\<lambda>(b, _). 9 * b + 1) (\<lambda>(b, _). 9 * b)))))") auto

declare parse_or.simps [simp del] parse_and.simps [simp del] parse_not.simps [simp del] parse_compare.simps [simp del]
  parse_additive.simps [simp del] parse_multiplicative.simps [simp del] parse_unary.simps [simp del]
  parse_primary.simps [simp del]

definition parseExpr :: "Token list \<Rightarrow> FridayExprNode result" where
  "parseExpr tokens =
     (case parse_nested MAX_DEPTH tokens of
        Inl e \<Rightarrow> Inl e
      | Inr (result, r) \<Rightarrow>
          if tok_kind (peek r) \<noteq> TK_EOF
          then Inl (parse_error (''unexpected token '' @ shown_token (peek r) @ '' after expression''))
          else Inr result)"

definition parse :: "string \<Rightarrow> FridayExprNode result" where
  "parse expr =
     (if utf16_length expr > MAX_EXPR_LENGTH
      then Inl (FridayDomainError ''EXPRESSION_TOO_LONG''
             (''EXPRESSION_TOO_LONG: expression length '' @ show_nat (utf16_length expr) @ '' exceeds maximum '' @
              show_nat MAX_EXPR_LENGTH) 400)
      else case tokenize expr of Inl e \<Rightarrow> Inl e | Inr tokens \<Rightarrow> parseExpr tokens)"

section \<open>Evaluator\<close>

datatype expr_value =
    V_Undefined
  | V_Null
  | V_Boolean bool
  | V_Number js_number
  | V_String string
  | V_Object "string list" json

text \<open>An object or array carries the place in the context it was read from.\<close>

fun value_at :: "string list \<Rightarrow> json \<Rightarrow> expr_value" where
  "value_at loc JsonNull = V_Null"
| "value_at loc (JsonBool b) = V_Boolean b"
| "value_at loc (JsonNumber r) = V_Number (Finite r)"
| "value_at loc (JsonString s) = V_String s"
| "value_at loc j = V_Object loc j"

datatype expr_failure = Domain_Error friday_error | Type_Error

fun truthy :: "expr_value \<Rightarrow> bool" where
  "truthy V_Undefined = False"
| "truthy V_Null = False"
| "truthy (V_Boolean b) = b"
| "truthy (V_Number n) = (n \<notin> {NaN, NegZero, Finite 0})"
| "truthy (V_String s) = (s \<noteq> [])"
| "truthy (V_Object loc j) = True"

fun strict_eq :: "expr_value \<Rightarrow> expr_value \<Rightarrow> bool" where
  "strict_eq (V_Number a) (V_Number b) = num_eq a b"
| "strict_eq (V_Object loc _) (V_Object loc' _) = (loc = loc')"
| "strict_eq a b = (a = b)"

text \<open>
  \<open>String\<close> of an element when an array is joined. An object with an own property \<open>toString\<close>, which
  as data cannot be called, has no primitive value: a \<open>TypeError\<close> (\<open>None\<close>).
\<close>

fun element_text :: "(js_number \<Rightarrow> string) \<Rightarrow> json \<Rightarrow> string option" where
  "element_text num JsonNull = Some []"
| "element_text num (JsonBool b) = Some (if b then ''true'' else ''false'')"
| "element_text num (JsonNumber r) = Some (num (Finite r))"
| "element_text num (JsonString s) = Some s"
| "element_text num (JsonArray xs) = map_option comma_join (those (map (element_text num) xs))"
| "element_text num (JsonObject ps) =
     (if map_of ps ''toString'' = None then Some ''[object Object]'' else None)"

fun to_number :: "(js_number \<Rightarrow> string) \<Rightarrow> expr_value \<Rightarrow> expr_failure + js_number" where
  "to_number num V_Undefined = Inr NaN"
| "to_number num V_Null = Inr (Finite 0)"
| "to_number num (V_Boolean b) = Inr (Finite (if b then 1 else 0))"
| "to_number num (V_Number n) = Inr n"
| "to_number num (V_String s) = Inr (string_to_number s)"
| "to_number num (V_Object loc j) =
     (case element_text num j of None \<Rightarrow> Inl Type_Error | Some s \<Rightarrow> Inr (string_to_number s))"

fun enumerated :: "json \<Rightarrow> json" where
  "enumerated (JsonArray xs) = JsonArray (map enumerated xs)"
| "enumerated (JsonObject ps) = JsonObject (own_order (map (\<lambda>(k, v). (k, enumerated v)) ps))"
| "enumerated j = j"

fun stringifyOperand :: "(js_number \<Rightarrow> string) \<Rightarrow> expr_value \<Rightarrow> string" where
  "stringifyOperand num V_Undefined = []"
| "stringifyOperand num V_Null = []"
| "stringifyOperand num (V_Object loc j) = json_text (num \<circ> Finite) (enumerated j)"
| "stringifyOperand num (V_Boolean b) = (if b then ''true'' else ''false'')"
| "stringifyOperand num (V_Number n) = num n"
| "stringifyOperand num (V_String s) = s"

definition UNSAFE_SEGMENTS :: "string list" where
  "UNSAFE_SEGMENTS = [''__proto__'', ''constructor'', ''prototype'']"

definition unsafe_path_error :: "string \<Rightarrow> friday_error" where
  "unsafe_path_error segment = FridayDomainError ''EXPRESSION_UNSAFE_PATH_ACCESS''
     (''EXPRESSION_UNSAFE_PATH_ACCESS: path segment '' @ [CHR 0x27] @ segment @ [CHR 0x27] @ '' is not allowed'') 400"

fun resolve_segments :: "expr_value \<Rightarrow> string list \<Rightarrow> expr_failure + expr_value" where
  "resolve_segments target [] = Inr target"
| "resolve_segments target (segment # segments) =
     (if segment \<in> set UNSAFE_SEGMENTS then Inl (Domain_Error (unsafe_path_error segment))
      else case target of
        V_Object loc j \<Rightarrow>
          (case own_property j segment of
             None \<Rightarrow> Inr V_Undefined
           | Some v \<Rightarrow> resolve_segments (value_at (loc @ [segment]) v) segments)
      | _ \<Rightarrow> Inr V_Undefined)"

definition context_root :: "FridayExpressionContext \<Rightarrow> string \<Rightarrow> expr_value option" where
  "context_root ctx base =
     (if base = ''inputs'' then Some (V_Object [base] (JsonObject (ex_inputs ctx)))
      else if base = ''steps'' then Some (V_Object [base] (JsonObject (ex_steps ctx)))
      else if base = ''env''
      then Some (case ex_env ctx of None \<Rightarrow> V_Undefined | Some env \<Rightarrow> V_Object [base] (JsonObject env))
      else None)"

definition resolve_ref :: "FridayExpressionContext \<Rightarrow> string list \<Rightarrow> expr_failure + expr_value" where
  "resolve_ref ctx path =
     (case path of
        [] \<Rightarrow> Inr V_Undefined
      | base # segments \<Rightarrow>
          (case context_root ctx base of
             None \<Rightarrow> Inr V_Undefined
           | Some target \<Rightarrow> resolve_segments target segments))"

definition numeric ::
    "(js_number \<Rightarrow> string) \<Rightarrow> (js_number \<Rightarrow> js_number \<Rightarrow> expr_value) \<Rightarrow> expr_value \<Rightarrow> expr_value
     \<Rightarrow> expr_failure + expr_value" where
  "numeric num f left right =
     (case to_number num left of
        Inl e \<Rightarrow> Inl e
      | Inr a \<Rightarrow> (case to_number num right of Inl e \<Rightarrow> Inl e | Inr b \<Rightarrow> Inr (f a b)))"

fun apply_binary ::
    "(js_number \<Rightarrow> string) \<Rightarrow> binary_op \<Rightarrow> expr_value \<Rightarrow> expr_value \<Rightarrow> expr_failure + expr_value" where
  "apply_binary num Op_Eq left right = Inr (V_Boolean (strict_eq left right))"
| "apply_binary num Op_Ne left right = Inr (V_Boolean (\<not> strict_eq left right))"
| "apply_binary num Op_Gt left right = numeric num (\<lambda>a b. V_Boolean (num_less b a)) left right"
| "apply_binary num Op_Lt left right = numeric num (\<lambda>a b. V_Boolean (num_less a b)) left right"
| "apply_binary num Op_Ge left right = numeric num (\<lambda>a b. V_Boolean (num_le b a)) left right"
| "apply_binary num Op_Le left right = numeric num (\<lambda>a b. V_Boolean (num_le a b)) left right"
| "apply_binary num Op_Add left right =
     (case (left, right) of
        (V_Number a, V_Number b) \<Rightarrow> Inr (V_Number (num_add a b))
      | _ \<Rightarrow> Inr (V_String (stringifyOperand num left @ stringifyOperand num right)))"
| "apply_binary num Op_Sub left right = numeric num (\<lambda>a b. V_Number (num_sub a b)) left right"
| "apply_binary num Op_Mul left right = numeric num (\<lambda>a b. V_Number (num_mul a b)) left right"
| "apply_binary num Op_Div left right = numeric num (\<lambda>a b. V_Number (num_div a b)) left right"
| "apply_binary num Op_Mod left right = numeric num (\<lambda>a b. V_Number (num_rem a b)) left right"
| "apply_binary num opr left right = Inr V_Undefined"

fun literal_value :: "FridayExprLiteral \<Rightarrow> expr_value" where
  "literal_value (L_String s) = V_String s"
| "literal_value (L_Number n) = V_Number n"
| "literal_value (L_Boolean b) = V_Boolean b"
| "literal_value L_Null = V_Null"

fun evaluateNode ::
    "(js_number \<Rightarrow> string) \<Rightarrow> FridayExpressionContext \<Rightarrow> FridayExprNode \<Rightarrow> expr_failure + expr_value" where
  "evaluateNode num ctx (Literal v) = Inr (literal_value v)"
| "evaluateNode num ctx (Ref path) = resolve_ref ctx path"
| "evaluateNode num ctx (Binary opr left right) =
     (case evaluateNode num ctx left of
        Inl e \<Rightarrow> Inl e
      | Inr l \<Rightarrow>
          if opr = Op_And \<and> \<not> truthy l \<or> opr = Op_Or \<and> truthy l then Inr l
          else (case evaluateNode num ctx right of
                  Inl e \<Rightarrow> Inl e
                | Inr r \<Rightarrow> if opr = Op_And \<or> opr = Op_Or then Inr r else apply_binary num opr l r))"
| "evaluateNode num ctx (Unary opr operand) =
     (case evaluateNode num ctx operand of
        Inl e \<Rightarrow> Inl e
      | Inr v \<Rightarrow>
          (case opr of
             Op_Neg \<Rightarrow> map_sum id (\<lambda>n. V_Number (num_neg n)) (to_number num v)
           | Op_Not \<Rightarrow> Inr (V_Boolean (\<not> truthy v))))"

definition exec :: "(js_number \<Rightarrow> string) \<Rightarrow> string \<Rightarrow> FridayExpressionContext \<Rightarrow> expr_failure + expr_value" where
  "exec num expr ctx =
     (case parse expr of Inl e \<Rightarrow> Inl (Domain_Error e) | Inr ast \<Rightarrow> evaluateNode num ctx ast)"

text \<open>The message of a failure.\<close>

definition failure_text :: "expr_failure \<Rightarrow> string" where
  "failure_text f =
     (case f of Domain_Error e \<Rightarrow> err_message e | Type_Error \<Rightarrow> ''Cannot convert object to primitive value'')"

section \<open>Specification vocabulary\<close>

text \<open>The deepest chain of unary operators: what the depth limit bounds in a syntax tree.\<close>

fun unary_depth :: "FridayExprNode \<Rightarrow> nat" where
  "unary_depth (Unary opr e) = Suc (unary_depth e)"
| "unary_depth (Binary opr l r) = max (unary_depth l) (unary_depth r)"
| "unary_depth e = 0"

definition syntax_failure :: "friday_error \<Rightarrow> bool" where
  "syntax_failure e \<longleftrightarrow> err_code e \<in> {''EXPRESSION_PARSE_ERROR'', ''EXPRESSION_DEPTH_EXCEEDED''} \<and> http_status e = 400"

lemma syntax_failure_simps [simp]: "syntax_failure (parse_error s)" "syntax_failure depth_error"
  by (simp_all add: syntax_failure_def parse_error_def depth_error_def)

text \<open>
  What the productions rely on in each other: a parser that succeeds has consumed a token and
  respected the depth limit, and one that fails reports a syntax error.
\<close>

locale consuming_parser =
  fixes p :: parser and bound :: nat
  assumes consumes: "p ts = Inr (e, r) \<Longrightarrow> length r < length ts"
    and bounded: "p ts = Inr (e, r) \<Longrightarrow> unary_depth e \<le> bound"
    and fails: "p ts = Inl err \<Longrightarrow> syntax_failure err"
begin

lemma peek_op_cons: "peek_op table ts = Some opr \<Longrightarrow> length (tl ts) < length ts"
  by (cases ts) (auto simp: peek_op_def peek_def token_def split: if_splits)

text \<open>The rounds are not cut short: any larger bound gives the same result.\<close>

lemma chain_loop_enough:
  "length ts \<le> n \<Longrightarrow> length ts \<le> m \<Longrightarrow> chain_loop n p table left ts = chain_loop m p table left ts"
proof (induction n arbitrary: m left ts)
  case 0
  then show ?case by (cases m) (auto simp: peek_op_def peek_def token_def)
next
  case (Suc n)
  show ?case
  proof (cases m)
    case 0
    with Suc.prems show ?thesis by (auto simp: peek_op_def peek_def token_def)
  next
    case (Suc k)
    show ?thesis
    proof (cases "peek_op table ts")
      case (Some opr)
      have "chain_loop n p table x r = chain_loop k p table x r" if "p (tl ts) = Inr (y, r)" for x y r
        using Suc.IH [of r k] Suc.prems \<open>m = Suc k\<close> consumes [OF that] peek_op_cons [OF Some] by simp
      then show ?thesis using \<open>m = Suc k\<close> Some by (auto split: sum.splits)
    qed (simp add: Suc)
  qed
qed

lemma chain_loop_consumes:
  "chain_loop n p table left ts = Inr (e, r) \<Longrightarrow> length r \<le> length ts"
proof (induction n arbitrary: left ts)
  case (Suc n)
  show ?case
  proof (cases "peek_op table ts")
    case (Some opr)
    with Suc.prems obtain x s where s: "p (tl ts) = Inr (x, s)" "chain_loop n p table (Binary opr left x) s = Inr (e, r)"
      by (auto split: sum.splits)
    from Suc.IH [OF s(2)] consumes [OF s(1)] peek_op_cons [OF Some] show ?thesis by simp
  qed (use Suc.prems in simp)
qed simp

lemma chain_loop_bounded:
  "chain_loop n p table left ts = Inr (e, r) \<Longrightarrow> unary_depth left \<le> bound \<Longrightarrow> unary_depth e \<le> bound"
  by (induction n arbitrary: left ts) (auto dest: bounded split: option.splits sum.splits)

lemma chain_consumes: "chain p table ts = Inr (e, r) \<Longrightarrow> length r < length ts"
  by (auto simp: chain_def dest!: consumes chain_loop_consumes split: sum.splits)

lemma chain_bounded: "chain p table ts = Inr (e, r) \<Longrightarrow> unary_depth e \<le> bound"
  by (auto simp: chain_def dest: bounded chain_loop_bounded split: sum.splits)

lemma compare_consumes: "compare_with p ts = Inr (e, r) \<Longrightarrow> length r < length ts"
  by (fastforce simp: compare_with_def dest!: consumes peek_op_cons split: sum.splits option.splits)

lemma compare_bounded: "compare_with p ts = Inr (e, r) \<Longrightarrow> unary_depth e \<le> bound"
  by (auto simp: compare_with_def split: sum.splits option.splits) (erule bounded)+

lemma nested_consumes: "primary_with p ts = Inr (e, r) \<Longrightarrow> length r < length ts"
  using consumes
  by (cases ts) (fastforce simp: primary_with_def expect_def peek_def token_def Let_def
      split: TokenKind.splits sum.splits if_splits)+

lemma nested_bounded: "primary_with p ts = Inr (e, r) \<Longrightarrow> unary_depth e \<le> bound"
  by (auto simp: primary_with_def Let_def intro: bounded split: TokenKind.splits sum.splits)

lemma chain_loop_fails: "chain_loop n p table left ts = Inl err \<Longrightarrow> syntax_failure err"
  by (induction n arbitrary: left ts) (auto dest: fails split: option.splits sum.splits)

lemma chain_fails: "chain p table ts = Inl err \<Longrightarrow> syntax_failure err"
  by (auto simp: chain_def dest: fails chain_loop_fails split: sum.splits)

lemma compare_fails: "compare_with p ts = Inl err \<Longrightarrow> syntax_failure err"
  by (auto simp: compare_with_def split: sum.splits option.splits) (erule fails)+

lemma nested_fails: "primary_with p ts = Inl err \<Longrightarrow> syntax_failure err"
  by (auto simp: primary_with_def expect_def Let_def dest: fails split: TokenKind.splits sum.splits if_splits)

end

lemma consuming_chain:
  "consuming_parser p n \<Longrightarrow> (\<And>ts. q ts = chain p table ts) \<Longrightarrow> consuming_parser q n"
  unfolding consuming_parser_def [of q]
  using consuming_parser.chain_consumes consuming_parser.chain_bounded consuming_parser.chain_fails by metis

lemma consuming_compare:
  "consuming_parser p n \<Longrightarrow> (\<And>ts. q ts = compare_with p ts) \<Longrightarrow> consuming_parser q n"
  unfolding consuming_parser_def [of q]
  using consuming_parser.compare_consumes consuming_parser.compare_bounded consuming_parser.compare_fails by metis

lemma consuming_primary:
  "consuming_parser p n \<Longrightarrow> (\<And>ts. q ts = primary_with p ts) \<Longrightarrow> consuming_parser q n"
  unfolding consuming_parser_def [of q]
  using consuming_parser.nested_consumes consuming_parser.nested_bounded consuming_parser.nested_fails by metis

lemma unary_result_Inr:
  "unary_result opr x = Inr (e, r) \<longleftrightarrow> (\<exists>y. x = Inr (y, r) \<and> e = Unary opr y)"
  by (cases x) (auto simp: unary_result_def)

lemma unary_result_Inl: "unary_result opr x = Inl err \<longleftrightarrow> x = Inl err"
  by (cases x) (auto simp: unary_result_def)

lemma consuming_unary:
  assumes "consuming_parser q b" and "\<And>b'. b = Suc b' \<Longrightarrow> consuming_parser (p b') b'"
    and "\<And>ts. test ts \<Longrightarrow> ts \<noteq> []"
    and "\<And>ts. p b ts = (if test ts then (case b of 0 \<Rightarrow> Inl depth_error | Suc b' \<Rightarrow> unary_result opr (p b' (tl ts))) else q ts)"
  shows "consuming_parser (p b) b"
proof
  fix ts e r
  assume prem: "p b ts = Inr (e, r)"
  consider b' x where "ts \<noteq> []" "b = Suc b'" "p b' (tl ts) = Inr (x, r)" "e = Unary opr x" | "q ts = Inr (e, r)"
    using prem assms(3) [of ts] by (auto simp: assms(4) unary_result_Inr split: if_splits nat.splits)
  note cases = this
  from cases show "length r < length ts"
  proof cases
    case 1
    then show ?thesis using consuming_parser.consumes [OF assms(2) [OF 1(2)] 1(3)] by (cases ts) auto
  qed (rule consuming_parser.consumes [OF assms(1)])
  from cases show "unary_depth e \<le> b"
  proof cases
    case 1
    then show ?thesis using consuming_parser.bounded [OF assms(2) [OF 1(2)] 1(3)] by simp
  qed (rule consuming_parser.bounded [OF assms(1)])
next
  fix ts err
  assume prem: "p b ts = Inl err"
  consider "err = depth_error" | b' where "b = Suc b'" "p b' (tl ts) = Inl err" | "q ts = Inl err"
    using prem unfolding assms(4) by (cases "test ts"; cases b) (simp_all add: unary_result_Inl)
  then show "syntax_failure err"
  proof cases
    case 2
    then show ?thesis using consuming_parser.fails [OF assms(2)] by blast
  qed (simp, rule consuming_parser.fails [OF assms(1)])
qed

lemma minus_not_Nil: "is_minus (peek ts) \<Longrightarrow> ts \<noteq> []" and not_not_Nil: "tok_kind (peek ts) = TK_NOT \<Longrightarrow> ts \<noteq> []"
  by (auto simp: is_minus_def peek_def token_def)

text \<open>From the nested production of a level to all the others of that level.\<close>

lemma consuming_level:
  assumes "consuming_parser (parse_nested b) b"
    and "\<And>b'. b = Suc b' \<Longrightarrow> consuming_parser (parse_unary b') b' \<and> consuming_parser (parse_not b') b'"
  shows "consuming_parser (parse_unary b) b \<and> consuming_parser (parse_additive b) b \<and> consuming_parser (parse_not b) b \<and>
    consuming_parser (parse_or b) b"
proof -
  have "consuming_parser (parse_primary b) b"
    by (rule consuming_primary [OF assms(1)]) (rule parse_primary.simps)
  then have u: "consuming_parser (parse_unary b) b"
    by (rule consuming_unary [where test = "\<lambda>ts. is_minus (peek ts)" and opr = Op_Neg])
      (use assms(2) in \<open>simp_all add: parse_unary.simps [of b] minus_not_Nil\<close>)
  have "consuming_parser (parse_multiplicative b) b"
    by (rule consuming_chain [OF u]) (rule parse_multiplicative.simps)
  then have a: "consuming_parser (parse_additive b) b"
    by (rule consuming_chain) (rule parse_additive.simps)
  then have "consuming_parser (parse_compare b) b"
    by (rule consuming_compare) (rule parse_compare.simps)
  then have n: "consuming_parser (parse_not b) b"
    by (rule consuming_unary [where test = "\<lambda>ts. tok_kind (peek ts) = TK_NOT" and opr = Op_Not])
      (use assms(2) in \<open>simp_all add: parse_not.simps [of b] not_not_Nil\<close>)
  then have "consuming_parser (parse_and b) b"
    by (rule consuming_chain) (rule parse_and.simps)
  then have "consuming_parser (parse_or b) b"
    by (rule consuming_chain) (rule parse_or.simps)
  with u a n show ?thesis by blast
qed

lemma consuming_parsers:
  "consuming_parser (parse_nested b) b \<and> consuming_parser (parse_unary b) b \<and> consuming_parser (parse_additive b) b \<and>
   consuming_parser (parse_not b) b \<and> consuming_parser (parse_or b) b"
proof (induction b)
  case 0
  have "consuming_parser (parse_nested 0) 0" by (simp add: consuming_parser_def)
  with consuming_level [OF this] show ?case by blast
next
  case (Suc b)
  have nested: "consuming_parser (parse_nested (Suc b)) (Suc b)"
    using Suc by (auto simp: consuming_parser_def le_SucI)
  have "consuming_parser (parse_unary (Suc b)) (Suc b) \<and> consuming_parser (parse_additive (Suc b)) (Suc b) \<and>
      consuming_parser (parse_not (Suc b)) (Suc b) \<and> consuming_parser (parse_or (Suc b)) (Suc b)"
    by (rule consuming_level [OF nested]) (use Suc in simp)
  with nested show ?case by blast
qed

interpretation or_parser: consuming_parser "parse_or b" b for b
  using consuming_parsers by blast

interpretation operand_parser: consuming_parser "parse_additive b" b for b
  using consuming_parsers by blast

interpretation nested_parser: consuming_parser "parse_nested b" b for b
  using consuming_parsers by blast

lemma lex_token_fails: "lex_token i s = Inl err \<Longrightarrow> syntax_failure err"
  by (auto simp: lex_token_def lex_word_def Let_def split: if_splits option.splits)

lemma tokenize_fails: "tokenize_from i s = Inl err \<Longrightarrow> syntax_failure err"
proof (induction i s rule: tokenize_from.induct)
  case (1 i s)
  consider w where "s \<noteq> []" "white_prefix s = Some w" "tokenize_from (i + utf16_length w) (drop (length w) s) = Inl err"
    | "lex_token i s = Inl err"
    | t r where "s \<noteq> []" "white_prefix s = None" "lex_token i s = Inr (t, r)"
        "tokenize_from (i + utf16_length (take (length s - length r) s)) r = Inl err"
    using 1(3) by (subst (asm) tokenize_from.simps)
      (auto simp: map_sum_def split: if_splits option.splits sum.splits)
  then show ?case using 1(1,2) lex_token_fails by cases metis+
qed

lemma parseExpr_fails: "parseExpr ts = Inl err \<Longrightarrow> syntax_failure err"
  by (auto simp: parseExpr_def dest: nested_parser.fails split: sum.splits if_splits)

lemma parseExpr_bounded: "parseExpr ts = Inr ast \<Longrightarrow> unary_depth ast < 32"
  using or_parser.bounded [of 31 ts ast]
  by (auto simp: parseExpr_def MAX_DEPTH_def numeral_eq_Suc split: sum.splits if_splits)


end
