(* ===== verification/Workflow_Conditions.thy ===== *)
theory Workflow_Conditions
  imports Workflow_Dag Expression_Eval
begin

text \<open>
  Edge conditions: the scheduler of \<open>Workflow_Dag\<close> with the expression evaluator of
  \<open>Expression_Eval\<close> behind it, as friday-workflow-dag-scheduler.ts calls it, and what a reference in
  an expression can read.
\<close>

section \<open>Conditions\<close>

definition condition_outcome ::
    "(js_number \<Rightarrow> string) \<Rightarrow> FridayExpressionContext \<Rightarrow> string \<Rightarrow> string + bool" where
  "condition_outcome num ctx condition =
     (case exec num condition ctx of Inl f \<Rightarrow> Inl (failure_text f) | Inr v \<Rightarrow> Inr (truthy v))"

definition condition_tick ::
    "(js_number \<Rightarrow> string) \<Rightarrow> FridayDagAdjacency \<Rightarrow> (string, NodeAttemptStatus) js_map
     \<Rightarrow> FridayCompiledWorkflowGraphV2 \<Rightarrow> FridayExpressionContext \<Rightarrow> SchedulingResult" where
  "condition_tick num adjacency statuses graph ctx =
     evaluateSchedulingResult adjacency statuses graph (condition_outcome num ctx)"

section \<open>Specification vocabulary\<close>

text \<open>The data at a path, by own properties only.\<close>

fun data_below :: "json \<Rightarrow> string list \<Rightarrow> json option" where
  "data_below j [] = Some j"
| "data_below j (segment # segments) = Option.bind (own_property j segment) (\<lambda>v. data_below v segments)"

definition data_at :: "FridayExpressionContext \<Rightarrow> string list \<Rightarrow> json option" where
  "data_at ctx path =
     (case path of
        [] \<Rightarrow> None
      | base # segments \<Rightarrow>
          Option.bind
            (map_of [(''inputs'', Some (ex_inputs ctx)), (''steps'', Some (ex_steps ctx)), (''env'', ex_env ctx)] base)
            (\<lambda>top. Option.bind top (\<lambda>ps. data_below (JsonObject ps) segments)))"

text \<open>An edge whose last declaration has a condition that fails or is not truthy.\<close>

definition edge_blocked ::
    "(js_number \<Rightarrow> string) \<Rightarrow> FridayExpressionContext \<Rightarrow> FridayWorkflowEdge list \<Rightarrow> string \<Rightarrow> string \<Rightarrow> bool" where
  "edge_blocked num ctx edges p n =
     (case filter (\<lambda>e. edge_key (sourceNodeId e) (targetNodeId e) = edge_key p n) edges of
        [] \<Rightarrow> False
      | between \<Rightarrow>
          (case we_condition (last between) of
             None \<Rightarrow> False
           | Some condition \<Rightarrow> condition \<noteq> [] \<and>
               (case exec num condition ctx of Inl _ \<Rightarrow> True | Inr v \<Rightarrow> \<not> truthy v)))"

section \<open>Lemmas\<close>

lemma resolve_data:
  "set segments \<inter> set UNSAFE_SEGMENTS = {} \<Longrightarrow>
   resolve_segments (value_at loc j) segments =
     Inr (case data_below j segments of None \<Rightarrow> V_Undefined | Some v \<Rightarrow> value_at (loc @ segments) v)"
proof (induction segments arbitrary: loc j)
  case (Cons s ss)
  show ?case
  proof (cases "value_at loc j = V_Object loc j")
    case True
    then show ?thesis using Cons by (auto split: option.splits)
  next
    case False
    then have "own_property j s = None" by (cases j) auto
    then show ?thesis using Cons.prems False by (cases j) auto
  qed
qed simp

lemma resolve_unsafe:
  "set segments \<inter> set UNSAFE_SEGMENTS \<noteq> {} \<Longrightarrow>
   resolve_segments target segments \<in>
     insert (Inr V_Undefined) ((\<lambda>s. Inl (Domain_Error (unsafe_path_error s))) ` set UNSAFE_SEGMENTS)"
proof (induction segments arbitrary: target)
  case (Cons s ss)
  then show ?case by (cases "s \<in> set UNSAFE_SEGMENTS"; cases target) (auto split: option.splits)
qed simp

lemma reference_value:
  assumes "set (tl path) \<inter> set UNSAFE_SEGMENTS = {}"
  shows "evaluateNode num ctx (Ref path) = Inr (case data_at ctx path of None \<Rightarrow> V_Undefined | Some j \<Rightarrow> value_at path j)"
proof (cases path)
  case (Cons base segments)
  with assms have safe: "set segments \<inter> set UNSAFE_SEGMENTS = {}" by simp
  have env: "resolve_segments V_Undefined segments = Inr V_Undefined" using safe by (cases segments) auto
  have obj: "resolve_segments (V_Object [b] (JsonObject ps)) segments =
      Inr (case data_below (JsonObject ps) segments of None \<Rightarrow> V_Undefined | Some v \<Rightarrow> value_at (b # segments) v)" for b ps
    using resolve_data [OF safe, of "[b]" "JsonObject ps"] by (simp cong: option.case_cong)
  have "resolve_ref ctx (base # segments) =
      Inr (case data_at ctx (base # segments) of None \<Rightarrow> V_Undefined | Some j \<Rightarrow> value_at (base # segments) j)"
    by (cases "base = ''inputs''"; cases "base = ''steps''"; cases "base = ''env''"; cases "ex_env ctx")
      (simp_all add: resolve_ref_def context_root_def data_at_def env obj cong: option.case_cong)
  then show ?thesis using Cons by (simp cong: option.case_cong)
qed (simp add: resolve_ref_def data_at_def)

lemma edge_blocked_iff: "edge_blocked num ctx edges p n = (\<not> edge_passes (condition_outcome num ctx) edges p n)"
  by (auto simp: edge_blocked_def edge_passes_def condition_outcome_def Let_def split: list.splits option.splits sum.splits)

section \<open>Properties\<close>

text \<open>
  References read data and nothing else: a reference without an unsafe segment yields exactly the
  value at its path, reached through own properties, and \<open>undefined\<close> where there is none; one with
  \<open>__proto__\<close>, \<open>constructor\<close> or \<open>prototype\<close> below its base never yields data: it is refused, or
  \<open>undefined\<close> because the path ends before.
\<close>

theorem reference_reads_own_data:
  "if set (tl path) \<inter> set UNSAFE_SEGMENTS = {}
   then evaluateNode num ctx (Ref path) =
     Inr (case data_at ctx path of None \<Rightarrow> V_Undefined | Some j \<Rightarrow> value_at path j)
   else evaluateNode num ctx (Ref path) \<in>
     insert (Inr V_Undefined) ((\<lambda>s. Inl (Domain_Error (unsafe_path_error s))) ` set UNSAFE_SEGMENTS)"
proof (cases "set (tl path) \<inter> set UNSAFE_SEGMENTS = {}")
  case True
  then show ?thesis using reference_value [OF True, of num ctx] by (simp del: evaluateNode.simps cong: option.case_cong)
next
  case False
  then show ?thesis using resolve_unsafe [OF False] by (cases path) (auto simp: resolve_ref_def split: option.splits)
qed


end
