(* ===== verification/Workflow_Validator.thy ===== *)
theory Workflow_Validator
  imports Workflow_Conditions
begin

text \<open>
  The validator of compiled graphs, src/src/workflows/compiler/friday-workflow-validator.ts: its
  twelve checks in order, with the depth-first search for cycles and the breadth-first search for
  connectivity. Both searches are proved correct once, in a locale of graphs given by adjacency
  lists, and used through its interpretations on the directed and the undirected adjacency.
\<close>

section \<open>Results\<close>

record FridayWorkflowValidationError =
  wv_code :: string
  wv_message :: string
  wv_nodeId :: "string option"
  wv_edgeId :: "string option"

record FridayWorkflowValidationResult =
  wr_valid :: bool
  wr_errors :: "FridayWorkflowValidationError list"

definition SUPPORTED_NODE_TYPES :: "string list" where
  "SUPPORTED_NODE_TYPES = [''trigger'', ''action'', ''condition'', ''data'', ''ai'', ''approval'']"

definition graph_error :: "string \<Rightarrow> string \<Rightarrow> FridayWorkflowValidationError" where
  "graph_error code message = \<lparr>wv_code = code, wv_message = message, wv_nodeId = None, wv_edgeId = None\<rparr>"

definition node_error :: "string \<Rightarrow> string \<Rightarrow> string \<Rightarrow> FridayWorkflowValidationError" where
  "node_error code message nodeId = (graph_error code message)\<lparr>wv_nodeId := Some nodeId\<rparr>"

definition edge_error :: "string \<Rightarrow> string \<Rightarrow> string \<Rightarrow> FridayWorkflowValidationError" where
  "edge_error code message edgeId = (graph_error code message)\<lparr>wv_edgeId := Some edgeId\<rparr>"

section \<open>Scans over nodes and edges\<close>

text \<open>A \<open>Set\<close> in insertion order.\<close>

definition set_add :: "'a list \<Rightarrow> 'a \<Rightarrow> 'a list" where
  "set_add xs x = (if x \<in> set xs then xs else xs @ [x])"

fun scan_nodes ::
    "FridayWorkflowNode list \<Rightarrow> string list \<Rightarrow> FridayWorkflowValidationError list \<times> string list" where
  "scan_nodes [] nodeIds = ([], nodeIds)"
| "scan_nodes (node # nodes) nodeIds =
     (let later = scan_nodes nodes (set_add nodeIds (wn_id node)) in
      ((if wn_type node \<in> set SUPPORTED_NODE_TYPES then []
        else [node_error ''WORKFLOW_UNSUPPORTED_NODE_TYPE''
                (''Unsupported workflow node type '' @ squoted (wn_type node) @ '' for node '' @ squoted (wn_id node)) (wn_id node)]) @
       (if wn_id node \<in> set nodeIds
        then [node_error ''WORKFLOW_DUPLICATE_NODE_ID'' (''Duplicate node id '' @ squoted (wn_id node)) (wn_id node)]
        else []) @ fst later,
       snd later))"

fun scan_edge_ids :: "FridayWorkflowEdge list \<Rightarrow> string list \<Rightarrow> FridayWorkflowValidationError list" where
  "scan_edge_ids [] edgeIds = []"
| "scan_edge_ids (edge # edges) edgeIds =
     (if we_id edge \<in> set edgeIds
      then [edge_error ''WORKFLOW_DUPLICATE_EDGE_ID'' (''Duplicate edge id '' @ squoted (we_id edge)) (we_id edge)]
      else []) @ scan_edge_ids edges (set_add edgeIds (we_id edge))"

definition missing_end :: "FridayWorkflowEdge \<Rightarrow> string \<Rightarrow> string \<Rightarrow> FridayWorkflowValidationError" where
  "missing_end edge which nodeId = edge_error ''WORKFLOW_EDGE_REFERENCES_MISSING_NODE''
     (''Edge '' @ squoted (we_id edge) @ '' references missing '' @ which @ '' node '' @ squoted nodeId) (we_id edge)"

definition scan_edge_ends :: "string list \<Rightarrow> FridayWorkflowEdge list \<Rightarrow> FridayWorkflowValidationError list" where
  "scan_edge_ends nodeIds edges = concat (map (\<lambda>edge.
     (if sourceNodeId edge \<in> set nodeIds then [] else [missing_end edge ''source'' (sourceNodeId edge)]) @
     (if targetNodeId edge \<in> set nodeIds then [] else [missing_end edge ''target'' (targetNodeId edge)])) edges)"

text \<open>The adjacency lists skip edges with an unknown end.\<close>

definition list_push :: "(string, string list) js_map \<Rightarrow> string \<Rightarrow> string \<Rightarrow> (string, string list) js_map" where
  "list_push m k x = map_set m k (list_at m k @ [x])"

definition known_edges :: "string list \<Rightarrow> FridayWorkflowEdge list \<Rightarrow> FridayWorkflowEdge list" where
  "known_edges nodeIds edges = filter (\<lambda>edge. sourceNodeId edge \<in> set nodeIds \<and> targetNodeId edge \<in> set nodeIds) edges"

definition outbound_lists :: "string list \<Rightarrow> FridayWorkflowNode list \<Rightarrow> FridayWorkflowEdge list \<Rightarrow> (string, string list) js_map" where
  "outbound_lists nodeIds nodes edges =
     fold (\<lambda>edge m. list_push m (sourceNodeId edge) (targetNodeId edge)) (known_edges nodeIds edges) (init_lists nodes)"

definition inbound_lists :: "string list \<Rightarrow> FridayWorkflowNode list \<Rightarrow> FridayWorkflowEdge list \<Rightarrow> (string, string list) js_map" where
  "inbound_lists nodeIds nodes edges =
     fold (\<lambda>edge m. list_push m (targetNodeId edge) (sourceNodeId edge)) (known_edges nodeIds edges) (init_lists nodes)"

definition undirected_lists :: "string list \<Rightarrow> FridayWorkflowNode list \<Rightarrow> FridayWorkflowEdge list \<Rightarrow> (string, string list) js_map" where
  "undirected_lists nodeIds nodes edges =
     fold (\<lambda>edge m. list_push (list_push m (sourceNodeId edge) (targetNodeId edge)) (targetNodeId edge) (sourceNodeId edge))
       (known_edges nodeIds edges) (init_lists nodes)"

section \<open>Depth-first search\<close>

datatype color = White | Gray | Black

text \<open>The nodes a search has still to enter bound its recursion.\<close>

definition whites :: "(string, color) js_map \<Rightarrow> nat" where
  "whites color = length (filter (\<lambda>(k, c). c = White) color)"

lemma whites_set:
  "map_get color k = Some c \<Longrightarrow>
   whites (map_set color k c') + (if c = White then 1 else 0) = whites color + (if c' = White then 1 else 0)"
  by (induction color) (auto simp: whites_def map_get_def map_set_def split: if_splits)

lemma whites_set_le: "c \<noteq> White \<Longrightarrow> whites (map_set color k c) \<le> whites color"
  by (induction color) (auto simp: whites_def map_set_def)

text \<open>
  The loop of \<open>dfs\<close> over the successors of a node; the recursive call enters a white successor and
  leaves it black. The flag is \<open>cycleDetected\<close>.
\<close>

function dfs_loop :: "(string, string list) js_map \<Rightarrow> string list \<Rightarrow> (string, color) js_map \<Rightarrow> bool \<times> (string, color) js_map" where
  "dfs_loop out [] color = (False, color)"
| "dfs_loop out (succ # succs) color =
     (if map_get color succ = Some Gray then (True, color)
      else if map_get color succ = Some White
      then let r = dfs_loop out (list_at out succ) (map_set color succ Gray) in
           if fst r then r else dfs_loop out succs (map_set (snd r) succ Black)
      else dfs_loop out succs color)"
  by pat_completeness auto

lemma dfs_loop_whites: "dfs_loop_dom (out, succs, color) \<Longrightarrow> whites (snd (dfs_loop out succs color)) \<le> whites color"
proof (induction out succs color rule: dfs_loop.pinduct)
  case (2 out succ succs color)
  let ?r = "dfs_loop out (list_at out succ) (map_set color succ Gray)"
  note step = dfs_loop.psimps(2) [OF "2.hyps"]
  show ?case
  proof (cases "map_get color succ = Some White")
    case True
    have "whites (snd ?r) \<le> whites color"
      using "2.IH"(1) True whites_set_le [of Gray color succ] by simp
    moreover have "\<not> fst ?r \<Longrightarrow>
        whites (snd (dfs_loop out succs (map_set (snd ?r) succ Black))) \<le> whites (map_set (snd ?r) succ Black)"
      using "2.IH"(2) True by simp
    ultimately show ?thesis using True step whites_set_le [of Black "snd ?r" succ] by (auto simp: Let_def)
  next
    case False
    then show ?thesis using step "2.IH"(3) by auto
  qed
qed (simp add: dfs_loop.psimps)

termination dfs_loop
proof (relation "measures [\<lambda>(out, succs, color). whites color, \<lambda>(out, succs, color). length succs]", goal_cases)
  case (2 out succ succs color)
  then show ?case using whites_set [of color succ White Gray] by simp
next
  case (3 out succ succs color r)
  then have "whites (snd r) \<le> whites (map_set color succ Gray)" using dfs_loop_whites by blast
  then show ?case
    using 3 whites_set [of color succ White Gray] whites_set_le [of Black "snd r" succ] by simp
qed simp_all

definition dfs :: "(string, string list) js_map \<Rightarrow> string \<Rightarrow> (string, color) js_map \<Rightarrow> bool \<times> (string, color) js_map" where
  "dfs out nodeId color =
     (let r = dfs_loop out (list_at out nodeId) (map_set color nodeId Gray) in
      if fst r then r else (False, map_set (snd r) nodeId Black))"

fun dfs_roots :: "(string, string list) js_map \<Rightarrow> string list \<Rightarrow> (string, color) js_map \<Rightarrow> bool" where
  "dfs_roots out [] color = False"
| "dfs_roots out (nodeId # ids) color =
     (if map_get color nodeId = Some White
      then let r = dfs out nodeId color in if fst r then True else dfs_roots out ids (snd r)
      else dfs_roots out ids color)"

definition cycle_detected :: "(string, string list) js_map \<Rightarrow> string list \<Rightarrow> bool" where
  "cycle_detected out nodeIds =
     dfs_roots out nodeIds (fold (\<lambda>nodeId color. map_set color nodeId White) nodeIds map_empty)"

section \<open>Breadth-first search\<close>

function bfs :: "(string, string list) js_map \<Rightarrow> string list \<Rightarrow> string list \<Rightarrow> string list" where
  "bfs adj visited [] = visited"
| "bfs adj visited (nodeId # queue) =
     (if nodeId \<in> set visited then bfs adj visited queue
      else bfs adj (visited @ [nodeId]) (queue @ filter (\<lambda>m. m \<notin> set (visited @ [nodeId])) (list_at adj nodeId)))"
  by pat_completeness auto
termination
proof (relation "measures [\<lambda>(adj, visited, queue). card (set (map_keys adj) - set visited), \<lambda>(adj, visited, queue). length queue]",
    goal_cases)
  case (3 adj visited nodeId queue)
  show ?case
  proof (cases "nodeId \<in> set (map_keys adj)")
    case True
    then have "set (map_keys adj) - set (visited @ [nodeId]) \<subset> set (map_keys adj) - set visited" using 3 by auto
    then show ?thesis by (simp add: psubset_card_mono)
  next
    case False
    then have "list_at adj nodeId = []" using map_get_keys [of adj nodeId] by (simp add: list_at_def)
    moreover have "set (map_keys adj) - set (visited @ [nodeId]) = set (map_keys adj) - set visited" using False by auto
    ultimately show ?thesis by simp
  qed
qed simp_all

definition unreached :: "FridayWorkflowNode list \<Rightarrow> string list \<Rightarrow> (string, string list) js_map \<Rightarrow> string list" where
  "unreached nodes nodeIds adj =
     (if length nodes > 1 then let visited = bfs adj [] [wn_id (hd nodes)] in filter (\<lambda>i. i \<notin> set visited) nodeIds
      else [])"

section \<open>Validation\<close>

definition config_truthy :: "(string \<times> json) list \<Rightarrow> string \<Rightarrow> bool" where
  "config_truthy config key = (case map_of config key of None \<Rightarrow> False | Some j \<Rightarrow> truthy (value_at [] j))"

definition node_objections :: "(string, string list) js_map \<Rightarrow> FridayWorkflowNode \<Rightarrow> FridayWorkflowValidationError list" where
  "node_objections out node =
     (if wn_type node = ''condition'' \<and> list_at out (wn_id node) = []
      then [node_error ''WORKFLOW_CONDITION_NO_OUTBOUND''
              (''Condition node '' @ squoted (wn_id node) @ '' must have at least one outbound edge'') (wn_id node)]
      else []) @
     (if wn_type node = ''action'' \<and> \<not> config_truthy (wn_config node) ''skillId'' \<and> \<not> config_truthy (wn_config node) ''ref''
      then [node_error ''WORKFLOW_ACTION_MISSING_REF''
              (''Action node '' @ squoted (wn_id node) @ '' must have a '' @ squoted ''skillId'' @ '' or '' @ squoted ''ref'' @
               '' in config'') (wn_id node)]
      else [])"

definition condition_objections :: "FridayWorkflowEdge \<Rightarrow> FridayWorkflowValidationError list" where
  "condition_objections edge =
     (case we_condition edge of
        None \<Rightarrow> []
      | Some condition \<Rightarrow>
          if condition \<noteq> [] \<and> isl (parse condition)
          then [edge_error ''WORKFLOW_EXPRESSION_INVALID''
                  (''Edge '' @ squoted (we_id edge) @ '' has invalid condition expression: '' @ squoted condition) (we_id edge)]
          else [])"

definition header_objections :: "FridayCompiledWorkflowGraphV2 \<Rightarrow> FridayWorkflowValidationError list" where
  "header_objections graph =
     (if cg_schemaVersion graph \<noteq> ''2.0''
      then [graph_error ''WORKFLOW_INVALID_SCHEMA_VERSION''
              (''Expected schemaVersion '' @ squoted ''2.0'' @ '', got '' @ squoted (cg_schemaVersion graph))]
      else []) @
     (if cg_checksum graph = [] then [graph_error ''WORKFLOW_MISSING_CHECKSUM'' ''Graph checksum is required''] else [])"

definition shape_objections ::
    "FridayWorkflowNode list \<Rightarrow> string list \<Rightarrow> FridayWorkflowEdge list \<Rightarrow> FridayWorkflowValidationError list" where
  "shape_objections nodes nodeIds edges =
     (let out = outbound_lists nodeIds nodes edges; inb = inbound_lists nodeIds nodes edges in
      (if filter (\<lambda>i. list_at inb i = []) (map wn_id nodes) = []
       then [graph_error ''WORKFLOW_NO_ENTRY_NODE'' ''Graph must have at least one node with no inbound edges''] else []) @
      (if cycle_detected out nodeIds then [graph_error ''WORKFLOW_CYCLE_DETECTED'' ''Graph contains a cycle''] else []) @
      map (\<lambda>i. node_error ''WORKFLOW_GRAPH_DISCONNECTED''
                  (''Node '' @ squoted i @ '' is not reachable from any entry node'') i)
        (unreached nodes nodeIds (undirected_lists nodeIds nodes edges)) @
      (if filter (\<lambda>i. list_at out i = []) nodeIds = [] \<and> length nodes > 0
       then [graph_error ''WORKFLOW_NO_TERMINAL_PATH''
               ''Graph must have at least one path reaching a node with no outbound edges'']
       else []) @
      concat (map (node_objections out) nodes))"

definition validate :: "FridayCompiledWorkflowGraphV2 \<Rightarrow> FridayWorkflowValidationResult" where
  "validate graph =
     (let nodes = cg_nodes graph; edges = cg_edges graph in
      if nodes = []
      then \<lparr>wr_valid = False, wr_errors = header_objections graph @
             [graph_error ''WORKFLOW_EMPTY_GRAPH'' ''Graph must contain at least one node'']\<rparr>
      else let scan = scan_nodes nodes []; nodeIds = snd scan;
               errors = header_objections graph @ fst scan @ scan_edge_ids edges [] @ scan_edge_ends nodeIds edges @
                 shape_objections nodes nodeIds edges @ concat (map condition_objections edges)
           in \<lparr>wr_valid = (errors = []), wr_errors = errors\<rparr>)"

section \<open>Specification vocabulary\<close>

text \<open>What a valid graph is, without reference to a search.\<close>

definition connected_graph :: "FridayCompiledWorkflowGraphV2 \<Rightarrow> bool" where
  "connected_graph graph \<longleftrightarrow>
     set (node_ids graph) \<subseteq> (set (edge_pairs graph) \<union> (set (edge_pairs graph))\<inverse>)\<^sup>* `` {hd (node_ids graph)}"

definition complete_node :: "FridayCompiledWorkflowGraphV2 \<Rightarrow> FridayWorkflowNode \<Rightarrow> bool" where
  "complete_node graph node \<longleftrightarrow>
     wn_type node \<in> set SUPPORTED_NODE_TYPES \<and>
     (wn_type node = ''condition'' \<longrightarrow> wn_id node \<in> fst ` set (edge_pairs graph)) \<and>
     (wn_type node = ''action'' \<longrightarrow> config_truthy (wn_config node) ''skillId'' \<or> config_truthy (wn_config node) ''ref'')"

definition well_formed_graph :: "FridayCompiledWorkflowGraphV2 \<Rightarrow> bool" where
  "well_formed_graph graph \<longleftrightarrow>
     cg_schemaVersion graph = ''2.0'' \<and> cg_checksum graph \<noteq> [] \<and> cg_nodes graph \<noteq> [] \<and>
     distinct (node_ids graph) \<and> distinct (map we_id (cg_edges graph)) \<and> edges_valid graph \<and>
     acyclic (set (edge_pairs graph)) \<and> connected_graph graph \<and> list_all (complete_node graph) (cg_nodes graph) \<and>
     list_all (\<lambda>edge. we_condition edge \<in> {None, Some []} \<or> (\<exists>ast. parse (the (we_condition edge)) = Inr ast)) (cg_edges graph)"

text \<open>The nodes of a color; a list in the order in which nodes turned black, successors first.\<close>

definition colored :: "color \<Rightarrow> (string, color) js_map \<Rightarrow> string set" where
  "colored c color = {n. map_get color n = Some c}"

definition entered :: "(string, color) js_map \<Rightarrow> string set" where
  "entered color = {n. map_get color n \<noteq> None}"

definition finished_in :: "(string \<times> string) list \<Rightarrow> string list \<Rightarrow> (string, color) js_map \<Rightarrow> bool" where
  "finished_in E post color \<longleftrightarrow>
     distinct post \<and> set post = colored Black color \<and> edges_forward (map prod.swap E) post"

section \<open>Correctness of the searches\<close>

lemma colored_set [simp]: "colored c (map_set color k c') = (if c = c' then insert k (colored c color) else colored c color - {k})"
  by (auto simp: colored_def)

lemma entered_set [simp]: "entered (map_set color k c) = insert k (entered color)"
  by (auto simp: entered_def)

lemma colored_disjoint: "k \<in> colored c color \<Longrightarrow> k \<in> colored c' color \<Longrightarrow> c = c'"
  by (simp add: colored_def)

lemma colored_get: "map_get color k = Some c \<longleftrightarrow> k \<in> colored c color"
  by (simp add: colored_def)

lemma finished_snoc:
  assumes "finished_in E post color" and "n \<notin> set post" and "set E `` {n} \<subseteq> set post"
  shows "finished_in E (post @ [n]) (map_set color n Black)"
  using assms by (auto simp: finished_in_def edges_forward_def nth_append less_Suc_eq)

lemma finished_gray: "finished_in E post color \<Longrightarrow> map_get color n \<noteq> Some Black \<Longrightarrow> finished_in E post (map_set color n Gray)"
  by (auto simp: finished_in_def colored_def)

text \<open>Induction along the search of one graph.\<close>

lemma dfs_loop_induct [case_names Nil Cons]:
  assumes "\<And>color. P [] color"
    and "\<And>s ss color. (map_get color s = Some White \<Longrightarrow> P (list_at adj s) (map_set color s Gray)) \<Longrightarrow>
      (map_get color s = Some White \<Longrightarrow> \<not> fst (dfs_loop adj (list_at adj s) (map_set color s Gray)) \<Longrightarrow>
        P ss (map_set (snd (dfs_loop adj (list_at adj s) (map_set color s Gray))) s Black)) \<Longrightarrow>
      (map_get color s \<notin> {Some White, Some Gray} \<Longrightarrow> P ss color) \<Longrightarrow> P (s # ss) color"
  shows "P ss color"
proof -
  have "out = adj \<Longrightarrow> P ss color" for out
  proof (induction out ss color rule: dfs_loop.induct)
    case (2 out s ss color)
    then show ?case by (intro assms(2)) auto
  qed (rule assms(1))
  then show ?thesis by simp
qed

lemma dfs_loop_gray: "\<not> fst (dfs_loop adj ss color) \<Longrightarrow> colored Gray (snd (dfs_loop adj ss color)) = colored Gray color"
proof (induction ss color rule: dfs_loop_induct [of _ adj])
  case (Cons s ss color)
  then show ?case
    by (cases "map_get color s = Some White") (auto simp: Let_def colored_get dest: colored_disjoint split: if_splits)
qed simp

lemma dfs_loop_entered: "entered color \<subseteq> entered (snd (dfs_loop adj ss color))"
proof (induction ss color rule: dfs_loop_induct [of _ adj])
  case (Cons s ss color)
  then show ?case by (auto simp: Let_def subset_iff)
qed simp

text \<open>A graph given by adjacency lists: what both searches rely on.\<close>

locale search_graph =
  fixes adj :: "(string, string list) js_map" and E :: "(string \<times> string) list" and ids :: "string set"
  assumes succs: "set (list_at adj n) = set E `` {n}" and ends: "set E \<subseteq> ids \<times> ids"
begin

lemma dfs_loop_finishes:
  assumes "\<not> fst (dfs_loop adj ss color)" and "finished_in E post color" and "ids \<subseteq> entered color" and "set ss \<subseteq> ids"
  shows "\<exists>post'. finished_in E post' (snd (dfs_loop adj ss color)) \<and> set post \<union> set ss \<subseteq> set post'"
  using assms
proof (induction ss color arbitrary: post rule: dfs_loop_induct [of _ adj])
  case (Cons s ss color)
  show ?case
  proof (cases "map_get color s = Some White")
    case True
    let ?r = "dfs_loop adj (list_at adj s) (map_set color s Gray)"
    have r: "\<not> fst ?r" "\<not> fst (dfs_loop adj ss (map_set (snd ?r) s Black))"
      using Cons.prems(1) True by (auto simp: Let_def split: if_splits)
    have "ids \<subseteq> entered (map_set color s Gray)" "set (list_at adj s) \<subseteq> ids"
      using Cons.prems(3) succs ends by auto
    then obtain inner where inner: "finished_in E inner (snd ?r)" "set post \<union> set E `` {s} \<subseteq> set inner"
      using Cons.IH(1) [OF True r(1) finished_gray [OF Cons.prems(2)]] True by (auto simp: succs)
    have "s \<in> colored Gray (snd ?r)" using dfs_loop_gray [OF r(1)] by simp
    then have "s \<notin> set inner" using inner(1) by (auto simp: finished_in_def dest: colored_disjoint)
    then have "finished_in E (inner @ [s]) (map_set (snd ?r) s Black)" using inner by (intro finished_snoc) auto
    moreover have "ids \<subseteq> entered (map_set (snd ?r) s Black)"
      using Cons.prems(3) dfs_loop_entered [of "map_set color s Gray" adj "list_at adj s"] by auto
    ultimately obtain post' where "finished_in E post' (snd (dfs_loop adj ss (map_set (snd ?r) s Black)))"
      "set (inner @ [s]) \<union> set ss \<subseteq> set post'"
      using Cons.IH(2) [OF True r(1) r(2), of "inner @ [s]"] Cons.prems(4) by auto
    then show ?thesis using inner(2) r(1) True by (auto simp: Let_def)
  next
    case False
    have "map_get color s \<noteq> Some Gray" using Cons.prems(1) by auto
    moreover have "map_get color s \<noteq> None" using Cons.prems(3,4) by (auto simp: entered_def)
    ultimately have black: "map_get color s = Some Black" using False by (metis color.exhaust option.exhaust)
    then obtain post' where "finished_in E post' (snd (dfs_loop adj ss color))" "set post \<union> set ss \<subseteq> set post'"
      using Cons.IH(3) [OF _ _ Cons.prems(2,3)] Cons.prems(1,4) by auto
    moreover have "s \<in> set post" using black Cons.prems(2) by (simp add: finished_in_def colored_def)
    ultimately show ?thesis using black by auto
  qed
qed auto

lemma dfs_loop_cycle:
  assumes "fst (dfs_loop adj ss color)" and "set ss \<subseteq> set E `` {v}" and "colored Gray color \<subseteq> {g. (g, v) \<in> (set E)\<^sup>*}"
  shows "\<not> acyclic (set E)"
  using assms
proof (induction ss color arbitrary: v rule: dfs_loop_induct [of _ adj])
  case (Cons s ss color)
  have edge: "(v, s) \<in> set E" using Cons.prems(2) by auto
  show ?case
  proof (cases "map_get color s = Some White")
    case True
    let ?r = "dfs_loop adj (list_at adj s) (map_set color s Gray)"
    show ?thesis
    proof (cases "fst ?r")
      case cyc: True
      have "colored Gray (map_set color s Gray) \<subseteq> {g. (g, s) \<in> (set E)\<^sup>*}"
        using Cons.prems(3) edge by (auto intro: rtrancl_into_rtrancl)
      with Cons.IH(1) [OF True cyc] succs show ?thesis by blast
    next
      case no: False
      have "s \<notin> colored Gray color" using True by (simp add: colored_def)
      then have "colored Gray (map_set (snd ?r) s Black) = colored Gray color" using dfs_loop_gray [OF no] by simp
      then have gray: "colored Gray (map_set (snd ?r) s Black) \<subseteq> {g. (g, v) \<in> (set E)\<^sup>*}" using Cons.prems(3) by blast
      have "fst (dfs_loop adj ss (map_set (snd ?r) s Black))" using Cons.prems(1) True no by (simp add: Let_def)
      then show ?thesis using Cons.prems(2) by (intro Cons.IH(2) [OF True no _ _ gray]) auto
    qed
  next
    case False
    show ?thesis
    proof (cases "map_get color s = Some Gray")
      case True
      then have "(s, v) \<in> (set E)\<^sup>*" using Cons.prems(3) by (auto simp: colored_def)
      then have "(s, s) \<in> (set E)\<^sup>+" using edge by (rule rtrancl_into_trancl1)
      then show ?thesis by (auto simp: acyclic_def)
    next
      case no: False
      then have "fst (dfs_loop adj ss color)" using Cons.prems(1) False by simp
      then show ?thesis using Cons.prems(2) no False by (intro Cons.IH(3) [OF _ _ _ Cons.prems(3)]) auto
    qed
  qed
qed simp

lemma dfs_finishes:
  assumes "\<not> fst (dfs adj n color)" and "finished_in E post color" and "ids \<subseteq> entered color" and "n \<in> ids"
    and "map_get color n = Some White"
  shows "\<exists>post'. finished_in E post' (snd (dfs adj n color)) \<and> insert n (set post) \<subseteq> set post'"
proof -
  have "dfs_loop adj [n] color = dfs adj n color" using assms(5) by (simp add: dfs_def Let_def)
  then show ?thesis using dfs_loop_finishes [of "[n]" color post] assms by auto
qed

lemma dfs_roots_finishes:
  assumes "\<not> dfs_roots adj rs color" and "finished_in E post color" and "ids \<subseteq> entered color" and "set rs \<subseteq> ids"
    and "colored Gray color = {}"
  shows "\<exists>post' color'. finished_in E post' color' \<and> set post \<union> set rs \<subseteq> set post'"
  using assms
proof (induction rs arbitrary: color post)
  case (Cons n rs)
  show ?case
  proof (cases "map_get color n = Some White")
    case True
    then have r: "\<not> fst (dfs adj n color)" "\<not> dfs_roots adj rs (snd (dfs adj n color))"
      using Cons.prems(1) by (auto simp: Let_def split: if_splits)
    obtain inner where inner: "finished_in E inner (snd (dfs adj n color))" "insert n (set post) \<subseteq> set inner"
      using dfs_finishes [OF r(1) Cons.prems(2,3) _ True] Cons.prems(4) by auto
    have eq: "dfs adj n color = dfs_loop adj [n] color" using True by (simp add: dfs_def Let_def)
    have "colored Gray (snd (dfs adj n color)) = {}" "ids \<subseteq> entered (snd (dfs adj n color))"
      using dfs_loop_gray [of adj "[n]" color] dfs_loop_entered [of color adj "[n]"] r(1) Cons.prems(3,5) unfolding eq by auto
    then obtain post' color' where "finished_in E post' color'" "set inner \<union> set rs \<subseteq> set post'"
      using Cons.IH [OF r(2) inner(1)] Cons.prems(4) by auto
    with inner(2) show ?thesis by (intro exI [of _ post'] exI [of _ color']) auto
  next
    case False
    have "map_get color n = Some Black"
      using False Cons.prems(3-5) by (cases "map_get color n"; cases "the (map_get color n)") (auto simp: entered_def colored_def)
    then have "n \<in> set post" using Cons.prems(2) by (simp add: finished_in_def colored_def)
    with Cons.IH [OF _ Cons.prems(2,3) _ Cons.prems(5)] Cons.prems(1,4) False show ?thesis by auto
  qed
qed auto

lemma dfs_roots_cycle:
  assumes "dfs_roots adj rs color" and "colored Gray color = {}"
  shows "\<not> acyclic (set E)"
  using assms
proof (induction rs arbitrary: color)
  case (Cons n rs)
  show ?case
  proof (cases "map_get color n = Some White \<and> fst (dfs adj n color)")
    case True
    then have "fst (dfs_loop adj (list_at adj n) (map_set color n Gray))" by (auto simp: dfs_def Let_def split: if_splits)
    then show ?thesis by (rule dfs_loop_cycle [where v = n]) (auto simp: succs Cons.prems(2))
  next
    case False
    show ?thesis
    proof (cases "map_get color n = Some White")
      case white: True
      then have eq: "dfs adj n color = dfs_loop adj [n] color" by (simp add: dfs_def Let_def)
      have "colored Gray (snd (dfs adj n color)) = {}"
        using dfs_loop_gray [of adj "[n]" color] False white Cons.prems(2) unfolding eq by simp
      with Cons.IH Cons.prems(1) False white show ?thesis by (simp add: Let_def)
    next
      case white: False
      with Cons.IH Cons.prems show ?thesis by simp
    qed
  qed
qed simp

lemma cycle_detected_iff:
  assumes "set nodeIds = ids"
  shows "cycle_detected adj nodeIds \<longleftrightarrow> \<not> acyclic (set E)"
proof -
  let ?color = "fold (\<lambda>nodeId color. map_set color nodeId White) nodeIds map_empty"
  have get: "map_get ?color n = (if n \<in> ids then Some White else None)" for n
    using fold_map_set [of "\<lambda>x. x" "\<lambda>x. White" nodeIds map_empty n] assms by simp
  then have start: "colored Gray ?color = {}" "ids \<subseteq> entered ?color" "finished_in E [] ?color"
    by (auto simp: colored_def entered_def finished_in_def edges_forward_def)
  show ?thesis
  proof
    assume "cycle_detected adj nodeIds"
    then show "\<not> acyclic (set E)" using dfs_roots_cycle start(1) by (auto simp: cycle_detected_def)
  next
    assume cyclic: "\<not> acyclic (set E)"
    show "cycle_detected adj nodeIds"
    proof (rule ccontr)
      assume "\<not> cycle_detected adj nodeIds"
      then obtain post color' where "finished_in E post color'" "ids \<subseteq> set post"
        using dfs_roots_finishes [OF _ start(3,2) _ start(1), of nodeIds] assms unfolding cycle_detected_def by blast
      then have "acyclic (set (map prod.swap E))"
        using ends by (intro edges_forward_acyclic [of _ post]) (auto simp: finished_in_def)
      moreover have "set (map prod.swap E) = (set E)\<inverse>" by force
      ultimately show False using cyclic by simp
    qed
  qed
qed

lemma bfs_reachable:
  assumes "set visited \<union> set queue \<subseteq> (set E)\<^sup>* `` {v}" and "set E `` set visited \<subseteq> set visited \<union> set queue"
    and "v \<in> set visited \<union> set queue"
  shows "set (bfs adj visited queue) = (set E)\<^sup>* `` {v}"
proof -
  have "out = adj \<Longrightarrow> ?thesis" for out
    using assms
  proof (induction out visited queue rule: bfs.induct)
    case (1 out visited)
    then have "(set E)\<^sup>* `` {v} \<subseteq> set visited" using Image_closed_trancl [of "set E" "set visited"] by auto
    with 1 show ?case by auto
  next
    case (2 out visited n queue)
    show ?case
    proof (cases "n \<in> set visited")
      case True
      with 2 show ?thesis by (auto simp: insert_absorb)
    next
      case False
      have n: "(v, n) \<in> (set E)\<^sup>*" using "2.prems"(2) by auto
      show ?thesis
        using "2.IH"(2) [OF False "2.prems"(1)] "2.prems" False n succs
        by (auto simp: subset_iff Image_iff intro: rtrancl_into_rtrancl)
    qed
  qed
  then show ?thesis by simp
qed

lemma bfs_from: "set (bfs adj [] [v]) = (set E)\<^sup>* `` {v}"
  by (rule bfs_reachable) auto

end

definition known_pairs :: "string list \<Rightarrow> FridayWorkflowEdge list \<Rightarrow> (string \<times> string) list" where
  "known_pairs nodeIds edges = map (\<lambda>e. (sourceNodeId e, targetNodeId e)) (known_edges nodeIds edges)"

lemma list_at_push: "list_at (list_push m k x) n = list_at m n @ (if n = k then [x] else [])"
  by (auto simp: list_at_def list_push_def)

lemma list_at_init: "list_at (init_lists nodes) n = []"
  by (simp add: list_at_def init_lists_get)

lemma list_at_fold_push:
  "list_at (fold (\<lambda>e m. list_push m (f e) (g e)) es m) n = list_at m n @ map g (filter (\<lambda>e. f e = n) es)"
  by (induction es arbitrary: m) (auto simp: list_at_push)

lemma list_at_fold_push2:
  "set (list_at (fold (\<lambda>e m. list_push (list_push m (f e) (g e)) (g e) (f e)) es m) n) =
     set (list_at m n) \<union> g ` {e \<in> set es. f e = n} \<union> f ` {e \<in> set es. g e = n}"
  by (induction es arbitrary: m) (auto simp: list_at_push)

lemma outbound_at: "list_at (outbound_lists nodeIds nodes edges) n = map snd (filter (\<lambda>(a, b). a = n) (known_pairs nodeIds edges))"
  by (simp add: outbound_lists_def known_pairs_def list_at_fold_push list_at_init filter_map comp_def)

lemma inbound_at: "list_at (inbound_lists nodeIds nodes edges) n = map fst (filter (\<lambda>(a, b). b = n) (known_pairs nodeIds edges))"
  by (simp add: inbound_lists_def known_pairs_def list_at_fold_push list_at_init filter_map comp_def)

lemma known_pairs_ends: "set (known_pairs nodeIds edges) \<subseteq> set nodeIds \<times> set nodeIds"
  by (auto simp: known_pairs_def known_edges_def)

interpretation directed: search_graph "outbound_lists nodeIds nodes edges" "known_pairs nodeIds edges" "set nodeIds"
  for nodeIds nodes edges
  by unfold_locales (auto simp: outbound_at known_pairs_ends intro: rev_image_eqI)

interpretation undirected: search_graph "undirected_lists nodeIds nodes edges"
    "known_pairs nodeIds edges @ map prod.swap (known_pairs nodeIds edges)" "set nodeIds"
  for nodeIds nodes edges
  by unfold_locales (use known_pairs_ends [of nodeIds edges] in
      \<open>auto simp: undirected_lists_def list_at_fold_push2 list_at_init known_pairs_def image_iff\<close>)

section \<open>The checks\<close>

lemma set_set_add [simp]: "set (set_add xs x) = insert x (set xs)"
  by (auto simp: set_add_def)

lemma scan_nodes_ids: "set (snd (scan_nodes nodes nodeIds)) = set nodeIds \<union> wn_id ` set nodes"
  by (induction nodes arbitrary: nodeIds) (auto simp: Let_def)

lemma scan_nodes_ok:
  "fst (scan_nodes nodes nodeIds) = [] \<longleftrightarrow>
     list_all (\<lambda>node. wn_type node \<in> set SUPPORTED_NODE_TYPES) nodes \<and> distinct (map wn_id nodes) \<and>
     set nodeIds \<inter> wn_id ` set nodes = {}"
  by (induction nodes arbitrary: nodeIds) (auto simp: Let_def)

lemma scan_edge_ids_ok:
  "scan_edge_ids edges edgeIds = [] \<longleftrightarrow> distinct (map we_id edges) \<and> set edgeIds \<inter> we_id ` set edges = {}"
  by (induction edges arbitrary: edgeIds) auto

lemma scan_edge_ends_ok:
  "set nodeIds = wn_id ` set (cg_nodes graph) \<Longrightarrow> scan_edge_ends nodeIds (cg_edges graph) = [] \<longleftrightarrow> edges_valid graph"
  by (auto simp: scan_edge_ends_def edges_valid_ends)

lemma known_pairs_valid:
  "set nodeIds = set (node_ids graph) \<Longrightarrow> edges_valid graph \<Longrightarrow> known_pairs nodeIds (cg_edges graph) = edge_pairs graph"
  by (auto simp: known_pairs_def known_edges_def edge_pairs_def edges_valid_ends node_ids_def intro!: filter_True)

lemma entry_exists:
  assumes "acyclic (set E)" and "ids \<noteq> {}"
  shows "\<exists>i\<in>ids. \<forall>j\<in>ids. (j, i) \<notin> set E"
proof -
  obtain i where "i \<in> ids" "\<And>j. (j, i) \<in> set E \<Longrightarrow> j \<notin> ids"
    using wfE_min' [OF finite_acyclic_wf [OF _ assms(1)] assms(2)] by blast
  then show ?thesis by blast
qed

lemma terminal_exists:
  assumes "acyclic (set E)" and "ids \<noteq> {}"
  shows "\<exists>i\<in>ids. \<forall>j\<in>ids. (i, j) \<notin> set E"
proof -
  have "set (map prod.swap E) = (set E)\<inverse>" by force
  then have "acyclic (set (map prod.swap E))" using assms(1) by simp
  from entry_exists [OF this assms(2)] show ?thesis by force
qed

lemma unreached_ok:
  assumes "nodes \<noteq> []" and "set nodeIds = wn_id ` set nodes"
  shows "unreached nodes nodeIds (undirected_lists nodeIds nodes edges) = [] \<longleftrightarrow>
    set nodeIds \<subseteq> (set (known_pairs nodeIds edges) \<union> (set (known_pairs nodeIds edges))\<inverse>)\<^sup>* `` {wn_id (hd nodes)}"
proof -
  have swap: "set (known_pairs nodeIds edges @ map prod.swap (known_pairs nodeIds edges)) =
      set (known_pairs nodeIds edges) \<union> (set (known_pairs nodeIds edges))\<inverse>" by force
  have "set nodeIds = {wn_id (hd nodes)}" if "\<not> length nodes > 1"
    using that assms by (cases nodes) auto
  then show ?thesis
    unfolding unreached_def Let_def undirected.bfs_from swap by (auto simp: filter_empty_conv)
qed

lemma shape_ok:
  assumes "cg_nodes graph \<noteq> []" and "set nodeIds = set (node_ids graph)" and "edges_valid graph"
  shows "shape_objections (cg_nodes graph) nodeIds (cg_edges graph) = [] \<longleftrightarrow>
    acyclic (set (edge_pairs graph)) \<and> connected_graph graph \<and>
    list_all (\<lambda>node. node_objections (outbound_lists nodeIds (cg_nodes graph) (cg_edges graph)) node = []) (cg_nodes graph)"
proof -
  let ?out = "outbound_lists nodeIds (cg_nodes graph) (cg_edges graph)"
  let ?inb = "inbound_lists nodeIds (cg_nodes graph) (cg_edges graph)"
  note pairs = known_pairs_valid [OF assms(2,3)]
  have ids: "set nodeIds \<noteq> {}" "set nodeIds = wn_id ` set (cg_nodes graph)" using assms(1,2) by (auto simp: node_ids_def)
  have within: "set (edge_pairs graph) \<subseteq> set nodeIds \<times> set nodeIds" using assms(2,3) by (auto simp: edges_valid_def)
  have entry: "filter (\<lambda>i. list_at ?inb i = []) (map wn_id (cg_nodes graph)) \<noteq> []" if "acyclic (set (edge_pairs graph))"
    using entry_exists [OF that ids(1)] within ids(2) by (fastforce simp: filter_empty_conv inbound_at pairs)
  have terminal: "filter (\<lambda>i. list_at ?out i = []) nodeIds \<noteq> []" if "acyclic (set (edge_pairs graph))"
    using terminal_exists [OF that ids(1)] within by (fastforce simp: filter_empty_conv outbound_at pairs)
  have cycle: "cycle_detected ?out nodeIds \<longleftrightarrow> \<not> acyclic (set (edge_pairs graph))"
    using directed.cycle_detected_iff [of nodeIds nodeIds] pairs by simp
  have reached: "unreached (cg_nodes graph) nodeIds (undirected_lists nodeIds (cg_nodes graph) (cg_edges graph)) = [] \<longleftrightarrow>
      connected_graph graph"
    using unreached_ok [OF assms(1) ids(2)] assms(1,2) by (simp add: pairs connected_graph_def node_ids_def hd_map)
  show ?thesis
    unfolding shape_objections_def Let_def using entry terminal
    by (auto simp: cycle reached list_all_iff)
qed

lemma node_ok:
  assumes "set nodeIds = set (node_ids graph)" and "edges_valid graph"
  shows "wn_type node \<in> set SUPPORTED_NODE_TYPES \<and>
      node_objections (outbound_lists nodeIds (cg_nodes graph) (cg_edges graph)) node = [] \<longleftrightarrow> complete_node graph node"
  by (force simp: node_objections_def complete_node_def outbound_at known_pairs_valid [OF assms] filter_empty_conv)

lemma condition_ok:
  "condition_objections edge = [] \<longleftrightarrow>
     we_condition edge \<in> {None, Some []} \<or> (\<exists>ast. parse (the (we_condition edge)) = Inr ast)"
  by (cases "parse (the (we_condition edge))") (auto simp: condition_objections_def split: option.splits)

lemma validate_well_formed: "wr_valid (validate graph) \<longleftrightarrow> well_formed_graph graph"
proof (cases "cg_nodes graph = []")
  case True
  then show ?thesis by (simp add: validate_def well_formed_graph_def)
next
  case False
  let ?ids = "snd (scan_nodes (cg_nodes graph) [])"
  have ids: "set ?ids = wn_id ` set (cg_nodes graph)" by (simp add: scan_nodes_ids)
  then have nids: "set ?ids = set (node_ids graph)" by (simp add: node_ids_def)
  have header: "header_objections graph = [] \<longleftrightarrow> cg_schemaVersion graph = ''2.0'' \<and> cg_checksum graph \<noteq> []"
    by (simp add: header_objections_def)
  have checks: "wr_valid (validate graph) \<longleftrightarrow> header_objections graph = [] \<and> fst (scan_nodes (cg_nodes graph) []) = [] \<and>
      scan_edge_ids (cg_edges graph) [] = [] \<and> edges_valid graph \<and>
      shape_objections (cg_nodes graph) ?ids (cg_edges graph) = [] \<and>
      list_all (\<lambda>edge. condition_objections edge = []) (cg_edges graph)"
    using False scan_edge_ends_ok [OF ids] by (auto simp: validate_def Let_def list_all_iff)
  show ?thesis
  proof (cases "edges_valid graph")
    case True
    show ?thesis
      unfolding checks header scan_nodes_ok scan_edge_ids_ok shape_ok [OF False nids True] condition_ok well_formed_graph_def
      using False True node_ok [OF nids True] by (auto simp: list_all_iff node_ids_def)
  next
    case invalid: False
    then show ?thesis by (simp add: checks well_formed_graph_def)
  qed
qed

section \<open>Properties\<close>

text \<open>
  C18. Validation is exact: a graph passes the twelve checks if and only if it has the right schema
  version, a checksum, at least one node, distinct node and edge ids, edges between its nodes, no
  cycle, one connected component, nodes of supported types with what their type needs, and edge
  conditions that parse. That the checks for an entry and for a terminal node never decide is part
  of the statement.
\<close>

theorem validation_exact: "wr_valid (validate graph) \<longleftrightarrow> well_formed_graph graph"
  by (rule validate_well_formed)

end
