(* ===== verification/Expression_Syntax.thy ===== *)
theory Expression_Syntax
  imports Expression_Eval
begin

text \<open>
  Printing of syntax trees with full brackets, and that the tokenizer and parser of
  \<open>Expression_Eval\<close> read the printed text back: every tree whose leaves can be written down and
  whose nesting is within the depth limit is the value of some text.
\<close>

section \<open>Printing\<close>

fun binary_text :: "binary_op \<Rightarrow> string" where
  "binary_text Op_Eq = ''==''"
| "binary_text Op_Ne = ''!=''"
| "binary_text Op_Gt = ''>''"
| "binary_text Op_Lt = ''<''"
| "binary_text Op_Ge = ''>=''"
| "binary_text Op_Le = ''<=''"
| "binary_text Op_And = ''&&''"
| "binary_text Op_Or = ''||''"
| "binary_text Op_Add = ''+''"
| "binary_text Op_Sub = ''-''"
| "binary_text Op_Mul = ''*''"
| "binary_text Op_Div = ''/''"
| "binary_text Op_Mod = ''%''"

fun unary_token :: "unary_op \<Rightarrow> Token" where
  "unary_token Op_Not = token TK_NOT ''!''"
| "unary_token Op_Neg = token TK_OP ''-''"

fun literal_token :: "FridayExprLiteral \<Rightarrow> Token" where
  "literal_token (L_String s) = token TK_STRING s"
| "literal_token (L_Number n) = token TK_NUMBER (show_nat (nat \<lfloor>the (num_value n)\<rfloor>))"
| "literal_token (L_Boolean b) = token TK_BOOLEAN (if b then ''true'' else ''false'')"
| "literal_token L_Null = token TK_NULL ''null''"

fun expr_tokens :: "FridayExprNode \<Rightarrow> Token list" where
  "expr_tokens (Literal v) = [literal_token v]"
| "expr_tokens (Ref path) = [token TK_REF (js_join ''.'' path)]"
| "expr_tokens (Binary opr l r) =
     token TK_LPAREN ''('' # expr_tokens l @ token TK_OP (binary_text opr) # expr_tokens r @ [token TK_RPAREN '')'']"
| "expr_tokens (Unary opr e) = token TK_LPAREN ''('' # unary_token opr # expr_tokens e @ [token TK_RPAREN '')'']"

definition quote_string :: "string \<Rightarrow> string" where
  "quote_string s = concat (map (\<lambda>c. if c = CHR 0x22 \<or> c = CHR 0x5C then [CHR 0x5C, c] else [c]) s)"

definition token_text :: "Token \<Rightarrow> string" where
  "token_text t =
     (case tok_kind t of
        TK_REF \<Rightarrow> CHR ''$'' # tok_value t
      | TK_STRING \<Rightarrow> CHR 0x22 # quote_string (tok_value t) @ [CHR 0x22]
      | _ \<Rightarrow> tok_value t)"

definition print_expr :: "FridayExprNode \<Rightarrow> string" where
  "print_expr e = concat (map (\<lambda>t. token_text t @ '' '') (expr_tokens e))"

text \<open>What can be written down: integers up to \<open>2\<^sup>5\<^sup>3\<close> and paths of identifiers.\<close>

fun printable :: "FridayExprNode \<Rightarrow> bool" where
  "printable (Literal (L_Number n)) = (\<exists>k \<le> 2 ^ 53. n = Finite (of_nat k))"
| "printable (Literal _) = True"
| "printable (Ref path) =
     (path \<noteq> [] \<and> path \<noteq> [[]] \<and> list_all (list_all (\<lambda>c. ref_char c \<and> c \<noteq> CHR ''.'')) path)"
| "printable (Binary opr l r) = (printable l \<and> printable r)"
| "printable (Unary opr e) = printable e"

fun nesting :: "FridayExprNode \<Rightarrow> nat" where
  "nesting (Binary opr l r) = Suc (max (nesting l) (nesting r))"
| "nesting (Unary opr e) = Suc (Suc (nesting e))"
| "nesting _ = 0"

section \<open>Parsing printed tokens\<close>

lemma peek_Cons [simp]: "peek (t # ts) = t"
  by (simp add: peek_def)

lemma token_simps [simp]: "tok_kind (token k v) = k" "tok_value (token k v) = v"
  by (simp_all add: token_def)

lemma chain_single: "operand ts = Inr (e, r) \<Longrightarrow> peek_op table r = None \<Longrightarrow> chain operand table ts = Inr (e, r)"
  by (cases r) (simp_all add: chain_def)

lemma chain_double:
  assumes "operand ts = Inr (l, t # s)" and "peek_op table (t # s) = Some opr"
    and "operand s = Inr (e, r)" and "peek_op table r = None"
  shows "chain operand table ts = Inr (Binary opr l e, r)"
  using assms by (cases "length s") (simp_all add: chain_def)

text \<open>A token that can start an operand.\<close>

definition operand_start :: "Token list \<Rightarrow> bool" where
  "operand_start ts \<longleftrightarrow> tok_kind (peek ts) \<noteq> TK_NOT \<and> tok_kind (peek ts) \<noteq> TK_OP"

lemma expr_tokens_start: "operand_start (expr_tokens e @ r)"
  by (cases e rule: expr_tokens.cases; (cases "case e of Literal v \<Rightarrow> v | _ \<Rightarrow> L_Null")?) (auto simp: operand_start_def)

lemma primary_unary:
  "parse_primary b ts = Inr (e, r) \<Longrightarrow> operand_start ts \<Longrightarrow> parse_unary b ts = Inr (e, r)"
  by (simp add: parse_unary.simps [of b] is_minus_def operand_start_def)

lemmas level_steps = parse_multiplicative.simps parse_additive.simps parse_and.simps parse_or.simps

lemma unary_multiplicative:
  "parse_unary b ts = Inr (e, r) \<Longrightarrow> peek_op MUL_OPS r = None \<Longrightarrow> parse_multiplicative b ts = Inr (e, r)"
  by (simp add: parse_multiplicative.simps chain_single)

lemma multiplicative_additive:
  "parse_multiplicative b ts = Inr (e, r) \<Longrightarrow> peek_op ADD_OPS r = None \<Longrightarrow> parse_additive b ts = Inr (e, r)"
  by (simp add: parse_additive.simps chain_single)

lemma additive_not:
  "parse_additive b ts = Inr (e, r) \<Longrightarrow> peek_op COMPARE_OPS r = None \<Longrightarrow> operand_start ts \<Longrightarrow> parse_not b ts = Inr (e, r)"
  by (simp add: parse_not.simps [of b] parse_compare.simps compare_with_def operand_start_def)

lemma not_and:
  "parse_not b ts = Inr (e, r) \<Longrightarrow> peek_op AND_OPS r = None \<Longrightarrow> parse_and b ts = Inr (e, r)"
  by (simp add: parse_and.simps chain_single)

lemma and_or:
  "parse_and b ts = Inr (e, r) \<Longrightarrow> peek_op OR_OPS r = None \<Longrightarrow> parse_or b ts = Inr (e, r)"
  by (simp add: parse_or.simps chain_single)

lemma peek_op_rparen [simp]: "peek_op table (token TK_RPAREN v # r) = None"
  by (simp add: peek_op_def)

lemma peek_op_eof [simp]: "peek_op table (token TK_EOF v # r) = None"
  by (simp add: peek_op_def)

lemmas op_tables = OR_OPS_def AND_OPS_def COMPARE_OPS_def ADD_OPS_def MUL_OPS_def

lemma peek_op_token: "peek_op table (token TK_OP v # r) = map_of table v"
  by (simp add: peek_op_def)

text \<open>An operand and an operator with another operand, in brackets.\<close>

lemma parse_or_operand:
  assumes "parse_primary b ts = Inr (e, r)" and "operand_start ts" and "\<And>table. peek_op table r = None"
  shows "parse_or b ts = Inr (e, r)"
  using primary_unary [OF assms(1,2)] assms(2,3)
  by (simp add: unary_multiplicative multiplicative_additive additive_not not_and and_or)

lemma parse_or_binary:
  assumes l: "parse_primary b ts = Inr (l, token TK_OP (binary_text opr) # s)" "operand_start ts"
    and e: "parse_primary b s = Inr (e, r)" "operand_start s" and r: "\<And>table. peek_op table r = None"
  shows "parse_or b ts = Inr (Binary opr l e, r)"
proof -
  note lu = primary_unary [OF l] and eu = primary_unary [OF e]
  note em = unary_multiplicative [OF eu r] note ea = multiplicative_additive [OF em r]
  note en = additive_not [OF ea r e(2)] note ed = not_and [OF en r]
  note look = peek_op_token op_tables
  let ?t = "token TK_OP (binary_text opr) # s"
  consider (mul) "opr \<in> {Op_Mul, Op_Div, Op_Mod}" | (add) "opr \<in> {Op_Add, Op_Sub}"
    | (compare) "opr \<in> {Op_Eq, Op_Ne, Op_Gt, Op_Lt, Op_Ge, Op_Le}" | (conj) "opr = Op_And" | (disj) "opr = Op_Or"
    by (cases opr) auto
  then show ?thesis
  proof cases
    case mul
    have "parse_multiplicative b ts = Inr (Binary opr l e, r)"
      unfolding parse_multiplicative.simps
      by (rule chain_double [where operand = "parse_unary b", OF lu _ eu r]) (use mul in \<open>auto simp: look\<close>)
    then show ?thesis using r l(2) by (simp add: multiplicative_additive additive_not not_and and_or)
  next
    case add
    have "parse_multiplicative b ts = Inr (l, ?t)"
      by (rule unary_multiplicative [OF lu]) (use add in \<open>auto simp: look\<close>)
    then have "parse_additive b ts = Inr (Binary opr l e, r)"
      unfolding parse_additive.simps
      by (rule chain_double [where operand = "parse_multiplicative b", OF _ _ em r]) (use add in \<open>auto simp: look\<close>)
    then show ?thesis using r l(2) by (simp add: additive_not not_and and_or)
  next
    case compare
    have "parse_multiplicative b ts = Inr (l, ?t)"
      by (rule unary_multiplicative [OF lu]) (use compare in \<open>auto simp: look\<close>)
    then have "parse_additive b ts = Inr (l, ?t)"
      by (rule multiplicative_additive) (use compare in \<open>auto simp: look\<close>)
    moreover have "peek_op COMPARE_OPS ?t = Some opr" using compare by (auto simp: look)
    ultimately have "parse_not b ts = Inr (Binary opr l e, r)"
      using l(2) ea by (simp add: parse_not.simps [of b] parse_compare.simps compare_with_def operand_start_def)
    then show ?thesis using r by (simp add: not_and and_or)
  next
    case conj
    have "parse_not b ts = Inr (l, ?t)"
      using lu l(2) conj by (simp add: unary_multiplicative multiplicative_additive additive_not look)
    then have "parse_and b ts = Inr (Binary opr l e, r)"
      unfolding parse_and.simps
      by (rule chain_double [where operand = "parse_not b", OF _ _ en r]) (use conj in \<open>auto simp: look\<close>)
    then show ?thesis using r by (simp add: and_or)
  next
    case disj
    have "parse_and b ts = Inr (l, ?t)"
      using lu l(2) disj by (simp add: unary_multiplicative multiplicative_additive additive_not not_and look)
    then show ?thesis
      unfolding parse_or.simps
      by (rule chain_double [where operand = "parse_and b", OF _ _ ed r]) (use disj in \<open>auto simp: look\<close>)
  qed
qed

lemma js_split_single: "CHR ''.'' \<notin> set s \<Longrightarrow> js_split (CHR ''.'') s = [s]"
  by (induction s) auto

lemma js_split_Cons: "CHR ''.'' \<notin> set s \<Longrightarrow> js_split (CHR ''.'') (s @ CHR ''.'' # t) = s # js_split (CHR ''.'') t"
  by (induction s) auto

lemma js_split_join:
  "path \<noteq> [] \<Longrightarrow> list_all (\<lambda>s. CHR ''.'' \<notin> set s) path \<Longrightarrow> js_split (CHR ''.'') (js_join ''.'' path) = path"
  by (induction "''.''" path rule: js_join.induct) (auto simp: js_split_single js_split_Cons)

lemma printable_dotless: "printable (Ref path) \<Longrightarrow> list_all (\<lambda>s. CHR ''.'' \<notin> set s) path"
  by (auto simp: list_all_iff)

text \<open>The printed tokens of a tree are parsed as one operand.\<close>

lemma parse_printed:
  "printable e \<Longrightarrow> nesting e \<le> b \<Longrightarrow> parse_primary b (expr_tokens e @ r) = Inr (e, r)"
proof (induction e arbitrary: b r)
  case (Literal v)
  then show ?case
    by (cases v) (auto simp: parse_primary.simps primary_with_def Let_def string_to_number_show_nat)
next
  case (Ref path)
  then have "js_split (CHR ''.'') (js_join ''.'' path) = path"
    using js_split_join [OF _ printable_dotless] by simp
  then show ?case by (simp add: parse_primary.simps primary_with_def Let_def)
next
  case (Binary opr l e)
  then obtain c where c: "b = Suc c" "nesting l \<le> c" "nesting e \<le> c" by (cases b) auto
  let ?r = "token TK_RPAREN '')'' # r"
  have "parse_or c (expr_tokens l @ token TK_OP (binary_text opr) # expr_tokens e @ ?r) = Inr (Binary opr l e, ?r)"
    by (rule parse_or_binary [OF _ expr_tokens_start _ expr_tokens_start]) (use Binary c in simp_all)
  then show ?case by (simp add: parse_primary.simps primary_with_def Let_def c(1) expect_def)
next
  case (Unary opr e)
  then obtain c where c: "b = Suc (Suc c)" "nesting e \<le> c" by (cases b; cases "b - 1") auto
  let ?r = "token TK_RPAREN '')'' # r"
  note operand = Unary.IH [of c ?r] expr_tokens_start [of e ?r]
  have "parse_or (Suc c) (unary_token opr # expr_tokens e @ ?r) = Inr (Unary opr e, ?r)"
  proof (cases opr)
    case Op_Not
    have "parse_not c (expr_tokens e @ ?r) = Inr (e, ?r)"
      using operand Unary.prems c
      by (simp add: primary_unary unary_multiplicative multiplicative_additive additive_not)
    then have "parse_not (Suc c) (unary_token opr # expr_tokens e @ ?r) = Inr (Unary opr e, ?r)"
      using Op_Not by (simp add: parse_not.simps [of "Suc c"] unary_result_def)
    then show ?thesis by (simp add: not_and and_or)
  next
    case Op_Neg
    have "parse_unary c (expr_tokens e @ ?r) = Inr (e, ?r)"
      using operand Unary.prems c by (simp add: primary_unary)
    then have "parse_unary (Suc c) (unary_token opr # expr_tokens e @ ?r) = Inr (Unary opr e, ?r)"
      using Op_Neg by (simp add: parse_unary.simps [of "Suc c"] is_minus_def unary_result_def)
    then have "parse_compare (Suc c) (unary_token opr # expr_tokens e @ ?r) = Inr (Unary opr e, ?r)"
      by (simp add: unary_multiplicative multiplicative_additive parse_compare.simps compare_with_def)
    then have "parse_not (Suc c) (unary_token opr # expr_tokens e @ ?r) = Inr (Unary opr e, ?r)"
      using Op_Neg by (simp add: parse_not.simps [of "Suc c"])
    then show ?thesis by (simp add: not_and and_or)
  qed
  then show ?case by (simp add: parse_primary.simps primary_with_def Let_def c(1) expect_def)
qed

lemma parseExpr_printed:
  assumes "printable e" and "nesting e < 32"
  shows "parseExpr (expr_tokens e @ [token TK_EOF []]) = Inr e"
proof -
  have "parse_primary 31 (expr_tokens e @ [token TK_EOF []]) = Inr (e, [token TK_EOF []])"
    using assms by (intro parse_printed) simp_all
  then have "parse_or 31 (expr_tokens e @ [token TK_EOF []]) = Inr (e, [token TK_EOF []])"
    by (rule parse_or_operand [OF _ expr_tokens_start]) simp
  then show ?thesis by (simp add: parseExpr_def MAX_DEPTH_def numeral_eq_Suc)
qed

section \<open>Tokenizing printed text\<close>

text \<open>Tokens that are read back from their text.\<close>

definition good_token :: "Token \<Rightarrow> bool" where
  "good_token t \<longleftrightarrow>
     (case tok_kind t of
        TK_REF \<Rightarrow> tok_value t \<noteq> [] \<and> list_all ref_char (tok_value t)
      | TK_STRING \<Rightarrow> True
      | TK_NUMBER \<Rightarrow> tok_value t \<noteq> [] \<and> list_all is_digit (tok_value t)
      | TK_BOOLEAN \<Rightarrow> tok_value t \<in> {''true'', ''false''}
      | TK_NULL \<Rightarrow> tok_value t = ''null''
      | TK_OP \<Rightarrow> tok_value t \<in> set TWO_CHAR_OPERATORS \<or> tok_value t \<in> (\<lambda>c. [c]) ` set ONE_CHAR_OPERATORS
      | TK_LPAREN \<Rightarrow> tok_value t = ''(''
      | TK_RPAREN \<Rightarrow> tok_value t = '')''
      | TK_NOT \<Rightarrow> tok_value t = ''!''
      | TK_EOF \<Rightarrow> False)"

lemma white_prefix_space: "white_prefix (CHR '' '' # s) = Some '' ''"
  by (simp add: white_prefix_def WHITE_SPACE_def)

lemma white_prefix_none: "s \<noteq> [] \<Longrightarrow> hd s \<notin> hd ` set WHITE_SPACE \<Longrightarrow> white_prefix s = None"
  by (cases s) (auto simp: white_prefix_def find_None_iff WHITE_SPACE_def)

lemma read_string_quoted: "read_string (CHR 0x22) (quote_string v @ CHR 0x22 # s) = Some (v, s)"
  by (induction v) (auto simp: quote_string_def)

lemma span_all:
  "list_all P v \<Longrightarrow> \<not> P c \<Longrightarrow> takeWhile P (v @ c # s) = v \<and> dropWhile P (v @ c # s) = c # s"
  by (induction v) auto

lemma letter_not_special:
  "is_letter c \<or> is_digit c \<Longrightarrow> c \<notin> set ONE_CHAR_OPERATORS \<and> c \<notin> {CHR ''!'', CHR ''('', CHR '')'', CHR ''$'', CHR 0x22, CHR 0x27} \<and>
     c \<notin> hd ` set TWO_CHAR_OPERATORS \<and> c \<notin> hd ` set WHITE_SPACE"
  by (auto simp: is_letter_def is_digit_def ONE_CHAR_OPERATORS_def TWO_CHAR_OPERATORS_def WHITE_SPACE_def Let_def)

lemma space_stops: "\<not> ref_char (CHR '' '')" "\<not> word_char (CHR '' '')" "\<not> number_char (CHR '' '')"
  by (simp_all add: ref_char_def word_char_def number_char_def is_letter_def is_digit_def)

lemma two_char_head: "take 2 s \<in> set TWO_CHAR_OPERATORS \<Longrightarrow> s \<noteq> [] \<and> hd s \<in> hd ` set TWO_CHAR_OPERATORS"
  by (cases s) (auto simp: TWO_CHAR_OPERATORS_def)

lemma lex_keyword:
  assumes "list_all is_letter v" and "v \<noteq> []"
  shows "lex_token i (v @ CHR '' '' # s) = lex_word (v @ CHR '' '' # s) \<and>
    takeWhile word_char (v @ CHR '' '' # s) = v \<and> dropWhile word_char (v @ CHR '' '' # s) = CHR '' '' # s \<and>
    hd v \<notin> hd ` set WHITE_SPACE"
proof -
  have "is_letter (hd v)" using assms by (cases v) auto
  moreover from this have "\<not> is_digit (hd v)" by (auto simp: is_letter_def is_digit_def)
  moreover have "list_all word_char v" using assms(1) by (simp add: list_all_iff word_char_def)
  ultimately show ?thesis
    using span_all [of word_char v "CHR '' ''" s] letter_not_special [of "hd v"]
      two_char_head [of "v @ CHR '' '' # s"] assms(2)
    by (auto simp: lex_token_def Let_def space_stops)
qed

lemma keyword_letters: "list_all is_letter ''true''" "list_all is_letter ''false''" "list_all is_letter ''null''"
  by code_simp+

lemma lex_good_token:
  assumes "good_token t"
  shows "lex_token i (token_text t @ CHR '' '' # s) = Inr (t, CHR '' '' # s) \<and> token_text t \<noteq> [] \<and>
    hd (token_text t) \<notin> hd ` set WHITE_SPACE"
proof (cases "tok_kind t")
  case TK_REF
  then have "takeWhile ref_char (tok_value t @ CHR '' '' # s) = tok_value t"
    "dropWhile ref_char (tok_value t @ CHR '' '' # s) = CHR '' '' # s"
    using span_all [of ref_char "tok_value t" "CHR '' ''" s] assms by (auto simp: good_token_def space_stops)
  then show ?thesis using TK_REF assms
    by (cases t) (auto simp: good_token_def token_text_def lex_token_def token_def TWO_CHAR_OPERATORS_def ONE_CHAR_OPERATORS_def
        WHITE_SPACE_def Let_def)
next
  case TK_STRING
  then show ?thesis
    by (cases t) (auto simp: token_text_def lex_token_def token_def TWO_CHAR_OPERATORS_def ONE_CHAR_OPERATORS_def
        WHITE_SPACE_def Let_def read_string_quoted)
next
  case TK_NUMBER
  then have "takeWhile number_char (tok_value t @ CHR '' '' # s) = tok_value t"
    "dropWhile number_char (tok_value t @ CHR '' '' # s) = CHR '' '' # s"
    using span_all [of number_char "tok_value t" "CHR '' ''" s] assms
    by (auto simp: good_token_def space_stops list_all_iff number_char_def is_digit_def [of "CHR '' ''"])
  moreover have h: "tok_value t \<noteq> []" "is_digit (hd (tok_value t))"
    using TK_NUMBER assms by (auto simp: good_token_def list_all_iff)
  ultimately show ?thesis
    using TK_NUMBER letter_not_special [of "hd (tok_value t)"] two_char_head [of "tok_value t @ CHR '' '' # s"]
    by (cases t) (auto simp: token_text_def lex_token_def token_def Let_def)
next
  case TK_OP
  then have shown: "token_text t = tok_value t" "token TK_OP (tok_value t) = t"
    by (simp_all add: token_text_def token_def)
  from TK_OP assms consider "tok_value t \<in> set TWO_CHAR_OPERATORS" | c where "tok_value t = [c]" "c \<in> set ONE_CHAR_OPERATORS"
    by (auto simp: good_token_def)
  then show ?thesis
  proof cases
    case 1
    have two: "length v = 2 \<and> hd v \<notin> hd ` set WHITE_SPACE" if "v \<in> set TWO_CHAR_OPERATORS" for v
      using that by (auto simp: TWO_CHAR_OPERATORS_def WHITE_SPACE_def)
    have "tok_value t \<noteq> []" using two [OF 1] by auto
    with two [OF 1] 1 shown show ?thesis by (simp add: lex_token_def Let_def)
  next
    case 2
    have "[c, CHR '' ''] \<notin> set TWO_CHAR_OPERATORS" by (auto simp: TWO_CHAR_OPERATORS_def)
    moreover have "c \<notin> hd ` set WHITE_SPACE" using 2(2) by (auto simp: ONE_CHAR_OPERATORS_def WHITE_SPACE_def)
    ultimately show ?thesis using 2 shown by (simp add: lex_token_def Let_def)
  qed
next
  case TK_BOOLEAN
  then have "token_text t = tok_value t" "token TK_BOOLEAN (tok_value t) = t" "tok_value t \<in> {''true'', ''false''}"
    using assms by (simp_all add: token_text_def token_def good_token_def)
  then show ?thesis
    using lex_keyword [of "tok_value t" i s] keyword_letters by (auto simp: lex_word_def Let_def)
next
  case TK_NULL
  then have "token_text t = tok_value t" "token TK_NULL (tok_value t) = t" "tok_value t = ''null''"
    using assms by (simp_all add: token_text_def token_def good_token_def)
  then show ?thesis
    using lex_keyword [of "tok_value t" i s] keyword_letters by (auto simp: lex_word_def Let_def)
next
  case TK_EOF
  then show ?thesis using assms by (simp add: good_token_def)
qed (use assms in \<open>cases t, simp add: good_token_def token_text_def lex_token_def token_def TWO_CHAR_OPERATORS_def
       ONE_CHAR_OPERATORS_def WHITE_SPACE_def\<close>)+

lemma tokenize_printed:
  "list_all good_token ts \<Longrightarrow> tokenize_from i (concat (map (\<lambda>t. token_text t @ '' '') ts)) = Inr (ts @ [token TK_EOF []])"
proof (induction ts arbitrary: i)
  case Nil
  show ?case by (subst tokenize_from.simps) simp
next
  case (Cons t ts)
  let ?s = "concat (map (\<lambda>t. token_text t @ '' '') ts)"
  have lex: "lex_token i (token_text t @ CHR '' '' # ?s) = Inr (t, CHR '' '' # ?s)" "token_text t \<noteq> []"
    "white_prefix (token_text t @ CHR '' '' # ?s) = None" for i
    using lex_good_token [of t _ ?s] Cons.prems white_prefix_none [of "token_text t @ CHR '' '' # ?s"] by auto
  have "tokenize_from j (CHR '' '' # ?s) = Inr (ts @ [token TK_EOF []])" for j
    using Cons by (subst tokenize_from.simps) (simp add: white_prefix_space)
  then show ?case using lex by (subst tokenize_from.simps) simp
qed

lemma ref_join: "list_all (list_all (\<lambda>c. ref_char c \<and> c \<noteq> CHR ''.'')) path \<Longrightarrow> list_all ref_char (js_join ''.'' path)"
  by (induction "''.''" path rule: js_join.induct) (auto simp: list_all_iff ref_char_def)

lemma join_not_Nil: "path \<noteq> [] \<Longrightarrow> path \<noteq> [[]] \<Longrightarrow> js_join ''.'' path \<noteq> []"
  by (induction "''.''" path rule: js_join.induct) auto

lemma good_expr_tokens: "printable e \<Longrightarrow> list_all good_token (expr_tokens e)"
proof (induction e)
  case (Literal v)
  then show ?case
    by (cases v) (auto simp: good_token_def show_nat_not_Nil show_nat_all_digits)
next
  case (Ref path)
  then show ?case by (simp add: good_token_def ref_join join_not_Nil)
next
  case (Binary opr l r)
  have "good_token (token TK_OP (binary_text opr))"
    by (cases opr) (auto simp: good_token_def TWO_CHAR_OPERATORS_def ONE_CHAR_OPERATORS_def)
  with Binary show ?case by (simp add: good_token_def)
next
  case (Unary opr e)
  have "good_token (unary_token opr)"
    by (cases opr) (auto simp: good_token_def TWO_CHAR_OPERATORS_def ONE_CHAR_OPERATORS_def)
  with Unary show ?case by (simp add: good_token_def)
qed


definition sample_expr :: FridayExprNode where
  "sample_expr =
     Binary Op_And (Binary Op_Ge (Ref [''steps'', ''s3-csv'', ''output'', ''rows'']) (Binary Op_Add (Literal (L_Number (Finite 10))) (Literal (L_Number (Finite 2)))))
       (Unary Op_Not (Binary Op_Eq (Ref [''inputs'', ''mode'']) (Literal (L_String ''dry run''))))"


end
