(* ===== verification/Workflow_Compiler.thy ===== *)
theory Workflow_Compiler
  imports Workflow_Validator Expression_Syntax
begin

text \<open>
  The compiler from authored workflow specifications to graphs:
  src/src/workflows/compiler/friday-workflow-compiler.ts with the step-id pattern of
  src/src/workflows/utils/friday-workflow-step-id.ts. The checksum function and the formatting of
  numbers are parameters, the ids the generator yields are a sequence.
\<close>

section \<open>Step ids\<close>

definition step_id_char :: "char \<Rightarrow> bool" where
  "step_id_char c = (is_letter c \<or> is_digit c \<or> c = CHR ''_'' \<or> c = CHR ''-'')"

text \<open>\<open>FRIDAY_WORKFLOW_STEP_ID_PATTERN\<close>: a letter and up to 63 further characters.\<close>

definition isFridayWorkflowStepIdExpressionSafe :: "string \<Rightarrow> bool" where
  "isFridayWorkflowStepIdExpressionSafe stepId =
     (case stepId of [] \<Rightarrow> False | c # cs \<Rightarrow> is_letter c \<and> length cs \<le> 63 \<and> list_all step_id_char cs)"

definition getFridayWorkflowStepIdFormatMessage :: string where
  "getFridayWorkflowStepIdFormatMessage =
     ''Step ids must start with a letter and use only letters, numbers, underscores, or hyphens.''"

section \<open>Specifications\<close>

datatype spec_trigger = Manual_Trigger | Schedule_Trigger string string | Event_Trigger string string

record spec_retry =
  sr_maxAttempts :: int
  sr_backoffMs :: rat

record spec_step =
  st_id :: string
  st_type :: string
  st_ref :: "string option"
  st_args :: "(string \<times> json) list option"
  st_condition :: "string option"
  st_timeoutSec :: "int option"
  st_retry :: "spec_retry option"

record spec_edge =
  se_from :: string
  se_to :: string
  se_when :: "string option"

record spec_input =
  in_key :: string
  in_type :: string
  in_required :: bool
  in_defaultValue :: "json option"

record spec_output =
  so_key :: string
  so_fromStep :: string
  so_path :: string

record FridayWorkflowSpecV1 =
  sp_workflowId :: string
  sp_name :: string
  sp_description :: string
  sp_startStepId :: string
  sp_trigger :: spec_trigger
  sp_inputs :: "spec_input list"
  sp_steps :: "spec_step list"
  sp_edges :: "spec_edge list"
  sp_outputs :: "spec_output list"
  sp_errorPolicy :: WorkflowFailurePolicyV2
  sp_tests :: "FridayWorkflowTest list"

definition STEP_TYPE_MAP :: "(string \<times> string) list" where
  "STEP_TYPE_MAP = [(''skill_call'', ''action''), (''tool_call'', ''action''), (''condition'', ''condition''),
     (''transform'', ''data''), (''human_approval'', ''approval'')]"

section \<open>Nodes\<close>

definition compilation_error :: "string \<Rightarrow> friday_error" where
  "compilation_error message = FridayDomainError ''WORKFLOW_COMPILATION_ERROR'' message 400"

definition mapRetryPolicy :: "spec_retry option \<Rightarrow> FridayNodeRetryPolicy option" where
  "mapRetryPolicy retry =
     map_option (\<lambda>r. \<lparr>np_maxAttempts = sr_maxAttempts r, np_backoff = Backoff_Exponential, np_baseDelayMs = sr_backoffMs r,
       np_maxDelayMs = sr_backoffMs r * 8, np_retryOn = [''NODE_EXECUTION_FAILED'', ''NODE_TIMEOUT'']\<rparr>) retry"

fun trigger_type :: "spec_trigger \<Rightarrow> string" where
  "trigger_type Manual_Trigger = ''manual''"
| "trigger_type (Schedule_Trigger _ _) = ''schedule''"
| "trigger_type (Event_Trigger _ _) = ''event''"

fun trigger_fields :: "spec_trigger \<Rightarrow> (string \<times> json) list" where
  "trigger_fields Manual_Trigger = []"
| "trigger_fields (Schedule_Trigger cron timezone) = [(''cron'', JsonString cron), (''timezone'', JsonString timezone)]"
| "trigger_fields (Event_Trigger source event) = [(''source'', JsonString source), (''event'', JsonString event)]"

definition TRIGGER_NODE_ID :: string where
  "TRIGGER_NODE_ID = ''__trigger__''"

definition trigger_node :: "spec_trigger \<Rightarrow> FridayWorkflowNode" where
  "trigger_node trigger =
     \<lparr>wn_id = TRIGGER_NODE_ID, wn_type = ''trigger'', wn_label = ''Trigger ('' @ trigger_type trigger @ '')'',
      wn_config = (''triggerType'', JsonString (trigger_type trigger)) # trigger_fields trigger,
      wn_retryPolicy = None, wn_timeoutMs = None\<rparr>"

text \<open>A string property that is set and not empty.\<close>

definition text_field :: "string \<Rightarrow> string option \<Rightarrow> (string \<times> json) list" where
  "text_field key v = (case v of None \<Rightarrow> [] | Some s \<Rightarrow> if s = [] then [] else [(key, JsonString s)])"

definition argument_fields :: "string \<Rightarrow> (string \<times> json) list \<Rightarrow> (string \<times> json) list" where
  "argument_fields stepType args =
     (if stepType = ''transform''
      then opt_field ''transform'' id (map_of args ''transform'') @ opt_field ''mapping'' id (map_of args ''mapping'') @
        (let others = filter (\<lambda>(k, _). k \<noteq> ''transform'' \<and> k \<noteq> ''mapping'') args in
         if others = [] then [] else [(''args'', JsonObject others)])
      else [(''args'', JsonObject args)])"

definition step_config :: "spec_step \<Rightarrow> (string \<times> json) list" where
  "step_config step =
     text_field ''skillId'' (st_ref step) @ (case st_args step of None \<Rightarrow> [] | Some args \<Rightarrow> argument_fields (st_type step) args) @
     text_field ''condition'' (st_condition step)"

definition step_node :: "spec_step \<Rightarrow> string \<Rightarrow> FridayWorkflowNode" where
  "step_node step nodeType =
     \<lparr>wn_id = st_id step, wn_type = nodeType, wn_label = st_id step, wn_config = step_config step,
      wn_retryPolicy = mapRetryPolicy (st_retry step),
      wn_timeoutMs = (case st_timeoutSec step of None \<Rightarrow> None | Some sec \<Rightarrow> if sec = 0 then None else Some (sec * 1000))\<rparr>"

fun compile_steps :: "spec_step list \<Rightarrow> FridayWorkflowNode list result" where
  "compile_steps [] = Inr []"
| "compile_steps (step # steps) =
     (if \<not> isFridayWorkflowStepIdExpressionSafe (st_id step)
      then Inl (compilation_error (''WORKFLOW_COMPILATION_ERROR: invalid step id '' @ squoted (st_id step) @ ''. '' @
             getFridayWorkflowStepIdFormatMessage))
      else case map_of STEP_TYPE_MAP (st_type step) of
        None \<Rightarrow> Inl (compilation_error (''WORKFLOW_COMPILATION_ERROR: unknown step type '' @ squoted (st_type step)))
      | Some nodeType \<Rightarrow> map_sum id (\<lambda>nodes. step_node step nodeType # nodes) (compile_steps steps))"

section \<open>Edges\<close>

definition when_condition :: "string \<Rightarrow> string option \<Rightarrow> string option" where
  "when_condition source outcome =
     (if outcome = Some ''success'' then Some (''$steps.'' @ source @ ''.output.status != '' @ [CHR 0x22] @ ''failed'' @ [CHR 0x22])
      else if outcome = Some ''failure'' then Some (''$steps.'' @ source @ ''.output.status == '' @ [CHR 0x22] @ ''failed'' @ [CHR 0x22])
      else if outcome = Some ''true'' then Some (''$steps.'' @ source @ ''.output.result == true'')
      else if outcome = Some ''false'' then Some (''$steps.'' @ source @ ''.output.result == false'')
      else None)"

definition plain_edge :: "string \<Rightarrow> string \<Rightarrow> string \<Rightarrow> string option \<Rightarrow> FridayWorkflowEdge" where
  "plain_edge i source dest condition =
     \<lparr>we_id = i, sourceNodeId = source, sourcePort = None, targetNodeId = dest, targetPort = None,
      we_condition = condition, we_priority = None\<rparr>"

definition compile_edges :: "(nat \<Rightarrow> string) \<Rightarrow> FridayWorkflowSpecV1 \<Rightarrow> FridayWorkflowEdge list" where
  "compile_edges ids spec =
     plain_edge (ids 0) TRIGGER_NODE_ID (sp_startStepId spec) None #
     map (\<lambda>(i, e). plain_edge (ids (Suc i)) (se_from e) (se_to e) (when_condition (se_from e) (se_when e)))
       (enumerate 0 (sp_edges spec))"

section \<open>Serialisation\<close>

text \<open>The object the checksum is computed of, as \<open>JSON.stringify\<close> writes it.\<close>

fun backoff_name :: "FridayRetryBackoffStrategy \<Rightarrow> string" where
  "backoff_name Backoff_None = ''none''"
| "backoff_name Backoff_Fixed = ''fixed''"
| "backoff_name Backoff_Exponential = ''exponential''"

definition retry_policy_json :: "FridayNodeRetryPolicy \<Rightarrow> json" where
  "retry_policy_json p = JsonObject [(''maxAttempts'', JsonNumber (of_int (np_maxAttempts p))),
     (''backoff'', JsonString (backoff_name (np_backoff p))), (''baseDelayMs'', JsonNumber (np_baseDelayMs p)),
     (''maxDelayMs'', JsonNumber (np_maxDelayMs p)), (''retryOn'', JsonArray (map JsonString (np_retryOn p)))]"

definition node_json :: "FridayWorkflowNode \<Rightarrow> json" where
  "node_json n = JsonObject ([(''id'', JsonString (wn_id n)), (''type'', JsonString (wn_type n)),
       (''label'', JsonString (wn_label n)), (''config'', JsonObject (wn_config n))] @
     opt_field ''retryPolicy'' retry_policy_json (wn_retryPolicy n) @
     opt_field ''timeoutMs'' (\<lambda>t. JsonNumber (of_int t)) (wn_timeoutMs n))"

definition edge_json :: "FridayWorkflowEdge \<Rightarrow> json" where
  "edge_json e = JsonObject ([(''id'', JsonString (we_id e)), (''sourceNodeId'', JsonString (sourceNodeId e)),
     (''targetNodeId'', JsonString (targetNodeId e))] @ opt_field ''condition'' JsonString (we_condition e))"

fun strategy_name :: "WorkflowFailureStrategy \<Rightarrow> string" where
  "strategy_name Fail_Fast = ''fail_fast''"
| "strategy_name Continue_On_Error = ''continue_on_error''"
| "strategy_name Fallback_Step = ''fallback_step''"
| "strategy_name Compensate = ''compensate''"
| "strategy_name Pause_For_Approval = ''pause_for_approval''"

definition failure_policy_json :: "WorkflowFailurePolicyV2 \<Rightarrow> json" where
  "failure_policy_json p = JsonObject ([(''onFailure'', JsonString (strategy_name (onFailure p)))] @
     opt_field ''fallbackStepId'' JsonString (fallbackStepId p) @
     opt_field ''compensationWorkflowId'' JsonString (compensationWorkflowId p) @
     [(''notifyUser'', JsonBool (notifyUser p))])"

definition test_json :: "FridayWorkflowTest \<Rightarrow> json" where
  "test_json t = JsonObject ([(''name'', JsonString (wt_name t))] @ opt_field ''description'' JsonString (wt_description t) @
     [(''inputs'', JsonObject (wt_inputs t))] @
     opt_field ''mocks'' (\<lambda>ms. JsonObject (map (\<lambda>(k, m). (k, JsonObject ((''output'', JsonObject (tm_output m)) #
       opt_field ''status'' JsonString (tm_status m)))) ms)) (wt_mocks t) @
     [(''assertions'', JsonArray (map (\<lambda>a. JsonObject [(''path'', JsonString (ta_path a)),
       (''operator'', JsonString (ta_operator a)), (''expected'', ta_expected a)]) (wt_assertions t)))])"

definition graph_json :: "FridayCompiledWorkflowGraphV2 \<Rightarrow> json" where
  "graph_json g = JsonObject [(''schemaVersion'', JsonString (cg_schemaVersion g)), (''workflowId'', JsonString (cg_workflowId g)),
     (''workflowVersionId'', JsonString (cg_workflowVersionId g)),
     (''sourceSpecSchemaVersion'', JsonString (cg_sourceSpecSchemaVersion g)),
     (''graph'', JsonObject [(''nodes'', JsonArray (map node_json (cg_nodes g))), (''edges'', JsonArray (map edge_json (cg_edges g)))]),
     (''failurePolicy'', failure_policy_json (cg_failurePolicy g)), (''tests'', JsonArray (map test_json (cg_tests g)))]"

section \<open>Compilation\<close>

record compiler_deps =
  cd_computeChecksum :: "string \<Rightarrow> string"
  cd_number :: "rat \<Rightarrow> string"

definition unsummed_graph ::
    "(nat \<Rightarrow> string) \<Rightarrow> FridayWorkflowSpecV1 \<Rightarrow> string \<Rightarrow> FridayWorkflowNode list \<Rightarrow> FridayCompiledWorkflowGraphV2" where
  "unsummed_graph ids spec workflowVersionId nodes =
     \<lparr>cg_schemaVersion = ''2.0'', cg_workflowId = sp_workflowId spec, cg_workflowVersionId = workflowVersionId,
      cg_sourceSpecSchemaVersion = ''1.0'', cg_nodes = nodes, cg_edges = compile_edges ids spec, cg_variables = None,
      cg_failurePolicy = sp_errorPolicy spec, cg_tests = sp_tests spec, cg_checksum = []\<rparr>"

definition compile ::
    "compiler_deps \<Rightarrow> (nat \<Rightarrow> string) \<Rightarrow> FridayWorkflowSpecV1 \<Rightarrow> string \<Rightarrow> FridayCompiledWorkflowGraphV2 result" where
  "compile deps ids spec workflowVersionId =
     (if \<not> isFridayWorkflowStepIdExpressionSafe (sp_startStepId spec)
      then Inl (compilation_error (''WORKFLOW_COMPILATION_ERROR: invalid startStepId '' @ squoted (sp_startStepId spec) @ ''. '' @
             getFridayWorkflowStepIdFormatMessage))
      else case compile_steps (sp_steps spec) of
        Inl e \<Rightarrow> Inl e
      | Inr nodes \<Rightarrow>
          (let graphObj = unsummed_graph ids spec workflowVersionId (trigger_node (sp_trigger spec) # nodes);
               checksum = cd_computeChecksum deps (json_text (cd_number deps) (enumerated (graph_json graphObj)));
               compiled = graphObj\<lparr>cg_checksum := checksum\<rparr>;
               validation = validate compiled
           in if \<not> wr_valid validation
              then let firstError = hd (wr_errors validation)
                   in Inl (compilation_error (wv_code firstError @ '': '' @ wv_message firstError))
              else Inr compiled))"

text \<open>\<open>message.indexOf(": ")\<close>.\<close>

fun colon_index :: "string \<Rightarrow> nat option" where
  "colon_index (c # d # s) = (if c = CHR '':'' \<and> d = CHR '' '' then Some 0 else map_option Suc (colon_index (d # s)))"
| "colon_index s = None"

definition validateSpec :: "compiler_deps \<Rightarrow> (nat \<Rightarrow> string) \<Rightarrow> FridayWorkflowSpecV1 \<Rightarrow> FridayWorkflowValidationResult" where
  "validateSpec deps ids spec =
     (case compile deps ids spec ''validate-only'' of
        Inr _ \<Rightarrow> \<lparr>wr_valid = True, wr_errors = []\<rparr>
      | Inl (FridayDomainError _ message _) \<Rightarrow>
          (case colon_index message of
             Some (Suc i) \<Rightarrow> \<lparr>wr_valid = False, wr_errors = [graph_error (take (Suc i) message) (drop (Suc i + 2) message)]\<rparr>
           | _ \<Rightarrow> \<lparr>wr_valid = False, wr_errors = [graph_error ''WORKFLOW_GRAPH_INVALID'' message]\<rparr>))"

section \<open>Specification vocabulary\<close>

text \<open>What an outcome on an edge stands for, in terms of the data the source node has left.\<close>

definition when_holds :: "FridayExpressionContext \<Rightarrow> string \<Rightarrow> string \<Rightarrow> bool" where
  "when_holds ctx source outcome =
     (let status = data_at ctx [''steps'', source, ''output'', ''status''];
          verdict = data_at ctx [''steps'', source, ''output'', ''result'']
      in if outcome = ''success'' then status \<noteq> Some (JsonString ''failed'')
         else if outcome = ''failure'' then status = Some (JsonString ''failed'')
         else if outcome = ''true'' then verdict = Some (JsonBool True)
         else verdict = Some (JsonBool False))"

definition OUTCOMES :: "string list" where
  "OUTCOMES = [''success'', ''failure'', ''true'', ''false'']"

section \<open>Generated conditions\<close>

text \<open>The parts of a generated condition: the property read, the comparison and the literal.\<close>

definition outcome_parts :: "string \<Rightarrow> string \<times> binary_op \<times> FridayExprLiteral" where
  "outcome_parts outcome =
     (if outcome = ''success'' then (''status'', Op_Ne, L_String ''failed'')
      else if outcome = ''failure'' then (''status'', Op_Eq, L_String ''failed'')
      else if outcome = ''true'' then (''result'', Op_Eq, L_Boolean True)
      else (''result'', Op_Eq, L_Boolean False))"

definition generated_ast :: "string \<Rightarrow> string \<Rightarrow> FridayExprNode" where
  "generated_ast source outcome =
     (case outcome_parts outcome of (field, opr, v) \<Rightarrow> Binary opr (Ref [''steps'', source, ''output'', field]) (Literal v))"

lemma tokenize_prefix:
  "list_all good_token ts \<Longrightarrow>
   \<exists>j. tokenize_from i (concat (map (\<lambda>t. token_text t @ '' '') ts) @ s) = map_sum id ((@) ts) (tokenize_from j s)"
proof (induction ts arbitrary: i)
  case Nil
  then show ?case by (auto simp: id_def sum.map_ident intro!: exI [of _ i])
next
  case (Cons t ts)
  let ?s = "concat (map (\<lambda>t. token_text t @ '' '') ts) @ s"
  have lex: "lex_token i (token_text t @ CHR '' '' # ?s) = Inr (t, CHR '' '' # ?s)" "token_text t \<noteq> []"
    "white_prefix (token_text t @ CHR '' '' # ?s) = None" for i
    using lex_good_token [of t _ ?s] Cons.prems white_prefix_none [of "token_text t @ CHR '' '' # ?s"] by auto
  have space: "tokenize_from k (CHR '' '' # ?s) = tokenize_from (Suc k) ?s" for k
    by (subst tokenize_from.simps) (simp add: white_prefix_space utf16_length_def utf16_units_def)
  have "\<exists>k. tokenize_from i (token_text t @ CHR '' '' # ?s) = map_sum id ((#) t) (tokenize_from k (CHR '' '' # ?s))"
    using lex by (subst tokenize_from.simps) auto
  then obtain k where k: "tokenize_from i (token_text t @ CHR '' '' # ?s) = map_sum id ((#) t) (tokenize_from k ?s)"
    by (auto simp: space)
  obtain j where "tokenize_from k ?s = map_sum id ((@) ts) (tokenize_from j s)" using Cons.IH [of k] Cons.prems by fastforce
  with k show ?case by (auto simp: sum.map_comp comp_def)
qed

lemma tokenize_literal:
  "tokenize_from j (CHR 0x22 # ''failed'' @ [CHR 0x22]) = Inr [token TK_STRING ''failed'', token TK_EOF []]"
  "tokenize_from j ''true'' = Inr [token TK_BOOLEAN ''true'', token TK_EOF []]"
  "tokenize_from j ''false'' = Inr [token TK_BOOLEAN ''false'', token TK_EOF []]"
proof -
  have stop: "tokenize_from k [] = Inr [token TK_EOF []]" for k by (subst tokenize_from.simps) simp
  have "white_prefix (CHR 0x22 # ''failed'' @ [CHR 0x22]) = None" "white_prefix ''true'' = None" "white_prefix ''false'' = None"
    by code_simp+
  moreover have "lex_token j (CHR 0x22 # ''failed'' @ [CHR 0x22]) = Inr (token TK_STRING ''failed'', [])"
    "lex_token j ''true'' = Inr (token TK_BOOLEAN ''true'', [])" "lex_token j ''false'' = Inr (token TK_BOOLEAN ''false'', [])"
    by (simp_all add: lex_token_def lex_word_def TWO_CHAR_OPERATORS_def ONE_CHAR_OPERATORS_def is_letter_def is_digit_def word_char_def)
  ultimately show "tokenize_from j (CHR 0x22 # ''failed'' @ [CHR 0x22]) = Inr [token TK_STRING ''failed'', token TK_EOF []]"
    "tokenize_from j ''true'' = Inr [token TK_BOOLEAN ''true'', token TK_EOF []]"
    "tokenize_from j ''false'' = Inr [token TK_BOOLEAN ''false'', token TK_EOF []]"
    by (subst tokenize_from.simps, simp add: stop)+
qed

lemma parse_comparison:
  assumes "printable (Ref path)" and "printable (Literal v)"
  shows "parseExpr ([token TK_REF (js_join ''.'' path), token TK_OP (binary_text opr)] @ [literal_token v, token TK_EOF []]) =
    Inr (Binary opr (Ref path) (Literal v))"
proof -
  let ?r = "[token TK_EOF []]"
  have "parse_or 31 (expr_tokens (Ref path) @ token TK_OP (binary_text opr) # expr_tokens (Literal v) @ ?r) =
      Inr (Binary opr (Ref path) (Literal v), ?r)"
    by (rule parse_or_binary [OF parse_printed expr_tokens_start parse_printed expr_tokens_start]) (use assms in simp_all)
  then show ?thesis by (simp add: parseExpr_def MAX_DEPTH_def numeral_eq_Suc)
qed

lemma utf16_length_le: "utf16_length s \<le> 2 * length s"
  by (induction s) (auto simp: utf16_length_def utf16_units_def Let_def)

lemma generated_parse:
  assumes "list_all (\<lambda>c. ref_char c \<and> c \<noteq> CHR ''.'') source" and "length source \<le> 64" and "outcome \<in> set OUTCOMES"
  shows "\<exists>c. when_condition source (Some outcome) = Some c \<and> c \<noteq> [] \<and> parse c = Inr (generated_ast source outcome)"
proof -
  obtain field opr v where parts: "outcome_parts outcome = (field, opr, v)" by (cases "outcome_parts outcome") auto
  then have sel: "field = fst (outcome_parts outcome)" "opr = fst (snd (outcome_parts outcome))" "v = snd (snd (outcome_parts outcome))"
    by simp_all
  let ?path = "[''steps'', source, ''output'', field]"
  let ?ts = "[token TK_REF (js_join ''.'' ?path), token TK_OP (binary_text opr)]"
  let ?c = "concat (map (\<lambda>t. token_text t @ '' '') ?ts) @ token_text (literal_token v)"
  from assms(3) have out: "outcome \<in> {''success'', ''failure'', ''true'', ''false''}" by (simp add: OUTCOMES_def)
  then have fields: "field \<in> {''status'', ''result''}" "opr \<in> {Op_Eq, Op_Ne}"
    "v \<in> {L_String ''failed'', L_Boolean True, L_Boolean False}"
    using parts by (auto simp: outcome_parts_def)
  have shape: "when_condition source (Some outcome) = Some ?c"
    using out
    by (elim insertE emptyE) (simp_all add: sel when_condition_def outcome_parts_def token_text_def quote_string_def)
  have word: "list_all (\<lambda>c. ref_char c \<and> c \<noteq> CHR ''.'') w" if "w \<in> {''steps'', ''output'', ''status'', ''result''}" for w
    using that by (elim insertE emptyE) (simp_all add: ref_char_def is_letter_def is_digit_def)
  have path: "printable (Ref ?path)"
  proof -
    have "field \<in> {''steps'', ''output'', ''status'', ''result''}" using fields(1) by blast
    from word [OF this] word [of "''steps''"] word [of "''output''"] assms(1) show ?thesis by simp
  qed
  have lit: "printable (Literal v)" using fields(3) by (elim insertE emptyE) simp_all
  have "list_all good_token ?ts"
    using good_expr_tokens [OF path] fields(2) by (auto simp: good_token_def TWO_CHAR_OPERATORS_def)
  then obtain j where "tokenize_from 0 ?c = map_sum id ((@) ?ts) (tokenize_from j (token_text (literal_token v)))"
    using tokenize_prefix by blast
  moreover have "tokenize_from j (token_text (literal_token v)) = Inr [literal_token v, token TK_EOF []]"
    using fields(3) tokenize_literal [of j] by (auto simp: token_text_def quote_string_def)
  moreover have "utf16_length ?c \<le> 4096"
    using utf16_length_le [of ?c] assms(2) fields
    by (elim insertE emptyE) (simp_all add: token_text_def quote_string_def)
  ultimately have "parse ?c = Inr (generated_ast source outcome)"
    using parse_comparison [OF path lit, of opr] parts
    by (simp add: parse_def MAX_EXPR_LENGTH_def tokenize_def generated_ast_def)
  then show ?thesis using shape by (simp add: token_text_def)
qed

lemma value_at_string: "value_at loc j = V_String s \<longleftrightarrow> j = JsonString s" and value_at_bool: "value_at loc j = V_Boolean b \<longleftrightarrow> j = JsonBool b"
  by (cases j; simp)+

lemma generated_holds:
  assumes "source \<notin> set UNSAFE_SEGMENTS" and "outcome \<in> set OUTCOMES"
  shows "evaluateNode num ctx (generated_ast source outcome) = Inr (V_Boolean (when_holds ctx source outcome))"
proof -
  have safe: "set (tl [''steps'', source, ''output'', field]) \<inter> set UNSAFE_SEGMENTS = {}" if "field \<in> {''status'', ''result''}" for field
    using assms(1) that by (auto simp: UNSAFE_SEGMENTS_def)
  have ref: "evaluateNode num ctx (Ref [''steps'', source, ''output'', field]) =
      Inr (case data_at ctx [''steps'', source, ''output'', field] of None \<Rightarrow> V_Undefined | Some j \<Rightarrow> value_at [''steps'', source, ''output'', field] j)"
    if "field \<in> {''status'', ''result''}" for field
    by (rule reference_value [OF safe [OF that]])
  from assms(2) consider "outcome = ''success''" | "outcome = ''failure''" | "outcome = ''true''" | "outcome = ''false''"
    by (auto simp: OUTCOMES_def)
  then show ?thesis
    by cases (simp_all add: generated_ast_def outcome_parts_def when_holds_def ref value_at_string value_at_bool del: evaluateNode.simps(2) split: option.splits)
qed

section \<open>Compiled graphs\<close>

lemma compile_steps_nodes:
  "compile_steps steps = Inr nodes \<Longrightarrow>
   map wn_id nodes = map st_id steps \<and> list_all (isFridayWorkflowStepIdExpressionSafe \<circ> st_id) steps"
proof (induction steps arbitrary: nodes)
  case (Cons step steps)
  then show ?case
    by (cases "compile_steps steps") (auto simp: step_node_def split: if_splits option.splits)
qed simp

lemma compile_outcome:
  assumes "compile deps ids spec version = Inr g"
  shows "wr_valid (validate g)" "node_ids g = TRIGGER_NODE_ID # map st_id (sp_steps spec)" "cg_edges g = compile_edges ids spec"
    "list_all (isFridayWorkflowStepIdExpressionSafe \<circ> st_id) (sp_steps spec)"
proof -
  obtain nodes where nodes: "compile_steps (sp_steps spec) = Inr nodes"
    using assms by (auto simp: compile_def split: if_splits sum.splits)
  let ?u = "unsummed_graph ids spec version (trigger_node (sp_trigger spec) # nodes)"
  have g: "\<exists>c. g = ?u\<lparr>cg_checksum := c\<rparr>" and valid: "wr_valid (validate g)"
    using assms nodes by (auto simp: compile_def Let_def split: if_splits)
  show "wr_valid (validate g)" by (rule valid)
  show "node_ids g = TRIGGER_NODE_ID # map st_id (sp_steps spec)" "cg_edges g = compile_edges ids spec"
    "list_all (isFridayWorkflowStepIdExpressionSafe \<circ> st_id) (sp_steps spec)"
    using g compile_steps_nodes [OF nodes] by (auto simp: node_ids_def unsummed_graph_def trigger_node_def)
qed

text \<open>The ids of nodes can stand in a reference.\<close>

lemma node_id_reference:
  assumes "i = TRIGGER_NODE_ID \<or> isFridayWorkflowStepIdExpressionSafe i"
  shows "list_all (\<lambda>c. ref_char c \<and> c \<noteq> CHR ''.'') i \<and> length i \<le> 64"
proof -
  have char: "ref_char c \<and> c \<noteq> CHR ''.''" if "step_id_char c" for c
    using that by (auto simp: step_id_char_def ref_char_def is_letter_def [of "CHR ''.''"] is_digit_def [of "CHR ''.''"])
  have letter: "step_id_char c" if "is_letter c" for c using that by (simp add: step_id_char_def)
  have trigger: "list_all step_id_char TRIGGER_NODE_ID \<and> length TRIGGER_NODE_ID \<le> 64"
    by (simp add: TRIGGER_NODE_ID_def step_id_char_def is_letter_def is_digit_def)
  have step: "list_all step_id_char i \<and> length i \<le> 64" if "isFridayWorkflowStepIdExpressionSafe i"
    using that letter by (cases i) (auto simp: isFridayWorkflowStepIdExpressionSafe_def)
  from assms trigger step have "list_all step_id_char i \<and> length i \<le> 64" by blast
  then show ?thesis using char by (auto simp: list_all_iff)
qed

lemma compiled_source:
  assumes "compile deps ids spec version = Inr g" and "e \<in> set (sp_edges spec)"
  shows "list_all (\<lambda>c. ref_char c \<and> c \<noteq> CHR ''.'') (se_from e) \<and> length (se_from e) \<le> 64"
proof -
  note g = compile_outcome [OF assms(1)]
  have "se_from e \<in> sourceNodeId ` set (cg_edges g)"
    using assms(2) by (force simp: g(3) compile_edges_def plain_edge_def enumerate_eq_zip in_set_conv_nth set_zip)
  then have "se_from e \<in> set (node_ids g)"
    using g(1) by (auto simp: validate_well_formed well_formed_graph_def edges_valid_ends node_ids_def)
  then show ?thesis using node_id_reference [of "se_from e"] g(2,4) by (auto simp: list_all_iff)
qed

lemma generated_unsafe:
  assumes "source \<in> set UNSAFE_SEGMENTS"
  shows "evaluateNode num ctx (generated_ast source outcome) = Inl (Domain_Error (unsafe_path_error source))"
  using assms by (simp add: generated_ast_def outcome_parts_def resolve_ref_def context_root_def)

lemma compiled_edge:
  assumes "i < length (sp_edges spec)"
  shows "compile_edges ids spec ! Suc i =
    plain_edge (ids (Suc i)) (se_from (sp_edges spec ! i)) (se_to (sp_edges spec ! i))
      (when_condition (se_from (sp_edges spec ! i)) (se_when (sp_edges spec ! i)))"
  using assms by (simp add: compile_edges_def nth_enumerate_eq)

section \<open>Reported errors\<close>

lemma colon_index_split: "colon_index s = Some i \<Longrightarrow> take i s @ '': '' @ drop (i + 2) s = s"
proof (induction s arbitrary: i rule: colon_index.induct)
  case (1 c d s)
  then show ?case by (cases i) (auto split: if_splits)
qed auto

lemma colon_index_exists: "\<exists>i. colon_index (a @ '': '' @ b) = Some i"
proof (induction a)
  case (Cons c a)
  then show ?case by (cases "a @ '': '' @ b") auto
qed simp

lemma colon_index_pos: "s \<noteq> [] \<Longrightarrow> hd s \<noteq> CHR '':'' \<Longrightarrow> colon_index s \<noteq> Some 0"
  by (cases s rule: colon_index.cases) auto

definition workflow_code :: "FridayWorkflowValidationError \<Rightarrow> bool" where
  "workflow_code e \<longleftrightarrow> take 9 (wv_code e) = ''WORKFLOW_''"

lemma workflow_codes: "list_all workflow_code (wr_errors (validate graph))"
proof -
  have errs: "workflow_code (graph_error c m) \<longleftrightarrow> take 9 c = ''WORKFLOW_''" "workflow_code (node_error c m n) \<longleftrightarrow> take 9 c = ''WORKFLOW_''"
    "workflow_code (edge_error c m n) \<longleftrightarrow> take 9 c = ''WORKFLOW_''" for c m n
    by (simp_all add: workflow_code_def graph_error_def node_error_def edge_error_def)
  have "list_all workflow_code (header_objections graph)" by (simp add: header_objections_def errs)
  moreover have "list_all workflow_code (fst (scan_nodes nodes ids))" for nodes ids
    by (induction nodes arbitrary: ids) (simp_all add: errs Let_def)
  moreover have "list_all workflow_code (scan_edge_ids edges ids)" for edges ids
    by (induction edges arbitrary: ids) (simp_all add: errs)
  moreover have "list_all workflow_code (scan_edge_ends ids edges)" for edges ids
    by (induction edges) (simp_all add: scan_edge_ends_def missing_end_def errs)
  moreover have "list_all workflow_code (concat (map (node_objections out) nodes))" for out nodes
    by (induction nodes) (simp_all add: node_objections_def errs)
  then have "list_all workflow_code (shape_objections nodes ids edges)" for nodes ids edges
    by (auto simp: shape_objections_def errs Let_def list_all_iff)
  moreover have "list_all workflow_code (concat (map condition_objections edges))" for edges
    by (induction edges) (simp_all add: condition_objections_def errs split: option.split)
  ultimately show ?thesis by (simp add: validate_def Let_def errs)
qed

lemma invalid_has_errors: "\<not> wr_valid (validate graph) \<Longrightarrow> wr_errors (validate graph) \<noteq> []"
  by (auto simp: validate_def Let_def split: if_splits)

definition coded_message :: "string \<Rightarrow> bool" where
  "coded_message m \<longleftrightarrow> (\<exists>code rest. m = code @ '': '' @ rest \<and> take 9 code = ''WORKFLOW_'')"

lemma coded_messageI: "m = code @ '': '' @ rest \<Longrightarrow> take 9 code = ''WORKFLOW_'' \<Longrightarrow> coded_message m"
  by (auto simp: coded_message_def)

lemma own_code: "coded_message (''WORKFLOW_COMPILATION_ERROR: '' @ m)"
  by (rule coded_messageI [of _ "''WORKFLOW_COMPILATION_ERROR''" m]) simp_all

lemma compile_steps_error: "compile_steps steps = Inl e \<Longrightarrow> \<exists>m. e = compilation_error m \<and> coded_message m"
proof (induction steps)
  case (Cons step steps)
  then show ?case
    by (cases "compile_steps steps") (auto simp: own_code [simplified] split: if_splits option.splits)
qed simp

lemma compile_error: "compile deps ids spec version = Inl e \<Longrightarrow> \<exists>m. e = compilation_error m \<and> coded_message m"
proof (cases "compile_steps (sp_steps spec)")
  case (Inl err)
  then show "compile deps ids spec version = Inl e \<Longrightarrow> ?thesis"
    using compile_steps_error [OF Inl] by (auto simp: compile_def own_code [simplified] split: if_splits)
next
  case (Inr nodes)
  have coded: "coded_message (wv_code (hd (wr_errors (validate g))) @ '': '' @ wv_message (hd (wr_errors (validate g))))"
    if "\<not> wr_valid (validate g)" for g
    using workflow_codes [of g] invalid_has_errors [OF that]
    by (cases "wr_errors (validate g)") (auto simp: workflow_code_def intro: coded_messageI)
  assume "compile deps ids spec version = Inl e"
  then show ?thesis
    using Inr coded by (auto simp: compile_def Let_def own_code [simplified] split: if_splits)
qed

section \<open>Properties\<close>

text \<open>
  C19. A workflow that compiles runs: its graph is well formed, with the trigger and the steps as
  nodes, and a run of it gets an execution plan whose order lists each of them once and respects
  every edge, unless the workflow has 500 steps or more, which only the scheduler refuses.
\<close>

theorem compiled_workflow_runs:
  assumes "compile deps ids spec version = Inr g"
  shows "well_formed_graph g \<and> node_ids g = TRIGGER_NODE_ID # map st_id (sp_steps spec) \<and>
    (if length (sp_steps spec) < 500
     then \<exists>plan. buildExecutionPlan runId g = Inr plan \<and>
       mset (topoOrder (ep_adjacency plan)) = mset (node_ids g) \<and>
       edges_forward (edge_pairs g) (topoOrder (ep_adjacency plan))
     else \<exists>msg. buildExecutionPlan runId g = Inl (FridayDomainError ''WORKFLOW_TOO_MANY_NODES'' msg 400))"
proof -
  note g = compile_outcome [OF assms]
  have wf: "well_formed_graph g" using g(1) by (simp add: validate_well_formed)
  then have ids: "distinct (node_ids g)" "edges_valid g" "acyclic (set (edge_pairs g))" by (simp_all add: well_formed_graph_def)
  obtain adj where adj: "buildAdjacency g = Inr adj" using buildAdjacency_complete [OF ids(1,2)] ids(3) by auto
  have "length (cg_nodes g) = Suc (length (sp_steps spec))"
    using g(2) by (metis length_Cons length_map node_ids_def)
  moreover have "mset (topoOrder adj) = mset (node_ids g)"
    using buildAdjacency_topo(1,2) [OF ids(1) adj] ids(1) by (simp add: set_eq_iff_mset_eq_distinct)
  ultimately show ?thesis
    using wf g(2) adj buildAdjacency_topo(3) [OF ids(1) adj] by (simp add: buildExecutionPlan_def MAX_TOTAL_STEPS_def)
qed

text \<open>
  C20. Outcomes on edges mean what they say: in a compiled graph an edge marked success, failure, true
  or false carries a condition that parses and evaluates, in every context, to whether the status or
  result its source has left is the one named; other edges carry no condition. The step ids
  \<open>constructor\<close> and \<open>prototype\<close> are the exception: the condition of an edge out of such a step
  always fails to evaluate.
\<close>

theorem when_conditions_mean:
  assumes "compile deps ids spec version = Inr g" and "i < length (sp_edges spec)"
  shows "let e = sp_edges spec ! i; edge = cg_edges g ! Suc i in
    sourceNodeId edge = se_from e \<and> targetNodeId edge = se_to e \<and>
    (case se_when e of
       Some outcome \<Rightarrow>
         if outcome \<in> set OUTCOMES
         then \<exists>c. we_condition edge = Some c \<and> c \<noteq> [] \<and>
           (if se_from e \<in> set UNSAFE_SEGMENTS then isl (condition_outcome num ctx c)
            else condition_outcome num ctx c = Inr (when_holds ctx (se_from e) outcome))
         else we_condition edge = None
     | None \<Rightarrow> we_condition edge = None)"
proof -
  let ?e = "sp_edges spec ! i"
  have edge: "cg_edges g ! Suc i =
      plain_edge (ids (Suc i)) (se_from ?e) (se_to ?e) (when_condition (se_from ?e) (se_when ?e))"
    using compiled_edge [OF assms(2)] compile_outcome(3) [OF assms(1)] by simp
  have none: "when_condition (se_from ?e) w = None" if "w = None \<or> the w \<notin> set OUTCOMES" for w
    using that by (cases w) (simp_all add: when_condition_def OUTCOMES_def)
  have some: "\<exists>c. when_condition (se_from ?e) (Some w) = Some c \<and> c \<noteq> [] \<and>
      (if se_from ?e \<in> set UNSAFE_SEGMENTS then isl (condition_outcome num ctx c)
       else condition_outcome num ctx c = Inr (when_holds ctx (se_from ?e) w))" if w: "w \<in> set OUTCOMES" for w
  proof -
    obtain c where c: "when_condition (se_from ?e) (Some w) = Some c" "c \<noteq> []" "parse c = Inr (generated_ast (se_from ?e) w)"
      using generated_parse [OF _ _ w] compiled_source [OF assms(1) nth_mem [OF assms(2)]] by blast
    then show ?thesis
      using generated_holds [OF _ w, of "se_from ?e" num ctx] generated_unsafe [of "se_from ?e" num ctx w]
      by (cases "se_from ?e \<in> set UNSAFE_SEGMENTS") (simp_all add: condition_outcome_def exec_def)
  qed
  show ?thesis
  proof (cases "se_when ?e")
    case (Some w)
    then show ?thesis
      using none [of "Some w"] some [of w] by (cases "w \<in> set OUTCOMES") (simp_all add: Let_def edge plain_edge_def)
  qed (simp add: Let_def edge plain_edge_def none)
qed

text \<open>
  Refused specifications are reported faithfully: compilation fails only with the error code
  \<open>WORKFLOW_COMPILATION_ERROR\<close> and status 400, and validating the specification then reports exactly
  one error, whose code and message put together are the message of that failure.
\<close>

theorem validateSpec_reports:
  assumes "compile deps ids spec ''validate-only'' = Inl e"
  shows "err_code e = ''WORKFLOW_COMPILATION_ERROR'' \<and> http_status e = 400 \<and>
    (\<exists>err. validateSpec deps ids spec = \<lparr>wr_valid = False, wr_errors = [err]\<rparr> \<and>
       wv_code err @ '': '' @ wv_message err = err_message e)"
proof -
  obtain m where m: "e = compilation_error m" "coded_message m" using compile_error [OF assms] by blast
  then obtain code more where parts: "m = code @ '': '' @ more" "take 9 code = ''WORKFLOW_''" by (auto simp: coded_message_def)
  then have head: "m \<noteq> [] \<and> hd m \<noteq> CHR '':''" by (cases code) auto
  obtain j where "colon_index m = Some j" using colon_index_exists parts(1) by blast
  moreover from this head obtain k where "j = Suc k" using colon_index_pos [of m] by (cases j) auto
  ultimately show ?thesis
    using assms m(1) colon_index_split [of m j]
    by (auto simp: validateSpec_def compilation_error_def graph_error_def)
qed

text \<open>A small workflow for the witnesses: two steps, the second one reached when the first fails.\<close>

definition sample_step :: "string \<Rightarrow> spec_step" where
  "sample_step i = \<lparr>st_id = i, st_type = ''tool_call'', st_ref = Some ''tool'', st_args = None, st_condition = None,
     st_timeoutSec = None, st_retry = None\<rparr>"

definition sample_spec :: FridayWorkflowSpecV1 where
  "sample_spec =
     \<lparr>sp_workflowId = ''w'', sp_name = ''w'', sp_description = [], sp_startStepId = ''fetch'', sp_trigger = Manual_Trigger,
      sp_inputs = [], sp_steps = [sample_step ''fetch'', sample_step ''repair''],
      sp_edges = [\<lparr>se_from = ''fetch'', se_to = ''repair'', se_when = Some ''failure''\<rparr>], sp_outputs = [],
      sp_errorPolicy = \<lparr>onFailure = Fail_Fast, fallbackStepId = None, compensationWorkflowId = None, notifyUser = False\<rparr>,
      sp_tests = []\<rparr>"

definition sample_deps :: compiler_deps where
  "sample_deps = \<lparr>cd_computeChecksum = \<lambda>s. ''sum'', cd_number = \<lambda>r. ''0''\<rparr>"

lemma sample_compiles: "\<exists>g. compile sample_deps show_nat sample_spec ''v'' = Inr g"
proof -
  have "\<not> isl (compile sample_deps show_nat sample_spec ''v'')" by code_simp
  then show ?thesis by (cases "compile sample_deps show_nat sample_spec ''v''") simp_all
qed

theorem compiled_workflow_runs_witness:
  "\<exists>g plan. compile sample_deps show_nat sample_spec ''v'' = Inr g \<and> buildExecutionPlan ''r'' g = Inr plan \<and>
     mset (topoOrder (ep_adjacency plan)) = {#TRIGGER_NODE_ID, ''fetch'', ''repair''#}"
proof -
  obtain g where g: "compile sample_deps show_nat sample_spec ''v'' = Inr g" using sample_compiles by blast
  from compiled_workflow_runs [OF g, of "''r''"] g show ?thesis
    by (auto simp: sample_spec_def sample_step_def)
qed

theorem when_conditions_mean_witness:
  "\<exists>g c. compile sample_deps show_nat sample_spec ''v'' = Inr g \<and> we_condition (cg_edges g ! 1) = Some c \<and>
     condition_outcome (\<lambda>_. ''0'') \<lparr>ex_inputs = [], ex_steps = [(''fetch'', JsonObject [(''output'',
       JsonObject [(''status'', JsonString ''failed'')])])], ex_env = None\<rparr> c = Inr True"
proof -
  let ?ctx = "\<lparr>ex_inputs = [], ex_steps = [(''fetch'', JsonObject [(''output'', JsonObject [(''status'', JsonString ''failed'')])])],
      ex_env = None\<rparr>"
  obtain g where g: "compile sample_deps show_nat sample_spec ''v'' = Inr g" using sample_compiles by blast
  have edge: "0 < length (sp_edges sample_spec)" "sp_edges sample_spec ! 0 = \<lparr>se_from = ''fetch'', se_to = ''repair'', se_when = Some ''failure''\<rparr>"
    by (simp_all add: sample_spec_def)
  have facts: "''failure'' \<in> set OUTCOMES" "''fetch'' \<notin> set UNSAFE_SEGMENTS" "when_holds ?ctx ''fetch'' ''failure''"
    by (simp_all add: OUTCOMES_def UNSAFE_SEGMENTS_def when_holds_def data_at_def)
  from when_conditions_mean [OF g edge(1), of "\<lambda>_. ''0''" ?ctx] edge(2) facts g show ?thesis
    by (auto simp: Let_def)
qed

theorem validateSpec_reports_witness:
  "\<exists>err. validateSpec sample_deps show_nat (sample_spec\<lparr>sp_edges := []\<rparr>) = \<lparr>wr_valid = False, wr_errors = [err]\<rparr>"
proof -
  let ?spec = "sample_spec\<lparr>sp_edges := []\<rparr>"
  have "isl (compile sample_deps show_nat ?spec ''validate-only'')" by code_simp
  then obtain e where "compile sample_deps show_nat ?spec ''validate-only'' = Inl e" by (auto simp: isl_def)
  from validateSpec_reports [OF this] show ?thesis by blast
qed

end
