(* ===== verification/Workflow_Graph_Json.thy ===== *)
theory Workflow_Graph_Json
  imports Workflow_Conditions
begin

text \<open>
  Graphs as they are stored: the structural check and the normalisation of raw graph JSON in
  src/src/workflows/model/friday-workflow-graph.types.ts. The result is again JSON, since the code
  casts what it does not rebuild; a property that is \<open>undefined\<close> is absent.
\<close>

section \<open>Readers\<close>

type_synonym raw_object = "(string \<times> json) list"

fun readRecord :: "json option \<Rightarrow> raw_object option" where
  "readRecord (Some (JsonObject ps)) = Some ps"
| "readRecord _ = None"

fun readString :: "json option \<Rightarrow> string option" where
  "readString (Some (JsonString s)) = (if s = [] then None else Some s)"
| "readString _ = None"

text \<open>\<open>a ?? b\<close> on properties: \<open>null\<close> and \<open>undefined\<close> give way.\<close>

fun nullish :: "json option \<Rightarrow> json option \<Rightarrow> json option" where
  "nullish (Some JsonNull) b = b"
| "nullish None b = b"
| "nullish a b = a"

fun read_array :: "json option \<Rightarrow> json list option" where
  "read_array (Some (JsonArray xs)) = Some xs"
| "read_array _ = None"

definition NODE_TYPE_ALIASES :: "(string \<times> string) list" where
  "NODE_TYPE_ALIASES = [(''trigger'', ''trigger''), (''action'', ''action''), (''condition'', ''condition''), (''data'', ''data''),
     (''ai'', ''ai''), (''approval'', ''approval''), (''start'', ''trigger''), (''tool_call'', ''action''),
     (''skill_call'', ''action''), (''transform'', ''data''), (''human_approval'', ''approval'')]"

fun normalizeWorkflowNodeType :: "json option \<Rightarrow> string option" where
  "normalizeWorkflowNodeType (Some (JsonString s)) = (if js_trim s = [] then None else map_of NODE_TYPE_ALIASES (js_trim s))"
| "normalizeWorkflowNodeType _ = None"

section \<open>Structural check\<close>

text \<open>The properties of a value that is an object; an array has none of the names read here.\<close>

fun object_fields :: "json \<Rightarrow> raw_object option" where
  "object_fields (JsonObject ps) = Some ps"
| "object_fields (JsonArray xs) = Some []"
| "object_fields _ = None"

definition nested_nodes :: "raw_object \<Rightarrow> json list option" where
  "nested_nodes raw = Option.bind (readRecord (map_of raw ''graph'')) (\<lambda>graphObj. read_array (map_of graphObj ''nodes''))"

definition at_node :: "nat \<Rightarrow> string \<Rightarrow> string" where
  "at_node i message = ''nodes['' @ show_nat i @ '']: '' @ message"

fun nonempty_string :: "json option \<Rightarrow> bool" where
  "nonempty_string (Some (JsonString s)) = (s \<noteq> [])"
| "nonempty_string _ = False"

fun bad_position :: "json option \<Rightarrow> bool" where
  "bad_position (Some (JsonBool b)) = True"
| "bad_position (Some (JsonNumber r)) = True"
| "bad_position (Some (JsonString s)) = True"
| "bad_position _ = False"

definition node_structure :: "nat \<Rightarrow> json \<Rightarrow> string list" where
  "node_structure i node =
     (case object_fields node of
        None \<Rightarrow> [at_node i ''must be an object'']
      | Some n \<Rightarrow>
          (if nonempty_string (map_of n ''id'') then []
           else [at_node i (''missing or invalid '' @ squoted ''id'' @ '' (must be a non-empty string)'')]) @
          (if nonempty_string (map_of n ''type'') \<or> nonempty_string (map_of n ''kind'') then []
           else [at_node i (''missing or invalid '' @ squoted ''type'' @ '' (must be a non-empty string)'')]) @
          (if bad_position (map_of n ''position'')
           then [at_node i (squoted ''position'' @ '' must be an object with x/y coordinates'')] else []) @
          (if map_of n ''data'' = None \<and> map_of n ''config'' = None
           then [at_node i (''must have '' @ squoted ''data'' @ '' or '' @ squoted ''config'')] else []))"

definition no_nodes_message :: string where
  "no_nodes_message = ''Graph must contain a '' @ squoted ''nodes'' @ '' array (either at top level or under '' @
     squoted ''graph'' @ '')''"

text \<open>The edges are an array by construction, so the check on them never fires.\<close>

definition validateGraphStructure :: "raw_object \<Rightarrow> string list" where
  "validateGraphStructure raw =
     (case (nested_nodes raw, read_array (map_of raw ''nodes'')) of
        (Some nodes, _) \<Rightarrow> concat (map (\<lambda>(i, node). node_structure i node) (enumerate 0 nodes))
      | (None, Some nodes) \<Rightarrow> concat (map (\<lambda>(i, node). node_structure i node) (enumerate 0 nodes))
      | (None, None) \<Rightarrow> [no_nodes_message])"

section \<open>Normalisation\<close>

definition first_string :: "json option list \<Rightarrow> string option" where
  "first_string vs = fold (\<lambda>v found. or_else found (readString v)) vs None"

definition normalize_node :: "nat \<Rightarrow> json \<Rightarrow> json" where
  "normalize_node index node =
     (let rawNode = case_option [] id (readRecord (Some node));
          nodeId = case_option (''node-'' @ show_nat (index + 1)) id (readString (map_of rawNode ''id''));
          declared = nullish (map_of rawNode ''type'') (map_of rawNode ''kind'');
          normalizedType = case_option ''action'' id (or_else (normalizeWorkflowNodeType declared) (readString declared));
          config = case_option [] id (or_else (readRecord (map_of rawNode ''config'')) (readRecord (map_of rawNode ''data'')))
      in JsonObject ([(''id'', JsonString nodeId), (''type'', JsonString normalizedType),
           (''label'', JsonString (case_option nodeId id (first_string [map_of rawNode ''label'', map_of rawNode ''name'']))),
           (''config'', JsonObject config)] @ opt_field ''retryPolicy'' id (map_of rawNode ''retryPolicy'') @
           (case map_of rawNode ''timeoutMs'' of Some (JsonNumber t) \<Rightarrow> [(''timeoutMs'', JsonNumber t)] | _ \<Rightarrow> [])))"

definition normalize_edge :: "nat \<Rightarrow> json \<Rightarrow> json" where
  "normalize_edge index edge =
     (let rawEdge = case_option [] id (readRecord (Some edge));
          source = case_option [] id (first_string [map_of rawEdge ''sourceNodeId'', map_of rawEdge ''source'', map_of rawEdge ''from'']);
          dest = case_option [] id (first_string [map_of rawEdge ''targetNodeId'', map_of rawEdge ''target'', map_of rawEdge ''to'']);
          condition = first_string [map_of rawEdge ''condition'', map_of rawEdge ''when''];
          edgeId = case_option (''edge-'' @ show_nat (index + 1) @ '':'' @ source @ '':'' @ dest @ '':'' @ case_option ''success'' id condition)
            id (readString (map_of rawEdge ''id''))
      in JsonObject ([(''id'', JsonString edgeId), (''sourceNodeId'', JsonString source), (''targetNodeId'', JsonString dest)] @
           opt_field ''sourcePort'' JsonString (readString (map_of rawEdge ''sourcePort'')) @
           opt_field ''targetPort'' JsonString (readString (map_of rawEdge ''targetPort'')) @
           opt_field ''condition'' JsonString condition @
           (case map_of rawEdge ''priority'' of Some (JsonNumber p) \<Rightarrow> [(''priority'', JsonNumber p)] | _ \<Rightarrow> [])))"

definition or_default :: "raw_object \<Rightarrow> string \<Rightarrow> json \<Rightarrow> string \<times> json" where
  "or_default raw key fallback = (key, the (nullish (map_of raw key) (Some fallback)))"

definition normalized_graph :: "raw_object \<Rightarrow> json list \<Rightarrow> json" where
  "normalized_graph raw nodes =
     JsonObject [or_default raw ''schemaVersion'' (JsonString ''2.0''), or_default raw ''workflowId'' (JsonString []),
       or_default raw ''workflowVersionId'' (JsonString []), or_default raw ''sourceSpecSchemaVersion'' (JsonString ''1.0''),
       (''graph'', JsonObject [(''nodes'', JsonArray (map (\<lambda>(i, n). normalize_node i n) (enumerate 0 nodes))),
         (''edges'', JsonArray (map (\<lambda>(i, e). normalize_edge i e) (enumerate 0 (case_option [] id (read_array (map_of raw ''edges'')))))),
         or_default raw ''variables'' (JsonObject [])]),
       or_default raw ''failurePolicy'' (JsonObject [(''onFailure'', JsonString ''fail_fast'')]),
       (''tests'', JsonArray (case_option [] id (read_array (map_of raw ''tests'')))),
       or_default raw ''checksum'' (JsonString [])]"

text \<open>\<open>FridayGraphValidationError\<close> is its message.\<close>

definition parseGraphJson :: "json \<Rightarrow> string + json" where
  "parseGraphJson graphJson =
     (case readRecord (Some graphJson) of
        None \<Rightarrow> Inl ''Graph JSON must be a non-null object''
      | Some raw \<Rightarrow>
          if nested_nodes raw \<noteq> None then Inr graphJson
          else (case read_array (map_of raw ''nodes'') of
                  Some nodes \<Rightarrow> Inr (normalized_graph raw nodes)
                | None \<Rightarrow> Inl no_nodes_message))"

section \<open>Specification vocabulary\<close>

text \<open>The types a normalised node and edge have.\<close>

fun string_field :: "raw_object \<Rightarrow> string \<Rightarrow> bool" where
  "string_field ps k = (case map_of ps k of Some (JsonString s) \<Rightarrow> True | _ \<Rightarrow> False)"

fun typed_node :: "json \<Rightarrow> bool" where
  "typed_node (JsonObject ps) =
     (list_all (\<lambda>k. nonempty_string (map_of ps k)) [''id'', ''type'', ''label''] \<and> readRecord (map_of ps ''config'') \<noteq> None)"
| "typed_node _ = False"

fun typed_edge :: "json \<Rightarrow> bool" where
  "typed_edge (JsonObject ps) =
     (nonempty_string (map_of ps ''id'') \<and> string_field ps ''sourceNodeId'' \<and> string_field ps ''targetNodeId'' \<and>
      (map_of ps ''condition'' = None \<or> nonempty_string (map_of ps ''condition'')))"
| "typed_edge _ = False"

text \<open>The id a node declares.\<close>

definition declared_id :: "json \<Rightarrow> string option" where
  "declared_id node = readString (Option.bind (readRecord (Some node)) (\<lambda>ps. map_of ps ''id''))"

definition graph_list :: "string \<Rightarrow> json \<Rightarrow> json list option" where
  "graph_list key graphJson =
     Option.bind (readRecord (Some graphJson)) (\<lambda>raw.
       Option.bind (readRecord (map_of raw ''graph'')) (\<lambda>graphObj. read_array (map_of graphObj key)))"

section \<open>Lemmas\<close>

lemma first_string_nonempty: "first_string vs = Some s \<Longrightarrow> s \<noteq> []"
proof -
  have "fold (\<lambda>v found. or_else found (readString v)) vs acc = Some s \<Longrightarrow> acc \<noteq> Some [] \<Longrightarrow> s \<noteq> []" for acc
  proof (induction vs arbitrary: acc)
    case (Cons v vs)
    have "or_else acc (readString v) \<noteq> Some []" using Cons.prems(2) by (cases acc; cases v rule: readString.cases) auto
    with Cons show ?case by simp
  qed auto
  then show "first_string vs = Some s \<Longrightarrow> s \<noteq> []" by (simp add: first_string_def)
qed

lemma readString_nonempty: "readString v = Some s \<Longrightarrow> s \<noteq> []"
  by (cases v rule: readString.cases) (auto split: if_splits)

lemma alias_nonempty: "normalizeWorkflowNodeType v = Some s \<Longrightarrow> s \<noteq> []"
  by (cases v rule: normalizeWorkflowNodeType.cases) (auto simp: NODE_TYPE_ALIASES_def split: if_splits)

lemma default_nonempty:
  "d \<noteq> [] \<Longrightarrow> (\<And>s. v = Some s \<Longrightarrow> s \<noteq> []) \<Longrightarrow> case_option d id v \<noteq> []"
  by (cases v) auto

lemma normalize_node_typed: "typed_node (normalize_node i node)"
proof -
  let ?raw = "case_option [] id (readRecord (Some node))"
  let ?id = "case_option (''node-'' @ show_nat (i + 1)) id (readString (map_of ?raw ''id''))"
  let ?decl = "nullish (map_of ?raw ''type'') (map_of ?raw ''kind'')"
  have nid: "?id \<noteq> []" by (rule default_nonempty) (auto dest: readString_nonempty)
  have "case_option ''action'' id (or_else (normalizeWorkflowNodeType ?decl) (readString ?decl)) \<noteq> []"
    by (rule default_nonempty) (auto simp: or_else_def dest: readString_nonempty alias_nonempty split: option.splits)
  moreover have "case_option ?id id (first_string [map_of ?raw ''label'', map_of ?raw ''name'']) \<noteq> []"
    by (rule default_nonempty [OF nid]) (rule first_string_nonempty)
  ultimately show ?thesis using nid by (simp add: normalize_node_def Let_def)
qed

lemma normalize_edge_typed: "typed_edge (normalize_edge i edge)"
proof -
  let ?raw = "case_option [] id (readRecord (Some edge))"
  have eid: "case_option (''edge-'' @ s) id (readString (map_of ?raw ''id'')) \<noteq> []" for s
    by (rule default_nonempty) (auto dest: readString_nonempty)
  have cond: "c \<noteq> []" if "first_string [map_of ?raw ''condition'', map_of ?raw ''when''] = Some c" for c
    using that by (rule first_string_nonempty)
  show ?thesis
    using eid cond
    by (auto simp: normalize_edge_def Let_def opt_field_def split: option.splits json.splits)
qed

lemma normalized_lists:
  "graph_list ''nodes'' (normalized_graph raw nodes) = Some (map (\<lambda>(i, n). normalize_node i n) (enumerate 0 nodes))"
  "\<exists>edges. graph_list ''edges'' (normalized_graph raw nodes) = Some (map (\<lambda>(i, e). normalize_edge i e) (enumerate 0 edges))"
proof -
  show "graph_list ''nodes'' (normalized_graph raw nodes) = Some (map (\<lambda>(i, n). normalize_node i n) (enumerate 0 nodes))"
    by (simp add: graph_list_def normalized_graph_def or_default_def)
  show "\<exists>edges. graph_list ''edges'' (normalized_graph raw nodes) = Some (map (\<lambda>(i, e). normalize_edge i e) (enumerate 0 edges))"
    by (rule exI [of _ "case_option [] id (read_array (map_of raw ''edges''))"])
      (simp add: graph_list_def normalized_graph_def or_default_def)
qed

lemma normalized_fixed: "parseGraphJson (normalized_graph raw nodes) = Inr (normalized_graph raw nodes)"
  by (simp add: parseGraphJson_def normalized_graph_def nested_nodes_def or_default_def)

lemma normalize_declared: "declared_id node = Some i \<Longrightarrow> declared_id (normalize_node n node) = Some i"
  by (cases "readRecord (Some node)") (auto simp: declared_id_def normalize_node_def Let_def dest: readString_nonempty)

lemma structure_declares: "node_structure n node = [] \<Longrightarrow> \<exists>i. declared_id node = Some i"
proof (cases node)
  case (JsonObject ps)
  assume "node_structure n node = []"
  then have "nonempty_string (map_of ps ''id'')" using JsonObject by (auto simp: node_structure_def split: if_splits)
  then show ?thesis using JsonObject by (cases "map_of ps ''id''" rule: nonempty_string.cases) (auto simp: declared_id_def)
qed (auto simp: node_structure_def)

section \<open>Properties\<close>



text \<open>
  A raw edge that says \<open>when: "success"\<close>, as authored specifications do, gets the condition
  \<open>success\<close>, which is not an expression: the edge never fires.
\<close>

lemma raw_when_never_fires:
  "normalize_edge 0 (JsonObject [(''from'', JsonString ''a''), (''to'', JsonString ''b''), (''when'', JsonString ''success'')]) =
     JsonObject [(''id'', JsonString ''edge-1:a:b:success''), (''sourceNodeId'', JsonString ''a''), (''targetNodeId'', JsonString ''b''),
       (''condition'', JsonString ''success'')] \<and> isl (parse ''success'')"
  by code_simp

end
