(* ===== verification/Node_Executor.thy ===== *)
theory Node_Executor
  imports Node_Runner Expression_Eval
begin

text \<open>
  The executor of workflow nodes, src/src/workflows/engine/friday-workflow-node-executor.ts:
  resolution of expressions in arguments and mappings, and the work of each node type. Skills and
  the provider of user rules are functions on a world of their own that may throw; a thrown error is
  its message. A node's configuration has the types its declaration says (strings where strings are
  expected); what a resolved value holds is not only JSON (\<open>undefined\<close>, not-a-number), so it has a
  type of its own.
\<close>

section \<open>Resolution of arguments\<close>

datatype js_data = D_Value expr_value | D_Array "js_data list" | D_Object "(string \<times> js_data) list"

text \<open>The results of a sequence of calls, or the first failure.\<close>

fun in_sequence :: "('e + 'a) list \<Rightarrow> 'e + 'a list" where
  "in_sequence [] = Inr []"
| "in_sequence (Inl e # rs) = Inl e"
| "in_sequence (Inr x # rs) = map_sum id (\<lambda>xs. x # xs) (in_sequence rs)"

definition UNSAFE_KEYS :: "string list" where
  "UNSAFE_KEYS = [''__proto__'', ''constructor'', ''prototype'']"

definition safe_entries :: "(string \<times> 'v) list \<Rightarrow> (string \<times> 'v) list" where
  "safe_entries ps = filter (\<lambda>(key, v). key \<notin> set UNSAFE_KEYS) (own_order ps)"

definition collect_entries :: "(string \<times> ('e + 'a)) list \<Rightarrow> 'e + (string \<times> 'a) list" where
  "collect_entries ps = in_sequence (map (\<lambda>(key, r). map_sum id (\<lambda>v. (key, v)) r) ps)"

fun resolveValue ::
    "(js_number \<Rightarrow> string) \<Rightarrow> FridayExpressionContext \<Rightarrow> json \<Rightarrow> expr_failure + js_data" where
  "resolveValue num ctx (JsonString s) =
     (if take 1 s = ''$'' then map_sum id D_Value (exec num s ctx) else Inr (D_Value (V_String s)))"
| "resolveValue num ctx (JsonArray xs) = map_sum id D_Array (in_sequence (map (resolveValue num ctx) xs))"
| "resolveValue num ctx (JsonObject ps) =
     map_sum id D_Object (collect_entries (safe_entries (map (\<lambda>(key, v). (key, resolveValue num ctx v)) ps)))"
| "resolveValue num ctx j = Inr (D_Value (value_at [] j))"

definition resolveArgs ::
    "(js_number \<Rightarrow> string) \<Rightarrow> FridayExpressionContext \<Rightarrow> (string \<times> json) list \<Rightarrow> expr_failure + (string \<times> js_data) list" where
  "resolveArgs num ctx args =
     collect_entries (map (\<lambda>(key, v). (key, resolveValue num ctx v)) (safe_entries args))"

section \<open>Prompts\<close>

text \<open>\<open>String(val ?? "")\<close>; \<open>None\<close> is a \<open>TypeError\<close>.\<close>

fun value_text :: "(js_number \<Rightarrow> string) \<Rightarrow> expr_value \<Rightarrow> string option" where
  "value_text num V_Undefined = Some []"
| "value_text num V_Null = Some []"
| "value_text num (V_Boolean b) = Some (if b then ''true'' else ''false'')"
| "value_text num (V_Number n) = Some (num n)"
| "value_text num (V_String s) = Some s"
| "value_text num (V_Object loc j) = element_text num j"

definition identifier_char :: "char \<Rightarrow> bool" where
  "identifier_char c = (is_letter c \<or> is_digit c \<or> c = CHR ''_'')"

text \<open>
  The matches of the pattern: a dollar sign, a letter or underscore, then letters, digits,
  underscores and dots, ending at a word boundary, that is, without its trailing dots.
\<close>

definition reference_at :: "string \<Rightarrow> string option" where
  "reference_at s =
     (case s of
        dollar # c # cs \<Rightarrow>
          if dollar = CHR ''$'' \<and> (is_letter c \<or> c = CHR ''_'')
          then Some (dollar # rev (dropWhile (\<lambda>d. d = CHR ''.'') (rev (c # takeWhile (\<lambda>d. identifier_char d \<or> d = CHR ''.'') cs))))
          else None
      | _ \<Rightarrow> None)"

fun references :: "nat \<Rightarrow> string \<Rightarrow> string list" where
  "references skip [] = []"
| "references (Suc n) (c # cs) = references n cs"
| "references 0 (c # cs) =
     (case reference_at (c # cs) of
        None \<Rightarrow> references 0 cs
      | Some ref \<Rightarrow> ref # references (length ref - 1) cs)"

text \<open>
  \<open>replaceAll(ref, text)\<close>: dollar patterns in the replacement are expanded (the dollar sign itself,
  the match, what is before it and what is after it).
\<close>

fun expand_replacement :: "string \<Rightarrow> string \<Rightarrow> string \<Rightarrow> string \<Rightarrow> string" where
  "expand_replacement matched before behind (c # d # ds) =
     (if c = CHR ''$'' \<and> d = CHR ''$'' then CHR ''$'' # expand_replacement matched before behind ds
      else if c = CHR ''$'' \<and> d = CHR ''&'' then matched @ expand_replacement matched before behind ds
      else if c = CHR ''$'' \<and> d = CHR 0x60 then before @ expand_replacement matched before behind ds
      else if c = CHR ''$'' \<and> d = CHR 0x27 then behind @ expand_replacement matched before behind ds
      else c # expand_replacement matched before behind (d # ds))"
| "expand_replacement matched before behind s = s"

function replace_from :: "string \<Rightarrow> string \<Rightarrow> string \<Rightarrow> string \<Rightarrow> string" where
  "replace_from ref replacement before s =
     (if s = [] then []
      else if ref \<noteq> [] \<and> take (length ref) s = ref
      then expand_replacement ref before (drop (length ref) s) replacement
             @ replace_from ref replacement (before @ ref) (drop (length ref) s)
      else hd s # replace_from ref replacement (before @ [hd s]) (tl s))"
  by pat_completeness auto
termination
  by (relation "measure (\<lambda>(ref, replacement, before, s). length s)") auto

declare replace_from.simps [simp del]

definition replace_all :: "string \<Rightarrow> string \<Rightarrow> string \<Rightarrow> string" where
  "replace_all ref replacement s = replace_from ref replacement [] s"

text \<open>One round of the loop; a reference that cannot be evaluated is left as it is.\<close>

definition interpolate_reference ::
    "(js_number \<Rightarrow> string) \<Rightarrow> FridayExpressionContext \<Rightarrow> string \<Rightarrow> string \<Rightarrow> string" where
  "interpolate_reference num ctx ref prompt =
     (case exec num ref ctx of
        Inl _ \<Rightarrow> prompt
      | Inr v \<Rightarrow> (case value_text num v of None \<Rightarrow> prompt | Some replacement \<Rightarrow> replace_all ref replacement prompt))"

definition interpolate_prompt :: "(js_number \<Rightarrow> string) \<Rightarrow> FridayExpressionContext \<Rightarrow> string \<Rightarrow> string" where
  "interpolate_prompt num ctx prompt = fold (interpolate_reference num ctx) (references 0 prompt) prompt"

section \<open>Executor\<close>

record FridayNodeExecutionInput =
  ni_runId :: UUID
  ni_workflowId :: UUID
  ni_nodeId :: string
  ni_attemptId :: UUID
  ni_node :: FridayWorkflowNode
  ni_inputData :: json_object
  ni_expressionContext :: FridayExpressionContext

record skill_call =
  sk_skillId :: string
  sk_runId :: UUID
  sk_nodeId :: string
  sk_payload :: "(string \<times> js_data) list"
  sk_timeoutMs :: "rat option"

record 'w executor_deps =
  xd_num :: "js_number \<Rightarrow> string"
  xd_resolveSkill :: "string \<Rightarrow> 'w \<Rightarrow> (thrown + bool) \<times> 'w"
  xd_invokeSkill :: "skill_call \<Rightarrow> 'w \<Rightarrow> (thrown + json option) \<times> 'w"
  xd_userRulesContextProvider :: "(string \<Rightarrow> FridayNodeExecutionInput \<Rightarrow> 'w \<Rightarrow> (thrown + string option) \<times> 'w) option"

definition config_string :: "json_object \<Rightarrow> string \<Rightarrow> string option" where
  "config_string config key = (case map_of config key of Some (JsonString s) \<Rightarrow> Some s | _ \<Rightarrow> None)"

definition config_object :: "json_object \<Rightarrow> string \<Rightarrow> json_object option" where
  "config_object config key = (case map_of config key of Some (JsonObject ps) \<Rightarrow> Some ps | _ \<Rightarrow> None)"

definition execution_failed :: "string \<Rightarrow> thrown" where
  "execution_failed what = ''NODE_EXECUTION_FAILED: '' @ what"

definition json_data :: "json option \<Rightarrow> js_data" where
  "json_data r = D_Value (case r of None \<Rightarrow> V_Null | Some j \<Rightarrow> value_at [] j)"

text \<open>\<open>result ?? null\<close>.\<close>

definition value_or_null :: "expr_value \<Rightarrow> js_data" where
  "value_or_null v = D_Value (if v = V_Undefined then V_Null else v)"

definition execute_action ::
    "'w executor_deps \<Rightarrow> FridayNodeExecutionInput \<Rightarrow> 'w \<Rightarrow> (thrown + js_data) \<times> 'w" where
  "execute_action deps input w =
     (let config = wn_config (ni_node input);
          skillId = case_option [] id (or_else (config_string config ''skillId'') (config_string config ''ref'')) in
      if skillId = [] then (Inl (execution_failed ''action node missing skillId or ref''), w)
      else case xd_resolveSkill deps skillId w of
        (Inl e, w1) \<Rightarrow> (Inl e, w1)
      | (Inr found, w1) \<Rightarrow>
          if \<not> found then (Inl (execution_failed (''skill '' @ [CHR 0x27] @ skillId @ [CHR 0x27] @ '' not found'')), w1)
          else case resolveArgs (xd_num deps) (ni_expressionContext input) (case_option [] id (config_object config ''args'')) of
            Inl f \<Rightarrow> (Inl (failure_text f), w1)
          | Inr resolvedArgs \<Rightarrow>
              (let nodeTimeoutMs = (case map_of config ''timeoutMs'' of
                     Some (JsonNumber n) \<Rightarrow> if n > 0 then n else 120000 | _ \<Rightarrow> 120000) in
               apfst (map_sum id json_data)
                 (xd_invokeSkill deps \<lparr>sk_skillId = skillId, sk_runId = ni_runId input, sk_nodeId = ni_nodeId input,
                    sk_payload = resolvedArgs, sk_timeoutMs = Some nodeTimeoutMs\<rparr> w1)))"

definition execute_condition :: "'w executor_deps \<Rightarrow> FridayNodeExecutionInput \<Rightarrow> thrown + js_data" where
  "execute_condition deps input =
     (case config_string (wn_config (ni_node input)) ''condition'' of
        Some (c # cs) \<Rightarrow>
          (case exec (xd_num deps) (c # cs) (ni_expressionContext input) of
             Inl f \<Rightarrow> Inl (failure_text f)
           | Inr v \<Rightarrow> Inr (D_Object [(''result'', D_Value (V_Boolean (truthy v)))]))
      | _ \<Rightarrow> Inl (execution_failed (''condition node missing '' @ [CHR 0x27] @ ''condition'' @ [CHR 0x27] @ '' in config'')))"

definition execute_data :: "'w executor_deps \<Rightarrow> FridayNodeExecutionInput \<Rightarrow> thrown + js_data" where
  "execute_data deps input =
     (let config = wn_config (ni_node input) in
      case config_string config ''transform'' of
        Some (c # cs) \<Rightarrow>
          map_sum failure_text value_or_null (exec (xd_num deps) (c # cs) (ni_expressionContext input))
      | _ \<Rightarrow>
          (case config_object config ''mapping'' of
             Some mapping \<Rightarrow> map_sum failure_text D_Object (resolveArgs (xd_num deps) (ni_expressionContext input) mapping)
           | None \<Rightarrow> Inr (D_Value V_Null)))"

definition final_prompt :: "string option \<Rightarrow> string \<Rightarrow> string" where
  "final_prompt userRulesContext interpolatedPrompt =
     (let trimmedRulesContext = case_option [] js_trim userRulesContext in
      if trimmedRulesContext = [] then interpolatedPrompt
      else js_join [CHR 0x0A]
        [''Friday user/project rules (prompt guidance only; hard enforcement remains in workflow rules, approval, and deterministic policy gates):'',
         trimmedRulesContext, [], ''Workflow AI node prompt:'', interpolatedPrompt])"

definition execute_ai ::
    "'w executor_deps \<Rightarrow> FridayNodeExecutionInput \<Rightarrow> 'w \<Rightarrow> (thrown + js_data) \<times> 'w" where
  "execute_ai deps input w =
     (let config = wn_config (ni_node input) in
      case config_string config ''prompt'' of
        Some (c # cs) \<Rightarrow>
          (let interpolatedPrompt = interpolate_prompt (xd_num deps) (ni_expressionContext input) (c # cs) in
           case (case xd_userRulesContextProvider deps of
                   None \<Rightarrow> (Inr None, w) | Some provide \<Rightarrow> provide interpolatedPrompt input w) of
             (Inl e, w1) \<Rightarrow> (Inl e, w1)
           | (Inr userRulesContext, w1) \<Rightarrow>
               apfst (map_sum id json_data)
                 (xd_invokeSkill deps \<lparr>sk_skillId = ''ai-inference'', sk_runId = ni_runId input, sk_nodeId = ni_nodeId input,
                    sk_payload = (''prompt'', D_Value (V_String (final_prompt userRulesContext interpolatedPrompt))) #
                      (case config_string config ''model'' of None \<Rightarrow> [] | Some model \<Rightarrow> [(''model'', D_Value (V_String model))]),
                    sk_timeoutMs = None\<rparr> w1))
      | _ \<Rightarrow> (Inl (execution_failed (''ai node missing '' @ [CHR 0x27] @ ''prompt'' @ [CHR 0x27] @ '' in config'')), w))"

definition executeNode ::
    "'w executor_deps \<Rightarrow> FridayNodeExecutionInput \<Rightarrow> 'w \<Rightarrow> (thrown + js_data) \<times> 'w" where
  "executeNode deps input w =
     (let type = wn_type (ni_node input) in
      if type = ''trigger''
      then (Inr (D_Value (V_Object [''inputs''] (JsonObject (ex_inputs (ni_expressionContext input))))), w)
      else if type = ''action'' then execute_action deps input w
      else if type = ''condition'' then (execute_condition deps input, w)
      else if type = ''data'' then (execute_data deps input, w)
      else if type = ''ai'' then execute_ai deps input w
      else if type = ''approval''
      then (Inr (D_Object [(''approved'', D_Value (V_Boolean False)), (''pending'', D_Value (V_Boolean True))]), w)
      else (Inl (execution_failed (''unknown node type '' @ [CHR 0x27] @ type @ [CHR 0x27])), w))"

section \<open>Specification vocabulary\<close>

text \<open>No object of resolved data has an unsafe key (values read from the context aside).\<close>

fun safe_keys :: "js_data \<Rightarrow> bool" where
  "safe_keys (D_Value v) = True"
| "safe_keys (D_Array xs) = list_all safe_keys xs"
| "safe_keys (D_Object ps) = list_all (\<lambda>(key, d). key \<notin> set UNSAFE_KEYS \<and> safe_keys d) ps"

definition sample_expression_context :: FridayExpressionContext where
  "sample_expression_context =
     \<lparr>ex_inputs = [(''a'', JsonString ''x''), (''ab'', JsonString ''y'')], ex_steps = [], ex_env = None\<rparr>"

section \<open>Lemmas\<close>

lemma in_sequence_Inr: "in_sequence rs = Inr xs \<longleftrightarrow> rs = map Inr xs"
proof
  show "in_sequence rs = Inr xs \<Longrightarrow> rs = map Inr xs"
  proof (induction rs arbitrary: xs rule: in_sequence.induct)
    case (3 x rs)
    then show ?case by (cases "in_sequence rs") auto
  qed auto
  show "rs = map Inr xs \<Longrightarrow> in_sequence rs = Inr xs"
    by (induction xs arbitrary: rs) auto
qed

lemma collect_entries_Inr: "collect_entries ps = Inr qs \<longleftrightarrow> ps = map (\<lambda>(key, v). (key, Inr v)) qs"
proof
  assume "collect_entries ps = Inr qs"
  then have "map (\<lambda>(key, r). map_sum id (\<lambda>v. (key, v)) r) ps = map Inr qs" by (simp add: collect_entries_def in_sequence_Inr)
  then show "ps = map (\<lambda>(key, v). (key, Inr v)) qs"
  proof (induction ps arbitrary: qs)
    case (Cons p ps)
    then obtain q qs' where q: "qs = q # qs'" by (cases qs) auto
    obtain key r where p: "p = (key, r)" by (cases p)
    with Cons.prems q have "p = (fst q, Inr (snd q))" by (cases r) auto
    with Cons q show ?case by (cases q) auto
  qed simp
qed (auto simp: collect_entries_def in_sequence_Inr split_def)

lemma set_safe_entries: "set (safe_entries ps) = {(key, v) \<in> set ps. key \<notin> set UNSAFE_KEYS}"
  by (auto simp: safe_entries_def own_order_def)

lemma resolveValue_safe: "resolveValue num ctx j = Inr d \<Longrightarrow> safe_keys d"
proof (induction num ctx j arbitrary: d rule: resolveValue.induct)
  case (1 num ctx s)
  then show ?case by (cases "exec num s ctx") (auto split: if_splits)
next
  case (2 num ctx xs)
  then obtain ds where "d = D_Array ds" "map (resolveValue num ctx) xs = map Inr ds"
    by (cases "in_sequence (map (resolveValue num ctx) xs)") (auto simp: in_sequence_Inr)
  then have "\<exists>x\<in>set xs. resolveValue num ctx x = Inr e" if "e \<in> set ds" for e
    using that by (metis (no_types) image_eqI image_iff list.set_map)
  with \<open>d = D_Array ds\<close> show ?case using "2.IH" by (auto simp: list_all_iff)
next
  case (3 num ctx ps)
  let ?rs = "map (\<lambda>(key, v). (key, resolveValue num ctx v)) ps"
  obtain qs where qs: "d = D_Object qs" "safe_entries ?rs = map (\<lambda>(key, v). (key, Inr v)) qs"
    using "3.prems" by (cases "collect_entries (safe_entries ?rs)") (auto simp: collect_entries_Inr)
  have "key \<notin> set UNSAFE_KEYS \<and> safe_keys e" if "(key, e) \<in> set qs" for key e
  proof -
    have "(key, Inr e) \<in> set (safe_entries ?rs)" using that unfolding qs(2) by force
    then have "key \<notin> set UNSAFE_KEYS" "(key, Inr e) \<in> set ?rs" by (auto simp: set_safe_entries)
    then obtain v where "(key, v) \<in> set ps" "resolveValue num ctx v = Inr e" by (force simp: image_iff)
    with "3.IH" \<open>key \<notin> set UNSAFE_KEYS\<close> show ?thesis by fastforce
  qed
  then show ?case using qs(1) by (auto simp: list_all_iff)
qed auto

lemma list_all2_set2_member: "list_all2 P xs ys \<Longrightarrow> y \<in> set ys \<Longrightarrow> \<exists>x\<in>set xs. P x y"
  by (induction rule: list_all2_induct) auto

section \<open>Properties\<close>



text \<open>
  A reference that is a prefix of another one captures it: \<open>replaceAll\<close> is applied to the text of the
  shorter reference wherever it occurs, and the longer one is never evaluated.
\<close>

lemma prompt_prefix_capture:
  "interpolate_prompt (\<lambda>_. ''0'') sample_expression_context ''$inputs.a and $inputs.ab'' = ''x and xb''"
  by code_simp

text \<open>Dollar patterns in a value are expanded by \<open>replaceAll\<close>, so a value is not always inserted as it is.\<close>

lemma prompt_dollar_expansion:
  "interpolate_prompt (\<lambda>_. ''0'') (sample_expression_context\<lparr>ex_inputs := [(''price'', JsonString ''$$5'')]\<rparr>)
     ''cost: $inputs.price'' = ''cost: $5''"
  by code_simp

end
