(* ===== verification/Node_Facade.thy ===== *)
theory Node_Facade
  imports Workflow_Rules Node_Executor Js_Number
begin

text \<open>
  How the workflow runtime executes a node: the mode of the pipeline from the environment variables
  (src/src/workflows/engine/friday-workflow-pipeline-mode.ts), the adapters that delegate to the node
  executor (friday-workflow-node-runner-adapters.ts) and the facade in front of the pipeline
  (friday-workflow-node-runner-facade.ts), wired as friday-workflow-runtime.ts does. The executor is
  any function on the world that may throw.
\<close>

section \<open>Pipeline mode\<close>

text \<open>Environment variables by name; a warning is a message of the returned list.\<close>

type_synonym process_env = "string \<Rightarrow> string option"

definition FRIDAY_PIPELINE_MODE_VALUES :: "string list" where
  "FRIDAY_PIPELINE_MODE_VALUES = [''shadow'', ''warn'', ''enforce'']"

text \<open>\<open>!raw\<close>.\<close>

definition unset :: "string option \<Rightarrow> bool" where
  "unset raw = (raw = None \<or> raw = Some [])"

definition parsePipelineEnabled :: "string option \<Rightarrow> bool" where
  "parsePipelineEnabled raw =
     (if unset raw then True
      else js_lower (js_trim (the raw)) \<notin> {''false'', ''0'', ''off'', ''no''})"

definition parsePipelineMode :: "string option \<Rightarrow> string \<times> string list" where
  "parsePipelineMode raw =
     (if unset raw then (''enforce'', [])
      else let normalized = js_lower (js_trim (the raw)) in
           if normalized \<in> set FRIDAY_PIPELINE_MODE_VALUES then (normalized, [])
           else (''enforce'', [''[friday] Invalid FRIDAY_PIPELINE_MODE='' @ dquoted (the raw) @
                   ''; falling back to '' @ dquoted ''enforce'']))"

definition resolveFridayPipelineRuntimeConfig :: "process_env \<Rightarrow> pipeline_mode" where
  "resolveFridayPipelineRuntimeConfig vars =
     \<lparr>pm_enabled = parsePipelineEnabled (vars ''FRIDAY_PIPELINE_ENABLE''),
      pm_mode = fst (parsePipelineMode (vars ''FRIDAY_PIPELINE_MODE''))\<rparr>"

record FridayPipelineRetryConfig =
  prc_maxAttempts :: rat
  prc_baseDelayMs :: rat
  prc_retryBudgetMax :: rat
  prc_circuitBreakerThreshold :: rat

definition DEFAULT_PIPELINE_RETRY_CONFIG :: FridayPipelineRetryConfig where
  "DEFAULT_PIPELINE_RETRY_CONFIG =
     \<lparr>prc_maxAttempts = 3, prc_baseDelayMs = 1000, prc_retryBudgetMax = 10, prc_circuitBreakerThreshold = 5\<rparr>"

text \<open>\<open>Number.parseInt(raw, 10)\<close>: white space, a sign, the leading digits.\<close>

definition parse_int :: "string \<Rightarrow> js_number" where
  "parse_int raw =
     (let s = strip_words (length raw) WHITE_SPACE raw;
          signed = (s \<noteq> [] \<and> hd s \<in> {CHR ''+'', CHR ''-''});
          digits = takeWhile is_digit (if signed then tl s else s);
          n = round_double (of_nat (base_value 10 digits))
      in if digits = [] then NaN else if signed \<and> hd s = CHR ''-'' then num_neg n else n)"

definition parsePositiveInteger :: "string option \<Rightarrow> rat \<Rightarrow> rat" where
  "parsePositiveInteger raw fallback =
     (if unset raw then fallback
      else case parse_int (the raw) of Finite n \<Rightarrow> if n > 0 then n else fallback | _ \<Rightarrow> fallback)"

definition resolveFridayPipelineRetryConfig ::
    "process_env \<Rightarrow> FridayPipelineRetryConfig \<Rightarrow> FridayPipelineRetryConfig" where
  "resolveFridayPipelineRetryConfig vars fallback =
     \<lparr>prc_maxAttempts = parsePositiveInteger (vars ''FRIDAY_PIPELINE_RETRY_MAX_ATTEMPTS'') (prc_maxAttempts fallback),
      prc_baseDelayMs = parsePositiveInteger (vars ''FRIDAY_PIPELINE_RETRY_BASE_DELAY_MS'') (prc_baseDelayMs fallback),
      prc_retryBudgetMax = parsePositiveInteger (vars ''FRIDAY_PIPELINE_RETRY_BUDGET_MAX'') (prc_retryBudgetMax fallback),
      prc_circuitBreakerThreshold =
        parsePositiveInteger (vars ''FRIDAY_PIPELINE_RETRY_CIRCUIT_THRESHOLD'') (prc_circuitBreakerThreshold fallback)\<rparr>"

section \<open>Delegating adapters\<close>

type_synonym 'w legacy_executor =
  "FridayNodeExecutionInput \<Rightarrow> 'w \<Rightarrow> (thrown + json \<times> FridayNodeArtifact list option) \<times> 'w"

definition alwaysValid :: FridayValidationResult where
  "alwaysValid = \<lparr>vl_valid = True, vl_errors = []\<rparr>"

text \<open>The expression context travels in the metadata of the execution context as plain data.\<close>

definition context_json :: "FridayExpressionContext \<Rightarrow> json" where
  "context_json ec =
     JsonObject ([(''inputs'', JsonObject (ex_inputs ec)), (''steps'', JsonObject (ex_steps ec))] @
       opt_field ''env'' JsonObject (ex_env ec))"

definition as_expression_context :: "json_object \<Rightarrow> FridayExpressionContext" where
  "as_expression_context ps =
     \<lparr>ex_inputs = case_option [] id (config_object ps ''inputs''), ex_steps = case_option [] id (config_object ps ''steps''),
      ex_env = config_object ps ''env''\<rparr>"

definition readExpressionContext :: "FridayNodeExecutionContext \<Rightarrow> thrown + FridayExpressionContext" where
  "readExpressionContext ctx =
     (case map_of (nc_metadata ctx) ''workflowExpressionContext'' of
        Some (JsonObject ps) \<Rightarrow> Inr (as_expression_context ps)
      | Some (JsonArray xs) \<Rightarrow> Inr (as_expression_context [])
      | _ \<Rightarrow> Inl (execution_failed ''missing workflow expression context for NodeRunner delegation''))"

definition delegate_execute ::
    "'w legacy_executor \<Rightarrow> FridayNodeExecutionContext \<Rightarrow> json_object option \<Rightarrow> json_object \<Rightarrow> ('w, json) adapter_call" where
  "delegate_execute legacy ctx config input w =
     (case readExpressionContext ctx of
        Inl e \<Rightarrow> (Inl e, ctx, w)
      | Inr ec \<Rightarrow>
          (case legacy \<lparr>ni_runId = nc_runId ctx, ni_workflowId = nc_workflowId ctx, ni_nodeId = nc_nodeId ctx,
               ni_attemptId = nc_executionId ctx, ni_node = nc_node ctx, ni_inputData = input, ni_expressionContext = ec\<rparr> w of
             (Inl e, w') \<Rightarrow> (Inl e, ctx, w')
           | (Inr (output, artifacts), w') \<Rightarrow> (Inr output, ctx\<lparr>nc_artifacts := artifacts\<rparr>, w')))"

definition delegating_adapter :: "'w legacy_executor \<Rightarrow> string \<Rightarrow> 'w FridayNodeAdapter" where
  "delegating_adapter legacy nodeType =
     \<lparr>ad_nodeType = nodeType,
      ad_load = \<lambda>ctx w. (Inr (wn_config (nc_node ctx)), ctx, w),
      ad_validateInput = \<lambda>ctx config w. (Inr alwaysValid, ctx, w),
      ad_execute = delegate_execute legacy,
      ad_validateOutput = \<lambda>ctx output w. (Inr alwaysValid, ctx, w)\<rparr>"

definition createWorkflowNodeRunnerDelegatingAdapters :: "'w legacy_executor \<Rightarrow> 'w FridayNodeAdapter list" where
  "createWorkflowNodeRunnerDelegatingAdapters legacy =
     map (delegating_adapter legacy) [''trigger'', ''action'', ''condition'', ''ai'', ''data'', ''approval'']"

definition delegating_registry :: "'w legacy_executor \<Rightarrow> 'w adapter_registry" where
  "delegating_registry legacy =
     fold (\<lambda>adapter registry. snd (register adapter registry)) (createWorkflowNodeRunnerDelegatingAdapters legacy) map_empty"

section \<open>Facade\<close>

definition NODE_RUNNER_SUPPORTED_TYPES :: "string list" where
  "NODE_RUNNER_SUPPORTED_TYPES = [''trigger'', ''action'', ''condition'', ''data'', ''ai'', ''approval'']"

text \<open>What the facade throws: an error of the executor, or a domain error with its retryable flag.\<close>

datatype facade_failure = Executor_Threw thrown | Facade_Error friday_error bool

definition facade_context :: "ISODateTime \<Rightarrow> FridayNodeExecutionInput \<Rightarrow> FridayNodeExecutionContext" where
  "facade_context now input =
     \<lparr>nc_executionId = ni_attemptId input, nc_runId = ni_runId input, nc_workflowId = ni_workflowId input,
      nc_nodeId = ni_nodeId input, nc_attemptNumber = 1, nc_node = ni_node input, nc_inputData = ni_inputData input,
      nc_resolvedConfig = None, nc_resolvedDeps = None, nc_validatedInput = None, nc_preRulesResult = None,
      nc_output = None, nc_artifacts = None, nc_validatedOutput = None, nc_postRulesResult = None,
      nc_timeoutMs = Some 30000, nc_startedAt = now,
      nc_metadata = [(''workflowNodeType'', JsonString (wn_type (ni_node input))),
        (''workflowAttemptId'', JsonString (ni_attemptId input)),
        (''workflowExpressionContext'', context_json (ni_expressionContext input))]\<rparr>"

definition facade_answer ::
    "FridayNodeExecutionResult \<Rightarrow> facade_failure + json \<times> FridayNodeArtifact list option" where
  "facade_answer result =
     (if xr_status result = X_Completed
      then Inr (case_option JsonNull id (xr_output result), xr_artifacts result)
      else let errorCode = case_option ''NODE_EXECUTION_FAILED'' id (xr_errorCode result);
               errorMsg = case_option (''NodeRunner pipeline failed with status '' @ [CHR 0x27] @
                 exec_status_name (xr_status result) @ [CHR 0x27]) id (xr_errorMessage result)
           in Inl (Facade_Error (FridayDomainError errorCode (errorCode @ '': '' @ errorMsg) 500)
                (str_includes errorCode ''TIMEOUT'' \<or> str_includes errorCode ''TOOL'' \<or> str_includes errorCode ''NETWORK'')))"

definition facade_executeNode ::
    "bool \<Rightarrow> 'w pipeline_config \<Rightarrow> 'w legacy_executor \<Rightarrow> pipeline_env \<Rightarrow> ISODateTime \<Rightarrow> FridayNodeExecutionInput \<Rightarrow> 'w
     \<Rightarrow> (facade_failure + json \<times> FridayNodeArtifact list option) \<times> 'w" where
  "facade_executeNode useNodeRunner pipeline legacy penv now input w =
     (if \<not> useNodeRunner then apfst (map_sum Executor_Threw id) (legacy input w)
      else if wn_type (ni_node input) \<notin> set NODE_RUNNER_SUPPORTED_TYPES
      then (Inl (Facade_Error (FridayDomainError ''NODE_RUNNER_UNSUPPORTED_NODE_TYPE''
              (''NODE_RUNNER_UNSUPPORTED_NODE_TYPE: unsupported workflow node type '' @ [CHR 0x27] @ wn_type (ni_node input) @
               [CHR 0x27]) 500) False), w)
      else case pipeline_execute pipeline penv (facade_context now input) w of
        (Inl err, st) \<Rightarrow> (Inl (Facade_Error err False), pr_world st)
      | (Inr result, st) \<Rightarrow> (facade_answer result, pr_world st))"

text \<open>The runtime's wiring: adapters, pipeline and facade over one executor.\<close>

definition runtime_executeNode ::
    "engine_config \<Rightarrow> process_env \<Rightarrow> runtime_env \<Rightarrow> (rule_engine \<times> 'x) legacy_executor \<Rightarrow> pipeline_env \<Rightarrow> ISODateTime
     \<Rightarrow> FridayNodeExecutionInput \<Rightarrow> rule_engine \<times> 'x
     \<Rightarrow> (facade_failure + json \<times> FridayNodeArtifact list option) \<times> (rule_engine \<times> 'x)" where
  "runtime_executeNode cfg vars env legacy penv now input w =
     (let pipelineConfig = resolveFridayPipelineRuntimeConfig vars in
      facade_executeNode (pm_enabled pipelineConfig)
        (runtime_pipeline cfg pipelineConfig env (delegating_registry legacy)) legacy penv now input w)"

section \<open>Specification vocabulary\<close>

text \<open>The environment asks for enforcement to be relaxed, or for the pipeline to be bypassed.\<close>

definition asks_for :: "string list \<Rightarrow> string option \<Rightarrow> bool" where
  "asks_for ws raw = (case raw of None \<Rightarrow> False | Some s \<Rightarrow> js_lower (js_trim s) \<in> set ws)"

definition enforcement_lifted :: "process_env \<Rightarrow> bool" where
  "enforcement_lifted vars \<longleftrightarrow>
     asks_for [''shadow'', ''warn''] (vars ''FRIDAY_PIPELINE_MODE'') \<or>
     asks_for [''false'', ''0'', ''off'', ''no''] (vars ''FRIDAY_PIPELINE_ENABLE'')"

definition sample_input :: FridayNodeExecutionInput where
  "sample_input =
     \<lparr>ni_runId = ''r'', ni_workflowId = ''w'', ni_nodeId = ''n'', ni_attemptId = ''x'', ni_node = nc_node sample_node_context,
      ni_inputData = [], ni_expressionContext = \<lparr>ex_inputs = [], ex_steps = [], ex_env = None\<rparr>\<rparr>"

section \<open>Lemmas\<close>

lemma enforced_config:
  "\<not> enforcement_lifted vars \<Longrightarrow> resolveFridayPipelineRuntimeConfig vars = \<lparr>pm_enabled = True, pm_mode = ''enforce''\<rparr>"
  by (auto simp: enforcement_lifted_def asks_for_def resolveFridayPipelineRuntimeConfig_def parsePipelineEnabled_def
      parsePipelineMode_def unset_def FRIDAY_PIPELINE_MODE_VALUES_def Let_def split: option.splits)

lemma registry_entries:
  "delegating_registry legacy =
     map (\<lambda>t. (t, delegating_adapter legacy t)) [''trigger'', ''action'', ''condition'', ''ai'', ''data'', ''approval'']"
  by (simp add: delegating_registry_def createWorkflowNodeRunnerDelegatingAdapters_def register_def delegating_adapter_def
      map_set_def map_empty_def)

lemma registry_replace:
  "replace_execute (delegate_execute legacy') (runtime_pipeline cfg pm env (delegating_registry legacy)) =
     runtime_pipeline cfg pm env (delegating_registry legacy')"
  by (simp add: replace_execute_def runtime_pipeline_def registry_entries delegating_adapter_def)

lemma delegating_adapters_keep:
  "adapters_keep (node_and_bundles ctx m) (runtime_pipeline cfg pm env (delegating_registry legacy))"
  by (auto simp: adapters_keep_def runtime_pipeline_def registry_entries delegating_adapter_def node_and_bundles_def
      same_node_def effective_input_def split: option.splits)

lemma facade_same_node: "same_node (facade_context now input) (facade_context now input)"
  by (simp add: same_node_def facade_context_def effective_input_def)

lemma facade_answer_error: "xr_status res \<noteq> X_Completed \<Longrightarrow> \<exists>f. facade_answer res = Inl f"
  by (simp add: facade_answer_def Let_def)

section \<open>Properties\<close>

text \<open>
  C2. Policy holds from the environment to the executor: unless the environment variables ask for a
  relaxed mode or switch the pipeline off, a node for which the loaded policy bundles hold an
  applicable deny rule never reaches the node executor: the answer and the state afterwards are the
  same for every executor, and the answer is an error.
\<close>

theorem denied_node_never_reaches_executor:
  assumes "\<not> enforcement_lifted vars"
    and "m = fold (bundle_exec (ec_manager cfg)) ops new_manager" and "re_manager (fst w) = m"
    and "bundles_deny cfg m (facade_context now input)"
  shows "runtime_executeNode cfg vars env legacy penv now input w = runtime_executeNode cfg vars env legacy' penv now input w \<and>
    (\<exists>f. fst (runtime_executeNode cfg vars env legacy penv now input w) = Inl f)"
proof -
  let ?pm = "\<lparr>pm_enabled = True, pm_mode = ''enforce''\<rparr>"
  let ?ctx = "facade_context now input"
  let ?P = "\<lambda>legacy. runtime_pipeline cfg ?pm env (delegating_registry legacy)"
  have J: "node_and_bundles ?ctx m ?ctx w" using assms(3) facade_same_node by (simp add: node_and_bundles_def)
  have refuses: "refuses_pre_rules (node_and_bundles ?ctx m) (?P legacy)"
    by (rule runtime_refuses [OF assms(2,4) facade_same_node])
  note refused = delegating_adapters_keep refuses J
  obtain k res where k: "k \<le> 2" and res: "fst (pipeline_execute (?P legacy) penv ?ctx w) = Inr res" "run_report k res"
    using refused_run_report [OF refused] by blast
  then have "xr_status res \<noteq> X_Completed" by (auto simp: run_report_def)
  then obtain f where f: "facade_answer res = Inl f" using facade_answer_error by blast
  obtain st where st: "pipeline_execute (?P legacy) penv ?ctx w = (Inr res, st)"
    using res(1) by (cases "pipeline_execute (?P legacy) penv ?ctx w") simp
  have other: "pipeline_execute (?P legacy') penv ?ctx w = (Inr res, replace_run (delegate_execute legacy') st)"
    using refused_run_replace [OF refused, of "delegate_execute legacy'" penv] st by (simp add: registry_replace)
  show ?thesis
    unfolding runtime_executeNode_def Let_def enforced_config [OF assms(1)] facade_executeNode_def
    using st other f by (simp add: replace_run_def)
qed

lemma sample_input_denied: "bundles_deny sample_engine_config (re_manager sample_engine) (facade_context now sample_input)"
proof -
  have "buildPreRulesContext (facade_context now sample_input) aid =
      Inr (workflow_context (facade_context now sample_input) R_tool []
        [(''nodeType'', JsonString ''action''), (''adapterId'', JsonString aid)])" for aid
    by (simp add: buildPreRulesContext_def sample_input_def facade_context_def sample_node_context_def
        mapNodeTypeToResource_def NODE_TYPE_RESOURCE_MAP_def map_get_def effective_input_def)
  then show ?thesis
    by (auto simp: bundles_deny_def applicable_rules_def sample_active list_ex_iff sample_rule_def with_scope_def
        workflow_context_def no_conditions_def evaluateConditionGroup_def nonempty_def)
qed

theorem denied_node_never_reaches_executor_witness:
  "\<exists>f. fst (runtime_executeNode sample_engine_config (\<lambda>_. None) sample_runtime_env
      (\<lambda>input (e, n). (Inr (JsonNull, None), e, Suc n)) idle_env ''t'' sample_input (sample_engine, 0)) = Inl f"
proof -
  have m: "re_manager sample_engine = fold (bundle_exec (ec_manager sample_engine_config)) sample_ops new_manager"
    by (simp add: sample_engine_def)
  have "\<not> enforcement_lifted (\<lambda>_. None)" by (simp add: enforcement_lifted_def asks_for_def)
  from denied_node_never_reaches_executor [OF this m _ sample_input_denied, of "(sample_engine, 0)"]
  show ?thesis by fastforce
qed

text \<open>The expression context arrives at the executor as the facade was given it.\<close>

lemma expression_context_roundtrip:
  "readExpressionContext (facade_context now input) = Inr (ni_expressionContext input)"
  by (cases "ni_expressionContext input")
    (auto simp: readExpressionContext_def facade_context_def context_json_def as_expression_context_def config_object_def
      opt_field_def split: option.splits)

end
