(* ===== verification/Rule_Dsl.thy ===== *)
theory Rule_Dsl
  imports Policy_Bundles Expression_Eval
begin

text \<open>
  The document parser of policy bundles, src/src/rules/engine/dsl-parser.ts: validation of a parsed
  JSON or YAML document into a typed bundle, with the checks on regular expressions and field paths.
  Documents are JSON values; the readers of YAML and JSON text are library code. The engine behind
  \<open>RegExp\<close>, the message of its syntax errors and the decimal text of numbers are parameters.
\<close>

section \<open>Failures\<close>

text \<open>
  \<open>RuleDslParseError\<close> with its path and message; the other case is the \<open>TypeError\<close> of converting
  an object whose own \<open>toString\<close> cannot be called, which the messages may run into.
\<close>

datatype dsl_failure = RuleDslParseError string string | Conversion_TypeError

record dsl_env =
  de_regex :: regex_engine
  de_syntaxMessage :: "string \<Rightarrow> string"
  de_number :: "js_number \<Rightarrow> string"

type_synonym raw_doc = "(string \<times> json) list"

text \<open>\<open>String(v)\<close> of a property.\<close>

fun js_string :: "(js_number \<Rightarrow> string) \<Rightarrow> json option \<Rightarrow> string option" where
  "js_string num None = Some ''undefined''"
| "js_string num (Some JsonNull) = Some ''null''"
| "js_string num (Some j) = element_text num j"

definition wrong_value :: "dsl_env \<Rightarrow> string \<Rightarrow> json option \<Rightarrow> string \<Rightarrow> dsl_failure + 'a" where
  "wrong_value env message v path =
     (case js_string (de_number env) v of
        None \<Rightarrow> Inl Conversion_TypeError
      | Some s \<Rightarrow> Inl (RuleDslParseError path (message @ [CHR 0x22] @ s @ [CHR 0x22])))"

definition sbind :: "'e + 'a \<Rightarrow> ('a \<Rightarrow> 'e + 'b) \<Rightarrow> 'e + 'b" where
  "sbind r f = (case r of Inl e \<Rightarrow> Inl e | Inr x \<Rightarrow> f x)"

section \<open>Constants\<close>

definition VALID_API_VERSION :: string where
  "VALID_API_VERSION = ''friday/rules/v1''"

definition VALID_KIND :: string where
  "VALID_KIND = ''PolicyBundle''"

definition MAX_REGEX_LENGTH :: nat where
  "MAX_REGEX_LENGTH = 256"

definition VALID_RESOURCES :: "FridayRuleResource list" where
  "VALID_RESOURCES = [R_filesystem, R_network, R_channel, R_tool, R_memory, R_device, R_shell, R_skill, R_workflow, R_agent,
     R_artifact, R_retry, R_playbook, R_desktop]"

definition VALID_ACTIONS :: "FridayRuleAction list" where
  "VALID_ACTIONS = [A_read, A_write, A_connect, A_send, A_receive, A_execute, A_capture, A_create, A_delete, A_update, A_accept,
     A_promote, A_select, A_click, A_type, A_keypress, A_scroll, A_drag, A_screenshot, A_read_element, A_launch_app, A_close_app,
     A_clipboard, A_file_operation]"

definition VALID_DECISIONS :: "FridayRuleDecision list" where
  "VALID_DECISIONS = [Allow, Deny, Warn, Audit]"

definition VALID_OPERATORS :: "FridayRuleConditionOperator list" where
  "VALID_OPERATORS = [Op_equals, Op_not_equals, Op_contains, Op_matches, Op_in, Op_not_in, Op_gt, Op_gte, Op_lt, Op_lte,
     Op_exists, Op_not_exists]"

definition PRESENCE_OPERATORS :: "FridayRuleConditionOperator list" where
  "PRESENCE_OPERATORS = [Op_exists, Op_not_exists]"

definition VALID_CONDITION_GROUP_KEYS :: "string list" where
  "VALID_CONDITION_GROUP_KEYS = [''all'', ''any'', ''none'']"

text \<open>Membership in one of the sets of names, with the element that has the name.\<close>

definition named :: "('a \<Rightarrow> string) \<Rightarrow> 'a list \<Rightarrow> json option \<Rightarrow> 'a option" where
  "named name_of xs v = (case v of Some (JsonString s) \<Rightarrow> List.find (\<lambda>x. name_of x = s) xs | _ \<Rightarrow> None)"

section \<open>Regular expressions\<close>

fun backreference_from :: "bool \<Rightarrow> string \<Rightarrow> bool" where
  "backreference_from inCharClass [] = False"
| "backreference_from inCharClass (ch # cs) =
     (if ch = CHR 0x5C
      then (case cs of
              [] \<Rightarrow> False
            | d # ds \<Rightarrow>
                \<not> inCharClass \<and> (is_digit d \<and> d \<noteq> CHR ''0'' \<or>
                  d = CHR ''k'' \<and> ds \<noteq> [] \<and> hd ds = CHR ''<'') \<or>
                backreference_from inCharClass ds)
      else if ch = CHR ''['' \<and> \<not> inCharClass then backreference_from True cs
      else if ch = CHR '']'' \<and> inCharClass then backreference_from False cs
      else backreference_from inCharClass cs)"

definition containsBackreference :: "string \<Rightarrow> bool" where
  "containsBackreference pattern = backreference_from False pattern"

text \<open>The quantifier at the start of the rest of a pattern: \<open>*\<close>, \<open>+\<close>, \<open>?\<close> or a bounded repetition.\<close>

definition readQuantifierLength :: "string \<Rightarrow> nat" where
  "readQuantifierLength s =
     (case s of
        [] \<Rightarrow> 0
      | ch # cs \<Rightarrow>
          if ch \<in> set ''*+?'' then 1
          else if ch \<noteq> CHR ''{'' then 0
          else let digits = takeWhile is_digit cs; r = dropWhile is_digit cs;
                   range = (if r \<noteq> [] \<and> hd r = CHR '','' then CHR '','' # takeWhile is_digit (tl r) else []);
                   after = drop (length range) r
               in if digits \<noteq> [] \<and> after \<noteq> [] \<and> hd after = CHR ''}'' then 2 + length digits + length range else 0)"

datatype last_token = Last_None | Last_Atom | Last_Group

text \<open>
  The scan for nested quantifiers; the stack holds \<open>hasQuantifier\<close> of the open groups, innermost
  first.
\<close>

function nested_from :: "bool list \<Rightarrow> bool \<Rightarrow> last_token \<Rightarrow> bool \<Rightarrow> string \<Rightarrow> bool" where
  "nested_from stack inCharClass lastToken lastClosed [] = False"
| "nested_from stack inCharClass lastToken lastClosed (ch # cs) =
     (if inCharClass
      then if ch = CHR 0x5C then nested_from stack True lastToken lastClosed (tl cs)
           else if ch = CHR '']'' then nested_from stack False Last_Atom lastClosed cs
           else nested_from stack True lastToken lastClosed cs
      else if ch = CHR 0x5C then nested_from stack False Last_Atom lastClosed (tl cs)
      else if ch = CHR ''['' then nested_from stack True lastToken lastClosed cs
      else if ch = CHR ''('' then nested_from (False # stack) False Last_None lastClosed cs
      else if ch = CHR '')''
      then (case stack of
              [] \<Rightarrow> nested_from [] False lastToken lastClosed cs
            | hasQuantifier # outer \<Rightarrow>
                nested_from (case outer of [] \<Rightarrow> [] | q # qs \<Rightarrow> (q \<or> hasQuantifier) # qs) False Last_Group hasQuantifier cs)
      else if readQuantifierLength (ch # cs) > 0
      then if lastToken = Last_Group \<and> lastClosed then True
           else nested_from (case stack of [] \<Rightarrow> [] | q # qs \<Rightarrow> True # qs) False Last_None lastClosed
                  (drop (readQuantifierLength (ch # cs)) (ch # cs))
      else if ch = CHR ''|'' \<or> ch = CHR ''^'' \<or> ch = CHR ''$'' then nested_from stack False Last_None lastClosed cs
      else nested_from stack False Last_Atom lastClosed cs)"
  by pat_completeness auto
termination
  by (relation "measure (\<lambda>(stack, inCharClass, lastToken, lastClosed, s). length s)") auto

definition hasNestedQuantifiers :: "string \<Rightarrow> bool" where
  "hasNestedQuantifiers pattern = nested_from [] False Last_None False pattern"

definition validateRegexPattern :: "dsl_env \<Rightarrow> string \<Rightarrow> string option" where
  "validateRegexPattern env pattern =
     (if utf16_length pattern > MAX_REGEX_LENGTH
      then Some (''Regex pattern exceeds maximum length of '' @ show_nat MAX_REGEX_LENGTH @ '' characters'')
      else if containsBackreference pattern then Some ''Regex backreferences are not allowed''
      else if hasNestedQuantifiers pattern then Some ''Regex nested quantifiers are not allowed''
      else case compile_pattern (de_regex env) pattern [] of
             Inr _ \<Rightarrow> None
           | Inl (Rejected e) \<Rightarrow> Some (''Invalid regex: '' @ err_message e)
           | Inl SyntaxError \<Rightarrow> Some (''Invalid regex: '' @ de_syntaxMessage env pattern))"

section \<open>Field paths\<close>

definition regex_word_char :: "char \<Rightarrow> bool" where
  "regex_word_char c = (is_letter c \<or> is_digit c \<or> c = CHR ''_'')"

text \<open>A call of the named function, as the case-insensitive patterns with a word boundary find it.\<close>

definition call_at :: "char option \<Rightarrow> string \<Rightarrow> string \<Rightarrow> bool" where
  "call_at before name s =
     ((case before of None \<Rightarrow> True | Some c \<Rightarrow> \<not> regex_word_char c) \<and> js_lower (take (length name) s) = name \<and>
      (case strip_words (length s) WHITE_SPACE (drop (length name) s) of [] \<Rightarrow> False | c # _ \<Rightarrow> c = CHR ''(''))"

fun call_found :: "char option \<Rightarrow> string \<Rightarrow> string \<Rightarrow> bool" where
  "call_found before name [] = False"
| "call_found before name (c # cs) = (call_at before name (c # cs) \<or> call_found (Some c) name cs)"

definition forbidden_pattern :: "string \<Rightarrow> bool" where
  "forbidden_pattern field =
     (str_includes field ''${'' \<or> str_includes field ''{{'' \<or> str_includes field ''}}'' \<or> CHR 0x60 \<in> set field \<or>
      call_found None ''eval'' field \<or> call_found None ''function'' field)"

definition segment_char :: "char \<Rightarrow> bool" where
  "segment_char c = (is_letter c \<or> is_digit c \<or> c = CHR ''_'' \<or> c = CHR ''-'')"

fun segment_objection :: "string list \<Rightarrow> string option" where
  "segment_objection [] = None"
| "segment_objection (segment # segments) =
     (if segment = [] then Some ''field path contains empty segment''
      else if segment \<in> set FORBIDDEN_FIELD_SEGMENTS
      then Some (''field path contains forbidden segment '' @ [CHR 0x22] @ segment @ [CHR 0x22])
      else if \<not> list_all segment_char segment then Some ''field path segment contains unsupported characters''
      else segment_objection segments)"

definition validateFieldPath :: "string \<Rightarrow> string option" where
  "validateFieldPath field =
     (if (field \<noteq> [] \<and> (hd field = CHR ''.'' \<or> last field = CHR ''.'')) \<or> str_includes field ''..''
      then Some ''field path must not start/end with dot or include empty segments''
      else if forbidden_pattern field then Some ''field path contains forbidden injection pattern''
      else segment_objection (js_split (CHR ''.'') field))"

section \<open>Conditions\<close>

definition nonempty_text :: "json option \<Rightarrow> string option" where
  "nonempty_text v = (case v of Some (JsonString s) \<Rightarrow> if s = [] then None else Some s | _ \<Rightarrow> None)"

definition value_objection :: "dsl_env \<Rightarrow> FridayRuleConditionOperator \<Rightarrow> json \<Rightarrow> string option" where
  "value_objection env opr v =
     (case v of JsonString p \<Rightarrow> if opr = Op_matches then validateRegexPattern env p else None | _ \<Rightarrow> None)"

definition validateCondition :: "dsl_env \<Rightarrow> json \<Rightarrow> string \<Rightarrow> dsl_failure + FridayRuleCondition" where
  "validateCondition env raw path =
     (case raw of
        JsonObject c \<Rightarrow>
          (case nonempty_text (map_of c ''field'') of
             None \<Rightarrow> Inl (RuleDslParseError (path @ ''.field'') ''field is required and must be a non-empty string'')
           | Some field \<Rightarrow>
               (case validateFieldPath field of
                  Some message \<Rightarrow> Inl (RuleDslParseError (path @ ''.field'') message)
                | None \<Rightarrow>
                    (case named operator_name VALID_OPERATORS (map_of c ''operator'') of
                       None \<Rightarrow> wrong_value env ''Invalid operator '' (map_of c ''operator'') (path @ ''.operator'')
                     | Some opr \<Rightarrow>
                         if opr \<in> set PRESENCE_OPERATORS
                         then if map_of c ''value'' \<noteq> None
                              then Inl (RuleDslParseError (path @ ''.value'')
                                     (''Operator '' @ [CHR 0x22] @ operator_name opr @ [CHR 0x22] @ '' must not have a value''))
                              else Inr \<lparr>cond_field = field, cond_operator = opr, cond_value = None\<rparr>
                         else (case map_of c ''value'' of
                                 None \<Rightarrow> Inl (RuleDslParseError (path @ ''.value'')
                                   (''Operator '' @ [CHR 0x22] @ operator_name opr @ [CHR 0x22] @ '' requires a value''))
                               | Some v \<Rightarrow>
                                   (case value_objection env opr v of
                                      Some regexError \<Rightarrow> Inl (RuleDslParseError (path @ ''.value'') regexError)
                                    | None \<Rightarrow> Inr \<lparr>cond_field = field, cond_operator = opr, cond_value = Some v\<rparr>)))))
      | _ \<Rightarrow> Inl (RuleDslParseError path ''Condition must be a non-null object''))"

definition indexed_path :: "string \<Rightarrow> nat \<Rightarrow> string" where
  "indexed_path path i = path @ ''['' @ show_nat i @ '']''"

text \<open>\<open>Array.prototype.map\<close> with a validator that may throw.\<close>

fun map_validate :: "(json \<Rightarrow> string \<Rightarrow> dsl_failure + 'a) \<Rightarrow> string \<Rightarrow> nat \<Rightarrow> json list \<Rightarrow> dsl_failure + 'a list" where
  "map_validate f path i [] = Inr []"
| "map_validate f path i (x # xs) =
     sbind (f x (indexed_path path i)) (\<lambda>y. sbind (map_validate f path (Suc i) xs) (\<lambda>ys. Inr (y # ys)))"

text \<open>One of the three lists of a condition group.\<close>

definition validate_list :: "dsl_env \<Rightarrow> raw_doc \<Rightarrow> string \<Rightarrow> string \<Rightarrow> dsl_failure + FridayRuleCondition list option" where
  "validate_list env g path key =
     (case map_of g key of
        None \<Rightarrow> Inr None
      | Some (JsonArray xs) \<Rightarrow>
          if xs = [] then Inl (RuleDslParseError (path @ ''.'' @ key) (key @ '' must not be empty''))
          else sbind (map_validate (validateCondition env) (path @ ''.'' @ key) 0 xs) (\<lambda>cs. Inr (Some cs))
      | Some _ \<Rightarrow> Inl (RuleDslParseError (path @ ''.'' @ key) (key @ '' must be an array'')))"

definition validateConditionGroup :: "dsl_env \<Rightarrow> json \<Rightarrow> string \<Rightarrow> dsl_failure + FridayRuleConditionGroup" where
  "validateConditionGroup env raw path =
     (case raw of
        JsonObject g \<Rightarrow>
          (case List.find (\<lambda>key. key \<notin> set VALID_CONDITION_GROUP_KEYS) (map fst (own_order g)) of
             Some key \<Rightarrow> Inl (RuleDslParseError (path @ ''.'' @ key) (''Unknown condition group key '' @ [CHR 0x22] @ key @ [CHR 0x22]))
           | None \<Rightarrow>
               sbind (validate_list env g path ''all'') (\<lambda>alls.
               sbind (validate_list env g path ''any'') (\<lambda>anys.
               sbind (validate_list env g path ''none'') (\<lambda>nones.
                 if alls = None \<and> anys = None \<and> nones = None
                 then Inl (RuleDslParseError path ''conditions must include at least one non-empty group (all, any, or none)'')
                 else Inr \<lparr>grp_all = alls, grp_any = anys, grp_none = nones\<rparr>))))
      | _ \<Rightarrow> Inl (RuleDslParseError path ''Condition group must be a non-null object''))"

section \<open>Rules\<close>

definition required_text :: "raw_doc \<Rightarrow> string \<Rightarrow> string \<Rightarrow> dsl_failure + string" where
  "required_text doc key path =
     (case nonempty_text (map_of doc key) of
        None \<Rightarrow> Inl (RuleDslParseError (path @ ''.'' @ key) (key @ '' is required and must be a non-empty string''))
      | Some s \<Rightarrow> Inr s)"

definition optional_text :: "raw_doc \<Rightarrow> string \<Rightarrow> string \<Rightarrow> dsl_failure + string option" where
  "optional_text doc key path =
     (case map_of doc key of
        None \<Rightarrow> Inr None
      | Some (JsonString s) \<Rightarrow> Inr (Some s)
      | Some _ \<Rightarrow> Inl (RuleDslParseError (path @ ''.'' @ key) (key @ '' must be a string'')))"

definition optional_flag :: "raw_doc \<Rightarrow> string \<Rightarrow> string \<Rightarrow> dsl_failure + bool option" where
  "optional_flag doc key path =
     (case map_of doc key of
        None \<Rightarrow> Inr None
      | Some (JsonBool b) \<Rightarrow> Inr (Some b)
      | Some _ \<Rightarrow> Inl (RuleDslParseError (path @ ''.'' @ key) (key @ '' must be a boolean'')))"

definition as_integer :: "json \<Rightarrow> int option" where
  "as_integer v = (case v of JsonNumber r \<Rightarrow> if of_int \<lfloor>r\<rfloor> = r then Some \<lfloor>r\<rfloor> else None | _ \<Rightarrow> None)"

definition optional_integer :: "raw_doc \<Rightarrow> string \<Rightarrow> string \<Rightarrow> dsl_failure + int option" where
  "optional_integer doc key path =
     (case map_of doc key of
        None \<Rightarrow> Inr None
      | Some v \<Rightarrow>
          (case as_integer v of
             Some n \<Rightarrow> Inr (Some n)
           | None \<Rightarrow> Inl (RuleDslParseError (path @ ''.'' @ key) (key @ '' must be an integer''))))"

definition required_name ::
    "dsl_env \<Rightarrow> ('a \<Rightarrow> string) \<Rightarrow> 'a list \<Rightarrow> raw_doc \<Rightarrow> string \<Rightarrow> string \<Rightarrow> dsl_failure + 'a" where
  "required_name env name_of xs doc key path =
     (case named name_of xs (map_of doc key) of
        None \<Rightarrow> wrong_value env (''Invalid '' @ key @ '' '') (map_of doc key) (path @ ''.'' @ key)
      | Some x \<Rightarrow> Inr x)"

definition optional_conditions :: "dsl_env \<Rightarrow> raw_doc \<Rightarrow> string \<Rightarrow> dsl_failure + FridayRuleConditionGroup option" where
  "optional_conditions env doc path =
     (case map_of doc ''conditions'' of
        None \<Rightarrow> Inr None
      | Some v \<Rightarrow> sbind (validateConditionGroup env v (path @ ''.conditions'')) (\<lambda>g. Inr (Some g)))"

definition validateRule :: "dsl_env \<Rightarrow> json \<Rightarrow> nat \<Rightarrow> string list \<Rightarrow> dsl_failure + FridayPolicyBundleYamlRule" where
  "validateRule env raw index seenIds =
     (let path = indexed_path ''rules'' index in
      case raw of
        JsonObject r \<Rightarrow>
          sbind (required_text r ''id'' path) (\<lambda>i.
          if i \<in> set seenIds then Inl (RuleDslParseError (path @ ''.id'') (''Duplicate rule id '' @ [CHR 0x22] @ i @ [CHR 0x22]))
          else
          sbind (required_text r ''name'' path) (\<lambda>nm.
          sbind (required_name env resource_name VALID_RESOURCES r ''resource'' path) (\<lambda>resource.
          sbind (required_name env action_name VALID_ACTIONS r ''action'' path) (\<lambda>act.
          sbind (required_name env decision_name VALID_DECISIONS r ''decision'' path) (\<lambda>decision.
          sbind (optional_text r ''description'' path) (\<lambda>description.
          sbind (optional_flag r ''enabled'' path) (\<lambda>enabled.
          sbind (optional_text r ''message'' path) (\<lambda>message.
          sbind (optional_integer r ''priority'' path) (\<lambda>priority.
          sbind (optional_conditions env r path) (\<lambda>conditions.
            Inr \<lparr>yr_id = i, yr_name = nm, yr_description = description, yr_enabled = enabled, yr_resource = resource,
                 yr_action = act, yr_conditions = conditions, yr_decision = decision, yr_message = message,
                 yr_priority = priority\<rparr>))))))))))
      | _ \<Rightarrow> Inl (RuleDslParseError path ''Rule must be a non-null object''))"

fun validate_rules_from :: "dsl_env \<Rightarrow> nat \<Rightarrow> string list \<Rightarrow> json list \<Rightarrow> dsl_failure + FridayPolicyBundleYamlRule list" where
  "validate_rules_from env index seenIds [] = Inr []"
| "validate_rules_from env index seenIds (x # xs) =
     sbind (validateRule env x index seenIds) (\<lambda>r.
     sbind (validate_rules_from env (Suc index) (yr_id r # seenIds) xs) (\<lambda>rs. Inr (r # rs)))"

definition validateRules :: "dsl_env \<Rightarrow> raw_doc \<Rightarrow> dsl_failure + FridayPolicyBundleYamlRule list" where
  "validateRules env doc =
     (case map_of doc ''rules'' of
        Some (JsonArray rules) \<Rightarrow> validate_rules_from env 0 [] rules
      | _ \<Rightarrow> Inl (RuleDslParseError ''rules'' ''rules must be an array''))"

section \<open>Documents\<close>

definition required_version :: "raw_doc \<Rightarrow> dsl_failure + int" where
  "required_version m =
     (case Option.bind (map_of m ''version'') as_integer of
        Some n \<Rightarrow> if n < 1 then Inl (RuleDslParseError ''metadata.version'' ''version is required and must be a positive integer'') else Inr n
      | None \<Rightarrow> Inl (RuleDslParseError ''metadata.version'' ''version is required and must be a positive integer''))"

fun as_string :: "json \<Rightarrow> string option" where
  "as_string (JsonString s) = Some s"
| "as_string _ = None"

definition optional_tags :: "raw_doc \<Rightarrow> dsl_failure + string list option" where
  "optional_tags m =
     (case map_of m ''tags'' of
        None \<Rightarrow> Inr None
      | Some v \<Rightarrow>
          (case (case v of JsonArray xs \<Rightarrow> those (map as_string xs) | _ \<Rightarrow> None) of
             Some ts \<Rightarrow> Inr (Some ts)
           | None \<Rightarrow> Inl (RuleDslParseError ''metadata.tags'' ''tags must be an array of strings'')))"

definition trimmed_text :: "raw_doc \<Rightarrow> string \<Rightarrow> string \<Rightarrow> dsl_failure + string" where
  "trimmed_text doc key path =
     (case map_of doc key of
        Some (JsonString s) \<Rightarrow>
          if js_trim s = [] then Inl (RuleDslParseError (path @ ''.'' @ key) (''signature.'' @ key @ '' must be a non-empty string''))
          else Inr (js_trim s)
      | _ \<Rightarrow> Inl (RuleDslParseError (path @ ''.'' @ key) (''signature.'' @ key @ '' must be a non-empty string'')))"

definition validateMetadataSignature :: "json option \<Rightarrow> string \<Rightarrow> dsl_failure + FridayPolicyBundleSignature option" where
  "validateMetadataSignature raw path =
     (case raw of
        None \<Rightarrow> Inr None
      | Some (JsonObject signature) \<Rightarrow>
          if map_of signature ''algorithm'' \<noteq> Some (JsonString ''hmac-sha256'')
          then Inl (RuleDslParseError (path @ ''.algorithm'') (''signature.algorithm must be '' @ [CHR 0x22] @ ''hmac-sha256'' @ [CHR 0x22]))
          else
            sbind (trimmed_text signature ''keyId'' path) (\<lambda>keyId.
            sbind (trimmed_text signature ''value'' path) (\<lambda>v.
              Inr (Some \<lparr>sig_algorithm = ''hmac-sha256'', sig_keyId = keyId, sig_value = v\<rparr>)))
      | Some _ \<Rightarrow> Inl (RuleDslParseError path ''signature must be a non-null object''))"

definition validateMetadata :: "raw_doc \<Rightarrow> dsl_failure + FridayPolicyBundleYamlMetadata" where
  "validateMetadata doc =
     (case map_of doc ''metadata'' of
        Some (JsonObject m) \<Rightarrow>
          sbind (required_text m ''id'' ''metadata'') (\<lambda>i.
          sbind (required_text m ''name'' ''metadata'') (\<lambda>nm.
          sbind (required_version m) (\<lambda>version.
          sbind (optional_text m ''description'' ''metadata'') (\<lambda>description.
          sbind (optional_integer m ''priority'' ''metadata'') (\<lambda>priority.
          sbind (optional_flag m ''enabled'' ''metadata'') (\<lambda>enabled.
          sbind (optional_tags m) (\<lambda>tags.
          sbind (validateMetadataSignature (map_of m ''signature'') ''metadata.signature'') (\<lambda>signature.
            Inr \<lparr>ym_id = i, ym_name = nm, ym_description = description, ym_version = version, ym_priority = priority,
                 ym_enabled = enabled, ym_tags = tags, ym_signature = signature\<rparr>))))))))
      | _ \<Rightarrow> Inl (RuleDslParseError ''metadata'' ''metadata must be a non-null object''))"

definition expect_text :: "dsl_env \<Rightarrow> raw_doc \<Rightarrow> string \<Rightarrow> string \<Rightarrow> dsl_failure + unit" where
  "expect_text env doc key expected =
     (if map_of doc key = Some (JsonString expected) then Inr ()
      else wrong_value env (''Expected '' @ key @ '' '' @ [CHR 0x22] @ expected @ [CHR 0x22] @ '', got '') (map_of doc key) key)"

definition parsePolicyBundleDocument :: "dsl_env \<Rightarrow> json \<Rightarrow> dsl_failure + FridayPolicyBundleYaml" where
  "parsePolicyBundleDocument env raw =
     (case raw of
        JsonObject doc \<Rightarrow>
          sbind (expect_text env doc ''apiVersion'' VALID_API_VERSION) (\<lambda>_.
          sbind (expect_text env doc ''kind'' VALID_KIND) (\<lambda>_.
          sbind (validateMetadata doc) (\<lambda>metadata.
          sbind (validateRules env doc) (\<lambda>rules.
            Inr \<lparr>yb_apiVersion = VALID_API_VERSION, yb_kind = VALID_KIND, yb_metadata = metadata, yb_rules = rules\<rparr>))))
      | _ \<Rightarrow> Inl (RuleDslParseError ''root'' ''Document must be a non-null object''))"

section \<open>Specification vocabulary\<close>

text \<open>A field path is a dotted list of plain names, none of them a prototype key.\<close>

definition plain_segment :: "string \<Rightarrow> bool" where
  "plain_segment segment \<longleftrightarrow> segment \<noteq> [] \<and> segment \<notin> set FORBIDDEN_FIELD_SEGMENTS \<and> list_all segment_char segment"

definition plain_field :: "string \<Rightarrow> bool" where
  "plain_field field \<longleftrightarrow> list_all plain_segment (js_split (CHR ''.'') field)"

text \<open>The value of a \<open>matches\<close> condition that is a pattern passes the checks on regular expressions.\<close>

definition typed_condition :: "dsl_env \<Rightarrow> FridayRuleCondition \<Rightarrow> bool" where
  "typed_condition env c \<longleftrightarrow>
     plain_field (cond_field c) \<and> cond_operator c \<in> set VALID_OPERATORS \<and>
     (if cond_operator c \<in> set PRESENCE_OPERATORS then cond_value c = None
      else \<exists>v. cond_value c = Some v \<and> value_objection env (cond_operator c) v = None)"

definition typed_conditions :: "dsl_env \<Rightarrow> FridayRuleCondition list option \<Rightarrow> bool" where
  "typed_conditions env cs = (case cs of None \<Rightarrow> True | Some xs \<Rightarrow> xs \<noteq> [] \<and> list_all (typed_condition env) xs)"

definition typed_group :: "dsl_env \<Rightarrow> FridayRuleConditionGroup \<Rightarrow> bool" where
  "typed_group env g \<longleftrightarrow>
     typed_conditions env (grp_all g) \<and> typed_conditions env (grp_any g) \<and> typed_conditions env (grp_none g) \<and>
     \<not> (grp_all g = None \<and> grp_any g = None \<and> grp_none g = None)"

definition typed_rule :: "dsl_env \<Rightarrow> FridayPolicyBundleYamlRule \<Rightarrow> bool" where
  "typed_rule env r \<longleftrightarrow> yr_id r \<noteq> [] \<and> yr_name r \<noteq> [] \<and> (case yr_conditions r of None \<Rightarrow> True | Some g \<Rightarrow> typed_group env g)"

definition typed_metadata :: "FridayPolicyBundleYamlMetadata \<Rightarrow> bool" where
  "typed_metadata m \<longleftrightarrow>
     ym_id m \<noteq> [] \<and> ym_name m \<noteq> [] \<and> ym_version m \<ge> 1 \<and>
     (case ym_signature m of
        None \<Rightarrow> True
      | Some sig \<Rightarrow> sig_algorithm sig = ''hmac-sha256'' \<and> sig_keyId sig \<noteq> [] \<and> sig_value sig \<noteq> [])"

definition typed_bundle :: "dsl_env \<Rightarrow> FridayPolicyBundleYaml \<Rightarrow> bool" where
  "typed_bundle env b \<longleftrightarrow>
     yb_apiVersion b = ''friday/rules/v1'' \<and> yb_kind b = ''PolicyBundle'' \<and> typed_metadata (yb_metadata b) \<and>
     distinct (map yr_id (yb_rules b)) \<and> list_all (typed_rule env) (yb_rules b)"

definition unsigned_bundle :: "FridayPolicyBundleYaml \<Rightarrow> FridayPolicyBundleYaml" where
  "unsigned_bundle b = b\<lparr>yb_metadata := (yb_metadata b)\<lparr>ym_signature := None\<rparr>\<rparr>"

section \<open>Field paths are exact\<close>

lemma js_split_not_Nil: "js_split sep s \<noteq> []"
  by (induction s) (auto split: list.splits)

lemma js_split_chars: "set field \<subseteq> insert sep (\<Union>segment \<in> set (js_split sep field). set segment)"
proof (induction field)
  case (Cons c field)
  then show ?case using js_split_not_Nil [of sep field] by (cases "js_split sep field") auto
qed simp

lemma js_split_append: "js_split sep (u @ sep # v) = js_split sep u @ js_split sep v"
proof (induction u)
  case (Cons c u)
  then show ?case using js_split_not_Nil [of sep u] by (cases "js_split sep u") auto
qed simp

lemma set_strip_words: "set (strip_words n ws s) \<subseteq> set s"
  by (induction n ws s rule: strip_words.induct) (auto split: option.splits dest: in_set_dropD)

lemma call_found_paren: "call_found before name s \<Longrightarrow> CHR ''('' \<in> set s"
proof (induction before name s rule: call_found.induct)
  case (2 before name c cs)
  have "CHR ''('' \<in> set (c # cs)" if "call_at before name (c # cs)"
    using that set_strip_words [of "length (c # cs)" WHITE_SPACE "drop (length name) (c # cs)"] set_drop_subset [of "length name" "c # cs"]
    by (auto simp: call_at_def split: list.splits)
  with 2 show ?case by auto
qed simp

lemma segment_objection_None: "segment_objection segments = None \<longleftrightarrow> list_all plain_segment segments"
  by (induction segments) (auto simp: plain_segment_def)

lemma segment_char_special:
  "\<not> segment_char (CHR ''('')" "\<not> segment_char (CHR ''{'')" "\<not> segment_char (CHR ''}'')" "\<not> segment_char (CHR 0x60)"
  by (simp_all add: segment_char_def is_letter_def is_digit_def)

text \<open>The checks on dots and on injection patterns refuse nothing the check of the segments would accept.\<close>

lemma field_path_exact: "validateFieldPath field = None \<longleftrightarrow> plain_field field"
proof
  assume "validateFieldPath field = None"
  then show "plain_field field" by (simp add: validateFieldPath_def plain_field_def segment_objection_None split: if_splits)
next
  assume plain: "plain_field field"
  have chars: "segment_char c \<or> c = CHR ''.''" if "c \<in> set field" for c
    using that plain js_split_chars [of field "CHR ''.''"] by (fastforce simp: plain_field_def plain_segment_def list_all_iff)
  have segs: "[] \<notin> set (js_split (CHR ''.'') field)" using plain by (auto simp: plain_field_def plain_segment_def list_all_iff)
  have between: "field \<noteq> u @ CHR ''.'' # v" if "u = [] \<or> v = []" for u v
    using that segs js_split_append [of "CHR ''.''" u v] by auto
  have "hd field \<noteq> CHR ''.''" if "field \<noteq> []" using that between [of "[]" "tl field"] by (cases field) auto
  moreover have "last field \<noteq> CHR ''.''" if "field \<noteq> []"
    using between [of "butlast field" "[]"] append_butlast_last_id [OF that] by metis
  moreover have "\<not> str_includes field ''..''"
    using segs js_split_append [of "CHR ''.''"] by (auto simp: str_includes_iff)
  moreover have "\<not> forbidden_pattern field"
  proof -
    have absent: "CHR ''('' \<notin> set field" "CHR ''{'' \<notin> set field" "CHR ''}'' \<notin> set field" "CHR 0x60 \<notin> set field"
      using chars segment_char_special by fastforce+
    then show ?thesis
      by (auto simp: forbidden_pattern_def str_includes_iff dest: call_found_paren)
  qed
  ultimately show "validateFieldPath field = None"
    using plain by (auto simp: validateFieldPath_def plain_field_def segment_objection_None)
qed

lemma plain_field_nonempty: "plain_field field \<Longrightarrow> field \<noteq> []"
  by (auto simp: plain_field_def plain_segment_def)

section \<open>Parsed documents are typed\<close>

lemma sbind_Inr [simp]: "sbind r f = Inr y \<longleftrightarrow> (\<exists>x. r = Inr x \<and> f x = Inr y)"
  by (cases r) (auto simp: sbind_def)

lemma sbind_Inr_step [simp]: "sbind (Inr x) f = f x"
  by (simp add: sbind_def)

lemma wrong_value_not_Inr [simp]: "wrong_value env message v path \<noteq> Inr x"
  by (simp add: wrong_value_def split: option.splits)

lemma named_Some: "named name_of xs v = Some x \<Longrightarrow> x \<in> set xs"
  by (auto simp: named_def find_Some_iff split: option.splits json.splits)

lemma nonempty_text_Some: "nonempty_text v = Some s \<longleftrightarrow> v = Some (JsonString s) \<and> s \<noteq> []"
  by (auto simp: nonempty_text_def split: option.splits json.splits if_splits)

lemma condition_typed: "validateCondition env raw path = Inr c \<Longrightarrow> typed_condition env c"
  by (auto simp: validateCondition_def typed_condition_def field_path_exact nonempty_text_Some
      dest: named_Some split: json.splits option.splits if_splits)

lemma map_validate_typed:
  "map_validate f path i xs = Inr ys \<Longrightarrow> (\<And>x p y. f x p = Inr y \<Longrightarrow> Q y) \<Longrightarrow> length ys = length xs \<and> list_all Q ys"
  by (induction xs arbitrary: i ys) auto

lemma validate_list_typed: "validate_list env g path key = Inr cs \<Longrightarrow> typed_conditions env cs"
  by (auto simp: validate_list_def typed_conditions_def split: option.splits json.splits if_splits
      dest!: map_validate_typed [where Q = "typed_condition env"] intro: condition_typed)

lemma group_typed: "validateConditionGroup env raw path = Inr g \<Longrightarrow> typed_group env g"
  by (auto simp: validateConditionGroup_def typed_group_def dest: validate_list_typed split: json.splits option.splits if_splits)

lemma required_text_Inr: "required_text doc key path = Inr s \<longleftrightarrow> map_of doc key = Some (JsonString s) \<and> s \<noteq> []"
  by (auto simp: required_text_def nonempty_text_def split: option.splits json.splits)

lemma rule_typed: "validateRule env raw i seen = Inr r \<Longrightarrow> typed_rule env r \<and> yr_id r \<notin> set seen"
  by (cases raw)
    (auto simp: validateRule_def Let_def typed_rule_def required_text_Inr optional_conditions_def dest: group_typed
      split: option.splits if_splits)

lemma rules_typed:
  "validate_rules_from env i seen xs = Inr rs \<Longrightarrow>
   list_all (typed_rule env) rs \<and> distinct (map yr_id rs) \<and> set seen \<inter> yr_id ` set rs = {}"
proof (induction xs arbitrary: i seen rs)
  case (Cons x xs)
  then obtain r more where r: "validateRule env x i seen = Inr r" "validate_rules_from env (Suc i) (yr_id r # seen) xs = Inr more"
    "rs = r # more" by auto
  with Cons.IH [OF r(2)] rule_typed [OF r(1)] show ?case by auto
qed simp

lemma metadata_typed: "validateMetadata doc = Inr m \<Longrightarrow> typed_metadata m"
  by (auto simp: validateMetadata_def typed_metadata_def required_text_Inr required_version_def validateMetadataSignature_def
      trimmed_text_def split: option.splits json.splits if_splits)

lemma bundle_typed: "parsePolicyBundleDocument env raw = Inr b \<Longrightarrow> typed_bundle env b"
  by (auto simp: parsePolicyBundleDocument_def typed_bundle_def VALID_API_VERSION_def VALID_KIND_def validateRules_def
      dest: metadata_typed rules_typed split: json.splits option.splits)

section \<open>Typed bundles are read back\<close>

lemma named_name: "x \<in> set xs \<Longrightarrow> inj_on name_of (set xs) \<Longrightarrow> named name_of xs (Some (JsonString (name_of x))) = Some x"
  by (induction xs) (auto simp: named_def inj_on_def)

lemma names_injective:
  "inj_on operator_name (set VALID_OPERATORS)" "inj_on resource_name (set VALID_RESOURCES)"
  "inj_on action_name (set VALID_ACTIONS)" "inj_on decision_name (set VALID_DECISIONS)"
  by (simp_all add: inj_on_def VALID_OPERATORS_def VALID_DECISIONS_def resource_name_inj action_name_inj)

lemma names_complete: "r \<in> set VALID_RESOURCES" "a \<in> set VALID_ACTIONS" "d \<in> set VALID_DECISIONS"
proof -
  show "r \<in> set VALID_RESOURCES" by (cases r) (simp_all add: VALID_RESOURCES_def)
  show "a \<in> set VALID_ACTIONS" by (cases a) (simp_all add: VALID_ACTIONS_def)
  show "d \<in> set VALID_DECISIONS" by (cases d) (simp_all add: VALID_DECISIONS_def)
qed

lemmas read_names [simp] = named_name [OF _ names_injective(1)] named_name [OF names_complete(1) names_injective(2)]
  named_name [OF names_complete(2) names_injective(3)] named_name [OF names_complete(3) names_injective(4)]

lemma nonempty_text_string: "s \<noteq> [] \<Longrightarrow> nonempty_text (Some (JsonString s)) = Some s"
  by (simp add: nonempty_text_def)

lemma condition_fields:
  "map_of [(''field'', f), (''operator'', opr)] ''field'' = Some f" "map_of [(''field'', f), (''operator'', opr)] ''operator'' = Some opr"
  by simp_all

lemma condition_read:
  assumes "typed_condition env c"
  shows "validateCondition env (condition_json c) path = Inr c"
proof -
  let ?o = "cond_operator c"
  have field: "nonempty_text (Some (JsonString (cond_field c))) = Some (cond_field c)" "validateFieldPath (cond_field c) = None"
    using assms by (simp_all add: typed_condition_def field_path_exact nonempty_text_string plain_field_nonempty)
  have opr: "named operator_name VALID_OPERATORS (Some (JsonString (operator_name ?o))) = Some ?o"
    using assms by (simp add: typed_condition_def)
  show ?thesis
  proof (cases "?o \<in> set PRESENCE_OPERATORS")
    case True
    then have "cond_value c = None" using assms by (simp add: typed_condition_def)
    then show ?thesis using True field opr
      by (cases c) (simp add: validateCondition_def condition_json_def opt_field_def)
  next
    case False
    then obtain v where v: "cond_value c = Some v" "value_objection env ?o v = None" using assms by (auto simp: typed_condition_def)
    then show ?thesis using False field opr
      by (cases c) (simp add: validateCondition_def condition_json_def opt_field_def)
  qed
qed

lemma map_validate_read:
  "list_all (\<lambda>y. \<forall>p. f (g y) p = Inr y) ys \<Longrightarrow> map_validate f path i (map g ys) = Inr ys"
  by (induction ys arbitrary: i) simp_all

lemma validate_list_read:
  "typed_conditions env cs \<Longrightarrow> map_of g key = map_option (\<lambda>cs. JsonArray (map condition_json cs)) cs \<Longrightarrow>
   validate_list env g path key = Inr cs"
  by (cases cs) (auto simp: validate_list_def typed_conditions_def condition_read list_all_iff intro!: map_validate_read)

lemma group_read:
  assumes "typed_group env g"
  shows "validateConditionGroup env (group_json g) path = Inr g"
proof -
  let ?ps = "opt_field ''all'' (\<lambda>cs. JsonArray (map condition_json cs)) (grp_all g) @
      opt_field ''any'' (\<lambda>cs. JsonArray (map condition_json cs)) (grp_any g) @
      opt_field ''none'' (\<lambda>cs. JsonArray (map condition_json cs)) (grp_none g)"
  have keys: "List.find (\<lambda>key. key \<notin> set VALID_CONDITION_GROUP_KEYS) (map fst (own_order ?ps)) = None"
    by (auto simp: find_None_iff VALID_CONDITION_GROUP_KEYS_def opt_field_def own_order_def split: option.splits)
  have get: "map_of ?ps ''all'' = map_option (\<lambda>cs. JsonArray (map condition_json cs)) (grp_all g)"
    "map_of ?ps ''any'' = map_option (\<lambda>cs. JsonArray (map condition_json cs)) (grp_any g)"
    "map_of ?ps ''none'' = map_option (\<lambda>cs. JsonArray (map condition_json cs)) (grp_none g)"
    by (simp_all add: map_of_opt_field_append map_of_opt_field or_else_None del: map_of_append)
  have lists: "validate_list env ?ps p ''all'' = Inr (grp_all g)" "validate_list env ?ps p ''any'' = Inr (grp_any g)"
    "validate_list env ?ps p ''none'' = Inr (grp_none g)" for p
    using assms get by (simp_all add: typed_group_def validate_list_read)
  show ?thesis
    using assms keys lists by (cases g) (simp add: validateConditionGroup_def group_json_def typed_group_def)
qed

text \<open>The parts of the payload that is signed, as objects.\<close>

definition rule_fields :: "FridayPolicyBundleYamlRule \<Rightarrow> raw_doc" where
  "rule_fields r = [(''id'', JsonString (yr_id r)), (''name'', JsonString (yr_name r))] @
     opt_field ''description'' JsonString (yr_description r) @
     opt_field ''enabled'' JsonBool (yr_enabled r) @
     [(''resource'', JsonString (resource_name (yr_resource r))), (''action'', JsonString (action_name (yr_action r)))] @
     opt_field ''conditions'' group_json (yr_conditions r) @
     [(''decision'', JsonString (decision_name (yr_decision r)))] @
     opt_field ''message'' JsonString (yr_message r) @
     opt_field ''priority'' (\<lambda>p. JsonNumber (of_int p)) (yr_priority r)"

definition metadata_fields :: "FridayPolicyBundleYamlMetadata \<Rightarrow> raw_doc" where
  "metadata_fields meta = [(''id'', JsonString (ym_id meta)), (''name'', JsonString (ym_name meta))] @
     opt_field ''description'' JsonString (ym_description meta) @
     [(''version'', JsonNumber (of_int (ym_version meta)))] @
     opt_field ''priority'' (\<lambda>p. JsonNumber (of_int p)) (ym_priority meta) @
     opt_field ''enabled'' JsonBool (ym_enabled meta) @
     opt_field ''tags'' json_strings (ym_tags meta)"

lemma payload_fields:
  "createParsedBundleSigningPayload b = JsonObject [(''apiVersion'', JsonString (yb_apiVersion b)), (''kind'', JsonString (yb_kind b)),
     (''metadata'', JsonObject (metadata_fields (yb_metadata b))), (''rules'', JsonArray (map (\<lambda>r. JsonObject (rule_fields r)) (yb_rules b)))]"
  by (simp add: createParsedBundleSigningPayload_def Let_def rule_fields_def metadata_fields_def)

lemmas field_lookup = map_of_opt_field_append map_of_opt_field or_else_None

lemma rule_field_values:
  "map_of (rule_fields r) ''id'' = Some (JsonString (yr_id r))"
  "map_of (rule_fields r) ''name'' = Some (JsonString (yr_name r))"
  "map_of (rule_fields r) ''description'' = map_option JsonString (yr_description r)"
  "map_of (rule_fields r) ''enabled'' = map_option JsonBool (yr_enabled r)"
  "map_of (rule_fields r) ''resource'' = Some (JsonString (resource_name (yr_resource r)))"
  "map_of (rule_fields r) ''action'' = Some (JsonString (action_name (yr_action r)))"
  "map_of (rule_fields r) ''conditions'' = map_option group_json (yr_conditions r)"
  "map_of (rule_fields r) ''decision'' = Some (JsonString (decision_name (yr_decision r)))"
  "map_of (rule_fields r) ''message'' = map_option JsonString (yr_message r)"
  "map_of (rule_fields r) ''priority'' = map_option (\<lambda>p. JsonNumber (of_int p)) (yr_priority r)"
  by (simp_all add: rule_fields_def field_lookup del: map_of_append)

lemma metadata_field_values:
  "map_of (metadata_fields m) ''id'' = Some (JsonString (ym_id m))"
  "map_of (metadata_fields m) ''name'' = Some (JsonString (ym_name m))"
  "map_of (metadata_fields m) ''description'' = map_option JsonString (ym_description m)"
  "map_of (metadata_fields m) ''version'' = Some (JsonNumber (of_int (ym_version m)))"
  "map_of (metadata_fields m) ''priority'' = map_option (\<lambda>p. JsonNumber (of_int p)) (ym_priority m)"
  "map_of (metadata_fields m) ''enabled'' = map_option JsonBool (ym_enabled m)"
  "map_of (metadata_fields m) ''tags'' = map_option json_strings (ym_tags m)"
  "map_of (metadata_fields m) ''signature'' = None"
  by (simp_all add: metadata_fields_def field_lookup del: map_of_append)

lemma optional_read:
  "map_of doc key = map_option JsonString v \<Longrightarrow> optional_text doc key path = Inr v"
  "map_of doc key = map_option JsonBool b \<Longrightarrow> optional_flag doc key path = Inr b"
  "map_of doc key = map_option (\<lambda>p. JsonNumber (of_int p)) n \<Longrightarrow> optional_integer doc key path = Inr n"
  "map_of doc ''tags'' = map_option json_strings ts \<Longrightarrow> optional_tags doc = Inr ts"
proof -
  have "those (map (as_string \<circ> JsonString) xs) = Some xs" for xs by (induction xs) simp_all
  then show "map_of doc ''tags'' = map_option json_strings ts \<Longrightarrow> optional_tags doc = Inr ts"
    by (cases ts) (simp_all add: optional_tags_def json_strings_def)
qed (cases v; cases b; cases n; simp add: optional_text_def optional_flag_def optional_integer_def as_integer_def)+

lemma rule_read:
  assumes "typed_rule env r" and "yr_id r \<notin> set seen"
  shows "validateRule env (JsonObject (rule_fields r)) i seen = Inr r"
proof -
  have conditions: "optional_conditions env (rule_fields r) path = Inr (yr_conditions r)" for path
    using assms(1) by (cases "yr_conditions r") (simp_all add: optional_conditions_def rule_field_values typed_rule_def group_read)
  have texts: "required_text (rule_fields r) ''id'' path = Inr (yr_id r)" "required_text (rule_fields r) ''name'' path = Inr (yr_name r)" for path
    using assms(1) by (simp_all add: required_text_Inr typed_rule_def rule_field_values)
  have names: "required_name env resource_name VALID_RESOURCES (rule_fields r) ''resource'' path = Inr (yr_resource r)"
    "required_name env action_name VALID_ACTIONS (rule_fields r) ''action'' path = Inr (yr_action r)"
    "required_name env decision_name VALID_DECISIONS (rule_fields r) ''decision'' path = Inr (yr_decision r)" for path
    by (simp_all add: required_name_def rule_field_values)
  have options: "optional_text (rule_fields r) ''description'' path = Inr (yr_description r)"
    "optional_flag (rule_fields r) ''enabled'' path = Inr (yr_enabled r)" "optional_text (rule_fields r) ''message'' path = Inr (yr_message r)"
    "optional_integer (rule_fields r) ''priority'' path = Inr (yr_priority r)" for path
    by (simp_all add: optional_read rule_field_values)
  show ?thesis
    using assms(2) by (simp add: validateRule_def Let_def texts names options conditions del: sbind_Inr)
qed

lemma rules_read:
  "list_all (typed_rule env) rs \<Longrightarrow> distinct (map yr_id rs) \<Longrightarrow> set seen \<inter> yr_id ` set rs = {} \<Longrightarrow>
   validate_rules_from env i seen (map (\<lambda>r. JsonObject (rule_fields r)) rs) = Inr rs"
  by (induction rs arbitrary: i seen) (auto simp: rule_read)

lemma metadata_read:
  "typed_metadata m \<Longrightarrow> map_of doc ''metadata'' = Some (JsonObject (metadata_fields m)) \<Longrightarrow>
   validateMetadata doc = Inr (m\<lparr>ym_signature := None\<rparr>)"
  by (cases m) (simp add: validateMetadata_def typed_metadata_def required_text_Inr [THEN iffD2] metadata_field_values
      required_version_def as_integer_def optional_read validateMetadataSignature_def)

lemma payload_read:
  assumes "typed_bundle env b"
  shows "parsePolicyBundleDocument env (createParsedBundleSigningPayload b) = Inr (unsigned_bundle b)"
  using assms
  by (cases b) (simp add: payload_fields parsePolicyBundleDocument_def typed_bundle_def expect_text_def VALID_API_VERSION_def
      VALID_KIND_def metadata_read validateRules_def rules_read unsigned_bundle_def)

section \<open>Typed bundles compile\<close>

lemma pattern_compiles: "validateRegexPattern env p = None \<Longrightarrow> \<exists>rx. compile_pattern (de_regex env) p [] = Inr rx"
  by (auto simp: validateRegexPattern_def split: if_splits sum.splits regex_failure.splits)

lemma group_compiles:
  assumes "typed_group env g"
  shows "precompileConditionGroupRegex (de_regex env) g = Inr ()"
proof -
  have "\<not> isl (compile_pattern (de_regex env) p [])" if "p \<in> set (group_patterns g)" for p
  proof -
    from that obtain cs c where c: "cs \<in> {grp_all g, grp_any g, grp_none g}" "c \<in> set (case_option [] id cs)"
      "cond_operator c = Op_matches" "cond_value c = Some (JsonString p)"
      by (fastforce simp: group_patterns_def split: option.splits FridayRuleConditionOperator.splits json.splits)
    then have "typed_condition env c"
      using assms by (auto simp: typed_group_def typed_conditions_def list_all_iff split: option.splits)
    then have "validateRegexPattern env p = None"
      using c(3,4) by (auto simp: typed_condition_def value_objection_def PRESENCE_OPERATORS_def)
    then obtain rx where "compile_pattern (de_regex env) p [] = Inr rx" using pattern_compiles by blast
    then show ?thesis by simp
  qed
  then show ?thesis by (simp add: precompileConditionGroupRegex_def compile_all_ok)
qed

lemma empty_group_compiles: "precompileConditionGroupRegex eng \<lparr>grp_all = None, grp_any = None, grp_none = None\<rparr> = Inr ()"
  by (simp add: precompileConditionGroupRegex_def group_patterns_def)

lemma active_rules_values:
  "(bd, r) \<in> set (active_rules (cache_entries cache)) \<longleftrightarrow>
     (\<exists>lb\<in>set (map_values cache). bd = lb_bundle lb \<and> bundle_enabled bd \<and> r \<in> set (lb_rules lb) \<and> rule_active r)"
  by (auto simp: active_rules_def cache_entries_def split: if_splits)

lemma store_compiled:
  assumes "manager_inv mc m" and "\<forall>r\<in>set (lb_rules lb). precompileConditionGroupRegex (mc_regex mc) (rule_conditions r) = Inr ()"
  shows "\<exists>m'. store_bundle mc lb m = (Inr lb, m')"
proof -
  let ?cache = "map_set (bm_cache m) (bundle_id (lb_bundle lb)) lb"
  have old: "list_all (\<lambda>(b, r). precompileConditionGroupRegex (mc_regex mc) (rule_conditions r) = Inr ())
      (active_rules (cache_entries (bm_cache m)))"
    using assms(1) rebuild_ok_iff [of "mc_regex mc" "mc_loc mc" "cache_entries (bm_cache m)"] by (auto simp: manager_inv_def)
  have "set (map_values ?cache) \<subseteq> insert lb (set (map_values (bm_cache m)))"
    using set_map_set [of "bm_cache m" "bundle_id (lb_bundle lb)" lb] by (auto simp: map_values_def)
  then have "list_all (\<lambda>(b, r). precompileConditionGroupRegex (mc_regex mc) (rule_conditions r) = Inr ())
      (active_rules (cache_entries ?cache))"
    using old assms(2) by (fastforce simp: list_all_iff active_rules_values)
  then obtain index where "rebuild (mc_regex mc) (mc_loc mc) (cache_entries ?cache) = Inr index"
    using rebuild_ok_iff by blast
  then show ?thesis by (simp add: store_bundle_def applyCacheMutation_def)
qed

lemma domain_rules_compile:
  assumes "typed_bundle env b" and "r \<in> set (lb_rules (yamlBundleToDomain le b))"
  shows "precompileConditionGroupRegex (de_regex env) (rule_conditions r) = Inr ()"
proof -
  obtain i y where y: "(i, y) \<in> set (enumerate 0 (yb_rules b))" "rule_conditions r =
      case_option \<lparr>grp_all = None, grp_any = None, grp_none = None\<rparr> id (yr_conditions y)"
    using assms(2) by (auto simp: yamlBundleToDomain_def Let_def yamlRuleToDomainRule_def)
  then have "typed_rule env y" using assms(1) by (auto simp: typed_bundle_def list_all_iff in_set_enumerate_eq)
  then show ?thesis using y(2) by (cases "yr_conditions y") (auto simp: typed_rule_def group_compiles empty_group_compiles)
qed

section \<open>Properties\<close>

text \<open>
  The document parser delivers what its type promises: a parsed bundle has the expected version
  and kind, non-empty ids and names, distinct rule ids, conditions over plain field paths with known
  operators, values exactly where the operator takes one, and patterns that pass the checks. And
  nothing is lost: the payload that is signed for the bundle, read as a document, parses to the same
  bundle without its signature.
\<close>

theorem bundle_documents_typed:
  assumes "parsePolicyBundleDocument env raw = Inr b"
  shows "typed_bundle env b \<and> parsePolicyBundleDocument env (createParsedBundleSigningPayload b) = Inr (unsigned_bundle b)"
  using bundle_typed [OF assms] payload_read by blast

text \<open>
  C22. A parsed bundle loads: into a manager with any history of operations, loading a bundle the
  document parser has accepted succeeds exactly when its signature is acceptable, and then makes the
  bundle current; it never fails on a pattern, and a refused load changes nothing.
\<close>

theorem parsed_bundle_loads:
  assumes "parsePolicyBundleDocument env raw = Inr b" and "de_regex env = mc_regex mc"
    and "m = fold (bundle_exec mc) ops new_manager"
  shows "if signature_accepted mc (createParsedBundleSigningPayload b) (ym_signature (yb_metadata b))
    then \<exists>m'. loadParsedBundle mc le b m = (Inr (yamlBundleToDomain le b), m') \<and>
      getBundle (ym_id (yb_metadata b)) m' = Some (yamlBundleToDomain le b)
    else \<exists>code. loadParsedBundle mc le b m = (Inl (SignatureError code), m)"
proof (cases "assertPolicyBundleSignatureValid (mc_hmac mc) (mc_loc mc) (createParsedBundleSigningPayload b)
    (ym_signature (yb_metadata b)) (mc_options mc)")
  case (Inl code)
  then have "\<not> signature_accepted mc (createParsedBundleSigningPayload b) (ym_signature (yb_metadata b))"
    using assert_signature_iff [of mc "createParsedBundleSigningPayload b" "ym_signature (yb_metadata b)"] by auto
  then show ?thesis using Inl by (simp add: loadParsedBundle_def)
next
  case (Inr u)
  then have accepted: "signature_accepted mc (createParsedBundleSigningPayload b) (ym_signature (yb_metadata b))"
    using assert_signature_iff [of mc "createParsedBundleSigningPayload b" "ym_signature (yb_metadata b)"] by simp
  let ?lb = "yamlBundleToDomain le b"
  have inv: "manager_inv mc m" using assms(3) manager_run_inv by simp
  obtain m' where m': "store_bundle mc ?lb m = (Inr ?lb, m')"
    using store_compiled [OF inv, of ?lb] domain_rules_compile [OF bundle_typed [OF assms(1)], of _ le] assms(2) by auto
  moreover have "bundle_id (lb_bundle ?lb) = ym_id (yb_metadata b)" by (simp add: yamlBundleToDomain_def Let_def)
  ultimately show ?thesis
    using accepted Inr load_outcome [where mc = mc and m = m and lb = ?lb] by (simp add: loadParsedBundle_def)
qed

definition sample_dsl_env :: dsl_env where
  "sample_dsl_env = \<lparr>de_regex = sample_regex, de_syntaxMessage = \<lambda>p. ''bad pattern'', de_number = \<lambda>n. ''0''\<rparr>"

definition sample_document :: json where
  "sample_document = JsonObject [(''apiVersion'', JsonString ''friday/rules/v1''), (''kind'', JsonString ''PolicyBundle''),
     (''metadata'', JsonObject [(''id'', JsonString ''b''), (''name'', JsonString ''b''), (''version'', JsonNumber 1)]),
     (''rules'', JsonArray [JsonObject [(''id'', JsonString ''r''), (''name'', JsonString ''r''), (''resource'', JsonString ''shell''),
       (''action'', JsonString ''execute''), (''decision'', JsonString ''deny''),
       (''conditions'', JsonObject [(''all'', JsonArray [JsonObject [(''field'', JsonString ''args.command''),
         (''operator'', JsonString ''matches''), (''value'', JsonString ''^rm'')]])])]])]"

lemma sample_parses: "\<exists>b. parsePolicyBundleDocument sample_dsl_env sample_document = Inr b \<and> ym_signature (yb_metadata b) = None \<and>
    ym_id (yb_metadata b) = ''b''"
proof -
  have "case parsePolicyBundleDocument sample_dsl_env sample_document of Inl _ \<Rightarrow> False
      | Inr b \<Rightarrow> ym_signature (yb_metadata b) = None \<and> ym_id (yb_metadata b) = ''b''"
    by code_simp
  then show ?thesis by (simp split: sum.splits)
qed

theorem bundle_documents_typed_witness:
  "\<exists>b. parsePolicyBundleDocument sample_dsl_env sample_document = Inr b \<and> typed_bundle sample_dsl_env b"
proof -
  obtain b where b: "parsePolicyBundleDocument sample_dsl_env sample_document = Inr b" using sample_parses by blast
  from bundle_documents_typed [OF b] b show ?thesis by blast
qed

definition sample_manager_config :: manager_config where
  "sample_manager_config = \<lparr>mc_hmac = \<lambda>k p. [], mc_loc = \<lambda>a b. 0, mc_regex = sample_regex,
     mc_options = \<lparr>so_signatureSecrets = map_empty, so_enforceBundleSignature = False\<rparr>\<rparr>"

definition sample_load_env :: load_env where
  "sample_load_env = \<lparr>le_now = ''t'', le_bundle_etag = ''e'', le_rule_etag = \<lambda>i. ''e''\<rparr>"

theorem parsed_bundle_loads_witness:
  "\<exists>b m'. parsePolicyBundleDocument sample_dsl_env sample_document = Inr b \<and>
     snd (loadParsedBundle sample_manager_config sample_load_env b new_manager) = m' \<and>
     getBundle ''b'' m' = Some (yamlBundleToDomain sample_load_env b)"
proof -
  obtain b where b: "parsePolicyBundleDocument sample_dsl_env sample_document = Inr b" "ym_signature (yb_metadata b) = None"
    "ym_id (yb_metadata b) = ''b''" using sample_parses by blast
  have env: "de_regex sample_dsl_env = mc_regex sample_manager_config" by (simp add: sample_dsl_env_def sample_manager_config_def)
  have ops: "new_manager = fold (bundle_exec sample_manager_config) [] new_manager" by simp
  have "signature_accepted sample_manager_config (createParsedBundleSigningPayload b) (ym_signature (yb_metadata b))"
    using b(2) by (simp add: signature_accepted_def sample_manager_config_def)
  with parsed_bundle_loads [OF b(1) env ops, of sample_load_env] b show ?thesis by auto
qed

text \<open>
  The question mark of a non-capturing group counts as a quantifier inside the group, so a harmless
  repetition of such a group is refused as nested.
\<close>

lemma noncapturing_group_refused: "hasNestedQuantifiers ''(?:ab)+'' \<and> \<not> hasNestedQuantifiers ''(ab)+''"
  by code_simp

end
