(* ===== verification/Workflow_Store.thy ===== *)
theory Workflow_Store
  imports Workflow_Conditions
begin

text \<open>
  The tables the workflow engine keeps and the repositories over them:
  src/src/workflows/persistence/friday-workflow-run-repository.ts,
  friday-workflow-run-node-repository.ts, friday-workflow-approval-repository.ts, and the look-ups of
  friday-workflow-repository.ts the engine uses. A table is the list of its rows in insertion order,
  a row the entity its mapper makes of it (\<open>JSON.stringify\<close> and \<open>safeJsonParse\<close> of a column are
  inverse to each other), an \<open>UPDATE\<close> a map over the rows its \<open>WHERE\<close> selects. \<open>PRIMARY KEY\<close> and
  \<open>UNIQUE\<close> constraints and the references to users are those of
  src/src/state/sqlite/migrations/v001-initial.ts and v009-workflow-engine-triggers-approvals.ts; the
  other references are taken to hold. ISO instants are compared as text by the queries, which is the
  order of time for the fixed format \<open>toISOString\<close> writes, so an instant is its milliseconds.
\<close>

type_synonym wf_time = int
type_synonym json_props = "(string \<times> json) list"

section \<open>Errors\<close>

text \<open>A thrown \<open>FridayDomainError\<close> with its \<open>retryable\<close> flag, or another \<open>Error\<close> by its message.\<close>

datatype wf_error = Domain_Thrown friday_error bool | Error_Thrown string

type_synonym 'a outcome = "wf_error + 'a"

definition domain_error :: "string \<Rightarrow> string \<Rightarrow> int \<Rightarrow> wf_error" where
  "domain_error code message status = Domain_Thrown (FridayDomainError code message status) False"

fun error_message :: "wf_error \<Rightarrow> string" where
  "error_message (Domain_Thrown e _) = err_message e"
| "error_message (Error_Thrown m) = m"

definition unique_failed :: "string \<Rightarrow> wf_error" where
  "unique_failed columns = Error_Thrown (''UNIQUE constraint failed: '' @ columns)"

definition foreign_key_failed :: wf_error where
  "foreign_key_failed = Error_Thrown ''FOREIGN KEY constraint failed''"

text \<open>A sequence of statements in one transaction: the first failure undoes all of them.\<close>

fun all_or_nothing :: "('a \<Rightarrow> 's \<Rightarrow> 's outcome) \<Rightarrow> 'a list \<Rightarrow> 's \<Rightarrow> 's outcome" where
  "all_or_nothing f [] s = Inr s"
| "all_or_nothing f (x # xs) s = (case f x s of Inl e \<Rightarrow> Inl e | Inr s' \<Rightarrow> all_or_nothing f xs s')"

text \<open>\<open>LIMIT\<close>, unbounded for a negative number.\<close>

definition sql_limit :: "int \<Rightarrow> 'a list \<Rightarrow> 'a list" where
  "sql_limit n xs = (if n < 0 then xs else take (nat n) xs)"

section \<open>Runs\<close>

record wf_failure =
  fl_code :: string
  fl_message :: string
  fl_details :: "json option"

record FridayWorkflowRunEntity =
  wr_id :: UUID
  wr_workflowId :: UUID
  wr_workflowVersionId :: UUID
  wr_status :: WorkflowRunStatus
  wr_triggerType :: string
  wr_triggerPayload :: "json_props option"
  wr_startedByUserId :: "UUID option"
  wr_startedBySatelliteId :: "UUID option"
  wr_startedAt :: wf_time
  wr_deadlineAt :: "wf_time option"
  wr_pausedAt :: "wf_time option"
  wr_resumedAt :: "wf_time option"
  wr_finishedAt :: "wf_time option"
  wr_correlationId :: "string option"
  wr_context :: "json_props option"
  wr_failure :: "wf_failure option"
  wr_createdAt :: wf_time
  wr_updatedAt :: wf_time
  wr_proofRequired :: bool
  wr_completionVerification :: "string option"

text \<open>\<open>row.failure_code ? ... : undefined\<close>.\<close>

definition row_failure :: "wf_failure option \<Rightarrow> wf_failure option" where
  "row_failure f = (case f of None \<Rightarrow> None | Some x \<Rightarrow> if fl_code x = [] then None else Some x)"

definition insertRun ::
    "UUID list \<Rightarrow> FridayWorkflowRunEntity \<Rightarrow> FridayWorkflowRunEntity list \<Rightarrow> FridayWorkflowRunEntity list outcome" where
  "insertRun users entity rows =
     (if wr_id entity \<in> wr_id ` set rows then Inl (unique_failed ''workflow_runs.id'')
      else if (case wr_startedByUserId entity of None \<Rightarrow> False | Some u \<Rightarrow> u \<notin> set users) then Inl foreign_key_failed
      else Inr (rows @ [entity\<lparr>wr_failure := row_failure (wr_failure entity), wr_completionVerification := None\<rparr>]))"

definition getRunById :: "FridayWorkflowRunEntity list \<Rightarrow> UUID \<Rightarrow> FridayWorkflowRunEntity option" where
  "getRunById rows i = List.find (\<lambda>r. wr_id r = i) rows"

record run_metadata =
  md_deadlineAt :: "wf_time option"
  md_pausedAt :: "wf_time option"
  md_resumedAt :: "wf_time option"
  md_finishedAt :: "wf_time option"
  md_clearPausedAt :: bool
  md_clearResumedAt :: bool
  md_clearFinishedAt :: bool

definition no_metadata :: run_metadata where
  "no_metadata = \<lparr>md_deadlineAt = None, md_pausedAt = None, md_resumedAt = None, md_finishedAt = None,
     md_clearPausedAt = False, md_clearResumedAt = False, md_clearFinishedAt = False\<rparr>"

text \<open>\<open>CASE WHEN clear THEN NULL WHEN new IS NOT NULL THEN new ELSE old END\<close>.\<close>

definition sql_case :: "bool \<Rightarrow> 'a option \<Rightarrow> 'a option \<Rightarrow> 'a option" where
  "sql_case clear new old = (if clear then None else or_else new old)"

definition updateRunStatus ::
    "UUID \<Rightarrow> WorkflowRunStatus \<Rightarrow> wf_time \<Rightarrow> wf_failure option \<Rightarrow> run_metadata
     \<Rightarrow> FridayWorkflowRunEntity list \<Rightarrow> FridayWorkflowRunEntity list" where
  "updateRunStatus i status nowIso failure metadata =
     map (\<lambda>r. if wr_id r = i \<and> wr_status r \<noteq> status
              then r\<lparr>wr_status := status, wr_failure := row_failure failure,
                     wr_deadlineAt := sql_case False (md_deadlineAt metadata) (wr_deadlineAt r),
                     wr_pausedAt := sql_case (md_clearPausedAt metadata)
                       (or_else (md_pausedAt metadata) (if status = R_Paused then Some nowIso else None)) (wr_pausedAt r),
                     wr_resumedAt := sql_case (md_clearResumedAt metadata) (md_resumedAt metadata) (wr_resumedAt r),
                     wr_finishedAt := sql_case (md_clearFinishedAt metadata) (md_finishedAt metadata) (wr_finishedAt r),
                     wr_updatedAt := nowIso\<rparr>
              else r)"

text \<open>The first writer of a terminal status wins.\<close>

definition finalizeRun ::
    "UUID \<Rightarrow> WorkflowRunStatus \<Rightarrow> wf_time \<Rightarrow> wf_failure option
     \<Rightarrow> FridayWorkflowRunEntity list \<Rightarrow> FridayWorkflowRunEntity list" where
  "finalizeRun i status nowIso failure =
     map (\<lambda>r. if wr_id r = i \<and> wr_status r \<notin> {R_Completed, R_Failed, R_Cancelled}
              then r\<lparr>wr_status := status, wr_finishedAt := Some nowIso,
                     wr_failure := row_failure failure, wr_updatedAt := nowIso\<rparr>
              else r)"

definition listRunsByWorkflow ::
    "FridayWorkflowRunEntity list \<Rightarrow> UUID \<Rightarrow> WorkflowRunStatus option \<Rightarrow> int option \<Rightarrow> FridayWorkflowRunEntity list" where
  "listRunsByWorkflow rows workflowId status limit =
     sql_limit (case limit of None \<Rightarrow> 50 | Some n \<Rightarrow> n)
       (sort_key (\<lambda>r. - wr_startedAt r)
         (filter (\<lambda>r. wr_workflowId r = workflowId \<and> (status = None \<or> status = Some (wr_status r))) rows))"

definition ACTIVE_RUN_STATUSES :: "WorkflowRunStatus list" where
  "ACTIVE_RUN_STATUSES = [R_Queued, R_Running, R_Paused, R_Pausing, R_Compensating]"

definition listActiveRuns :: "FridayWorkflowRunEntity list \<Rightarrow> FridayWorkflowRunEntity list" where
  "listActiveRuns rows = filter (\<lambda>r. wr_status r \<in> set ACTIVE_RUN_STATUSES) rows"

definition mergeRunContext ::
    "UUID \<Rightarrow> json_props \<Rightarrow> wf_time \<Rightarrow> FridayWorkflowRunEntity list \<Rightarrow> FridayWorkflowRunEntity list" where
  "mergeRunContext i ctx nowIso =
     map (\<lambda>r. if wr_id r = i
              then r\<lparr>wr_context := Some (fold (\<lambda>(k, v) m. map_set m k v) ctx
                       (case wr_context r of None \<Rightarrow> [] | Some c \<Rightarrow> c)), wr_updatedAt := nowIso\<rparr>
              else r)"

definition setCompletionVerification ::
    "UUID \<Rightarrow> string \<Rightarrow> FridayWorkflowRunEntity list \<Rightarrow> FridayWorkflowRunEntity list" where
  "setCompletionVerification i label =
     map (\<lambda>r. if wr_id r = i then r\<lparr>wr_completionVerification := Some label\<rparr> else r)"

section \<open>Node attempts\<close>

record node_error =
  ne_code :: string
  ne_message :: string
  ne_retryable :: bool
  ne_details :: "json option"

record FridayWorkflowRunNodeEntity =
  na_id :: UUID
  na_runId :: UUID
  na_nodeId :: string
  na_attempt :: int
  na_attemptId :: UUID
  na_status :: NodeAttemptStatus
  na_satelliteId :: "UUID option"
  na_leaseOwner :: "string option"
  na_leaseExpiresAt :: "wf_time option"
  na_startedAt :: "wf_time option"
  na_finishedAt :: "wf_time option"
  na_input :: "json option"
  na_output :: "json option"
  na_error :: "node_error option"
  na_idempotencyKey :: string
  na_createdAt :: wf_time
  na_updatedAt :: wf_time

text \<open>The columns of \<open>UNIQUE(run_id, node_id, attempt)\<close>.\<close>

definition attempt_key :: "FridayWorkflowRunNodeEntity \<Rightarrow> UUID \<times> string \<times> int" where
  "attempt_key n = (na_runId n, na_nodeId n, na_attempt n)"

definition insertNodeAttempt ::
    "FridayWorkflowRunNodeEntity \<Rightarrow> FridayWorkflowRunNodeEntity list \<Rightarrow> FridayWorkflowRunNodeEntity list outcome" where
  "insertNodeAttempt entity rows =
     (if na_id entity \<in> na_id ` set rows then Inl (unique_failed ''workflow_run_nodes.id'')
      else if attempt_key entity \<in> attempt_key ` set rows
      then Inl (unique_failed ''workflow_run_nodes.run_id, workflow_run_nodes.node_id, workflow_run_nodes.attempt'')
      else Inr (rows @ [entity]))"

definition getNodeAttemptById :: "FridayWorkflowRunNodeEntity list \<Rightarrow> UUID \<Rightarrow> FridayWorkflowRunNodeEntity option" where
  "getNodeAttemptById rows i = List.find (\<lambda>n. na_id n = i) rows"

definition getNodeAttemptByAttemptId ::
    "FridayWorkflowRunNodeEntity list \<Rightarrow> UUID \<Rightarrow> FridayWorkflowRunNodeEntity option" where
  "getNodeAttemptByAttemptId rows attemptId = List.find (\<lambda>n. na_attemptId n = attemptId) rows"

definition attempts_of ::
    "FridayWorkflowRunNodeEntity list \<Rightarrow> UUID \<Rightarrow> string \<Rightarrow> FridayWorkflowRunNodeEntity list" where
  "attempts_of rows runId nodeId = filter (\<lambda>n. na_runId n = runId \<and> na_nodeId n = nodeId) rows"

definition getLatestAttempt ::
    "FridayWorkflowRunNodeEntity list \<Rightarrow> UUID \<Rightarrow> string \<Rightarrow> FridayWorkflowRunNodeEntity option" where
  "getLatestAttempt rows runId nodeId =
     (case sort_key (\<lambda>n. - na_attempt n) (attempts_of rows runId nodeId) of [] \<Rightarrow> None | n # _ \<Rightarrow> Some n)"

definition listAttemptsByNode ::
    "FridayWorkflowRunNodeEntity list \<Rightarrow> UUID \<Rightarrow> string \<Rightarrow> FridayWorkflowRunNodeEntity list" where
  "listAttemptsByNode rows runId nodeId = sort_key na_attempt (attempts_of rows runId nodeId)"

text \<open>Rows of the same creation time come in insertion order.\<close>

definition listNodesByRun ::
    "FridayWorkflowRunNodeEntity list \<Rightarrow> UUID \<Rightarrow> NodeAttemptStatus option \<Rightarrow> FridayWorkflowRunNodeEntity list" where
  "listNodesByRun rows runId status =
     sort_key na_createdAt
       (filter (\<lambda>n. na_runId n = runId \<and> (status = None \<or> status = Some (na_status n))) rows)"

record attempt_update =
  au_status :: NodeAttemptStatus
  au_satelliteId :: "UUID option"
  au_leaseOwner :: "string option"
  au_leaseExpiresAt :: "wf_time option"
  au_startedAt :: "wf_time option"
  au_finishedAt :: "wf_time option"
  au_output :: "json option"
  au_error :: "node_error option"
  au_nowIso :: wf_time

definition to_status :: "NodeAttemptStatus \<Rightarrow> wf_time \<Rightarrow> attempt_update" where
  "to_status status nowIso = \<lparr>au_status = status, au_satelliteId = None, au_leaseOwner = None,
     au_leaseExpiresAt = None, au_startedAt = None, au_finishedAt = None, au_output = None,
     au_error = None, au_nowIso = nowIso\<rparr>"

text \<open>The lease, the end, the output and the error are overwritten, by \<open>NULL\<close> if not given.\<close>

definition apply_update :: "attempt_update \<Rightarrow> FridayWorkflowRunNodeEntity \<Rightarrow> FridayWorkflowRunNodeEntity" where
  "apply_update u n =
     n\<lparr>na_status := au_status u, na_satelliteId := or_else (au_satelliteId u) (na_satelliteId n),
       na_leaseOwner := au_leaseOwner u, na_leaseExpiresAt := au_leaseExpiresAt u,
       na_startedAt := or_else (au_startedAt u) (na_startedAt n), na_finishedAt := au_finishedAt u,
       na_output := au_output u, na_error := au_error u, na_updatedAt := au_nowIso u\<rparr>"

definition updateNodeAttempt ::
    "UUID \<Rightarrow> attempt_update \<Rightarrow> FridayWorkflowRunNodeEntity list \<Rightarrow> FridayWorkflowRunNodeEntity list" where
  "updateNodeAttempt i u = map (\<lambda>n. if na_id n = i then apply_update u n else n)"

definition lease_free :: "wf_time \<Rightarrow> FridayWorkflowRunNodeEntity \<Rightarrow> bool" where
  "lease_free nowIso n \<longleftrightarrow>
     na_status n \<in> {N_Queued, N_Retrying} \<and> (\<forall>t\<in>set_option (na_leaseExpiresAt n). t < nowIso)"

text \<open>The compare-and-set by which an attempt is started: whether a row changed, and the rows.\<close>

definition acquireLease ::
    "UUID \<Rightarrow> string \<Rightarrow> wf_time \<Rightarrow> wf_time \<Rightarrow> FridayWorkflowRunNodeEntity list
     \<Rightarrow> bool \<times> FridayWorkflowRunNodeEntity list" where
  "acquireLease i owner expiresAt nowIso rows =
     (list_ex (\<lambda>n. na_id n = i \<and> lease_free nowIso n) rows,
      map (\<lambda>n. if na_id n = i \<and> lease_free nowIso n
               then n\<lparr>na_leaseOwner := Some owner, na_leaseExpiresAt := Some expiresAt, na_status := N_Running,
                      na_startedAt := or_else (na_startedAt n) (Some nowIso), na_updatedAt := nowIso\<rparr>
               else n) rows)"

definition listExpiredLeases ::
    "FridayWorkflowRunNodeEntity list \<Rightarrow> wf_time \<Rightarrow> FridayWorkflowRunNodeEntity list" where
  "listExpiredLeases rows nowIso =
     filter (\<lambda>n. na_status n = N_Running \<and> (case na_leaseExpiresAt n of None \<Rightarrow> False | Some t \<Rightarrow> t < nowIso)) rows"

definition PENDING_NODE_STATUSES :: "NodeAttemptStatus list" where
  "PENDING_NODE_STATUSES = [N_Queued, N_Running, N_Retrying, N_Blocked_Offline]"

definition cancelAllPendingNodes ::
    "UUID \<Rightarrow> wf_time \<Rightarrow> FridayWorkflowRunNodeEntity list \<Rightarrow> FridayWorkflowRunNodeEntity list" where
  "cancelAllPendingNodes runId nowIso =
     map (\<lambda>n. if na_runId n = runId \<and> na_status n \<in> set PENDING_NODE_STATUSES
              then n\<lparr>na_status := N_Cancelled, na_finishedAt := Some nowIso, na_updatedAt := nowIso\<rparr>
              else n)"

text \<open>The rows with the highest attempt number of their node, counted by status.\<close>

definition is_latest :: "FridayWorkflowRunNodeEntity list \<Rightarrow> FridayWorkflowRunNodeEntity \<Rightarrow> bool" where
  "is_latest rows n \<longleftrightarrow>
     list_all (\<lambda>m. na_runId m = na_runId n \<and> na_nodeId m = na_nodeId n \<longrightarrow> na_attempt m \<le> na_attempt n) rows"

definition countByStatus ::
    "FridayWorkflowRunNodeEntity list \<Rightarrow> UUID \<Rightarrow> NodeAttemptStatus \<Rightarrow> nat" where
  "countByStatus rows runId status =
     length (filter (\<lambda>n. na_runId n = runId \<and> is_latest rows n \<and> na_status n = status) rows)"

section \<open>Approval requests\<close>

datatype FridayWorkflowApprovalStatus = Ap_Pending | Ap_Approved | Ap_Rejected | Ap_Expired | Ap_Cancelled

record FridayWorkflowApprovalRequestEntity =
  ar_id :: UUID
  ar_workflowId :: UUID
  ar_workflowVersionId :: UUID
  ar_runId :: UUID
  ar_runNodeAttemptId :: UUID
  ar_nodeId :: string
  ar_approverUserId :: "UUID option"
  ar_approverRole :: "string option"
  ar_status :: FridayWorkflowApprovalStatus
  ar_requestPayload :: json_props
  ar_timeoutAt :: "wf_time option"
  ar_decidedAt :: "wf_time option"
  ar_decidedByUserId :: "UUID option"
  ar_decisionComment :: "string option"
  ar_createdAt :: wf_time
  ar_updatedAt :: wf_time

definition approval_insert ::
    "UUID list \<Rightarrow> FridayWorkflowApprovalRequestEntity \<Rightarrow> FridayWorkflowApprovalRequestEntity list
     \<Rightarrow> FridayWorkflowApprovalRequestEntity list outcome" where
  "approval_insert users request rows =
     (if ar_id request \<in> ar_id ` set rows then Inl (unique_failed ''workflow_approval_requests.id'')
      else if ar_runNodeAttemptId request \<in> ar_runNodeAttemptId ` set rows
      then Inl (unique_failed ''workflow_approval_requests.run_node_attempt_id'')
      else if (case ar_approverUserId request of None \<Rightarrow> False | Some u \<Rightarrow> u \<notin> set users) then Inl foreign_key_failed
      else Inr (rows @ [request]))"

definition approval_getById ::
    "FridayWorkflowApprovalRequestEntity list \<Rightarrow> UUID \<Rightarrow> FridayWorkflowApprovalRequestEntity option" where
  "approval_getById rows i = List.find (\<lambda>a. ar_id a = i) rows"

definition getByRunNodeAttemptId ::
    "FridayWorkflowApprovalRequestEntity list \<Rightarrow> UUID \<Rightarrow> FridayWorkflowApprovalRequestEntity option" where
  "getByRunNodeAttemptId rows i = List.find (\<lambda>a. ar_runNodeAttemptId a = i) rows"

text \<open>An empty approver or cursor filters nothing.\<close>

definition approval_listPending ::
    "FridayWorkflowApprovalRequestEntity list \<Rightarrow> UUID option \<Rightarrow> int option \<Rightarrow> wf_time option
     \<Rightarrow> FridayWorkflowApprovalRequestEntity list" where
  "approval_listPending rows approver limit cursor =
     sql_limit (case limit of None \<Rightarrow> 50 | Some n \<Rightarrow> n)
       (sort_key (\<lambda>a. - ar_createdAt a)
         (filter (\<lambda>a. ar_status a = Ap_Pending \<and>
            (approver \<in> {None, Some []} \<or> ar_approverUserId a = approver \<or> ar_approverUserId a = None) \<and>
            (case cursor of None \<Rightarrow> True | Some c \<Rightarrow> ar_createdAt a < c)) rows))"

text \<open>Compare-and-set on \<open>pending\<close>: the resolved row if there was one, and the rows.\<close>

definition resolvePending ::
    "UUID list \<Rightarrow> UUID \<Rightarrow> FridayWorkflowApprovalStatus \<Rightarrow> UUID \<Rightarrow> string option \<Rightarrow> wf_time
     \<Rightarrow> FridayWorkflowApprovalRequestEntity list
     \<Rightarrow> (FridayWorkflowApprovalRequestEntity option \<times> FridayWorkflowApprovalRequestEntity list) outcome" where
  "resolvePending users i status decidedBy comment nowIso rows =
     (let hit = (\<lambda>a. ar_id a = i \<and> ar_status a = Ap_Pending) in
      if \<not> list_ex hit rows then Inr (None, rows)
      else if decidedBy \<notin> set users then Inl foreign_key_failed
      else (let rows' = map (\<lambda>a. if hit a then a\<lparr>ar_status := status, ar_decidedAt := Some nowIso,
                         ar_decidedByUserId := Some decidedBy, ar_decisionComment := comment,
                         ar_updatedAt := nowIso\<rparr> else a) rows
            in Inr (approval_getById rows' i, rows')))"

definition approval_due :: "wf_time \<Rightarrow> FridayWorkflowApprovalRequestEntity \<Rightarrow> bool" where
  "approval_due nowIso a \<longleftrightarrow>
     ar_status a = Ap_Pending \<and> (case ar_timeoutAt a of None \<Rightarrow> False | Some t \<Rightarrow> t \<le> nowIso)"

definition approval_expirePending ::
    "wf_time \<Rightarrow> int \<Rightarrow> FridayWorkflowApprovalRequestEntity list
     \<Rightarrow> FridayWorkflowApprovalRequestEntity list \<times> FridayWorkflowApprovalRequestEntity list" where
  "approval_expirePending nowIso limit rows =
     (let ids = map ar_id (sql_limit limit
                  (sort_key (\<lambda>a. case ar_timeoutAt a of None \<Rightarrow> 0 | Some t \<Rightarrow> t) (filter (approval_due nowIso) rows)));
          rows' = map (\<lambda>a. if ar_id a \<in> set ids \<and> ar_status a = Ap_Pending
                         then a\<lparr>ar_status := Ap_Expired, ar_updatedAt := nowIso\<rparr> else a) rows
      in (filter (\<lambda>a. ar_id a \<in> set ids) rows', rows'))"

section \<open>Workflows and versions\<close>

record workflow_row =
  wf_id :: UUID
  wf_ownerUserId :: "UUID option"
  wf_publishedVersionNumber :: "int option"
  wf_isArchived :: bool
  wf_deletedAt :: "wf_time option"

text \<open>A version with what \<open>parseGraphJson\<close> makes of its \<open>graph_json\<close>: an error or a typed graph.\<close>

record version_row =
  vr_id :: UUID
  vr_workflowId :: UUID
  vr_versionNumber :: int
  vr_graph :: "FridayCompiledWorkflowGraphV2 outcome"
  vr_isPublished :: bool

definition getVersionById :: "version_row list \<Rightarrow> UUID \<Rightarrow> version_row option" where
  "getVersionById rows i = List.find (\<lambda>v. vr_id v = i) rows"

definition getPublishedVersion :: "workflow_row list \<Rightarrow> version_row list \<Rightarrow> UUID \<Rightarrow> version_row option" where
  "getPublishedVersion workflows rows workflowId =
     List.find (\<lambda>v. vr_workflowId v = workflowId \<and> vr_isPublished v \<and>
       list_ex (\<lambda>w. wf_id w = vr_workflowId v \<and> wf_publishedVersionNumber w = Some (vr_versionNumber v) \<and>
         wf_deletedAt w = None \<and> \<not> wf_isArchived w) workflows) rows"

section \<open>Lemmas\<close>

lemma updateNodeAttempt_ids [simp]: "map na_id (updateNodeAttempt i u rows) = map na_id rows"
  by (simp add: updateNodeAttempt_def apply_update_def)

lemma updateNodeAttempt_keys [simp]: "map attempt_key (updateNodeAttempt i u rows) = map attempt_key rows"
  by (simp add: updateNodeAttempt_def apply_update_def attempt_key_def)

lemma acquireLease_ids [simp]: "map na_id (snd (acquireLease i ow ex now rows)) = map na_id rows"
  by (simp add: acquireLease_def)

lemma acquireLease_keys [simp]: "map attempt_key (snd (acquireLease i ow ex now rows)) = map attempt_key rows"
  by (simp add: acquireLease_def attempt_key_def)

lemma cancelAllPendingNodes_ids [simp]: "map na_id (cancelAllPendingNodes runId now rows) = map na_id rows"
  by (simp add: cancelAllPendingNodes_def)

lemma cancelAllPendingNodes_keys [simp]:
  "map attempt_key (cancelAllPendingNodes runId now rows) = map attempt_key rows"
  by (simp add: cancelAllPendingNodes_def attempt_key_def)

lemma updateRunStatus_ids [simp]: "map wr_id (updateRunStatus i s now f md rows) = map wr_id rows"
  by (simp add: updateRunStatus_def)

lemma finalizeRun_ids [simp]: "map wr_id (finalizeRun i s now f rows) = map wr_id rows"
  by (simp add: finalizeRun_def)

lemma find_map_same:
  assumes "\<And>x. P (f x) = P x"
  shows "List.find P (map f xs) = map_option f (List.find P xs)"
  using assms by (induction xs) auto

lemma getRunById_update:
  "getRunById (updateRunStatus i s now f md rows) j =
     map_option (\<lambda>r. if j = i \<and> wr_status r \<noteq> s then hd (updateRunStatus i s now f md [r]) else r) (getRunById rows j)"
  by (induction rows) (auto simp: getRunById_def updateRunStatus_def)

lemma getRunById_finalize_terminal:
  "getRunById rows j = Some r \<Longrightarrow> isTerminal_run (wr_status r) \<Longrightarrow> getRunById (finalizeRun i s now f rows) j = Some r"
  by (induction rows)
    (auto simp: getRunById_def finalizeRun_def isTerminal_run_def RUN_TERMINAL_STATUSES_def split: if_splits)

end
