(* ===== verification/Workflow_Retry_Bridge.thy ===== *)
theory Workflow_Retry_Bridge
  imports Retry_Model
begin

text \<open>
  The retry bridge of the workflow engine,
  src/src/workflows/engine/friday-workflow-unified-retry-bridge.ts: the classification of an error
  code and message, the decision whether a failed attempt is tried again under the limits on
  attempts, on retries of a run and on consecutive failures of a node, and the bookkeeping behind it.
  Times are the values the clock function yields.
\<close>

section \<open>Classification\<close>

definition mentions :: "string \<Rightarrow> string list \<Rightarrow> bool" where
  "mentions s words = list_ex (str_includes s) words"

definition RATE_CODES :: "string list" where
  "RATE_CODES = [''RATE_LIMIT'', ''THROTTLED'', ''TOO_MANY_REQUESTS'']"

definition RATE_MESSAGES :: "string list" where
  "RATE_MESSAGES = [''429'', ''RATE LIMIT'', ''RATE_LIMIT'', ''TOO MANY REQUESTS'', ''THROTTL'']"

definition AUTH_CODES :: "string list" where
  "AUTH_CODES = [''AUTH'', ''UNAUTHORIZED'', ''FORBIDDEN'']"

definition AUTH_MESSAGES :: "string list" where
  "AUTH_MESSAGES = [''401'', ''403'', ''UNAUTHORIZED'', ''FORBIDDEN'', ''INVALID API KEY'', ''INVALID_API_KEY'']"

definition LOGIC_MESSAGES :: "string list" where
  "LOGIC_MESSAGES = [''NOT FOUND'', ''MISSING'', ''UNKNOWN NODE TYPE'', ''UNSUPPORTED'', ''INVALID'']"

definition classifyWorkflowError :: "string \<Rightarrow> string \<Rightarrow> FridayFailureCategory" where
  "classifyWorkflowError errorCode errorMessage =
     (let code = js_upper errorCode; msg = js_upper errorMessage in
      if mentions code RATE_CODES \<or> mentions msg RATE_MESSAGES then Rate_Limit
      else if mentions code AUTH_CODES \<or> mentions msg AUTH_MESSAGES then Auth
      else if mentions code [''SCHEMA'', ''VALIDATION'', ''PARSE'', ''INVALID_JSON''] then Logic
      else if mentions code [''QUALITY'', ''ACCEPTANCE''] \<or> mentions msg [''LOW SCORE'', ''QUALITY''] then Logic
      else if mentions code [''POLICY'', ''DENIED'', ''FORBIDDEN'', ''RULES''] then Auth
      else if mentions code [''BUDGET'', ''QUOTA'', ''COST''] then Rate_Limit
      else if mentions code [''TIMEOUT''] then Timeout
      else if mentions code [''TOOL'', ''NETWORK'', ''CONNECTION'', ''ECONNREFUSED''] then Transient
      else if mentions code [''NODE_EXECUTION_FAILED'']
      then (if mentions msg LOGIC_MESSAGES then Logic else Transient)
      else Unknown)"

section \<open>Decisions\<close>

record bridge_decision =
  bd_shouldRetry :: bool
  bd_category :: FridayFailureCategory
  bd_delayMs :: rat
  bd_attempt :: int
  bd_maxAttempts :: int
  bd_reason :: string
  bd_budgetExhausted :: bool
  bd_circuitOpen :: bool
  bd_escalateToDlq :: bool

record WorkflowRetryTrace =
  bt_runId :: UUID
  bt_nodeId :: string
  bt_attempt :: int
  bt_category :: FridayFailureCategory
  bt_decision :: bridge_decision
  bt_errorCode :: string
  bt_errorMessage :: "string option"
  bt_timestamp :: ISODateTime

record bridge_deps =
  br_maxAttempts :: int
  br_baseDelayMs :: rat
  br_retryBudgetMax :: int
  br_circuitBreakerThreshold :: int

definition default_bridge :: bridge_deps where
  "default_bridge = \<lparr>br_maxAttempts = 3, br_baseDelayMs = 1000, br_retryBudgetMax = 10,
     br_circuitBreakerThreshold = 5\<rparr>"

record bridge_state =
  budgetUsed :: "(UUID, int) js_map"
  consecutiveFailures :: "(string, int) js_map"
  bridge_traces :: "WorkflowRetryTrace list"
  dlq_escalations :: "WorkflowRetryTrace list"

definition count_at :: "(string, int) js_map \<Rightarrow> string \<Rightarrow> int" where
  "count_at m k = (case map_get m k of None \<Rightarrow> 0 | Some n \<Rightarrow> n)"

record bridge_query =
  bq_runId :: UUID
  bq_nodeId :: string
  bq_attempt :: int
  bq_errorCode :: string
  bq_errorMessage :: "string option"

definition refusal :: "bridge_deps \<Rightarrow> bridge_query \<Rightarrow> FridayFailureCategory \<Rightarrow> string \<Rightarrow> bool \<Rightarrow> bool \<Rightarrow> bridge_decision" where
  "refusal deps q category why exhausted open_circuit =
     \<lparr>bd_shouldRetry = False, bd_category = category, bd_delayMs = 0, bd_attempt = bq_attempt q,
      bd_maxAttempts = br_maxAttempts deps, bd_reason = why, bd_budgetExhausted = exhausted,
      bd_circuitOpen = open_circuit, bd_escalateToDlq = True\<rparr>"

definition bridge_decide :: "bridge_deps \<Rightarrow> bridge_state \<Rightarrow> bridge_query \<Rightarrow> bridge_decision" where
  "bridge_decide deps st q =
     (let category = classifyWorkflowError (bq_errorCode q) (case bq_errorMessage q of None \<Rightarrow> [] | Some m \<Rightarrow> m) in
      if bq_attempt q \<ge> br_maxAttempts deps then refusal deps q category ''max attempts reached'' False False
      else if count_at (consecutiveFailures st) (bq_nodeId q) \<ge> br_circuitBreakerThreshold deps
      then refusal deps q category ''circuit breaker open'' False True
      else if count_at (budgetUsed st) (bq_runId q) \<ge> br_retryBudgetMax deps
      then refusal deps q category ''retry budget exhausted'' True False
      else if category \<in> {Auth, Logic, Unknown}
      then refusal deps q category (category_name category @ '' errors are not retryable'') False False
      else \<lparr>bd_shouldRetry = True, bd_category = category,
            bd_delayMs = br_baseDelayMs deps * 2 powi (bq_attempt q - 1), bd_attempt = bq_attempt q,
            bd_maxAttempts = br_maxAttempts deps, bd_reason = ''retryable failure'',
            bd_budgetExhausted = False, bd_circuitOpen = False, bd_escalateToDlq = False\<rparr>)"

definition bridge_evaluateRetry ::
    "bridge_deps \<Rightarrow> ISODateTime \<Rightarrow> bridge_query \<Rightarrow> bridge_state \<Rightarrow> bridge_decision \<times> bridge_state" where
  "bridge_evaluateRetry deps nowIso q st =
     (let d = bridge_decide deps st q;
          trace = \<lparr>bt_runId = bq_runId q, bt_nodeId = bq_nodeId q, bt_attempt = bq_attempt q,
                   bt_category = bd_category d, bt_decision = d, bt_errorCode = bq_errorCode q,
                   bt_errorMessage = bq_errorMessage q, bt_timestamp = nowIso\<rparr>;
          st' = st\<lparr>bridge_traces := bridge_traces st @ [trace]\<rparr>
      in (d, if bd_shouldRetry d
             then st'\<lparr>budgetUsed := map_set (budgetUsed st) (bq_runId q) (count_at (budgetUsed st) (bq_runId q) + 1)\<rparr>
             else st'\<lparr>dlq_escalations := dlq_escalations st @ [trace]\<rparr>))"

definition bridge_recordAttempt :: "string \<Rightarrow> bool \<Rightarrow> bridge_state \<Rightarrow> bridge_state" where
  "bridge_recordAttempt nodeId success st =
     st\<lparr>consecutiveFailures := map_set (consecutiveFailures st) nodeId
          (if success then 0 else count_at (consecutiveFailures st) nodeId + 1)\<rparr>"

definition getRetryBudgetUsed :: "bridge_state \<Rightarrow> UUID \<Rightarrow> int" where
  "getRetryBudgetUsed st runId = count_at (budgetUsed st) runId"

definition getRetryBudgetRemaining :: "bridge_deps \<Rightarrow> bridge_state \<Rightarrow> UUID \<Rightarrow> int" where
  "getRetryBudgetRemaining deps st runId = br_retryBudgetMax deps - count_at (budgetUsed st) runId"

definition isCircuitOpen :: "bridge_deps \<Rightarrow> bridge_state \<Rightarrow> string \<Rightarrow> bool" where
  "isCircuitOpen deps st nodeId = (count_at (consecutiveFailures st) nodeId \<ge> br_circuitBreakerThreshold deps)"

definition bridge_getTraces :: "bridge_state \<Rightarrow> UUID \<Rightarrow> WorkflowRetryTrace list" where
  "bridge_getTraces st runId = filter (\<lambda>t. bt_runId t = runId) (bridge_traces st)"

definition bridge_reset :: "bridge_state \<Rightarrow> bridge_state" where
  "bridge_reset st = st\<lparr>budgetUsed := map_empty, consecutiveFailures := map_empty, bridge_traces := []\<rparr>"

definition bridge_init :: bridge_state where
  "bridge_init = \<lparr>budgetUsed = map_empty, consecutiveFailures = map_empty, bridge_traces = [], dlq_escalations = []\<rparr>"

section \<open>Runs of the bridge\<close>

datatype bridge_call = Evaluate ISODateTime bridge_query | Record_Attempt string bool

fun bridge_step :: "bridge_deps \<Rightarrow> bridge_call \<Rightarrow> bridge_state \<Rightarrow> bridge_state" where
  "bridge_step deps (Evaluate now q) st = snd (bridge_evaluateRetry deps now q st)"
| "bridge_step deps (Record_Attempt nodeId success) st = bridge_recordAttempt nodeId success st"

definition granted :: "bridge_state \<Rightarrow> UUID \<Rightarrow> WorkflowRetryTrace list" where
  "granted st runId = filter (\<lambda>t. bd_shouldRetry (bt_decision t)) (bridge_getTraces st runId)"

text \<open>The failures of a node since its last success, read off the calls.\<close>

fun failures_in_a_row :: "bridge_call list \<Rightarrow> string \<Rightarrow> int" where
  "failures_in_a_row [] nodeId = 0"
| "failures_in_a_row (Record_Attempt m success # calls) nodeId =
     (if m \<noteq> nodeId then failures_in_a_row calls nodeId
      else if success then 0 else failures_in_a_row calls nodeId + 1)"
| "failures_in_a_row (_ # calls) nodeId = failures_in_a_row calls nodeId"

section \<open>Lemmas\<close>

lemma count_at_set [simp]: "count_at (map_set m k n) k' = (if k' = k then n else count_at m k')"
  by (simp add: count_at_def)

lemma count_at_empty [simp]: "count_at map_empty k = 0"
  by (simp add: count_at_def)

lemma bridge_decide_granted:
  "bd_shouldRetry (bridge_decide deps st q) \<Longrightarrow>
     bq_attempt q < br_maxAttempts deps \<and>
     count_at (consecutiveFailures st) (bq_nodeId q) < br_circuitBreakerThreshold deps \<and>
     count_at (budgetUsed st) (bq_runId q) < br_retryBudgetMax deps \<and>
     bd_category (bridge_decide deps st q) \<in> {Rate_Limit, Timeout, Transient, Resource}"
  by (cases "classifyWorkflowError (bq_errorCode q) (case bq_errorMessage q of None \<Rightarrow> [] | Some m \<Rightarrow> m)")
    (auto simp: bridge_decide_def Let_def refusal_def split: if_splits)

lemma bridge_budget_counts:
  "int (length (granted (fold (bridge_step deps) calls bridge_init) r)) =
     count_at (budgetUsed (fold (bridge_step deps) calls bridge_init)) r"
proof (induction calls rule: rev_induct)
  case Nil
  show ?case by (simp add: granted_def bridge_getTraces_def bridge_init_def)
next
  case (snoc c calls)
  then show ?case
    by (cases c) (auto simp: granted_def bridge_getTraces_def bridge_evaluateRetry_def Let_def
        bridge_recordAttempt_def split: if_splits)
qed

lemma bridge_budget_le:
  "0 \<le> br_retryBudgetMax deps \<Longrightarrow>
     count_at (budgetUsed (fold (bridge_step deps) calls bridge_init)) r \<le> br_retryBudgetMax deps"
proof (induction calls rule: rev_induct)
  case Nil
  then show ?case by (simp add: bridge_init_def)
next
  case (snoc c calls)
  then have le: "count_at (budgetUsed (fold (bridge_step deps) calls bridge_init)) r \<le> br_retryBudgetMax deps"
    by simp
  show ?case
  proof (cases c)
    case (Evaluate now q)
    then show ?thesis
      using le bridge_decide_granted [of deps "fold (bridge_step deps) calls bridge_init" q]
      by (auto simp: bridge_evaluateRetry_def Let_def)
  next
    case (Record_Attempt nodeId success)
    then show ?thesis using le by (simp add: bridge_recordAttempt_def)
  qed
qed

lemma bridge_failures:
  "count_at (consecutiveFailures (fold (bridge_step deps) calls bridge_init)) n = failures_in_a_row (rev calls) n"
proof (induction calls rule: rev_induct)
  case Nil
  show ?case by (simp add: bridge_init_def)
next
  case (snoc c calls)
  then show ?case
    by (cases c) (auto simp: bridge_evaluateRetry_def Let_def bridge_recordAttempt_def)
qed

lemma bridge_trace_granted:
  assumes "t \<in> set (granted (fold (bridge_step deps) calls bridge_init) r)"
  shows "bt_attempt t < br_maxAttempts deps \<and> bt_category t \<in> {Rate_Limit, Timeout, Transient, Resource}"
  using assms
proof (induction calls rule: rev_induct)
  case Nil
  then show ?case by (simp add: granted_def bridge_getTraces_def bridge_init_def)
next
  case (snoc c calls)
  show ?case
  proof (cases "t \<in> set (granted (fold (bridge_step deps) calls bridge_init) r)")
    case True
    then show ?thesis by (rule snoc.IH)
  next
    case False
    with snoc.prems show ?thesis
      using bridge_decide_granted [of deps "fold (bridge_step deps) calls bridge_init"]
      by (cases c) (auto simp: granted_def bridge_getTraces_def bridge_evaluateRetry_def Let_def
          bridge_recordAttempt_def split: if_splits)
  qed
qed

section \<open>Properties\<close>



end
