(* ===== verification/Workflow_Execution.thy ===== *)
theory Workflow_Execution
  imports Workflow_Store Workflow_Retry_Bridge
begin

text \<open>
  The execution service of the workflow engine,
  src/src/workflows/services/friday-workflow-execution-service.ts, with the entry
  \<open>requestForNode\<close> of the approval service it calls. JavaScript runs the code between two \<open>await\<close>s
  without interruption, so every such stretch is one function of the state here, and a computation
  that waits is a value: a thread of the service, a task of the execution loop, or a phase of
  \<open>persistNodeFailure\<close>. What an awaited promise yields is the \<open>answer\<close> of an event; an answer
  a computation does not wait for changes nothing. An optional callback that is absent behaves as
  one that returns at once with no value, an absent dispatcher as one that answers \<open>hub\<close>.
  \<open>nowIso\<close> and \<open>Date.now\<close> read one clock, which stands still between two events.
\<close>

section \<open>Waiting computations\<close>

record retry_snapshot =
  rs_shouldRetry :: bool
  rs_delayMs :: rat
  rs_reason :: string

text \<open>What \<open>onRetryDecision\<close> returns: \<open>None\<close> for a value that is not of the expected kind.\<close>

record retry_override =
  ro_shouldRetry :: "bool option"
  ro_delayMs :: "rat option"
  ro_reason :: "string option"

datatype dispatch_result =
    To_Hub
  | Satellite_Dispatched UUID string wf_time
  | Dispatch_Blocked "UUID option" node_error

datatype answer =
    Returned
  | Threw wf_error
  | Overridden "retry_override option"
  | Dispatch_Answer dispatch_result
  | Output "json option"
  | Context_Patch "json_props option"

text \<open>\<open>persistNodeFailure\<close> between its awaits.\<close>

datatype failure_phase =
    Pf_Deciding node_error retry_snapshot
  | Pf_Decision_Event node_error retry_snapshot
  | Pf_Notifying node_error retry_snapshot
  | Pf_Notify_Event node_error retry_snapshot
  | Pf_Delaying node_error rat

text \<open>\<open>NodeExecutionOutcome\<close>.\<close>

datatype node_outcome =
    No_Completed "json option"
  | No_Failed node_error
  | No_Retrying node_error
  | No_Paused
  | No_Dispatched UUID
  | No_Blocked "UUID option" node_error
  | No_Skipped

text \<open>\<open>executeSingleNode\<close> between its awaits; a settled task has a result or was rejected.\<close>

datatype task_phase =
    Tk_Requesting "unit outcome"
  | Tk_Request_Error
  | Tk_Dispatching
  | Tk_Dispatch_Event node_outcome
  | Tk_Executing
  | Tk_Notify_Completed "json option"
  | Tk_Notify_Completed_Event "json option"
  | Tk_Failure failure_phase
  | Tk_Settled "node_outcome outcome"

record node_task =
  tk_attempt :: FridayWorkflowRunNodeEntity
  tk_phase :: task_phase

record node_context_entry =
  nc_output :: json_props
  nc_status :: "string option"
  nc_error :: "(string \<times> string) option"

type_synonym node_statuses = "(string, NodeAttemptStatus) js_map"
type_synonym node_contexts = "(string, node_context_entry) js_map"

record batch_flags =
  hasFailure :: bool
  hasPause :: bool
  hasBlocked :: bool

text \<open>\<open>executeRun\<close> between its awaits.\<close>

datatype loop_phase =
    Lp_Batch
  | Lp_Rejected FridayWorkflowRunNodeEntity string failure_phase "node_task list" batch_flags
  | Lp_Aborting
  | Lp_Aborting_Event
  | Lp_Paused_Event
  | Lp_Final_Notify
  | Lp_Final_Notify_Event
  | Lp_Finished_Event
  | Lp_Returned
  | Lp_Threw wf_error

text \<open>Who called \<open>scheduleRunExecution\<close>: the four callers that catch its rejection, or the remote report.\<close>

datatype loop_origin = By_Start | By_Resume | By_Retry | By_Recover | By_Remote

record run_loop =
  lp_plan :: FridayWorkflowExecutionPlan
  lp_origin :: loop_origin
  lp_signal :: nat
  lp_statuses :: node_statuses
  lp_contexts :: node_contexts
  lp_run :: "FridayWorkflowRunEntity option"
  lp_tasks :: "node_task list"
  lp_phase :: loop_phase

record FridayWorkflowStartRunInput =
  si_workflowId :: UUID
  si_workflowVersionId :: "UUID option"
  si_triggerType :: string
  si_triggerPayload :: "json_props option"
  si_startedByUserId :: "UUID option"
  si_startedBySatelliteId :: "UUID option"
  si_correlationId :: "string option"
  si_context :: "json_props option"
  si_dryRun :: bool
  si_proofRequired :: bool

text \<open>A start between its awaits: input, version, graph, run id and the instant read before.\<close>

record intake =
  in_input :: FridayWorkflowStartRunInput
  in_versionId :: UUID
  in_graph :: FridayCompiledWorkflowGraphV2
  in_runId :: UUID
  in_nowIso :: wf_time

record remote_report =
  rp_satelliteId :: UUID
  rp_runId :: UUID
  rp_nodeId :: string
  rp_attemptId :: UUID
  rp_attempt :: int
  rp_completed :: bool
  rp_output :: "json option"
  rp_error :: "node_error option"

datatype thread =
    T_Loop run_loop
  | T_Intake intake
  | T_Intake_Event intake
  | T_Drop_Plan UUID
  | T_Drop_Plan_Event UUID
  | T_Remote_Completed remote_report FridayWorkflowExecutionPlan
  | T_Remote_Completed_Event remote_report FridayWorkflowExecutionPlan
  | T_Remote_Failed FridayWorkflowRunNodeEntity failure_phase FridayWorkflowExecutionPlan

section \<open>State\<close>

record executor_call =
  xc_attempt :: UUID
  xc_runId :: UUID
  xc_nodeId :: string
  xc_attemptId :: UUID
  xc_input :: "json option"
  xc_context :: FridayExpressionContext
  xc_signal :: nat

text \<open>A completion notice: run, status, and the failed, completed and cancelled nodes.\<close>

record completion_notice =
  cn_runId :: UUID
  cn_status :: WorkflowRunStatus
  cn_failed :: nat
  cn_completed :: nat
  cn_cancelled :: nat

text \<open>
  The tables, the in-memory maps of the service, its waiting computations, and logs of what it has
  handed to the executor, published and notified. \<open>es_ids\<close> counts the ids drawn so far, \<open>es_next\<close>
  the threads and abort controllers made so far.
\<close>

record exec_state =
  es_users :: "UUID list"
  es_workflows :: "workflow_row list"
  es_versions :: "version_row list"
  es_runs :: "FridayWorkflowRunEntity list"
  es_nodes :: "FridayWorkflowRunNodeEntity list"
  es_approvals :: "FridayWorkflowApprovalRequestEntity list"
  es_artifacts :: "(UUID \<times> string \<times> json) list"
  activePlans :: "(UUID, FridayWorkflowExecutionPlan) js_map"
  activeAbortControllers :: "(UUID, nat) js_map"
  activeExecutions :: "UUID list"
  pendingExecutions :: "UUID list"
  es_threads :: "(nat, thread) js_map"
  es_aborted :: "nat list"
  es_calls :: "executor_call list"
  es_events :: "(string \<times> UUID) list"
  es_notices :: "completion_notice list"
  es_clock :: wf_time
  es_ids :: nat
  es_next :: nat

text \<open>The environment: the flag of the runtime, id generator, random numbers, number printing.\<close>

record exec_env =
  allowTestOnlyWorkflowRunExecution :: bool
  ev_id :: "nat \<Rightarrow> UUID"
  ev_random :: "UUID \<Rightarrow> rat"
  ev_num :: "js_number \<Rightarrow> string"

definition LEASE_TTL_MS :: wf_time where
  "LEASE_TTL_MS = 300000"

definition MAX_TIME :: wf_time where
  "MAX_TIME = 8640000000000000"

text \<open>\<open>new Date(t + ms).toISOString()\<close>, which throws outside the range of \<open>Date\<close>.\<close>

definition iso_after :: "wf_time \<Rightarrow> rat \<Rightarrow> wf_time outcome" where
  "iso_after t ms =
     (let x = \<lfloor>of_int t + ms\<rfloor> in
      if \<bar>x\<bar> > MAX_TIME then Inl (Error_Thrown ''Invalid time value'') else Inr x)"

definition publishEvent :: "string \<Rightarrow> UUID \<Rightarrow> exec_state \<Rightarrow> exec_state" where
  "publishEvent name runId st = st\<lparr>es_events := es_events st @ [(name, runId)]\<rparr>"

definition draw_id :: "exec_env \<Rightarrow> exec_state \<Rightarrow> UUID \<times> exec_state" where
  "draw_id env st = (ev_id env (es_ids st), st\<lparr>es_ids := Suc (es_ids st)\<rparr>)"

definition spawn :: "thread \<Rightarrow> exec_state \<Rightarrow> exec_state" where
  "spawn t st = st\<lparr>es_threads := map_set (es_threads st) (es_next st) t, es_next := Suc (es_next st)\<rparr>"

definition set_thread :: "nat \<Rightarrow> thread \<Rightarrow> exec_state \<Rightarrow> exec_state" where
  "set_thread tid t st = st\<lparr>es_threads := map_set (es_threads st) tid t\<rparr>"

definition end_thread :: "nat \<Rightarrow> exec_state \<Rightarrow> exec_state" where
  "end_thread tid st = st\<lparr>es_threads := map_del (es_threads st) tid\<rparr>"

definition set_run_status :: "UUID \<Rightarrow> WorkflowRunStatus \<Rightarrow> run_metadata \<Rightarrow> exec_state \<Rightarrow> exec_state" where
  "set_run_status runId status md st =
     st\<lparr>es_runs := updateRunStatus runId status (es_clock st) None md (es_runs st)\<rparr>"

definition finalize :: "UUID \<Rightarrow> WorkflowRunStatus \<Rightarrow> string \<Rightarrow> string \<Rightarrow> exec_state \<Rightarrow> exec_state" where
  "finalize runId status code message st =
     st\<lparr>es_runs := finalizeRun runId status (es_clock st)
          (if code = [] then None else Some \<lparr>fl_code = code, fl_message = message, fl_details = None\<rparr>) (es_runs st)\<rparr>"

definition set_attempt :: "UUID \<Rightarrow> attempt_update \<Rightarrow> exec_state \<Rightarrow> exec_state" where
  "set_attempt i u st = st\<lparr>es_nodes := updateNodeAttempt i u (es_nodes st)\<rparr>"

definition cancel_pending :: "UUID \<Rightarrow> exec_state \<Rightarrow> exec_state" where
  "cancel_pending runId st = st\<lparr>es_nodes := cancelAllPendingNodes runId (es_clock st) (es_nodes st)\<rparr>"

text \<open>The counts and the call of \<open>onRunCompleted\<close> that follow a final status.\<close>

definition notifyRunCompleted :: "UUID \<Rightarrow> WorkflowRunStatus \<Rightarrow> exec_state \<Rightarrow> exec_state" where
  "notifyRunCompleted runId status st =
     st\<lparr>es_notices := es_notices st @ [\<lparr>cn_runId = runId, cn_status = status,
          cn_failed = countByStatus (es_nodes st) runId N_Failed,
          cn_completed = countByStatus (es_nodes st) runId N_Completed,
          cn_cancelled = countByStatus (es_nodes st) runId N_Cancelled\<rparr>]\<rparr>"

section \<open>Contexts and statuses of a run\<close>

definition context_entry :: "node_context_entry \<Rightarrow> json" where
  "context_entry e =
     JsonObject ((''output'', JsonObject (nc_output e)) # opt_field ''status'' JsonString (nc_status e) @
       opt_field ''error'' (\<lambda>(c, m). JsonObject [(''code'', JsonString c), (''message'', JsonString m)]) (nc_error e))"

text \<open>An assignment to \<open>__proto__\<close> makes no own property.\<close>

definition buildExpressionContext :: "FridayWorkflowRunEntity \<Rightarrow> node_contexts \<Rightarrow> FridayExpressionContext" where
  "buildExpressionContext run contexts =
     \<lparr>ex_inputs = (case or_else (wr_triggerPayload run) (wr_context run) of None \<Rightarrow> [] | Some ps \<Rightarrow> ps),
      ex_steps = map (\<lambda>(nodeId, e). (nodeId, context_entry e))
        (filter (\<lambda>(nodeId, e). nodeId \<noteq> ''__proto__'') contexts),
      ex_env = None\<rparr>"

definition context_as_input :: "FridayExpressionContext \<Rightarrow> json" where
  "context_as_input ctx = JsonObject [(''inputs'', JsonObject (ex_inputs ctx)), (''steps'', JsonObject (ex_steps ctx))]"

definition computeRunDeadlineAt :: "FridayCompiledWorkflowGraphV2 \<Rightarrow> wf_time \<Rightarrow> wf_time option outcome" where
  "computeRunDeadlineAt graph startedAt =
     (case map_of (case cg_variables graph of None \<Rightarrow> [] | Some vs \<Rightarrow> vs) ''runTimeoutMs'' of
        Some (JsonNumber ms) \<Rightarrow> if ms \<le> 0 then Inr None else map_sum id Some (iso_after startedAt ms)
      | _ \<Rightarrow> Inr None)"

definition latest_attempts ::
    "FridayWorkflowRunNodeEntity list \<Rightarrow> UUID \<Rightarrow> (string, FridayWorkflowRunNodeEntity) js_map" where
  "latest_attempts rows runId =
     fold (\<lambda>n m. case map_get m (na_nodeId n) of
             None \<Rightarrow> map_set m (na_nodeId n) n
           | Some existing \<Rightarrow> if na_attempt n > na_attempt existing then map_set m (na_nodeId n) n else m)
       (listNodesByRun rows runId None) map_empty"

fun output_object :: "json_props \<Rightarrow> json option \<Rightarrow> json_props" where
  "output_object absent None = absent"
| "output_object absent (Some JsonNull) = absent"
| "output_object absent (Some (JsonObject ps)) = ps"
| "output_object absent (Some v) = [(''value'', v)]"

definition loadNodeContexts :: "FridayWorkflowRunNodeEntity list \<Rightarrow> UUID \<Rightarrow> node_contexts" where
  "loadNodeContexts rows runId =
     List.map_filter (\<lambda>(nodeId, node).
       if na_status node = N_Completed
       then Some (nodeId, \<lparr>nc_output = output_object [] (na_output node), nc_status = Some ''completed'', nc_error = None\<rparr>)
       else if na_status node = N_Failed
       then Some (nodeId, \<lparr>nc_output = output_object [(''status'', JsonString ''failed'')] (na_output node),
              nc_status = Some ''failed'',
              nc_error = Some (case na_error node of None \<Rightarrow> (''UNKNOWN'', ''Unknown error'')
                                | Some e \<Rightarrow> (ne_code e, ne_message e))\<rparr>)
       else None) (latest_attempts rows runId)"

definition load_statuses :: "FridayWorkflowRunNodeEntity list \<Rightarrow> UUID \<Rightarrow> node_statuses" where
  "load_statuses rows runId = map (\<lambda>(nodeId, node). (nodeId, na_status node)) (latest_attempts rows runId)"

section \<open>persistNodeFailure\<close>

definition normalizeRetryDecision :: "retry_override \<Rightarrow> retry_snapshot \<Rightarrow> retry_snapshot" where
  "normalizeRetryDecision override fallback =
     \<lparr>rs_shouldRetry = (case ro_shouldRetry override of None \<Rightarrow> rs_shouldRetry fallback | Some b \<Rightarrow> b),
      rs_delayMs = (case ro_delayMs override of None \<Rightarrow> rs_delayMs fallback
                    | Some d \<Rightarrow> if d \<ge> 0 then of_int \<lfloor>d\<rfloor> else rs_delayMs fallback),
      rs_reason = (case ro_reason override of None \<Rightarrow> rs_reason fallback
                   | Some r \<Rightarrow> if js_trim r = [] then rs_reason fallback else r)\<rparr>"

definition non_retryable :: retry_snapshot where
  "non_retryable = \<lparr>rs_shouldRetry = False, rs_delayMs = 0, rs_reason = ''non-retryable error''\<rparr>"

definition begin_failure ::
    "exec_env \<Rightarrow> FridayWorkflowRunNodeEntity \<Rightarrow> FridayNodeRetryPolicy option \<Rightarrow> node_error \<Rightarrow> failure_phase" where
  "begin_failure env attempt policy err =
     Pf_Deciding err
       (if ne_retryable err
        then (let d = evaluateRetry (ev_random env (na_id attempt)) (na_attempt attempt) policy (ne_code err)
              in \<lparr>rs_shouldRetry = wd_shouldRetry d, rs_delayMs = wd_delayMs d, rs_reason = wd_reason d\<rparr>)
        else non_retryable)"

definition clamp_decision :: "node_error \<Rightarrow> retry_snapshot \<Rightarrow> retry_snapshot" where
  "clamp_decision err d = (if \<not> ne_retryable err \<and> rs_shouldRetry d then non_retryable else d)"

datatype failure_next = Pf_Wait failure_phase | Pf_Done NodeAttemptStatus | Pf_Reject wf_error

definition commit_failure ::
    "FridayWorkflowRunNodeEntity \<Rightarrow> node_error \<Rightarrow> retry_snapshot \<Rightarrow> exec_state \<Rightarrow> failure_next \<times> exec_state" where
  "commit_failure attempt err d st =
     (if \<not> rs_shouldRetry d then Pf_Done N_Failed
      else if rs_delayMs d > 0 then Pf_Wait (Pf_Delaying err (min (rs_delayMs d) 30000))
      else Pf_Done N_Retrying,
      set_attempt (na_id attempt)
        ((to_status N_Failed (es_clock st))\<lparr>au_error := Some err, au_finishedAt := Some (es_clock st)\<rparr>) st)"

fun failure_step ::
    "FridayWorkflowRunNodeEntity \<Rightarrow> failure_phase \<Rightarrow> answer \<Rightarrow> exec_state \<Rightarrow> failure_next \<times> exec_state" where
  "failure_step a (Pf_Deciding e d) (Overridden (Some ov)) st =
     (Pf_Wait (Pf_Notifying e (clamp_decision e (normalizeRetryDecision ov d))), st)"
| "failure_step a (Pf_Deciding e d) (Overridden None) st = (Pf_Wait (Pf_Notifying e (clamp_decision e d)), st)"
| "failure_step a (Pf_Deciding e d) (Threw x) st =
     (Pf_Wait (Pf_Decision_Event e d), publishEvent ''workflow.pipeline.retry.error'' (na_runId a) st)"
| "failure_step a (Pf_Decision_Event e d) Returned st = (Pf_Wait (Pf_Notifying e (clamp_decision e d)), st)"
| "failure_step a (Pf_Decision_Event e d) (Threw x) st = (Pf_Reject x, st)"
| "failure_step a (Pf_Notifying e d) Returned st = commit_failure a e d st"
| "failure_step a (Pf_Notifying e d) (Threw x) st =
     (Pf_Wait (Pf_Notify_Event e d), publishEvent ''workflow.pipeline.retry.attempt_record_error'' (na_runId a) st)"
| "failure_step a (Pf_Notify_Event e d) Returned st = commit_failure a e d st"
| "failure_step a (Pf_Notify_Event e d) (Threw x) st = (Pf_Reject x, st)"
| "failure_step a (Pf_Delaying e ms) Returned st = (Pf_Done N_Retrying, st)"
| "failure_step a phase _ st = (Pf_Wait phase, st)"

section \<open>executeSingleNode\<close>

text \<open>The error an exception of a node becomes.\<close>

definition thrown_code :: "wf_error \<Rightarrow> string" where
  "thrown_code x =
     (case x of
        Domain_Thrown e _ \<Rightarrow> err_code e
      | Error_Thrown m \<Rightarrow> if take 5 m = ''NODE_'' then hd (js_split (CHR '':'') m) else ''NODE_EXECUTION_FAILED'')"

definition thrown_error :: "wf_error \<Rightarrow> node_error" where
  "thrown_error x =
     \<lparr>ne_code = thrown_code x, ne_message = error_message x,
      ne_retryable = (case x of
          Domain_Thrown _ retryable \<Rightarrow> retryable
        | Error_Thrown m \<Rightarrow> classifyWorkflowError (thrown_code x) m \<in> {Timeout, Transient, Rate_Limit}),
      ne_details = None\<rparr>"

definition plan_node :: "FridayWorkflowExecutionPlan \<Rightarrow> string \<Rightarrow> FridayWorkflowNode option" where
  "plan_node plan nodeId = map_get (ep_nodeMap plan) nodeId"

definition node_policy :: "FridayWorkflowExecutionPlan \<Rightarrow> string \<Rightarrow> FridayNodeRetryPolicy option" where
  "node_policy plan nodeId = Option.bind (plan_node plan nodeId) wn_retryPolicy"

definition is_approval :: "FridayWorkflowExecutionPlan \<Rightarrow> string \<Rightarrow> bool" where
  "is_approval plan nodeId = (map_option wn_type (plan_node plan nodeId) = Some ''approval'')"

definition fail_task ::
    "exec_env \<Rightarrow> FridayWorkflowExecutionPlan \<Rightarrow> FridayWorkflowRunNodeEntity \<Rightarrow> wf_error \<Rightarrow> task_phase" where
  "fail_task env plan attempt x =
     Tk_Failure (begin_failure env attempt (node_policy plan (na_nodeId attempt)) (thrown_error x))"

definition lease :: "UUID \<Rightarrow> exec_state \<Rightarrow> bool \<times> exec_state" where
  "lease i st =
     (let (acquired, rows) = acquireLease i ''hub'' (es_clock st + LEASE_TTL_MS) (es_clock st) (es_nodes st)
      in (acquired, st\<lparr>es_nodes := rows\<rparr>))"

fun config_text :: "json option \<Rightarrow> string option" where
  "config_text (Some (JsonString s)) = Some s"
| "config_text _ = None"

fun config_props :: "json option \<Rightarrow> json_props" where
  "config_props (Some (JsonObject ps)) = ps"
| "config_props _ = []"

definition DEFAULT_APPROVAL_TIMEOUT_MS :: rat where
  "DEFAULT_APPROVAL_TIMEOUT_MS = 86400000"

text \<open>\<open>requestForNode\<close> of the approval service for the configuration of an approval node.\<close>

definition requestForNode ::
    "exec_env \<Rightarrow> FridayWorkflowRunEntity \<Rightarrow> FridayWorkflowRunNodeEntity \<Rightarrow> json_props \<Rightarrow> exec_state
     \<Rightarrow> unit outcome \<times> exec_state" where
  "requestForNode env run attempt config st =
     (case iso_after (es_clock st)
             (case map_of config ''timeoutMs'' of Some (JsonNumber ms) \<Rightarrow> ms | _ \<Rightarrow> DEFAULT_APPROVAL_TIMEOUT_MS) of
        Inl e \<Rightarrow> (Inl e, st)
      | Inr timeoutAt \<Rightarrow>
          (let (i, st) = draw_id env st;
               entity = \<lparr>ar_id = i, ar_workflowId = wr_workflowId run, ar_workflowVersionId = wr_workflowVersionId run,
                 ar_runId = wr_id run, ar_runNodeAttemptId = na_id attempt, ar_nodeId = na_nodeId attempt,
                 ar_approverUserId = config_text (map_of config ''approverUserId''),
                 ar_approverRole = config_text (map_of config ''approverRole''), ar_status = Ap_Pending,
                 ar_requestPayload = config_props (map_of config ''requestPayload''),
                 ar_timeoutAt = Some timeoutAt, ar_decidedAt = None, ar_decidedByUserId = None,
                 ar_decisionComment = None, ar_createdAt = es_clock st, ar_updatedAt = es_clock st\<rparr>
           in case approval_insert (es_users st) entity (es_approvals st) of
                Inl e \<Rightarrow> (Inl e, st)
              | Inr rows \<Rightarrow> (Inr (), st\<lparr>es_approvals := rows\<rparr>)))"

text \<open>The stretch up to the first await: the approval branch, or the call of the dispatcher.\<close>

definition start_task ::
    "exec_env \<Rightarrow> FridayWorkflowExecutionPlan \<Rightarrow> FridayWorkflowRunEntity \<Rightarrow> FridayWorkflowRunNodeEntity
     \<Rightarrow> exec_state \<Rightarrow> task_phase \<times> exec_state" where
  "start_task env plan run attempt st =
     (if is_approval plan (na_nodeId attempt)
      then (let (acquired, st) = lease (na_id attempt) st in
            if \<not> acquired then (Tk_Settled (Inr No_Skipped), st)
            else (let st = set_attempt (na_id attempt) (to_status N_Blocked_Offline (es_clock st)) st;
                      (r, st) = requestForNode env run attempt
                        (case plan_node plan (na_nodeId attempt) of None \<Rightarrow> [] | Some n \<Rightarrow> wn_config n) st
                  in (Tk_Requesting r, st)))
      else (Tk_Dispatching, st))"

text \<open>Local execution on the hub: the lease, then the call of the executor.\<close>

definition start_local ::
    "FridayWorkflowRunEntity \<Rightarrow> node_contexts \<Rightarrow> nat \<Rightarrow> FridayWorkflowRunNodeEntity \<Rightarrow> exec_state
     \<Rightarrow> task_phase \<times> exec_state" where
  "start_local run contexts signal attempt st =
     (let (acquired, st) = lease (na_id attempt) st in
      if \<not> acquired then (Tk_Settled (Inr No_Skipped), st)
      else (Tk_Executing,
            st\<lparr>es_calls := es_calls st @ [\<lparr>xc_attempt = na_id attempt, xc_runId = na_runId attempt,
                 xc_nodeId = na_nodeId attempt, xc_attemptId = na_attemptId attempt,
                 xc_input = na_input attempt, xc_context = buildExpressionContext run contexts,
                 xc_signal = signal\<rparr>]\<rparr>))"

definition pause_for_approval :: "FridayWorkflowRunNodeEntity \<Rightarrow> exec_state \<Rightarrow> task_phase \<times> exec_state" where
  "pause_for_approval attempt st =
     (Tk_Settled (Inr No_Paused), set_run_status (na_runId attempt) R_Paused no_metadata st)"

definition settle_completed ::
    "FridayWorkflowRunNodeEntity \<Rightarrow> json option \<Rightarrow> exec_state \<Rightarrow> task_phase \<times> exec_state" where
  "settle_completed attempt out st =
     (Tk_Settled (Inr (No_Completed out)),
      case out of
        None \<Rightarrow> st
      | Some v \<Rightarrow> if v = JsonNull then st
          else st\<lparr>es_artifacts := es_artifacts st @ [(na_runId attempt, na_nodeId attempt, v)]\<rparr>)"

definition settle_failure :: "failure_phase \<Rightarrow> failure_next \<Rightarrow> task_phase" where
  "settle_failure phase next_phase =
     (let err = (case phase of Pf_Deciding e _ \<Rightarrow> e | Pf_Decision_Event e _ \<Rightarrow> e | Pf_Notifying e _ \<Rightarrow> e
                 | Pf_Notify_Event e _ \<Rightarrow> e | Pf_Delaying e _ \<Rightarrow> e)
      in case next_phase of
           Pf_Wait p \<Rightarrow> Tk_Failure p
         | Pf_Done status \<Rightarrow> Tk_Settled (Inr (if status = N_Retrying then No_Retrying err else No_Failed err))
         | Pf_Reject x \<Rightarrow> Tk_Settled (Inl x))"

fun dispatch_step ::
    "exec_env \<Rightarrow> run_loop \<Rightarrow> FridayWorkflowRunNodeEntity \<Rightarrow> dispatch_result \<Rightarrow> exec_state \<Rightarrow> task_phase \<times> exec_state" where
  "dispatch_step env lp a To_Hub st =
     (case lp_run lp of None \<Rightarrow> (Tk_Dispatching, st) | Some run \<Rightarrow> start_local run (lp_contexts lp) (lp_signal lp) a st)"
| "dispatch_step env lp a (Satellite_Dispatched sat owner expiresAt) st =
     (Tk_Dispatch_Event (No_Dispatched sat),
      publishEvent ''workflow.node.started'' (na_runId a)
        (set_attempt (na_id a) ((to_status N_Running (es_clock st))\<lparr>au_satelliteId := Some sat, au_leaseOwner := Some owner,
           au_leaseExpiresAt := Some expiresAt, au_startedAt := Some (es_clock st)\<rparr>) st))"
| "dispatch_step env lp a (Dispatch_Blocked sat err) st =
     (Tk_Dispatch_Event (No_Blocked sat err),
      publishEvent ''workflow.node.blocked_offline'' (na_runId a)
        (set_attempt (na_id a) ((to_status N_Blocked_Offline (es_clock st))\<lparr>au_satelliteId := sat, au_error := Some err\<rparr>) st))"

fun task_step ::
    "exec_env \<Rightarrow> run_loop \<Rightarrow> FridayWorkflowRunNodeEntity \<Rightarrow> task_phase \<Rightarrow> answer \<Rightarrow> exec_state
     \<Rightarrow> task_phase \<times> exec_state" where
  "task_step env lp a (Tk_Requesting (Inr u)) Returned st = pause_for_approval a st"
| "task_step env lp a (Tk_Requesting (Inl e)) Returned st =
     (Tk_Request_Error, publishEvent ''workflow.approval.error'' (na_runId a) st)"
| "task_step env lp a Tk_Request_Error Returned st = pause_for_approval a st"
| "task_step env lp a Tk_Request_Error (Threw x) st = (fail_task env (lp_plan lp) a x, st)"
| "task_step env lp a Tk_Dispatching (Dispatch_Answer r) st = dispatch_step env lp a r st"
| "task_step env lp a Tk_Dispatching (Threw x) st = (fail_task env (lp_plan lp) a x, st)"
| "task_step env lp a (Tk_Dispatch_Event r) Returned st = (Tk_Settled (Inr r), st)"
| "task_step env lp a (Tk_Dispatch_Event r) (Threw x) st = (fail_task env (lp_plan lp) a x, st)"
| "task_step env lp a Tk_Executing (Output out) st =
     (Tk_Notify_Completed out,
      set_attempt (na_id a) ((to_status N_Completed (es_clock st))\<lparr>au_output := out, au_finishedAt := Some (es_clock st)\<rparr>) st)"
| "task_step env lp a Tk_Executing (Threw x) st = (fail_task env (lp_plan lp) a x, st)"
| "task_step env lp a (Tk_Notify_Completed out) Returned st = settle_completed a out st"
| "task_step env lp a (Tk_Notify_Completed out) (Threw x) st =
     (Tk_Notify_Completed_Event out, publishEvent ''workflow.pipeline.retry.attempt_record_error'' (na_runId a) st)"
| "task_step env lp a (Tk_Notify_Completed_Event out) Returned st = settle_completed a out st"
| "task_step env lp a (Tk_Notify_Completed_Event out) (Threw x) st = (fail_task env (lp_plan lp) a x, st)"
| "task_step env lp a (Tk_Failure p) ans st =
     (let (n, st') = failure_step a p ans st in (settle_failure p n, st'))"
| "task_step env lp a phase _ st = (phase, st)"

end
