(* ===== verification/Workflow_Runs.thy ===== *)
theory Workflow_Runs
  imports Workflow_Execution
begin

text \<open>
  The execution loop and the operations of the execution service,
  src/src/workflows/services/friday-workflow-execution-service.ts, over the state and the tasks of
  \<open>Workflow_Execution\<close>, and the service as a transition system: an event is a call of an operation or
  the answer a waiting computation gets.
\<close>

section \<open>Attempt records\<close>

definition new_attempt ::
    "UUID \<Rightarrow> UUID \<Rightarrow> UUID \<Rightarrow> string \<Rightarrow> int \<Rightarrow> NodeAttemptStatus \<Rightarrow> json option \<Rightarrow> wf_time option \<Rightarrow> wf_time
     \<Rightarrow> FridayWorkflowRunNodeEntity" where
  "new_attempt i attemptId runId nodeId number status inp finishedAt now =
     \<lparr>na_id = i, na_runId = runId, na_nodeId = nodeId, na_attempt = number, na_attemptId = attemptId,
      na_status = status, na_satelliteId = None, na_leaseOwner = None, na_leaseExpiresAt = None,
      na_startedAt = None, na_finishedAt = finishedAt, na_input = inp, na_output = None, na_error = None,
      na_idempotencyKey = generateIdempotencyKey runId nodeId number, na_createdAt = now, na_updatedAt = now\<rparr>"

text \<open>Two ids drawn in the order the code draws them, then the insertion.\<close>

definition insert_attempt ::
    "(UUID \<Rightarrow> UUID \<Rightarrow> FridayWorkflowRunNodeEntity) \<Rightarrow> exec_env \<Rightarrow> exec_state
     \<Rightarrow> (FridayWorkflowRunNodeEntity \<times> exec_state) outcome" where
  "insert_attempt mk env st =
     (let (first_id, st) = draw_id env st; (second_id, st) = draw_id env st; entity = mk first_id second_id in
      case insertNodeAttempt entity (es_nodes st) of
        Inl e \<Rightarrow> Inl e
      | Inr rows \<Rightarrow> Inr (entity, st\<lparr>es_nodes := rows\<rparr>))"

text \<open>
  Dead-ended nodes get a cancelled attempt, unless they have one already; a failing insertion undoes
  the transaction.
\<close>

fun cancelDeadEndedNodes ::
    "exec_env \<Rightarrow> UUID \<Rightarrow> FridayExpressionContext \<Rightarrow> string list \<Rightarrow> node_statuses \<Rightarrow> exec_state
     \<Rightarrow> (node_statuses \<times> exec_state) outcome" where
  "cancelDeadEndedNodes env runId ctx [] statuses st = Inr (statuses, st)"
| "cancelDeadEndedNodes env runId ctx (nodeId # rest) statuses st =
     (if map_get statuses nodeId \<noteq> None then cancelDeadEndedNodes env runId ctx rest statuses st
      else case getLatestAttempt (es_nodes st) runId nodeId of
        Some latest \<Rightarrow> cancelDeadEndedNodes env runId ctx rest (map_set statuses nodeId (na_status latest)) st
      | None \<Rightarrow>
          (case insert_attempt (\<lambda>attemptId i. new_attempt i attemptId runId nodeId 1 N_Cancelled
                  (Some (context_as_input ctx)) (Some (es_clock st)) (es_clock st)) env st of
             Inl e \<Rightarrow> Inl e
           | Inr (entity, st') \<Rightarrow>
               cancelDeadEndedNodes env runId ctx rest (map_set statuses nodeId N_Cancelled) st'))"

text \<open>
  A waiting \<open>retrying\<close> attempt is reused; any other ready node gets the next number. The look-ups use
  the committed rows, not those of the transaction.
\<close>

fun prepareNodeAttempts ::
    "exec_env \<Rightarrow> UUID \<Rightarrow> FridayExpressionContext \<Rightarrow> FridayWorkflowRunNodeEntity list \<Rightarrow> node_statuses \<Rightarrow> string list
     \<Rightarrow> exec_state \<Rightarrow> (FridayWorkflowRunNodeEntity list \<times> exec_state) outcome" where
  "prepareNodeAttempts env runId ctx committed statuses [] st = Inr ([], st)"
| "prepareNodeAttempts env runId ctx committed statuses (nodeId # rest) st =
     (let latest = getLatestAttempt committed runId nodeId;
          this = (case latest of
            Some existing \<Rightarrow>
              if map_get statuses nodeId = Some N_Retrying \<and> na_status existing = N_Retrying
              then Inr (existing, st)
              else insert_attempt (\<lambda>attemptId i. new_attempt i attemptId runId nodeId (na_attempt existing + 1)
                     N_Queued (Some (context_as_input ctx)) None (es_clock st)) env st
          | None \<Rightarrow> insert_attempt (\<lambda>attemptId i. new_attempt i attemptId runId nodeId 1
                     N_Queued (Some (context_as_input ctx)) None (es_clock st)) env st)
      in case this of
           Inl e \<Rightarrow> Inl e
         | Inr (entity, st') \<Rightarrow>
             map_sum id (\<lambda>(es, st''). (entity # es, st''))
               (prepareNodeAttempts env runId ctx committed statuses rest st'))"

section \<open>The loop up to the next batch\<close>

datatype loop_exit = Exit_Crash wf_error | Exit_Finalize | Exit_Batch FridayWorkflowRunEntity "FridayWorkflowRunNodeEntity list"

definition null_run :: wf_error where
  "null_run = Error_Thrown (''Cannot read properties of null (reading '' @ squoted ''status'' @ '')'')"

definition unscheduled :: "FridayDagAdjacency \<Rightarrow> node_statuses \<Rightarrow> nat" where
  "unscheduled adj statuses = length (filter (\<lambda>n. map_get statuses n = None) (topoOrder adj))"

lemma cancelDeadEndedNodes_statuses:
  "cancelDeadEndedNodes env runId ctx ns statuses st = Inr (statuses', st') \<Longrightarrow>
     (map_get statuses' n = None) = (map_get statuses n = None \<and> n \<notin> set ns)"
  by (induction env runId ctx ns statuses st rule: cancelDeadEndedNodes.induct)
    (auto split: if_splits option.splits sum.splits prod.splits)

lemma dead_ended_unscheduled:
  "n \<in> set (deadEndedNodes (condition_tick num adj statuses graph ctx)) \<Longrightarrow>
     n \<in> set (topoOrder adj) \<and> map_get statuses n = None"
  by (auto simp: condition_tick_def evaluateSchedulingResult_def Let_def place_node_def split: option.splits if_splits)

lemma unscheduled_decreases:
  assumes "cancelDeadEndedNodes env runId ctx (deadEndedNodes (condition_tick num adj statuses graph ctx')) statuses st
      = Inr (statuses', st')"
    and "deadEndedNodes (condition_tick num adj statuses graph ctx') \<noteq> []"
  shows "unscheduled adj statuses' < unscheduled adj statuses"
proof -
  obtain n where n: "n \<in> set (deadEndedNodes (condition_tick num adj statuses graph ctx'))"
    using assms(2) hd_in_set by blast
  note d = dead_ended_unscheduled [OF n]
  have keep: "map_get statuses' m = None \<longleftrightarrow> map_get statuses m = None \<and>
      m \<notin> set (deadEndedNodes (condition_tick num adj statuses graph ctx'))" for m
    by (rule cancelDeadEndedNodes_statuses [OF assms(1)])
  have "filter (\<lambda>m. map_get statuses' m = None) (topoOrder adj) =
      filter (\<lambda>m. map_get statuses' m = None) (filter (\<lambda>m. map_get statuses m = None) (topoOrder adj))"
    unfolding filter_filter keep by (rule filter_cong) auto
  then show ?thesis
    using d n length_filter_less [of n "filter (\<lambda>m. map_get statuses m = None) (topoOrder adj)"
        "\<lambda>m. map_get statuses' m = None"]
    unfolding unscheduled_def by (simp add: keep)
qed

text \<open>
  The loop of \<open>executeRun\<close> from its head to the next batch or to its exit, with the statuses and the
  state it leaves. Each round that only gives up nodes leaves fewer nodes without a status.
\<close>

function loop_top ::
    "exec_env \<Rightarrow> FridayWorkflowExecutionPlan \<Rightarrow> node_contexts \<Rightarrow> node_statuses \<Rightarrow> exec_state
     \<Rightarrow> loop_exit \<times> node_statuses \<times> exec_state" where
  "loop_top env plan contexts statuses st =
     (case getRunById (es_runs st) (ep_runId plan) of
        None \<Rightarrow> (Exit_Crash null_run, statuses, st)
      | Some run \<Rightarrow>
          if wr_status run \<in> {R_Cancelled, R_Paused, R_Pausing} then (Exit_Finalize, statuses, st)
          else (let ctx = buildExpressionContext run contexts;
                    tick = condition_tick (ev_num env) (ep_adjacency plan) statuses (ep_compiledGraph plan) ctx
                in case cancelDeadEndedNodes env (ep_runId plan) ctx (deadEndedNodes tick) statuses st of
                     Inl e \<Rightarrow> (Exit_Crash e, statuses, st)
                   | Inr (statuses', st') \<Rightarrow>
                       if readyNodes tick = []
                       then if deadEndedNodes tick = [] then (Exit_Finalize, statuses', st')
                            else loop_top env plan contexts statuses' st'
                       else (case prepareNodeAttempts env (ep_runId plan) ctx (es_nodes st') statuses' (readyNodes tick) st' of
                               Inl e \<Rightarrow> (Exit_Crash e, statuses', st')
                             | Inr (attempts, st'') \<Rightarrow> (Exit_Batch run attempts, statuses', st''))))"
  by pat_completeness auto
termination
  by (relation "measure (\<lambda>(env, plan, contexts, statuses, st). unscheduled (ep_adjacency plan) statuses)")
    (auto intro: unscheduled_decreases)

declare loop_top.simps [simp del]

text \<open>The first stretches of the tasks of a batch, in order.\<close>

fun start_tasks ::
    "exec_env \<Rightarrow> FridayWorkflowExecutionPlan \<Rightarrow> FridayWorkflowRunEntity \<Rightarrow> FridayWorkflowRunNodeEntity list
     \<Rightarrow> exec_state \<Rightarrow> node_task list \<times> exec_state" where
  "start_tasks env plan run [] st = ([], st)"
| "start_tasks env plan run (a # as) st =
     (let (phase, st) = start_task env plan run a st; (ts, st) = start_tasks env plan run as st
      in (\<lparr>tk_attempt = a, tk_phase = phase\<rparr> # ts, st))"

section \<open>The end of the loop\<close>

definition set_loop :: "nat \<Rightarrow> run_loop \<Rightarrow> exec_state \<Rightarrow> exec_state" where
  "set_loop tid lp st = set_thread tid (T_Loop lp) st"

text \<open>The last part of \<open>finalizeRunStatus\<close>.\<close>

definition finish_run :: "nat \<Rightarrow> run_loop \<Rightarrow> exec_state \<Rightarrow> exec_state" where
  "finish_run tid lp st =
     (let runId = ep_runId (lp_plan lp) in
      case getRunById (es_runs st) runId of
        Some run \<Rightarrow>
          if wr_status run \<in> {R_Completed, R_Failed, R_Cancelled}
          then set_loop tid (lp\<lparr>lp_phase := Lp_Finished_Event\<rparr>)
                 (publishEvent ''workflow.run.finished'' runId
                   (st\<lparr>activePlans := map_del (activePlans st) runId,
                       activeAbortControllers := map_del (activeAbortControllers st) runId\<rparr>))
          else set_loop tid (lp\<lparr>lp_phase := Lp_Returned\<rparr>) st
      | None \<Rightarrow> set_loop tid (lp\<lparr>lp_phase := Lp_Returned\<rparr>) st)"

definition finalizeRunStatus :: "nat \<Rightarrow> run_loop \<Rightarrow> exec_state \<Rightarrow> exec_state" where
  "finalizeRunStatus tid lp st =
     (let runId = ep_runId (lp_plan lp); count = countByStatus (es_nodes st) runId in
      case getRunById (es_runs st) runId of
        None \<Rightarrow> set_loop tid (lp\<lparr>lp_phase := Lp_Threw null_run\<rparr>) st
      | Some run \<Rightarrow>
          if wr_status run \<noteq> R_Running then finish_run tid lp st
          else if count N_Running > 0 \<or> count N_Queued > 0 \<or> count N_Retrying > 0
          then set_loop tid (lp\<lparr>lp_phase := Lp_Returned\<rparr>) st
          else if count N_Blocked_Offline > 0
          then set_loop tid (lp\<lparr>lp_phase := Lp_Paused_Event\<rparr>)
                 (publishEvent ''workflow.run.paused'' runId (set_run_status runId R_Paused no_metadata st))
          else (let finalStatus = (if count N_Failed > 0 then R_Failed else R_Completed)
                in set_loop tid (lp\<lparr>lp_phase := Lp_Final_Notify\<rparr>)
                     (notifyRunCompleted runId finalStatus
                       (if finalStatus = R_Failed
                        then finalize runId R_Failed ''WORKFLOW_NODES_FAILED'' (show_nat (count N_Failed) @ '' node(s) failed'') st
                        else finalize runId R_Completed [] [] st))))"

text \<open>From the head of the loop to the start of a batch, or to \<open>finalizeRunStatus\<close>.\<close>

definition run_loop_from_top :: "exec_env \<Rightarrow> nat \<Rightarrow> run_loop \<Rightarrow> exec_state \<Rightarrow> exec_state" where
  "run_loop_from_top env tid lp st =
     (case loop_top env (lp_plan lp) (lp_contexts lp) (lp_statuses lp) st of
        (Exit_Crash e, statuses, st') \<Rightarrow> set_loop tid (lp\<lparr>lp_statuses := statuses, lp_phase := Lp_Threw e\<rparr>) st'
      | (Exit_Finalize, statuses, st') \<Rightarrow> finalizeRunStatus tid (lp\<lparr>lp_statuses := statuses\<rparr>) st'
      | (Exit_Batch run attempts, statuses, st') \<Rightarrow>
          (let (tasks, st'') = start_tasks env (lp_plan lp) run attempts st'
           in set_loop tid (lp\<lparr>lp_statuses := statuses, lp_run := Some run, lp_tasks := tasks, lp_phase := Lp_Batch\<rparr>) st''))"

text \<open>The beginning of \<open>executeRun\<close>: abort controller, status, contexts and statuses from the tables.\<close>

definition begin_run :: "exec_env \<Rightarrow> nat \<Rightarrow> FridayWorkflowExecutionPlan \<Rightarrow> loop_origin \<Rightarrow> exec_state \<Rightarrow> exec_state" where
  "begin_run env tid plan origin st =
     (let runId = ep_runId plan;
          (signal, st) = (case map_get (activeAbortControllers st) runId of
             Some c \<Rightarrow> (c, st)
           | None \<Rightarrow> (es_next st, st\<lparr>activeAbortControllers := map_set (activeAbortControllers st) runId (es_next st),
                                   es_next := Suc (es_next st)\<rparr>));
          lp = \<lparr>lp_plan = plan, lp_origin = origin, lp_signal = signal, lp_statuses = map_empty,
                lp_contexts = map_empty, lp_run = None, lp_tasks = [], lp_phase = Lp_Returned\<rparr>;
          crash = (\<lambda>e. set_loop tid (lp\<lparr>lp_phase := Lp_Threw e\<rparr>) st);
          enter = (\<lambda>st. run_loop_from_top env tid
            (lp\<lparr>lp_statuses := load_statuses (es_nodes st) runId, lp_contexts := loadNodeContexts (es_nodes st) runId\<rparr>) st)
      in case getRunById (es_runs st) runId of
           None \<Rightarrow> crash null_run
         | Some run \<Rightarrow>
             if wr_status run = R_Running then enter st
             else case assertTransition_run (wr_status run) R_Running of
                    Inl e \<Rightarrow> crash (Domain_Thrown e False)
                  | Inr _ \<Rightarrow> enter (set_run_status runId R_Running no_metadata st))"

definition scheduleRunExecution ::
    "exec_env \<Rightarrow> FridayWorkflowExecutionPlan \<Rightarrow> loop_origin \<Rightarrow> exec_state \<Rightarrow> exec_state" where
  "scheduleRunExecution env plan origin st =
     (let runId = ep_runId plan in
      if runId \<in> set (activeExecutions st)
      then st\<lparr>pendingExecutions := List.insert runId (pendingExecutions st)\<rparr>
      else begin_run env (es_next st) plan origin
             (st\<lparr>activeExecutions := List.insert runId (activeExecutions st),
                 pendingExecutions := removeAll runId (pendingExecutions st), es_next := Suc (es_next st)\<rparr>))"

text \<open>After \<open>executeRun\<close> returned: another round if one was asked for meanwhile, else the end.\<close>

definition release_run :: "nat \<Rightarrow> UUID \<Rightarrow> exec_state \<Rightarrow> exec_state" where
  "release_run tid runId st =
     end_thread tid (st\<lparr>activeExecutions := removeAll runId (activeExecutions st),
                        pendingExecutions := removeAll runId (pendingExecutions st)\<rparr>)"

definition run_returned :: "exec_env \<Rightarrow> nat \<Rightarrow> run_loop \<Rightarrow> exec_state \<Rightarrow> exec_state" where
  "run_returned env tid lp st =
     (let runId = ep_runId (lp_plan lp) in
      if runId \<in> set (pendingExecutions st)
      then begin_run env tid (lp_plan lp) (lp_origin lp) (st\<lparr>pendingExecutions := removeAll runId (pendingExecutions st)\<rparr>)
      else release_run tid runId st)"

definition crash_message :: "loop_origin \<Rightarrow> string" where
  "crash_message origin = (case origin of
      By_Start \<Rightarrow> ''Unhandled execution error: '' | By_Resume \<Rightarrow> ''Resume execution error: ''
    | By_Retry \<Rightarrow> ''Retry execution error: '' | By_Recover \<Rightarrow> ''Recovery execution error: '' | By_Remote \<Rightarrow> [])"

text \<open>After \<open>executeRun\<close> was rejected: the handler of the caller, which a remote report does not have.\<close>

definition run_threw :: "nat \<Rightarrow> run_loop \<Rightarrow> wf_error \<Rightarrow> exec_state \<Rightarrow> exec_state" where
  "run_threw tid lp e st =
     (let runId = ep_runId (lp_plan lp); st = release_run tid runId st in
      if lp_origin lp = By_Remote then st
      else notifyRunCompleted runId R_Failed
             (finalize runId R_Failed ''WORKFLOW_EXECUTION_ERROR'' (crash_message (lp_origin lp) @ error_message e)
               (publishEvent ''workflow.run.error'' runId st)))"

section \<open>Results of a batch\<close>

type_synonym batch_view = "node_statuses \<times> node_contexts \<times> batch_flags"

definition text_of :: "string \<Rightarrow> json" where
  "text_of s = JsonString s"

fun apply_outcome :: "string \<Rightarrow> node_outcome \<Rightarrow> batch_view \<Rightarrow> batch_view" where
  "apply_outcome nodeId (No_Completed out) (statuses, contexts, flags) =
     (map_set statuses nodeId N_Completed,
      if out \<in> {None, Some JsonNull} then contexts
      else map_set contexts nodeId \<lparr>nc_output = output_object [] out, nc_status = Some ''completed'', nc_error = None\<rparr>,
      flags)"
| "apply_outcome nodeId (No_Failed err) (statuses, contexts, flags) =
     (map_set statuses nodeId N_Failed,
      map_set contexts nodeId \<lparr>nc_output = [(''status'', text_of ''failed'')], nc_status = Some ''failed'',
        nc_error = Some (ne_code err, ne_message err)\<rparr>,
      flags\<lparr>hasFailure := True\<rparr>)"
| "apply_outcome nodeId (No_Retrying err) (statuses, contexts, flags) = (map_del statuses nodeId, contexts, flags)"
| "apply_outcome nodeId No_Paused (statuses, contexts, flags) =
     (map_set statuses nodeId N_Blocked_Offline, contexts, flags\<lparr>hasPause := True\<rparr>)"
| "apply_outcome nodeId (No_Dispatched sat) (statuses, contexts, flags) = (map_set statuses nodeId N_Running, contexts, flags)"
| "apply_outcome nodeId (No_Blocked sat err) (statuses, contexts, flags) =
     (map_set statuses nodeId N_Blocked_Offline, contexts, flags\<lparr>hasBlocked := True\<rparr>)"
| "apply_outcome nodeId No_Skipped view = view"

text \<open>The settled results up to the first rejected one, and the rest behind it.\<close>

fun scan_results ::
    "node_task list \<Rightarrow> batch_view \<Rightarrow> batch_view \<times> (FridayWorkflowRunNodeEntity \<times> wf_error \<times> node_task list) option" where
  "scan_results [] view = (view, None)"
| "scan_results (t # ts) view =
     (case tk_phase t of
        Tk_Settled (Inl e) \<Rightarrow> (view, Some (tk_attempt t, e, ts))
      | Tk_Settled (Inr r) \<Rightarrow> scan_results ts (apply_outcome (na_nodeId (tk_attempt t)) r view)
      | _ \<Rightarrow> scan_results ts view)"

definition put_view :: "batch_view \<Rightarrow> run_loop \<Rightarrow> run_loop" where
  "put_view view lp = lp\<lparr>lp_statuses := fst view, lp_contexts := fst (snd view)\<rparr>"

text \<open>The failure policy, then what pauses the run; without either the loop goes on.\<close>

definition apply_policy :: "exec_env \<Rightarrow> nat \<Rightarrow> run_loop \<Rightarrow> batch_flags \<Rightarrow> exec_state \<Rightarrow> exec_state" where
  "apply_policy env tid lp flags st =
     (let runId = ep_runId (lp_plan lp); policy = ep_failurePolicy (lp_plan lp);
          stop = (\<lambda>st. set_loop tid (lp\<lparr>lp_phase := Lp_Returned\<rparr>) st);
          go_on = (\<lambda>lp st.
            if hasPause flags then set_loop tid (lp\<lparr>lp_phase := Lp_Returned\<rparr>) st
            else if hasBlocked flags
            then set_loop tid (lp\<lparr>lp_phase := Lp_Paused_Event\<rparr>)
                   (publishEvent ''workflow.run.paused'' runId (set_run_status runId R_Paused no_metadata st))
            else run_loop_from_top env tid lp st)
      in if \<not> hasFailure flags then go_on lp st
         else case onFailure policy of
           Fail_Fast \<Rightarrow>
             set_loop tid (lp\<lparr>lp_phase := Lp_Aborting\<rparr>)
               (notifyRunCompleted runId R_Failed
                 (finalize runId R_Failed ''WORKFLOW_FAILED'' ''Workflow failed due to fail_fast policy''
                   (cancel_pending runId st)))
         | Continue_On_Error \<Rightarrow> go_on lp st
         | Pause_For_Approval \<Rightarrow> stop (set_run_status runId R_Paused no_metadata st)
         | Fallback_Step \<Rightarrow>
             (case fallbackStepId policy of
                None \<Rightarrow> go_on lp st
              | Some step \<Rightarrow> go_on (if step = [] then lp else lp\<lparr>lp_statuses := map_del (lp_statuses lp) step\<rparr>) st)
         | Compensate \<Rightarrow> stop (set_run_status runId R_Compensating no_metadata st))"

definition rejected_error :: "wf_error \<Rightarrow> node_error" where
  "rejected_error e =
     \<lparr>ne_code = ''NODE_EXECUTION_REJECTED'', ne_message = error_message e, ne_retryable = False, ne_details = None\<rparr>"

definition applyBatchResults ::
    "exec_env \<Rightarrow> nat \<Rightarrow> run_loop \<Rightarrow> node_task list \<Rightarrow> batch_flags \<Rightarrow> exec_state \<Rightarrow> exec_state" where
  "applyBatchResults env tid lp tasks flags st =
     (let (view, rejected) = scan_results tasks (lp_statuses lp, lp_contexts lp, flags); lp = put_view view lp in
      case rejected of
        None \<Rightarrow> apply_policy env tid lp (snd (snd view)) st
      | Some (attempt, e, rest) \<Rightarrow>
          set_loop tid (lp\<lparr>lp_phase := Lp_Rejected attempt (error_message e)
            (begin_failure env attempt (node_policy (lp_plan lp) (na_nodeId attempt)) (rejected_error e))
            rest (snd (snd view))\<rparr>) st)"

definition no_flags :: batch_flags where
  "no_flags = \<lparr>hasFailure = False, hasPause = False, hasBlocked = False\<rparr>"

text \<open>A rejected result whose failure has been recorded.\<close>

definition record_rejected ::
    "exec_env \<Rightarrow> nat \<Rightarrow> run_loop \<Rightarrow> FridayWorkflowRunNodeEntity \<Rightarrow> string \<Rightarrow> NodeAttemptStatus \<Rightarrow> node_task list
     \<Rightarrow> batch_flags \<Rightarrow> exec_state \<Rightarrow> exec_state" where
  "record_rejected env tid lp attempt message status rest flags st =
     (let n = na_nodeId attempt;
          out = [(''status'', text_of (node_status_name status)), (''error'', text_of message)] in
      if status = N_Retrying
      then applyBatchResults env tid
             (lp\<lparr>lp_statuses := map_del (lp_statuses lp) n,
                 lp_contexts := map_set (lp_contexts lp) n \<lparr>nc_output = out, nc_status = None, nc_error = None\<rparr>\<rparr>)
             rest flags st
      else applyBatchResults env tid
             (lp\<lparr>lp_statuses := map_set (lp_statuses lp) n status,
                 lp_contexts := map_set (lp_contexts lp) n
                   \<lparr>nc_output = out, nc_status = Some (node_status_name status), nc_error = None\<rparr>\<rparr>)
             rest (flags\<lparr>hasFailure := True\<rparr>) st)"

definition all_settled :: "node_task list \<Rightarrow> bool" where
  "all_settled ts = list_all (\<lambda>t. case tk_phase t of Tk_Settled _ \<Rightarrow> True | _ \<Rightarrow> False) ts"

text \<open>One step of the loop outside its tasks.\<close>

fun loop_step :: "exec_env \<Rightarrow> nat \<Rightarrow> run_loop \<Rightarrow> loop_phase \<Rightarrow> answer \<Rightarrow> exec_state \<Rightarrow> exec_state" where
  "loop_step env tid lp Lp_Batch ans st =
     (if ans = Returned \<and> all_settled (lp_tasks lp) then applyBatchResults env tid lp (lp_tasks lp) no_flags st else st)"
| "loop_step env tid lp (Lp_Rejected a msg p rest flags) ans st =
     (case failure_step a p ans st of
        (Pf_Wait p', st') \<Rightarrow> set_loop tid (lp\<lparr>lp_phase := Lp_Rejected a msg p' rest flags\<rparr>) st'
      | (Pf_Done status, st') \<Rightarrow> record_rejected env tid lp a msg status rest flags st'
      | (Pf_Reject e, st') \<Rightarrow> set_loop tid (lp\<lparr>lp_phase := Lp_Threw e\<rparr>) st')"
| "loop_step env tid lp Lp_Returned ans st = (if ans = Returned then run_returned env tid lp st else st)"
| "loop_step env tid lp (Lp_Threw e) ans st = (if ans = Returned then run_threw tid lp e st else st)"
| "loop_step env tid lp Lp_Final_Notify ans st =
     (case ans of
        Returned \<Rightarrow> finish_run tid lp st
      | Threw e \<Rightarrow> set_loop tid (lp\<lparr>lp_phase := Lp_Final_Notify_Event\<rparr>)
          (publishEvent ''workflow.pipeline.completion.error'' (ep_runId (lp_plan lp)) st)
      | _ \<Rightarrow> st)"
| "loop_step env tid lp Lp_Final_Notify_Event ans st =
     (case ans of Returned \<Rightarrow> finish_run tid lp st
      | Threw e \<Rightarrow> set_loop tid (lp\<lparr>lp_phase := Lp_Threw e\<rparr>) st | _ \<Rightarrow> st)"
| "loop_step env tid lp Lp_Aborting ans st =
     (case ans of
        Returned \<Rightarrow> set_loop tid (lp\<lparr>lp_phase := Lp_Returned\<rparr>) st
      | Threw e \<Rightarrow> set_loop tid (lp\<lparr>lp_phase := Lp_Aborting_Event\<rparr>)
          (publishEvent ''workflow.pipeline.completion.error'' (ep_runId (lp_plan lp)) st)
      | _ \<Rightarrow> st)"
| "loop_step env tid lp phase ans st =
     (case ans of Returned \<Rightarrow> set_loop tid (lp\<lparr>lp_phase := Lp_Returned\<rparr>) st
      | Threw e \<Rightarrow> set_loop tid (lp\<lparr>lp_phase := Lp_Threw e\<rparr>) st | _ \<Rightarrow> st)"

end
