(* ===== verification/Workflow_Operations.thy ===== *)
theory Workflow_Operations
  imports Workflow_Runs
begin

text \<open>
  The operations of the execution service,
  src/src/workflows/services/friday-workflow-execution-service.ts, and the service as a transition
  system: an event calls an operation or answers a waiting computation, and any order of events is a
  possible history.
\<close>

section \<open>Operations\<close>

text \<open>What a caller has when the first stretch of an operation ends: a reply, or a promise to wait for.\<close>

datatype reply = Run_Reply FridayWorkflowRunEntity | Count_Reply nat | Waiting

definition retired :: wf_error where
  "retired = domain_error ''TS_RUNTIME_WORKFLOW_RUNS_RETIRED''
     ''Workflow run execution and controls are fail-closed while runtime ownership is being moved out of TypeScript.'' 503"

definition run_not_found :: wf_error where
  "run_not_found = domain_error ''WORKFLOW_RUN_NOT_FOUND'' ''Workflow run not found'' 404"

definition version_not_found :: wf_error where
  "version_not_found = domain_error ''WORKFLOW_VERSION_NOT_FOUND'' ''Workflow version not found'' 404"

text \<open>The version, its graph and the plan.\<close>

definition plan_of_version :: "exec_state \<Rightarrow> UUID \<Rightarrow> UUID \<Rightarrow> FridayWorkflowExecutionPlan outcome" where
  "plan_of_version st runId versionId =
     (case getVersionById (es_versions st) versionId of
        None \<Rightarrow> Inl version_not_found
      | Some v \<Rightarrow>
          (case vr_graph v of
             Inl e \<Rightarrow> Inl e
           | Inr graph \<Rightarrow> map_sum (\<lambda>e. Domain_Thrown e False) id (buildExecutionPlan runId graph)))"

definition resolvePlanForRun :: "exec_state \<Rightarrow> UUID \<Rightarrow> UUID \<Rightarrow> FridayWorkflowExecutionPlan outcome" where
  "resolvePlanForRun st runId versionId =
     (case map_get (activePlans st) runId of Some plan \<Rightarrow> Inr plan | None \<Rightarrow> plan_of_version st runId versionId)"

definition cache_plan :: "FridayWorkflowExecutionPlan \<Rightarrow> exec_state \<Rightarrow> exec_state" where
  "cache_plan plan st = st\<lparr>activePlans := map_set (activePlans st) (ep_runId plan) plan\<rparr>"

definition run_reply :: "UUID \<Rightarrow> exec_state \<Rightarrow> reply outcome \<times> exec_state" where
  "run_reply runId st =
     (case getRunById (es_runs st) runId of None \<Rightarrow> Inl null_run | Some run \<Rightarrow> Inr (Run_Reply run), st)"

subsection \<open>startRun\<close>

definition start_version ::
    "exec_state \<Rightarrow> FridayWorkflowStartRunInput \<Rightarrow> (UUID \<times> FridayCompiledWorkflowGraphV2) outcome" where
  "start_version st inp =
     (let found = (\<lambda>v. map_sum id (\<lambda>g. (vr_id v, g)) (vr_graph v)) in
      if si_workflowVersionId inp \<in> {None, Some []}
      then (case getPublishedVersion (es_workflows st) (es_versions st) (si_workflowId inp) of
              None \<Rightarrow> Inl (domain_error ''WORKFLOW_NO_PUBLISHED_VERSION'' ''Workflow has no published version'' 404)
            | Some v \<Rightarrow> found v)
      else (case getVersionById (es_versions st) (the (si_workflowVersionId inp)) of
              None \<Rightarrow> Inl version_not_found
            | Some v \<Rightarrow> found v))"

text \<open>A truthy optional string.\<close>

definition given :: "string option \<Rightarrow> bool" where
  "given s \<longleftrightarrow> s \<notin> {None, Some []}"

definition startRun ::
    "exec_env \<Rightarrow> FridayWorkflowStartRunInput \<Rightarrow> exec_state \<Rightarrow> reply outcome \<times> exec_state" where
  "startRun env inp st =
     (if \<not> allowTestOnlyWorkflowRunExecution env then (Inl retired, st)
      else case List.find (\<lambda>w. wf_id w = si_workflowId inp) (es_workflows st) of
        None \<Rightarrow> (Inl (domain_error ''WORKFLOW_NOT_FOUND'' ''Workflow not found'' 404), st)
      | Some w \<Rightarrow>
          if wf_isArchived w \<or> wf_deletedAt w \<noteq> None
          then (Inl (domain_error ''WORKFLOW_ARCHIVED'' ''Workflow is archived'' 410), st)
          else if given (wf_ownerUserId w) \<and> given (si_startedByUserId inp) \<and>
            wf_ownerUserId w \<noteq> si_startedByUserId inp \<and>
            si_triggerType inp \<notin> {''webhook'', ''schedule'', ''system''}
          then (Inl (domain_error ''WORKFLOW_PERMISSION_DENIED'' ''You do not have permission to run this workflow'' 403), st)
          else case start_version st inp of
            Inl e \<Rightarrow> (Inl e, st)
          | Inr (versionId, graph) \<Rightarrow>
              (let (runId, st) = draw_id env st
               in (Inr Waiting, spawn (T_Intake \<lparr>in_input = inp, in_versionId = versionId, in_graph = graph,
                    in_runId = runId, in_nowIso = es_clock st\<rparr>) st)))"

definition start_entity :: "intake \<Rightarrow> json_props option \<Rightarrow> wf_time option \<Rightarrow> FridayWorkflowRunEntity" where
  "start_entity k runContext deadline =
     (let inp = in_input k in
      \<lparr>wr_id = in_runId k, wr_workflowId = si_workflowId inp, wr_workflowVersionId = in_versionId k,
       wr_status = R_Queued, wr_triggerType = si_triggerType inp, wr_triggerPayload = si_triggerPayload inp,
       wr_startedByUserId = si_startedByUserId inp, wr_startedBySatelliteId = si_startedBySatelliteId inp,
       wr_startedAt = in_nowIso k, wr_deadlineAt = deadline, wr_pausedAt = None, wr_resumedAt = None,
       wr_finishedAt = None, wr_correlationId = si_correlationId inp, wr_context = runContext,
       wr_failure = None, wr_createdAt = in_nowIso k, wr_updatedAt = in_nowIso k,
       wr_proofRequired = si_proofRequired inp, wr_completionVerification = None\<rparr>)"

text \<open>The stretch after the intake hook; an exception rejects the promise of the caller.\<close>

definition finish_start :: "exec_env \<Rightarrow> intake \<Rightarrow> json_props option \<Rightarrow> exec_state \<Rightarrow> exec_state" where
  "finish_start env k patch st =
     (let inp = in_input k;
          runContext = (case patch of
            None \<Rightarrow> si_context inp
          | Some p \<Rightarrow> Some (fold (\<lambda>(key, v) m. map_set m key v) p (case si_context inp of None \<Rightarrow> [] | Some c \<Rightarrow> c)))
      in case computeRunDeadlineAt (in_graph k) (in_nowIso k) of
           Inl e \<Rightarrow> st
         | Inr deadline \<Rightarrow>
             (case insertRun (es_users st) (start_entity k runContext deadline) (es_runs st) of
                Inl e \<Rightarrow> st
              | Inr rows \<Rightarrow>
                  (let st = st\<lparr>es_runs := rows\<rparr> in
                   if si_dryRun inp then st
                   else case buildExecutionPlan (in_runId k) (in_graph k) of
                     Inl e \<Rightarrow> st
                   | Inr plan \<Rightarrow> scheduleRunExecution env plan By_Start (cache_plan plan st))))"

subsection \<open>resumeRun\<close>

definition blocked_attempts :: "exec_state \<Rightarrow> UUID \<Rightarrow> FridayWorkflowRunNodeEntity list" where
  "blocked_attempts st runId = listNodesByRun (es_nodes st) runId (Some N_Blocked_Offline)"

definition reject_approvals :: "FridayWorkflowRunNodeEntity list \<Rightarrow> UUID \<Rightarrow> exec_state \<Rightarrow> exec_state" where
  "reject_approvals approvalNodes runId st =
     finalize runId R_Failed ''APPROVAL_REJECTED'' ''Workflow failed because approval was rejected''
       (cancel_pending runId
         (fold (\<lambda>n st. set_attempt (na_id n) ((to_status N_Failed (es_clock st))\<lparr>
              au_error := Some \<lparr>ne_code = ''APPROVAL_REJECTED'', ne_message = ''Approval was rejected'',
                ne_retryable = False, ne_details = None\<rparr>,
              au_finishedAt := Some (es_clock st)\<rparr>) st) approvalNodes st))"

definition complete_approvals :: "FridayWorkflowRunNodeEntity list \<Rightarrow> exec_state \<Rightarrow> exec_state" where
  "complete_approvals approvalNodes st =
     fold (\<lambda>n st. set_attempt (na_id n) ((to_status N_Completed (es_clock st))\<lparr>
         au_output := Some (JsonObject [(''approved'', JsonBool True), (''pending'', JsonBool False)]),
         au_finishedAt := Some (es_clock st)\<rparr>) st) approvalNodes st"

text \<open>A new attempt of the state \<open>retrying\<close> behind an earlier one; the ids in the given order.\<close>

definition retry_behind ::
    "bool \<Rightarrow> exec_env \<Rightarrow> UUID \<Rightarrow> FridayWorkflowRunNodeEntity \<Rightarrow> exec_state \<Rightarrow> exec_state outcome" where
  "retry_behind id_first env runId n st =
     map_sum id snd (insert_attempt (\<lambda>x y. new_attempt (if id_first then x else y) (if id_first then y else x)
        runId (na_nodeId n) (na_attempt n + 1) N_Retrying (na_input n) None (es_clock st)) env st)"

definition continue_run :: "exec_env \<Rightarrow> UUID \<Rightarrow> FridayWorkflowExecutionPlan \<Rightarrow> exec_state \<Rightarrow> reply outcome \<times> exec_state" where
  "continue_run env runId plan st =
     run_reply runId (scheduleRunExecution env plan By_Resume
       (set_run_status runId R_Running
         (no_metadata\<lparr>md_resumedAt := Some (es_clock st), md_clearFinishedAt := True\<rparr>) st))"

definition resumeRun ::
    "exec_env \<Rightarrow> UUID \<Rightarrow> bool option \<Rightarrow> exec_state \<Rightarrow> reply outcome \<times> exec_state" where
  "resumeRun env runId approved st =
     (if \<not> allowTestOnlyWorkflowRunExecution env then (Inl retired, st)
      else case getRunById (es_runs st) runId of
        None \<Rightarrow> (Inl run_not_found, st)
      | Some run \<Rightarrow>
          (case assertTransition_run (wr_status run) R_Running of
             Inl e \<Rightarrow> (Inl (Domain_Thrown e False), st)
           | Inr _ \<Rightarrow>
               (case plan_of_version st runId (wr_workflowVersionId run) of
                  Inl e \<Rightarrow> (Inl e, st)
                | Inr plan \<Rightarrow>
                    (let st = cache_plan plan st;
                         blocked = blocked_attempts st runId;
                         approvalNodes = filter (\<lambda>n. is_approval plan (na_nodeId n)) blocked;
                         remoteBlocked = filter (\<lambda>n. \<not> is_approval plan (na_nodeId n)) blocked
                     in if approvalNodes \<noteq> [] \<and> approved = None
                        then (Inl (domain_error ''WORKFLOW_APPROVAL_DECISION_REQUIRED''
                               ''Approval decision is required before continuing'' 400), st)
                        else if approvalNodes \<noteq> [] \<and> approved = Some False
                        then (Inr Waiting, spawn (T_Drop_Plan runId)
                               (notifyRunCompleted runId R_Failed (reject_approvals approvalNodes runId st)))
                        else (let st = complete_approvals approvalNodes st in
                              case all_or_nothing (retry_behind True env runId) remoteBlocked st of
                                Inl e \<Rightarrow> (Inl e, st)
                              | Inr st \<Rightarrow> continue_run env runId plan st)))))"

subsection \<open>pauseRun, cancelRun, retryRun\<close>

definition pauseRun :: "exec_env \<Rightarrow> UUID \<Rightarrow> exec_state \<Rightarrow> reply outcome \<times> exec_state" where
  "pauseRun env runId st =
     (if \<not> allowTestOnlyWorkflowRunExecution env then (Inl retired, st)
      else case getRunById (es_runs st) runId of
        None \<Rightarrow> (Inl run_not_found, st)
      | Some run \<Rightarrow>
          if wr_status run = R_Paused then (Inr (Run_Reply run), st)
          else if wr_status run \<in> {R_Completed, R_Failed, R_Cancelled}
          then (Inl (domain_error ''WORKFLOW_RUN_NOT_PAUSABLE''
                 (''Workflow run '' @ runId @ '' is '' @ squoted (run_status_name (wr_status run)) @ '' and cannot be paused'') 409), st)
          else run_reply runId (publishEvent ''workflow.run.paused'' runId (set_run_status runId R_Paused no_metadata st)))"

definition cancelRun :: "exec_env \<Rightarrow> UUID \<Rightarrow> string option \<Rightarrow> exec_state \<Rightarrow> reply outcome \<times> exec_state" where
  "cancelRun env runId why st =
     (if \<not> allowTestOnlyWorkflowRunExecution env then (Inl retired, st)
      else case getRunById (es_runs st) runId of
        None \<Rightarrow> (Inl run_not_found, st)
      | Some run \<Rightarrow>
          (case assertTransition_run (wr_status run) R_Cancelled of
             Inl e \<Rightarrow> (Inl (Domain_Thrown e False), st)
           | Inr _ \<Rightarrow>
               (let st = (case map_get (activeAbortControllers st) runId of
                      None \<Rightarrow> st
                    | Some c \<Rightarrow> st\<lparr>es_aborted := List.insert c (es_aborted st),
                                    activeAbortControllers := map_del (activeAbortControllers st) runId\<rparr>);
                    st = finalize runId R_Cancelled ''WORKFLOW_CANCELLED''
                      (case why of None \<Rightarrow> ''Cancelled by user'' | Some w \<Rightarrow> w) (cancel_pending runId st)
                in case resolvePlanForRun st runId (wr_workflowVersionId run) of
                     Inl e \<Rightarrow> (Inl e, st)
                   | Inr plan \<Rightarrow> (Inr Waiting, spawn (T_Drop_Plan runId) (notifyRunCompleted runId R_Cancelled st)))))"

definition failed_latest :: "exec_state \<Rightarrow> UUID \<Rightarrow> FridayWorkflowRunNodeEntity list" where
  "failed_latest st runId =
     filter (\<lambda>n. na_status n = N_Failed) (map_values (latest_attempts (es_nodes st) runId))"

definition retryRun :: "exec_env \<Rightarrow> UUID \<Rightarrow> string list option \<Rightarrow> exec_state \<Rightarrow> reply outcome \<times> exec_state" where
  "retryRun env runId nodeIds st =
     (if \<not> allowTestOnlyWorkflowRunExecution env then (Inl retired, st)
      else case getRunById (es_runs st) runId of
        None \<Rightarrow> (Inl run_not_found, st)
      | Some run \<Rightarrow>
          (case assertTransition_run (wr_status run) R_Running of
             Inl e \<Rightarrow> (Inl (Domain_Thrown e False), st)
           | Inr _ \<Rightarrow>
               (let targets = filter (\<lambda>n. case nodeIds of None \<Rightarrow> True | Some ids \<Rightarrow> na_nodeId n \<in> set ids) (failed_latest st runId)
                in if targets = []
                   then (Inl (domain_error ''WORKFLOW_NO_FAILED_NODES_TO_RETRY'' ''No failed nodes available to retry'' 400), st)
                   else case plan_of_version st runId (wr_workflowVersionId run) of
                     Inl e \<Rightarrow> (Inl e, st)
                   | Inr plan \<Rightarrow>
                       (let st = cache_plan plan st in
                        case all_or_nothing (retry_behind False env runId) targets st of
                          Inl e \<Rightarrow> (Inl e, st)
                        | Inr st \<Rightarrow> run_reply runId (scheduleRunExecution env plan By_Retry
                            (set_run_status runId R_Running no_metadata st))))))"

subsection \<open>Reads\<close>

definition listActiveRuns_service :: "exec_state \<Rightarrow> nat option \<Rightarrow> FridayWorkflowRunEntity list" where
  "listActiveRuns_service st limit =
     (case limit of None \<Rightarrow> listActiveRuns (es_runs st) | Some n \<Rightarrow> take n (listActiveRuns (es_runs st)))"

definition getRunNodes :: "exec_state \<Rightarrow> UUID \<Rightarrow> NodeAttemptStatus option \<Rightarrow> FridayWorkflowRunNodeEntity list" where
  "getRunNodes st runId status = listNodesByRun (es_nodes st) runId status"

subsection \<open>Recovery and remote results\<close>

fun recover_runs ::
    "exec_env \<Rightarrow> FridayWorkflowRunEntity list \<Rightarrow> nat \<Rightarrow> exec_state \<Rightarrow> reply outcome \<times> exec_state" where
  "recover_runs env [] recovered st = (Inr (Count_Reply recovered), st)"
| "recover_runs env (run # rest) recovered st =
     (case plan_of_version st (wr_id run) (wr_workflowVersionId run) of
        Inl e \<Rightarrow> if e = version_not_found \<and> getVersionById (es_versions st) (wr_workflowVersionId run) = None
                 then recover_runs env rest recovered st else (Inl e, st)
      | Inr plan \<Rightarrow>
          recover_runs env rest (Suc recovered) (scheduleRunExecution env plan By_Recover (cache_plan plan st)))"

definition recoverActiveRuns :: "exec_env \<Rightarrow> nat option \<Rightarrow> exec_state \<Rightarrow> reply outcome \<times> exec_state" where
  "recoverActiveRuns env limit st = recover_runs env (listActiveRuns_service st limit) 0 st"

definition default_remote_error :: node_error where
  "default_remote_error = \<lparr>ne_code = ''SATELLITE_NODE_FAILED'', ne_message = ''Satellite node execution failed'',
     ne_retryable = True, ne_details = None\<rparr>"

definition reportRemoteNodeResult ::
    "exec_env \<Rightarrow> remote_report \<Rightarrow> exec_state \<Rightarrow> reply outcome \<times> exec_state" where
  "reportRemoteNodeResult env rp st =
     (case getRunById (es_runs st) (rp_runId rp) of
        None \<Rightarrow> (Inl run_not_found, st)
      | Some run \<Rightarrow>
          (case getNodeAttemptByAttemptId (es_nodes st) (rp_attemptId rp) of
             None \<Rightarrow> (Inl (domain_error ''WORKFLOW_RUN_NODE_NOT_FOUND'' ''Workflow node attempt not found'' 404), st)
           | Some a \<Rightarrow>
               if na_runId a \<noteq> rp_runId rp \<or> na_nodeId a \<noteq> rp_nodeId rp
               then (Inl (domain_error ''WORKFLOW_RUN_NODE_NOT_FOUND'' ''Workflow node attempt not found'' 404), st)
               else if na_attempt a \<noteq> rp_attempt rp
               then (Inl (domain_error ''WORKFLOW_RUN_NODE_ATTEMPT_MISMATCH'' ''Workflow node attempt number mismatch'' 409), st)
               else if na_status a = N_Completed \<and> rp_completed rp \<or> na_status a = N_Failed \<and> \<not> rp_completed rp
               then (Inr (Run_Reply run), st)
               else if na_status a \<in> {N_Completed, N_Failed, N_Cancelled}
               then (Inl (domain_error ''WORKFLOW_RUN_NODE_TERMINAL'' ''Workflow node attempt is already terminal'' 409), st)
               else case resolvePlanForRun st (rp_runId rp) (wr_workflowVersionId run) of
                 Inl e \<Rightarrow> (Inl e, st)
               | Inr plan \<Rightarrow>
                   (let st = st\<lparr>activePlans := map_set (activePlans st) (rp_runId rp) plan\<rparr> in
                    case plan_node plan (rp_nodeId rp) of
                      None \<Rightarrow> (Inl (domain_error ''WORKFLOW_NODE_NOT_FOUND'' ''Workflow node not found in execution plan'' 404), st)
                    | Some node \<Rightarrow>
                        if rp_completed rp
                        then (Inr Waiting, spawn (T_Remote_Completed rp plan)
                               (set_run_status (rp_runId rp) R_Running no_metadata
                                 (set_attempt (na_id a) ((to_status N_Completed (es_clock st))\<lparr>
                                    au_satelliteId := Some (rp_satelliteId rp), au_finishedAt := Some (es_clock st),
                                    au_output := rp_output rp\<rparr>) st)))
                        else (Inr Waiting, spawn (T_Remote_Failed a (begin_failure env a (wn_retryPolicy node)
                               (case rp_error rp of None \<Rightarrow> default_remote_error | Some e \<Rightarrow> e)) plan) st))))"

text \<open>After the callbacks of a reported completion: the artifact, then the loop.\<close>

definition remote_completed :: "exec_env \<Rightarrow> remote_report \<Rightarrow> FridayWorkflowExecutionPlan \<Rightarrow> exec_state \<Rightarrow> exec_state" where
  "remote_completed env rp plan st =
     scheduleRunExecution env plan By_Remote
       (case rp_output rp of
          None \<Rightarrow> st
        | Some v \<Rightarrow> if v = JsonNull then st
            else st\<lparr>es_artifacts := es_artifacts st @ [(rp_runId rp, rp_nodeId rp, v)]\<rparr>)"

subsection \<open>Janitors\<close>

definition cached_node :: "exec_state \<Rightarrow> FridayWorkflowRunNodeEntity \<Rightarrow> FridayWorkflowNode option" where
  "cached_node st n = Option.bind (map_get (activePlans st) (na_runId n)) (\<lambda>plan. plan_node plan (na_nodeId n))"

definition reapExpiredLeases :: "exec_env \<Rightarrow> exec_state \<Rightarrow> nat \<times> exec_state" where
  "reapExpiredLeases env st =
     (if \<not> allowTestOnlyWorkflowRunExecution env then (0, st)
      else (let expired = listExpiredLeases (es_nodes st) (es_clock st) in
            (length expired,
             fold (\<lambda>n st.
               let d = evaluateRetry (ev_random env (na_id n)) (na_attempt n)
                         (Option.bind (cached_node st n) wn_retryPolicy) ''NODE_TIMEOUT''
               in set_attempt (na_id n) ((to_status N_Failed (es_clock st))\<lparr>
                    au_error := Some \<lparr>ne_code = ''NODE_TIMEOUT'',
                      ne_message = (if wd_shouldRetry d then ''Node lease expired'' else ''Node lease expired, retries exhausted''),
                      ne_retryable = wd_shouldRetry d, ne_details = None\<rparr>,
                    au_finishedAt := Some (es_clock st)\<rparr>) st) expired st)))"

definition run_timeout :: "FridayCompiledWorkflowGraphV2 \<Rightarrow> rat" where
  "run_timeout graph =
     (case map_of (case cg_variables graph of None \<Rightarrow> [] | Some vs \<Rightarrow> vs) ''runTimeoutMs'' of
        Some (JsonNumber ms) \<Rightarrow> ms
      | _ \<Rightarrow> 3600000)"

fun sweep_runs ::
    "(rat \<Rightarrow> string) \<Rightarrow> FridayWorkflowRunEntity list \<Rightarrow> nat \<Rightarrow> exec_state \<Rightarrow> reply outcome \<times> exec_state" where
  "sweep_runs show_ms [] swept st = (Inr (Count_Reply swept), st)"
| "sweep_runs show_ms (run # rest) swept st =
     (case getVersionById (es_versions st) (wr_workflowVersionId run) of
        None \<Rightarrow> sweep_runs show_ms rest swept st
      | Some v \<Rightarrow>
          (case vr_graph v of
             Inl e \<Rightarrow> (Inl e, st)
           | Inr graph \<Rightarrow>
               if of_int (es_clock st - wr_startedAt run) \<ge> run_timeout graph
               then sweep_runs show_ms rest (Suc swept)
                      ((finalize (wr_id run) R_Failed ''WORKFLOW_RUN_TIMEOUT''
                         (''Run exceeded timeout of '' @ show_ms (run_timeout graph) @ ''ms'') (cancel_pending (wr_id run) st))
                       \<lparr>activePlans := map_del (activePlans st) (wr_id run)\<rparr>)
               else sweep_runs show_ms rest swept st))"

definition sweepTimedOutRuns :: "exec_env \<Rightarrow> exec_state \<Rightarrow> reply outcome \<times> exec_state" where
  "sweepTimedOutRuns env st =
     (if \<not> allowTestOnlyWorkflowRunExecution env then (Inr (Count_Reply 0), st)
      else sweep_runs (\<lambda>ms. ev_num env (Finite ms)) (listActiveRuns (es_runs st)) 0 st)"

definition node_timed_out :: "exec_state \<Rightarrow> FridayWorkflowRunNodeEntity \<Rightarrow> bool" where
  "node_timed_out st n \<longleftrightarrow>
     es_clock st - (case na_startedAt n of Some t \<Rightarrow> t | None \<Rightarrow> na_createdAt n) \<ge>
       (case Option.bind (cached_node st n) wn_timeoutMs of Some ms \<Rightarrow> ms | None \<Rightarrow> 300000)"

definition sweepTimedOutNodes :: "exec_env \<Rightarrow> exec_state \<Rightarrow> nat \<times> exec_state" where
  "sweepTimedOutNodes env st =
     (if \<not> allowTestOnlyWorkflowRunExecution env then (0, st)
      else (let late = filter (node_timed_out st)
                  (concat (map (\<lambda>run. listNodesByRun (es_nodes st) (wr_id run) (Some N_Running)) (listActiveRuns (es_runs st))))
            in (length late,
                fold (\<lambda>n st. set_attempt (na_id n) ((to_status N_Failed (es_clock st))\<lparr>
                    au_error := Some \<lparr>ne_code = ''NODE_TIMEOUT'',
                      ne_message = ''Node exceeded timeout of '' @
                        show_int (case Option.bind (cached_node st n) wn_timeoutMs of Some ms \<Rightarrow> ms | None \<Rightarrow> 300000) @ ''ms'',
                      ne_retryable = False, ne_details = None\<rparr>,
                    au_finishedAt := Some (es_clock st)\<rparr>) st) late st)))"

section \<open>The service as a transition system\<close>

datatype event =
    E_Start FridayWorkflowStartRunInput
  | E_Resume UUID "bool option"
  | E_Pause UUID
  | E_Cancel UUID "string option"
  | E_Retry UUID "string list option"
  | E_Recover "nat option"
  | E_Remote remote_report
  | E_Reap
  | E_Sweep_Runs
  | E_Sweep_Nodes
  | E_Tick nat
  | E_Task nat nat answer
  | E_Answer nat answer

text \<open>Task \<open>i\<close> of the batch of a loop gets an answer.\<close>

definition answer_task :: "exec_env \<Rightarrow> nat \<Rightarrow> run_loop \<Rightarrow> nat \<Rightarrow> answer \<Rightarrow> exec_state \<Rightarrow> exec_state" where
  "answer_task env tid lp i ans st =
     (if lp_phase lp \<noteq> Lp_Batch \<or> i \<ge> length (lp_tasks lp) then st
      else (let t = lp_tasks lp ! i; (phase, st') = task_step env lp (tk_attempt t) (tk_phase t) ans st
            in set_loop tid (lp\<lparr>lp_tasks := (lp_tasks lp)[i := t\<lparr>tk_phase := phase\<rparr>]\<rparr>) st'))"

fun thread_step :: "exec_env \<Rightarrow> nat \<Rightarrow> thread \<Rightarrow> answer \<Rightarrow> exec_state \<Rightarrow> exec_state" where
  "thread_step env tid (T_Loop lp) ans st = loop_step env tid lp (lp_phase lp) ans st"
| "thread_step env tid (T_Intake k) ans st =
     (case ans of
        Context_Patch p \<Rightarrow> finish_start env k p (end_thread tid st)
      | Threw e \<Rightarrow> set_thread tid (T_Intake_Event k) (publishEvent ''workflow.pipeline.intake.error'' (in_runId k) st)
      | _ \<Rightarrow> st)"
| "thread_step env tid (T_Intake_Event k) ans st =
     (case ans of Returned \<Rightarrow> finish_start env k None (end_thread tid st) | Threw e \<Rightarrow> end_thread tid st | _ \<Rightarrow> st)"
| "thread_step env tid (T_Drop_Plan runId) ans st =
     (case ans of
        Returned \<Rightarrow> end_thread tid (st\<lparr>activePlans := map_del (activePlans st) runId\<rparr>)
      | Threw e \<Rightarrow> set_thread tid (T_Drop_Plan_Event runId) (publishEvent ''workflow.pipeline.completion.error'' runId st)
      | _ \<Rightarrow> st)"
| "thread_step env tid (T_Drop_Plan_Event runId) ans st =
     (case ans of Returned \<Rightarrow> end_thread tid (st\<lparr>activePlans := map_del (activePlans st) runId\<rparr>)
      | Threw e \<Rightarrow> end_thread tid st | _ \<Rightarrow> st)"
| "thread_step env tid (T_Remote_Completed rp plan) ans st =
     (case ans of
        Returned \<Rightarrow> remote_completed env rp plan (end_thread tid st)
      | Threw e \<Rightarrow> set_thread tid (T_Remote_Completed_Event rp plan)
          (publishEvent ''workflow.pipeline.retry.attempt_record_error'' (rp_runId rp) st)
      | _ \<Rightarrow> st)"
| "thread_step env tid (T_Remote_Completed_Event rp plan) ans st =
     (case ans of Returned \<Rightarrow> remote_completed env rp plan (end_thread tid st)
      | Threw e \<Rightarrow> end_thread tid st | _ \<Rightarrow> st)"
| "thread_step env tid (T_Remote_Failed a p plan) ans st =
     (case failure_step a p ans st of
        (Pf_Wait p', st') \<Rightarrow> set_thread tid (T_Remote_Failed a p' plan) st'
      | (Pf_Done status, st') \<Rightarrow> scheduleRunExecution env plan By_Remote (end_thread tid st')
      | (Pf_Reject e, st') \<Rightarrow> end_thread tid st')"

fun service_step :: "exec_env \<Rightarrow> event \<Rightarrow> exec_state \<Rightarrow> exec_state" where
  "service_step env (E_Start inp) st = snd (startRun env inp st)"
| "service_step env (E_Resume runId approved) st = snd (resumeRun env runId approved st)"
| "service_step env (E_Pause runId) st = snd (pauseRun env runId st)"
| "service_step env (E_Cancel runId why) st = snd (cancelRun env runId why st)"
| "service_step env (E_Retry runId nodeIds) st = snd (retryRun env runId nodeIds st)"
| "service_step env (E_Recover limit) st = snd (recoverActiveRuns env limit st)"
| "service_step env (E_Remote rp) st = snd (reportRemoteNodeResult env rp st)"
| "service_step env E_Reap st = snd (reapExpiredLeases env st)"
| "service_step env E_Sweep_Runs st = snd (sweepTimedOutRuns env st)"
| "service_step env E_Sweep_Nodes st = snd (sweepTimedOutNodes env st)"
| "service_step env (E_Tick ms) st = st\<lparr>es_clock := es_clock st + int ms\<rparr>"
| "service_step env (E_Task tid i ans) st =
     (case map_get (es_threads st) tid of Some (T_Loop lp) \<Rightarrow> answer_task env tid lp i ans st | _ \<Rightarrow> st)"
| "service_step env (E_Answer tid ans) st =
     (case map_get (es_threads st) tid of Some t \<Rightarrow> thread_step env tid t ans st | None \<Rightarrow> st)"

definition history :: "exec_env \<Rightarrow> event list \<Rightarrow> exec_state \<Rightarrow> exec_state" where
  "history env events st = fold (service_step env) events st"

definition initial_state ::
    "UUID list \<Rightarrow> workflow_row list \<Rightarrow> version_row list \<Rightarrow> wf_time \<Rightarrow> exec_state" where
  "initial_state users workflows versions now =
     \<lparr>es_users = users, es_workflows = workflows, es_versions = versions, es_runs = [], es_nodes = [],
      es_approvals = [], es_artifacts = [], activePlans = map_empty, activeAbortControllers = map_empty,
      activeExecutions = [], pendingExecutions = [], es_threads = map_empty, es_aborted = [], es_calls = [],
      es_events = [], es_notices = [], es_clock = now, es_ids = 0, es_next = 0\<rparr>"

end
