(* ===== verification/Workflow_Run_Safety.thy ===== *)
theory Workflow_Run_Safety
  imports Workflow_Operations
begin

text \<open>
  What holds in every history of the execution service. The interface \<open>store_discipline\<close> collects
  the ways the service touches the tables of attempts and approvals and its log of executor calls: an
  assertion closed under these is kept by every event, whatever the order of calls and answers. Its
  interpretations give the single execution of an attempt and the numbering of attempts.
\<close>

section \<open>Frames\<close>

text \<open>The part of the state an assertion may speak of.\<close>

definition store_of ::
    "exec_state \<Rightarrow> FridayWorkflowRunNodeEntity list \<times> executor_call list \<times> FridayWorkflowApprovalRequestEntity list" where
  "store_of st = (es_nodes st, es_calls st, es_approvals st)"

named_theorems frame \<open>operations that leave the store alone\<close>

lemma store_of_simps [frame]:
  "store_of (publishEvent name r st) = store_of st"
  "store_of (snd (draw_id env st)) = store_of st"
  "store_of (spawn t st) = store_of st"
  "store_of (set_thread tid t st) = store_of st"
  "store_of (set_loop tid lp st) = store_of st"
  "store_of (end_thread tid st) = store_of st"
  "store_of (set_run_status r status md st) = store_of st"
  "store_of (finalize r status code message st) = store_of st"
  "store_of (notifyRunCompleted r status st) = store_of st"
  "store_of (cache_plan plan st) = store_of st"
  "store_of (release_run tid r st) = store_of st"
  by (simp_all add: store_of_def publishEvent_def draw_id_def spawn_def set_thread_def set_loop_def
      end_thread_def set_run_status_def finalize_def notifyRunCompleted_def cache_plan_def release_run_def)

lemma store_of_update [frame]:
  "store_of (st\<lparr>es_runs := rs\<rparr>) = store_of st"
  "store_of (st\<lparr>es_artifacts := arts\<rparr>) = store_of st"
  "store_of (st\<lparr>activePlans := ps\<rparr>) = store_of st"
  "store_of (st\<lparr>activeAbortControllers := acs\<rparr>) = store_of st"
  "store_of (st\<lparr>activeExecutions := aes\<rparr>) = store_of st"
  "store_of (st\<lparr>pendingExecutions := pes\<rparr>) = store_of st"
  "store_of (st\<lparr>es_aborted := xs\<rparr>) = store_of st"
  "store_of (st\<lparr>es_events := evs\<rparr>) = store_of st"
  "store_of (st\<lparr>es_clock := now\<rparr>) = store_of st"
  "store_of (st\<lparr>es_ids := i\<rparr>) = store_of st"
  "store_of (st\<lparr>es_next := i\<rparr>) = store_of st"
  by (simp_all add: store_of_def)

lemma store_of_finish_run [frame]: "store_of (finish_run tid lp st) = store_of st"
  by (simp add: finish_run_def frame Let_def split: option.splits)

lemma store_of_finalizeRunStatus [frame]: "store_of (finalizeRunStatus tid lp st) = store_of st"
  by (simp add: finalizeRunStatus_def frame Let_def split: option.splits)

lemma store_of_run_threw [frame]: "store_of (run_threw tid lp e st) = store_of st"
  by (simp add: run_threw_def frame Let_def)

lemma store_of_pauseRun [frame]: "store_of (snd (pauseRun env r st)) = store_of st"
  by (simp add: pauseRun_def run_reply_def frame split: option.splits)

lemma store_of_startRun [frame]: "store_of (snd (startRun env inp st)) = store_of st"
  by (simp add: startRun_def frame draw_id_def store_of_def spawn_def split: option.splits sum.splits prod.splits)

section \<open>The interface\<close>

text \<open>The attempt is the first of its node, or the one before it is in the table.\<close>

definition attempt_follows :: "FridayWorkflowRunNodeEntity list \<Rightarrow> FridayWorkflowRunNodeEntity \<Rightarrow> bool" where
  "attempt_follows ns e \<longleftrightarrow>
     na_attempt e = 1 \<or> (na_runId e, na_nodeId e, na_attempt e - 1) \<in> attempt_key ` set ns"

locale store_discipline =
  fixes I :: "FridayWorkflowRunNodeEntity list \<Rightarrow> executor_call list \<Rightarrow> FridayWorkflowApprovalRequestEntity list \<Rightarrow> bool"
  assumes inserted: "I ns cs as \<Longrightarrow> insertNodeAttempt e ns = Inr ns' \<Longrightarrow> attempt_follows ns e \<Longrightarrow>
      na_status e \<in> {N_Queued, N_Retrying, N_Cancelled} \<Longrightarrow> I ns' cs as"
    and updated: "I ns cs as \<Longrightarrow> au_status u \<notin> {N_Queued, N_Retrying} \<Longrightarrow> I (updateNodeAttempt i u ns) cs as"
    and leased: "I ns cs as \<Longrightarrow> I (snd (acquireLease i owner expiresAt now ns)) cs as"
    and cancelled: "I ns cs as \<Longrightarrow> I (cancelAllPendingNodes r now ns) cs as"
    and called: "I ns cs as \<Longrightarrow> acquireLease (xc_attempt c) owner expiresAt now ns = (True, ns') \<Longrightarrow> I ns' (cs @ [c]) as"
    and requested: "I ns cs as \<Longrightarrow> approval_insert users a as = Inr as' \<Longrightarrow> ar_status a = Ap_Pending \<Longrightarrow> I ns cs as'"
begin

definition holds :: "exec_state \<Rightarrow> bool" where
  "holds st \<longleftrightarrow> I (es_nodes st) (es_calls st) (es_approvals st)"

lemma holds_cong: "store_of st' = store_of st \<Longrightarrow> holds st' = holds st"
  by (simp add: holds_def store_of_def)

lemmas holds_simps [simp] =
  store_of_simps [THEN holds_cong] store_of_update [THEN holds_cong] store_of_finish_run [THEN holds_cong]
  store_of_finalizeRunStatus [THEN holds_cong] store_of_run_threw [THEN holds_cong]
  store_of_pauseRun [THEN holds_cong] store_of_startRun [THEN holds_cong]

lemma called_at: "I ns cs as \<Longrightarrow> acquireLease i owner expiresAt now ns = (True, ns') \<Longrightarrow> xc_attempt c = i \<Longrightarrow>
    I ns' (cs @ [c]) as"
  using called by blast

lemma holds_set_attempt: "holds st \<Longrightarrow> au_status u \<notin> {N_Queued, N_Retrying} \<Longrightarrow> holds (set_attempt i u st)"
  by (simp add: holds_def set_attempt_def updated)

lemma holds_cancel_pending: "holds st \<Longrightarrow> holds (cancel_pending r st)"
  by (simp add: holds_def cancel_pending_def cancelled)

lemma holds_lease: "lease i st = (b, st') \<Longrightarrow> holds st \<Longrightarrow> holds st'"
  using leased [of "es_nodes st" "es_calls st" "es_approvals st" i "''hub''" "es_clock st + LEASE_TTL_MS" "es_clock st"]
  by (auto simp: holds_def lease_def Let_def split: prod.splits)

lemma holds_requestForNode: "requestForNode env run a config st = (r, st') \<Longrightarrow> holds st \<Longrightarrow> holds st'"
  by (auto simp: holds_def requestForNode_def draw_id_def Let_def split: sum.splits
      intro: requested)

lemma holds_start_local: "start_local run contexts signal a st = (p, st') \<Longrightarrow> holds st \<Longrightarrow> holds st'"
  using leased [of "es_nodes st" "es_calls st" "es_approvals st" "na_id a" "''hub''" "es_clock st + LEASE_TTL_MS" "es_clock st"]
  by (auto simp: holds_def start_local_def lease_def Let_def split: prod.splits if_splits
      intro!: called_at)

lemma holds_start_task: "start_task env plan run a st = (p, st') \<Longrightarrow> holds st \<Longrightarrow> holds st'"
  by (auto simp: start_task_def Let_def to_status_def split: prod.splits if_splits
      dest!: holds_lease intro: holds_set_attempt elim!: holds_requestForNode)

lemma holds_commit_failure: "commit_failure a e d st = (n, st') \<Longrightarrow> holds st \<Longrightarrow> holds st'"
  by (auto simp: commit_failure_def to_status_def intro!: holds_set_attempt)

lemma holds_failure_step: "failure_step a p ans st = (n, st') \<Longrightarrow> holds st \<Longrightarrow> holds st'"
  by (cases "(a, p, ans, st)" rule: failure_step.cases)
    (auto elim: holds_commit_failure)

lemma holds_pause_for_approval: "pause_for_approval a st = (p, st') \<Longrightarrow> holds st \<Longrightarrow> holds st'"
  by (auto simp: pause_for_approval_def)

lemma holds_settle_completed: "settle_completed a out st = (p, st') \<Longrightarrow> holds st \<Longrightarrow> holds st'"
  by (auto simp: settle_completed_def split: option.splits)

lemma holds_dispatch_step: "dispatch_step env lp a r st = (p, st') \<Longrightarrow> holds st \<Longrightarrow> holds st'"
  by (cases r) (auto simp: to_status_def split: option.splits elim: holds_start_local
      intro!: holds_set_attempt)

lemma holds_task_step: "task_step env lp a p ans st = (p', st') \<Longrightarrow> holds st \<Longrightarrow> holds st'"
  by (cases "(env, lp, a, p, ans, st)" rule: task_step.cases)
    (auto simp: to_status_def split: prod.splits
      elim: holds_pause_for_approval holds_settle_completed holds_dispatch_step holds_failure_step
      intro!: holds_set_attempt)

lemma holds_insert_attempt:
  assumes "insert_attempt mk env st = Inr (e, st')" and "holds st" and "attempt_follows (es_nodes st) e"
    and "na_status e \<in> {N_Queued, N_Retrying, N_Cancelled}"
  shows "holds st'"
  using assms by (auto simp: insert_attempt_def draw_id_def Let_def holds_def split: sum.splits intro: inserted)

end

lemma insert_attempt_appends:
  assumes "insert_attempt mk env st = Inr (e, st')"
  shows "es_nodes st' = es_nodes st @ [e] \<and> (\<exists>x y. e = mk x y)"
  using assms by (auto simp: insert_attempt_def draw_id_def insertNodeAttempt_def Let_def split: sum.splits if_splits)

lemma getLatestAttempt_in:
  "getLatestAttempt rows r n = Some a \<Longrightarrow> a \<in> set rows \<and> na_runId a = r \<and> na_nodeId a = n"
proof -
  assume "getLatestAttempt rows r n = Some a"
  then obtain xs where "sort_key (\<lambda>n. - na_attempt n) (attempts_of rows r n) = a # xs"
    by (auto simp: getLatestAttempt_def split: list.splits)
  then have "a \<in> set (attempts_of rows r n)" by (metis list.set_intros(1) set_sort)
  then show ?thesis by (simp add: attempts_of_def)
qed

lemma retry_behind_appends:
  "retry_behind b env r n st = Inr st' \<Longrightarrow> \<exists>e. es_nodes st' = es_nodes st @ [e]"
  by (auto simp: retry_behind_def map_sum_def dest: insert_attempt_appends split: sum.splits)

lemma latest_attempts_in:
  assumes "map_get (latest_attempts rows r) k = Some n"
  shows "n \<in> set rows \<and> na_runId n = r \<and> na_nodeId n = k"
proof -
  have "map_get (fold (\<lambda>n m. case map_get m (na_nodeId n) of
             None \<Rightarrow> map_set m (na_nodeId n) n
           | Some existing \<Rightarrow> if na_attempt n > na_attempt existing then map_set m (na_nodeId n) n else m) xs m) k = Some n \<Longrightarrow>
      map_get m k = Some n \<or> n \<in> set xs \<and> na_nodeId n = k" for xs m
    by (induction xs arbitrary: m) (fastforce split: option.splits if_splits)+
  from this [of "listNodesByRun rows r None" map_empty] assms show ?thesis
    by (auto simp: latest_attempts_def listNodesByRun_def)
qed

lemma latest_attempts_ok: "map_ok (latest_attempts rows r)"
proof -
  have "map_ok m \<Longrightarrow> map_ok (fold (\<lambda>n m. case map_get m (na_nodeId n) of
             None \<Rightarrow> map_set m (na_nodeId n) n
           | Some existing \<Rightarrow> if na_attempt n > na_attempt existing then map_set m (na_nodeId n) n else m) xs m)" for xs m
    by (induction xs arbitrary: m) (auto split: option.splits)
  from this [of map_empty] show ?thesis by (simp add: latest_attempts_def)
qed

context store_discipline
begin

lemma holds_insert_mk:
  assumes "insert_attempt mk env st = Inr (e, st')" and "holds st"
    and "\<And>x y. attempt_follows (es_nodes st) (mk x y) \<and> na_status (mk x y) \<in> {N_Queued, N_Retrying, N_Cancelled}"
  shows "holds st'"
  using insert_attempt_appends [OF assms(1)] assms by (auto intro: holds_insert_attempt)

lemma holds_cancelDeadEndedNodes:
  "cancelDeadEndedNodes env r ctx ns sts st = Inr (sts', st') \<Longrightarrow> holds st \<Longrightarrow> holds st'"
proof (induction env r ctx ns sts st rule: cancelDeadEndedNodes.induct)
  case (2 env r ctx nodeId rest sts st)
  have ins: "holds st1" if "insert_attempt (\<lambda>attemptId i. new_attempt i attemptId r nodeId 1 N_Cancelled
      (Some (context_as_input ctx)) (Some (es_clock st)) (es_clock st)) env st = Inr (e, st1)" for e st1
    by (rule holds_insert_mk [OF that "2.prems"(2)]) (simp add: new_attempt_def attempt_follows_def)
  from "2.prems" show ?case
    by (auto split: if_splits option.splits sum.splits intro: "2.IH" dest: ins)
qed simp

lemma holds_prepareNodeAttempts:
  "prepareNodeAttempts env r ctx committed sts ns st = Inr (es, st') \<Longrightarrow> holds st \<Longrightarrow>
     attempt_key ` set committed \<subseteq> attempt_key ` set (es_nodes st) \<Longrightarrow> holds st'"
proof (induction env r ctx committed sts ns st arbitrary: es st' rule: prepareNodeAttempts.induct)
  case (1 env r ctx committed sts st)
  then show ?case by simp
next
  case (2 env r ctx committed sts nodeId rest st)
  show ?case
  proof (cases "getLatestAttempt committed r nodeId")
    case None
    then obtain e st1 where ins: "insert_attempt (\<lambda>attemptId i. new_attempt i attemptId r nodeId 1
        N_Queued (Some (context_as_input ctx)) None (es_clock st)) env st = Inr (e, st1)"
      and rest: "\<exists>es1. prepareNodeAttempts env r ctx committed sts rest st1 = Inr (es1, st')"
      using "2.prems"(1) by (auto simp: Let_def map_sum_def split: sum.splits prod.splits)
    have "holds st1"
      by (rule holds_insert_mk [OF ins "2.prems"(2)]) (simp add: new_attempt_def attempt_follows_def)
    moreover have "attempt_key ` set committed \<subseteq> attempt_key ` set (es_nodes st1)"
      using insert_attempt_appends [OF ins] "2.prems"(3) by auto
    ultimately show ?thesis
      using rest "2.IH" None ins by (auto simp: Let_def)
  next
    case (Some a)
    note a = getLatestAttempt_in [OF Some]
    show ?thesis
    proof (cases "map_get sts nodeId = Some N_Retrying \<and> na_status a = N_Retrying")
      case True
      then have "\<exists>es1. prepareNodeAttempts env r ctx committed sts rest st = Inr (es1, st')"
        using Some "2.prems"(1) by (auto simp: Let_def map_sum_def split: sum.splits prod.splits)
      then show ?thesis using "2.IH" True Some "2.prems" by (auto simp: Let_def)
    next
      case False
      then obtain e st1 where ins: "insert_attempt (\<lambda>attemptId i. new_attempt i attemptId r nodeId (na_attempt a + 1)
          N_Queued (Some (context_as_input ctx)) None (es_clock st)) env st = Inr (e, st1)"
        and rest: "\<exists>es1. prepareNodeAttempts env r ctx committed sts rest st1 = Inr (es1, st')"
        using Some "2.prems"(1) by (auto simp: Let_def map_sum_def split: sum.splits prod.splits if_splits)
      have "attempt_key a \<in> attempt_key ` set (es_nodes st)"
        using a "2.prems"(3) by auto
      then have "holds st1"
        using a by (intro holds_insert_mk [OF ins "2.prems"(2)])
          (simp add: new_attempt_def attempt_follows_def attempt_key_def)
      moreover have "attempt_key ` set committed \<subseteq> attempt_key ` set (es_nodes st1)"
        using insert_attempt_appends [OF ins] "2.prems"(3) by auto
      ultimately show ?thesis
        using rest "2.IH" Some False ins by (auto simp: Let_def)
    qed
  qed
qed

lemma holds_loop_top:
  "loop_top env plan ctxs sts st = (x, sts', st') \<Longrightarrow> holds st \<Longrightarrow> holds st'"
proof (induction env plan ctxs sts st rule: loop_top.induct)
  case (1 env plan ctxs sts st)
  note step = "1.prems"(1) [unfolded loop_top.simps [of env plan ctxs sts st]]
  show ?case
  proof (cases "getRunById (es_runs st) (ep_runId plan)")
    case None
    then show ?thesis using step "1.prems"(2) by simp
  next
    case (Some run)
    let ?ctx = "buildExpressionContext run ctxs"
    let ?tick = "condition_tick (ev_num env) (ep_adjacency plan) sts (ep_compiledGraph plan) ?ctx"
    let ?dead = "cancelDeadEndedNodes env (ep_runId plan) ?ctx (deadEndedNodes ?tick) sts st"
    show ?thesis
    proof (cases "wr_status run \<in> {R_Cancelled, R_Paused, R_Pausing} \<or> isl ?dead")
      case True
      then show ?thesis using step "1.prems"(2) Some by (auto simp: Let_def isl_def split: if_splits)
    next
      case False
      then obtain sts1 st1 where d: "?dead = Inr (sts1, st1)" by (cases ?dead) auto
      have h: "holds st1" by (rule holds_cancelDeadEndedNodes [OF d "1.prems"(2)])
      show ?thesis
      proof (cases "readyNodes ?tick = [] \<and> deadEndedNodes ?tick \<noteq> []")
        case True
        then have "loop_top env plan ctxs sts1 st1 = (x, sts', st')" using step Some False d by (simp add: Let_def)
        then show ?thesis using "1.IH" [OF Some _ refl refl d refl] True False h by simp
      next
        case no_round: False
        then show ?thesis
          using step Some False d h by (auto simp: Let_def split: if_splits sum.splits intro: holds_prepareNodeAttempts [OF _ h subset_refl])
      qed
    qed
  qed
qed

lemma holds_start_tasks: "start_tasks env plan run as st = (ts, st') \<Longrightarrow> holds st \<Longrightarrow> holds st'"
  by (induction as arbitrary: st ts) (auto simp: Let_def split: prod.splits dest: holds_start_task)

lemma holds_run_loop_from_top: "holds st \<Longrightarrow> holds (run_loop_from_top env tid lp st)"
  by (auto simp: run_loop_from_top_def Let_def split: prod.splits loop_exit.splits
      dest!: holds_loop_top dest: holds_start_tasks)

lemma holds_begin_run: "holds st \<Longrightarrow> holds (begin_run env tid plan origin st)"
  by (auto simp: begin_run_def Let_def split: option.splits sum.splits prod.splits
      intro!: holds_run_loop_from_top)

lemma holds_scheduleRunExecution: "holds st \<Longrightarrow> holds (scheduleRunExecution env plan origin st)"
  by (auto simp: scheduleRunExecution_def Let_def intro!: holds_begin_run)

lemma holds_run_returned: "holds st \<Longrightarrow> holds (run_returned env tid lp st)"
  by (auto simp: run_returned_def Let_def intro!: holds_begin_run)

lemma holds_apply_policy: "holds st \<Longrightarrow> holds (apply_policy env tid lp flags st)"
  by (auto simp: apply_policy_def Let_def split: WorkflowFailureStrategy.splits option.splits
      intro!: holds_run_loop_from_top holds_cancel_pending)

lemma holds_applyBatchResults: "holds st \<Longrightarrow> holds (applyBatchResults env tid lp tasks flags st)"
  by (auto simp: applyBatchResults_def Let_def split: prod.splits option.splits
      intro!: holds_apply_policy)

lemma holds_record_rejected: "holds st \<Longrightarrow> holds (record_rejected env tid lp a msg status rest flags st)"
  by (auto simp: record_rejected_def Let_def intro: holds_applyBatchResults)

lemma holds_loop_step: "holds st \<Longrightarrow> holds (loop_step env tid lp p ans st)"
  by (cases "(env, tid, lp, p, ans, st)" rule: loop_step.cases)
    (auto split: answer.splits failure_next.splits prod.splits dest: holds_failure_step
      intro!: holds_applyBatchResults holds_record_rejected holds_run_returned)

end

lemma attempt_keys_set_attempt [simp]:
  "attempt_key ` set (es_nodes (set_attempt i u st)) = attempt_key ` set (es_nodes st)"
proof -
  have "map attempt_key (es_nodes (set_attempt i u st)) = map attempt_key (es_nodes st)"
    by (simp add: set_attempt_def)
  from arg_cong [OF this, of set] show ?thesis by simp
qed

context store_discipline
begin

lemma holds_fold: "(\<And>n st. holds st \<Longrightarrow> holds (f n st)) \<Longrightarrow> holds st \<Longrightarrow> holds (fold f ns st)"
  by (induction ns arbitrary: st) auto

lemma holds_reject_approvals: "holds st \<Longrightarrow> holds (reject_approvals ns r st)"
  by (auto simp: reject_approvals_def to_status_def intro!: holds_cancel_pending holds_fold holds_set_attempt)

lemma holds_complete_approvals: "holds st \<Longrightarrow> holds (complete_approvals ns st)"
  by (auto simp: complete_approvals_def to_status_def intro!: holds_fold holds_set_attempt)

lemma holds_retry_behind:
  assumes "retry_behind b env r n st = Inr st'" and "holds st"
    and "na_runId n = r" and "attempt_key n \<in> attempt_key ` set (es_nodes st)"
  shows "holds st'"
proof -
  from assms(1) obtain e where "insert_attempt (\<lambda>x y. new_attempt (if b then x else y) (if b then y else x)
      r (na_nodeId n) (na_attempt n + 1) N_Retrying (na_input n) None (es_clock st)) env st = Inr (e, st')"
    by (auto simp: retry_behind_def map_sum_def split: sum.splits)
  then show ?thesis
    using assms(2-4) by (elim holds_insert_mk) (auto simp: new_attempt_def attempt_follows_def attempt_key_def)
qed

lemma holds_all_retries:
  "all_or_nothing (retry_behind b env r) ns st = Inr st' \<Longrightarrow> holds st \<Longrightarrow>
     (\<And>n. n \<in> set ns \<Longrightarrow> na_runId n = r \<and> attempt_key n \<in> attempt_key ` set (es_nodes st)) \<Longrightarrow> holds st'"
proof (induction ns arbitrary: st)
  case (Cons n ns)
  then obtain st1 where r: "retry_behind b env r n st = Inr st1"
    and rest: "all_or_nothing (retry_behind b env r) ns st1 = Inr st'" by (auto split: sum.splits)
  obtain e where "es_nodes st1 = es_nodes st @ [e]" using retry_behind_appends [OF r] by blast
  then show ?case
    using Cons.prems holds_retry_behind [OF r] by (intro Cons.IH [OF rest]) auto
qed simp

lemma attempt_keys_complete [simp]:
  "attempt_key ` set (es_nodes (complete_approvals ns st)) = attempt_key ` set (es_nodes st)"
  unfolding complete_approvals_def by (induction ns arbitrary: st) simp_all

lemma holds_run_reply: "run_reply r st = (x, st') \<Longrightarrow> holds st \<Longrightarrow> holds st'"
  by (auto simp: run_reply_def)

lemma holds_snd_run_reply [simp]: "holds (snd (run_reply r st)) = holds st"
  by (simp add: run_reply_def)

lemma holds_blocked_retries:
  assumes "all_or_nothing (retry_behind True env r) (filter P (blocked_attempts (cache_plan plan st) r))
      (complete_approvals ns (cache_plan plan st)) = Inr st'" and "holds st"
  shows "holds st'"
proof (rule holds_all_retries [OF assms(1)])
  show "holds (complete_approvals ns (cache_plan plan st))"
    using assms(2) by (simp add: holds_complete_approvals)
next
  fix n
  assume "n \<in> set (filter P (blocked_attempts (cache_plan plan st) r))"
  then show "na_runId n = r \<and>
      attempt_key n \<in> attempt_key ` set (es_nodes (complete_approvals ns (cache_plan plan st)))"
    by (auto simp: blocked_attempts_def listNodesByRun_def)
qed

lemma holds_resumeRun: "holds st \<Longrightarrow> holds (snd (resumeRun env r approved st))"
  by (auto simp: resumeRun_def Let_def continue_run_def split: option.splits sum.splits simp del: filter_empty_conv
      intro!: holds_reject_approvals holds_complete_approvals holds_scheduleRunExecution
      dest: holds_blocked_retries)

lemma holds_cancelRun: "holds st \<Longrightarrow> holds (snd (cancelRun env r why st))"
  by (auto simp: cancelRun_def Let_def split: option.splits sum.splits intro!: holds_cancel_pending)

lemma holds_retryRun: "holds st \<Longrightarrow> holds (snd (retryRun env r nodeIds st))"
proof -
  assume h: "holds st"
  have failed: "na_runId n = r \<and> attempt_key n \<in> attempt_key ` set (es_nodes st)"
    if "n \<in> set (failed_latest st r)" for n
  proof -
    from that obtain k where "(k, n) \<in> set (latest_attempts (es_nodes st) r)"
      by (auto simp: failed_latest_def map_values_def)
    moreover have "distinct (map fst (latest_attempts (es_nodes st) r))"
      using latest_attempts_ok [of "es_nodes st" r] by (simp add: map_ok_def map_keys_def)
    ultimately have "map_get (latest_attempts (es_nodes st) r) k = Some n" by (simp add: map_get_def)
    from latest_attempts_in [OF this] show ?thesis by auto
  qed
  show ?thesis
    using h by (auto simp: retryRun_def Let_def split: option.splits sum.splits
        intro!: holds_scheduleRunExecution elim!: holds_all_retries dest!: failed) (auto simp: cache_plan_def)
qed

lemma holds_recover_runs: "holds st \<Longrightarrow> holds (snd (recover_runs env runs n st))"
proof (induction env runs n st rule: recover_runs.induct)
  case (2 env run rest n st)
  have "holds (scheduleRunExecution env plan By_Recover (cache_plan plan st))" for plan
    using "2.prems" by (simp add: holds_scheduleRunExecution)
  with 2 show ?case by (auto split: sum.splits)
qed simp

lemma holds_reportRemoteNodeResult: "holds st \<Longrightarrow> holds (snd (reportRemoteNodeResult env rp st))"
  by (auto simp: reportRemoteNodeResult_def Let_def to_status_def split: option.splits sum.splits
      intro!: holds_set_attempt)

lemma holds_remote_completed: "holds st \<Longrightarrow> holds (remote_completed env rp plan st)"
  by (auto simp: remote_completed_def split: option.splits intro!: holds_scheduleRunExecution)

lemma holds_reapExpiredLeases: "holds st \<Longrightarrow> holds (snd (reapExpiredLeases env st))"
  by (auto simp: reapExpiredLeases_def Let_def to_status_def intro!: holds_fold holds_set_attempt)

lemma holds_sweep_runs: "holds st \<Longrightarrow> holds (snd (sweep_runs f runs n st))"
  by (induction f runs n st rule: sweep_runs.induct)
    (auto split: option.splits sum.splits intro!: holds_cancel_pending)

lemma holds_sweepTimedOutNodes: "holds st \<Longrightarrow> holds (snd (sweepTimedOutNodes env st))"
  by (auto simp: sweepTimedOutNodes_def Let_def to_status_def intro!: holds_fold holds_set_attempt)

lemma holds_finish_start: "holds st \<Longrightarrow> holds (finish_start env k patch st)"
  by (auto simp: finish_start_def Let_def split: sum.splits intro!: holds_scheduleRunExecution)

lemma holds_answer_task: "holds st \<Longrightarrow> holds (answer_task env tid lp i ans st)"
  by (auto simp: answer_task_def Let_def split: prod.splits dest: holds_task_step)

lemma holds_thread_step: "holds st \<Longrightarrow> holds (thread_step env tid t ans st)"
  by (cases t) (auto split: answer.splits failure_next.splits prod.splits dest: holds_failure_step
      intro!: holds_loop_step holds_finish_start holds_remote_completed holds_scheduleRunExecution)

lemma holds_service_step: "holds st \<Longrightarrow> holds (service_step env e st)"
  by (cases e) (auto split: option.splits thread.splits simp: recoverActiveRuns_def sweepTimedOutRuns_def
      intro!: holds_resumeRun holds_cancelRun holds_retryRun holds_recover_runs holds_reportRemoteNodeResult
        holds_reapExpiredLeases holds_sweep_runs holds_sweepTimedOutNodes holds_answer_task holds_thread_step)

lemma holds_history: "holds st \<Longrightarrow> holds (history env events st)"
  unfolding history_def by (induction events arbitrary: st) (auto intro: holds_service_step)

end

section \<open>Single execution\<close>

text \<open>
  Row ids are unique, no attempt has been handed to the executor twice, and one that has been is not
  waiting to be started.
\<close>

definition executed_once ::
    "FridayWorkflowRunNodeEntity list \<Rightarrow> executor_call list \<Rightarrow> FridayWorkflowApprovalRequestEntity list \<Rightarrow> bool" where
  "executed_once ns cs as \<longleftrightarrow>
     distinct (map na_id ns) \<and> distinct (map xc_attempt cs) \<and>
     (\<forall>c\<in>set cs. \<exists>n\<in>set ns. na_id n = xc_attempt c \<and> na_status n \<notin> {N_Queued, N_Retrying})"

lemma executed_once_map:
  assumes "executed_once ns cs as" and "map na_id (map f ns) = map na_id ns"
    and "\<And>n. na_status n \<notin> {N_Queued, N_Retrying} \<Longrightarrow> na_status (f n) \<notin> {N_Queued, N_Retrying}"
  shows "executed_once (map f ns) cs as"
proof -
  have "na_id (f n) = na_id n" if "n \<in> set ns" for n
    using assms(2) that by (simp add: map_eq_conv)
  then show ?thesis
    using assms(1,3) assms(2) unfolding executed_once_def by (metis (no_types, lifting) image_eqI set_map)
qed

lemma executed_once_called:
  assumes "executed_once ns cs as" and "acquireLease (xc_attempt c) ow ex now ns = (True, ns')"
  shows "executed_once ns' (cs @ [c]) as"
proof -
  from assms(2) obtain n where n: "n \<in> set ns" "na_id n = xc_attempt c" "lease_free now n"
    by (auto simp: acquireLease_def list_ex_iff)
  have "xc_attempt c \<notin> xc_attempt ` set cs"
  proof
    assume "xc_attempt c \<in> xc_attempt ` set cs"
    then obtain m where "m \<in> set ns" "na_id m = xc_attempt c" "na_status m \<notin> {N_Queued, N_Retrying}"
      using assms(1) unfolding executed_once_def by (metis imageE)
    with n assms(1) have "m = n" unfolding executed_once_def by (metis distinct_map inj_on_eq_iff)
    with n(3) \<open>na_status m \<notin> {N_Queued, N_Retrying}\<close> show False by (simp add: lease_free_def)
  qed
  moreover define f where "f = (\<lambda>n. if na_id n = xc_attempt c \<and> lease_free now n
      then n\<lparr>na_leaseOwner := Some ow, na_leaseExpiresAt := Some ex, na_status := N_Running,
             na_startedAt := or_else (na_startedAt n) (Some now), na_updatedAt := now\<rparr> else n)"
  moreover have ns': "ns' = map f ns"
    using assms(2) by (simp add: acquireLease_def f_def)
  moreover have "executed_once (map f ns) cs as"
    by (rule executed_once_map [OF assms(1)]) (auto simp: f_def)
  moreover have "f n \<in> set ns'" "na_id (f n) = xc_attempt c" "na_status (f n) \<notin> {N_Queued, N_Retrying}"
    using n ns' by (auto simp: f_def)
  ultimately show ?thesis unfolding executed_once_def by auto
qed

interpretation executions: store_discipline executed_once
proof unfold_locales
  fix ns cs as ns' e
  assume "executed_once ns cs as" and "insertNodeAttempt e ns = Inr ns'"
  then show "executed_once ns' cs as"
    by (fastforce simp: executed_once_def insertNodeAttempt_def split: if_splits)
next
  fix ns cs as i ow ex now
  show "executed_once ns cs as \<Longrightarrow> executed_once (snd (acquireLease i ow ex now ns)) cs as"
    by (simp add: acquireLease_def) (erule executed_once_map, auto)
next
  fix ns cs as i u
  show "executed_once ns cs as \<Longrightarrow> au_status u \<notin> {N_Queued, N_Retrying} \<Longrightarrow> executed_once (updateNodeAttempt i u ns) cs as"
    by (simp only: updateNodeAttempt_def) (erule executed_once_map, auto simp: apply_update_def)
next
  fix ns cs as r now
  show "executed_once ns cs as \<Longrightarrow> executed_once (cancelAllPendingNodes r now ns) cs as"
    by (simp only: cancelAllPendingNodes_def) (erule executed_once_map, auto)
next
  fix ns cs as ns' ow ex now and c :: executor_call
  show "executed_once ns cs as \<Longrightarrow> acquireLease (xc_attempt c) ow ex now ns = (True, ns') \<Longrightarrow>
      executed_once ns' (cs @ [c]) as"
    by (rule executed_once_called)
qed (simp add: executed_once_def)

section \<open>Numbering of attempts\<close>

text \<open>The attempts of a node of a run are numbered 1 to n, each once.\<close>

definition numbered ::
    "FridayWorkflowRunNodeEntity list \<Rightarrow> executor_call list \<Rightarrow> FridayWorkflowApprovalRequestEntity list \<Rightarrow> bool" where
  "numbered ns cs as \<longleftrightarrow>
     distinct (map attempt_key ns) \<and>
     (\<forall>n\<in>set ns. 1 \<le> na_attempt n \<and> (na_attempt n = 1 \<or> (na_runId n, na_nodeId n, na_attempt n - 1) \<in> attempt_key ` set ns))"

lemma numbered_keys:
  assumes "map attempt_key ms = map attempt_key ns"
  shows "numbered ms cs as = numbered ns cs' as'"
proof -
  have key: "numbered ns cs as \<longleftrightarrow> distinct (map attempt_key ns) \<and>
      (\<forall>(r, k, i)\<in>set (map attempt_key ns). 1 \<le> i \<and> (i = 1 \<or> (r, k, i - 1) \<in> set (map attempt_key ns)))" for ns cs as
    by (auto simp: numbered_def attempt_key_def)
  show ?thesis unfolding key assms ..
qed

interpretation attempts: store_discipline numbered
proof unfold_locales
  fix ns cs as ns' e
  assume n: "numbered ns cs as" and i: "insertNodeAttempt e ns = Inr ns'" and f: "attempt_follows ns e"
  have "1 \<le> na_attempt e"
  proof (cases "na_attempt e = 1")
    case False
    then obtain m where "m \<in> set ns" "na_attempt m = na_attempt e - 1"
      using f by (auto simp: attempt_follows_def attempt_key_def)
    then show ?thesis using n unfolding numbered_def by force
  qed simp
  then show "numbered ns' cs as"
    using n i f by (auto simp: numbered_def insertNodeAttempt_def attempt_follows_def split: if_splits)
next
  fix ns cs as ns' ow ex now and c :: executor_call
  assume "numbered ns cs as" and "acquireLease (xc_attempt c) ow ex now ns = (True, ns')"
  then show "numbered ns' (cs @ [c]) as"
    using numbered_keys [of ns' ns] acquireLease_keys [of "xc_attempt c" ow ex now ns] by auto
qed (auto simp: numbered_keys [OF updateNodeAttempt_keys] numbered_keys [OF acquireLease_keys]
    numbered_keys [OF cancelAllPendingNodes_keys] numbered_keys [OF refl] cong: numbered_keys)

section \<open>In every history\<close>

text \<open>
  C4. Whatever the order of calls, answers, retries, restarts and sweeps, the executor is handed every
  attempt at most once, only an attempt in the table, and no attempt that still waits to be started has
  been handed over.
\<close>

theorem attempts_executed_once:
  "let st = history env events (initial_state users workflows versions now);
       waiting = filter (\<lambda>n. na_status n \<in> {N_Queued, N_Retrying}) (es_nodes st) in
     distinct (map xc_attempt (es_calls st)) \<and>
     xc_attempt ` set (es_calls st) \<subseteq> na_id ` (set (es_nodes st) - set waiting) \<and>
     xc_attempt ` set (es_calls st) \<inter> na_id ` set waiting = {}"
proof -
  have "executions.holds (initial_state users workflows versions now)"
    by (simp add: executions.holds_def executed_once_def initial_state_def)
  then have e: "executions.holds (history env events (initial_state users workflows versions now))"
    by (rule executions.holds_history)
  define st where "st = history env events (initial_state users workflows versions now)"
  define W where "W = set (filter (\<lambda>n. na_status n \<in> {N_Queued, N_Retrying}) (es_nodes st))"
  have i: "inj_on na_id (set (es_nodes st))" and d: "distinct (map xc_attempt (es_calls st))"
    using e unfolding executions.holds_def executed_once_def st_def [symmetric] by (simp_all add: distinct_map)
  have sub: "xc_attempt ` set (es_calls st) \<subseteq> na_id ` (set (es_nodes st) - W)"
  proof
    fix x
    assume "x \<in> xc_attempt ` set (es_calls st)"
    then obtain n where "n \<in> set (es_nodes st)" "na_id n = x" "na_status n \<notin> {N_Queued, N_Retrying}"
      using e unfolding executions.holds_def executed_once_def st_def [symmetric] by blast
    then show "x \<in> na_id ` (set (es_nodes st) - W)"
      by (intro image_eqI [of _ _ n]) (auto simp: W_def)
  qed
  have "W \<subseteq> set (es_nodes st)" by (auto simp: W_def)
  then have "na_id ` (set (es_nodes st) - W) \<inter> na_id ` W = {}"
    using inj_on_image_Int [OF i, of "set (es_nodes st) - W" W] by auto
  then have "xc_attempt ` set (es_calls st) \<inter> na_id ` W = {}" using sub by blast
  then show ?thesis using sub d unfolding st_def [symmetric] Let_def W_def by blast
qed

lemma downward_closed:
  assumes "finite S" and pred: "\<And>i. i \<in> S \<Longrightarrow> 1 \<le> i \<and> (i = 1 \<or> i - 1 \<in> S)"
  shows "S = {1..int (card S)}"
proof (cases "S = {}")
  case False
  define m where "m = Max S"
  have m: "m \<in> S" unfolding m_def by (rule Max_in [OF assms(1) False])
  have down: "int k < m \<Longrightarrow> m - int k \<in> S" for k
  proof (induction k)
    case (Suc k)
    then have "m - int k \<in> S" "m - int k \<noteq> 1" by simp_all
    then show ?case using pred [of "m - int k"] by (simp add: algebra_simps)
  qed (simp add: m)
  have "S = {1..m}"
  proof (rule set_eqI, rule iffI)
    fix i
    assume "i \<in> S"
    then show "i \<in> {1..m}" using pred Max_ge [OF assms(1)] by (simp add: m_def)
  next
    fix i
    assume i: "i \<in> {1..m}"
    then have "int (nat (m - i)) < m" and "m - int (nat (m - i)) = i" by simp_all
    then show "i \<in> S" using down [of "nat (m - i)"] by simp
  qed
  moreover from pred [OF m] have "1 \<le> m" by blast
  ultimately show ?thesis by simp
qed simp

text \<open>
  C34. The attempts of a node in a run are numbered from 1 on, every number exactly once, whatever retries,
  resumptions, remote reports and restarts came in between.
\<close>

theorem attempts_numbered:
  "let rows = attempts_of (es_nodes (history env events (initial_state users workflows versions now))) runId nodeId in
     distinct (map na_attempt rows) \<and> na_attempt ` set rows = {1..int (length rows)}"
proof -
  have "attempts.holds (initial_state users workflows versions now)"
    by (simp add: attempts.holds_def numbered_def initial_state_def)
  then have h: "attempts.holds (history env events (initial_state users workflows versions now))"
    by (rule attempts.holds_history)
  define rows where "rows = attempts_of (es_nodes (history env events (initial_state users workflows versions now))) runId nodeId"
  have d: "distinct (map na_attempt rows)"
    using h unfolding attempts.holds_def numbered_def rows_def attempts_of_def
    by (auto simp: distinct_map inj_on_def attempt_key_def)
  moreover have "i \<in> na_attempt ` set rows \<Longrightarrow> 1 \<le> i \<and> (i = 1 \<or> i - 1 \<in> na_attempt ` set rows)" for i
    using h unfolding attempts.holds_def numbered_def rows_def attempts_of_def
    by (force simp: attempt_key_def)
  then have "na_attempt ` set rows = {1..int (card (na_attempt ` set rows))}"
    by (intro downward_closed) auto
  moreover have "card (na_attempt ` set rows) = length rows"
    using distinct_card [OF d] by simp
  ultimately show ?thesis unfolding rows_def [symmetric] by simp
qed

end
