(* ===== verification/Workflow_Approvals.thy ===== *)
theory Workflow_Approvals
  imports Workflow_Run_Safety
begin

text \<open>
  The approval service of the workflow engine,
  src/src/workflows/services/friday-workflow-approval-service.ts, over the execution service it resumes
  runs with. A decision is one stretch up to the awaited \<open>resumeRun\<close> and one behind it; other calls,
  other decisions and every event of the execution service may come in between.
\<close>

section \<open>Authorisation\<close>

definition FRIDAY_APPROVAL_ROLE_HIERARCHY :: "string list" where
  "FRIDAY_APPROVAL_ROLE_HIERARCHY = [''operator'', ''admin'', ''owner'']"

definition roleRank :: "string \<Rightarrow> int" where
  "roleRank role = (case find_index (\<lambda>r. r = role) FRIDAY_APPROVAL_ROLE_HIERARCHY of None \<Rightarrow> - 1 | Some i \<Rightarrow> int i)"

definition unauthorized :: "string \<Rightarrow> wf_error" where
  "unauthorized message = domain_error ''WORKFLOW_APPROVAL_UNAUTHORIZED'' message 403"

text \<open>The optional callback yields the role of a user, or none.\<close>

type_synonym role_resolver = "(UUID \<Rightarrow> string option) option"

definition assertApproverAuthorized ::
    "role_resolver \<Rightarrow> FridayWorkflowApprovalRequestEntity \<Rightarrow> UUID \<Rightarrow> unit outcome" where
  "assertApproverAuthorized resolveUserRole approval decidedBy =
     (if given (ar_approverUserId approval) \<and> ar_approverUserId approval \<noteq> Some decidedBy
      then Inl (unauthorized (''User '' @ squoted decidedBy @ '' is not the designated approver''))
      else case (ar_approverRole approval, resolveUserRole) of
        (Some required, Some resolve) \<Rightarrow>
          if required = [] then Inr ()
          else if \<not> given (resolve decidedBy)
          then Inl (unauthorized (''Cannot resolve role for user '' @ squoted decidedBy))
          else (let userRole = the (resolve decidedBy); requiredRank = roleRank required; userRank = roleRank userRole in
                if requiredRank = - 1 \<or> userRank = - 1 \<or> userRank < requiredRank
                then Inl (unauthorized (''User role '' @ squoted userRole @ '' is insufficient; requires '' @
                       squoted required @ '' or higher''))
                else Inr ())
      | _ \<Rightarrow> Inr ())"

section \<open>Decisions\<close>

record decision_input =
  di_approvalId :: UUID
  di_decidedByUserId :: UUID
  di_comment :: "string option"

text \<open>
  A decision that waits for \<open>resumeRun\<close>: the request it read, and what the first stretch of
  \<open>resumeRun\<close> ended with. An expiry that waits for \<open>resumeRun\<close> or \<open>cancelRun\<close> of one request.
\<close>

datatype approval_wait =
    Deciding bool decision_input FridayWorkflowApprovalRequestEntity "reply outcome"
  | Expiring FridayWorkflowApprovalRequestEntity "reply outcome" "FridayWorkflowApprovalRequestEntity list"
  | Cancelling "FridayWorkflowApprovalRequestEntity list"

record decision_reply =
  dr_approval :: FridayWorkflowApprovalRequestEntity
  dr_resumed :: bool

record approval_system =
  as_exec :: exec_state
  as_waits :: "(nat, approval_wait) js_map"
  as_next :: nat
  as_replies :: "(nat \<times> decision_reply outcome) list"

definition approval_not_found :: wf_error where
  "approval_not_found = domain_error ''WORKFLOW_APPROVAL_NOT_FOUND'' ''Approval request not found or already resolved'' 404"

definition reply_to :: "nat \<Rightarrow> decision_reply outcome \<Rightarrow> approval_system \<Rightarrow> approval_system" where
  "reply_to k r sys = sys\<lparr>as_waits := map_del (as_waits sys) k, as_replies := as_replies sys @ [(k, r)]\<rparr>"

definition wait_with :: "nat \<Rightarrow> approval_wait \<Rightarrow> exec_state \<Rightarrow> approval_system \<Rightarrow> approval_system" where
  "wait_with k w st sys = sys\<lparr>as_exec := st, as_waits := map_set (as_waits sys) k w\<rparr>"

text \<open>\<open>approve\<close> and \<open>reject\<close> up to the awaited \<open>resumeRun\<close>.\<close>

definition begin_decision ::
    "exec_env \<Rightarrow> role_resolver \<Rightarrow> bool \<Rightarrow> decision_input \<Rightarrow> approval_system \<Rightarrow> approval_system" where
  "begin_decision env roles approve inp sys =
     (let k = as_next sys; sys = sys\<lparr>as_next := Suc k\<rparr>; st = as_exec sys in
      case approval_getById (es_approvals st) (di_approvalId inp) of
        None \<Rightarrow> reply_to k (Inl approval_not_found) sys
      | Some a \<Rightarrow>
          if ar_status a \<noteq> Ap_Pending then reply_to k (Inl approval_not_found) sys
          else (case assertApproverAuthorized roles a (di_decidedByUserId inp) of
                  Inl e \<Rightarrow> reply_to k (Inl e) sys
                | Inr _ \<Rightarrow>
                    (let (r, st') = resumeRun env (ar_runId a) (Some approve) st
                     in wait_with k (Deciding approve inp a r) st' sys)))"

text \<open>Only a run that could not be resumed from its status lets the decision go on.\<close>

fun already_terminal :: "wf_error \<Rightarrow> bool" where
  "already_terminal (Domain_Thrown e _) = (err_code e = ''INVALID_RUN_TRANSITION'')"
| "already_terminal (Error_Thrown _) = False"

definition commit_decision ::
    "nat \<Rightarrow> bool \<Rightarrow> decision_input \<Rightarrow> bool \<Rightarrow> approval_system \<Rightarrow> approval_system" where
  "commit_decision k approve inp resumed sys =
     (let st = as_exec sys in
      case resolvePending (es_users st) (di_approvalId inp) (if approve then Ap_Approved else Ap_Rejected)
             (di_decidedByUserId inp) (di_comment inp) (es_clock st) (es_approvals st) of
        Inl e \<Rightarrow> reply_to k (Inl e) sys
      | Inr (None, rows) \<Rightarrow> reply_to k (Inl approval_not_found) sys
      | Inr (Some a, rows) \<Rightarrow>
          reply_to k (Inr \<lparr>dr_approval = a, dr_resumed = resumed\<rparr>) (sys\<lparr>as_exec := st\<lparr>es_approvals := rows\<rparr>\<rparr>))"

definition finish_decision ::
    "nat \<Rightarrow> bool \<Rightarrow> decision_input \<Rightarrow> reply outcome \<Rightarrow> answer \<Rightarrow> approval_system \<Rightarrow> approval_system" where
  "finish_decision k approve inp r ans sys =
     (let failed = (\<lambda>e. if already_terminal e then commit_decision k approve inp False sys else reply_to k (Inl e) sys) in
      case r of
        Inl e \<Rightarrow> if ans = Returned then failed e else sys
      | Inr Waiting \<Rightarrow>
          (case ans of Returned \<Rightarrow> commit_decision k approve inp True sys | Threw e \<Rightarrow> failed e | _ \<Rightarrow> sys)
      | Inr _ \<Rightarrow> if ans = Returned then commit_decision k approve inp True sys else sys)"

section \<open>Expiry\<close>

text \<open>The next expired request: its run is resumed with a rejection.\<close>

fun expire_next ::
    "exec_env \<Rightarrow> nat \<Rightarrow> FridayWorkflowApprovalRequestEntity list \<Rightarrow> approval_system \<Rightarrow> approval_system" where
  "expire_next env k [] sys = sys\<lparr>as_waits := map_del (as_waits sys) k\<rparr>"
| "expire_next env k (a # rest) sys =
     (let (r, st) = resumeRun env (ar_runId a) (Some False) (as_exec sys) in wait_with k (Expiring a r rest) st sys)"

definition begin_expiry :: "exec_env \<Rightarrow> int option \<Rightarrow> approval_system \<Rightarrow> approval_system" where
  "begin_expiry env limit sys =
     (let st = as_exec sys;
          (expired, rows) = approval_expirePending (es_clock st) (case limit of None \<Rightarrow> 100 | Some n \<Rightarrow> n) (es_approvals st)
      in expire_next env (as_next sys) expired
           (sys\<lparr>as_exec := st\<lparr>es_approvals := rows\<rparr>, as_next := Suc (as_next sys)\<rparr>))"

text \<open>A run that cannot be resumed is cancelled; a failure of that is ignored.\<close>

definition expiry_resumed ::
    "exec_env \<Rightarrow> nat \<Rightarrow> FridayWorkflowApprovalRequestEntity \<Rightarrow> reply outcome \<Rightarrow> FridayWorkflowApprovalRequestEntity list
     \<Rightarrow> answer \<Rightarrow> approval_system \<Rightarrow> approval_system" where
  "expiry_resumed env k a r rest ans sys =
     (let cancel = wait_with k (Cancelling rest)
            (snd (cancelRun env (ar_runId a) (Some ''Approval expired'') (as_exec sys))) sys
      in case (r, ans) of
           (Inl e, Returned) \<Rightarrow> cancel
         | (Inr Waiting, Threw e) \<Rightarrow> cancel
         | (Inr _, Returned) \<Rightarrow> expire_next env k rest sys
         | _ \<Rightarrow> sys)"

section \<open>The system\<close>

datatype approval_event =
    Exec_Event event
  | Decide bool decision_input
  | Expire "int option"
  | Answer_Wait nat answer

fun wait_step :: "exec_env \<Rightarrow> nat \<Rightarrow> approval_wait \<Rightarrow> answer \<Rightarrow> approval_system \<Rightarrow> approval_system" where
  "wait_step env k (Deciding approve inp a r) ans sys = finish_decision k approve inp r ans sys"
| "wait_step env k (Expiring a r rest) ans sys = expiry_resumed env k a r rest ans sys"
| "wait_step env k (Cancelling rest) ans sys = (if ans = Returned then expire_next env k rest sys else sys)"

fun system_step :: "exec_env \<Rightarrow> role_resolver \<Rightarrow> approval_event \<Rightarrow> approval_system \<Rightarrow> approval_system" where
  "system_step env roles (Exec_Event e) sys = sys\<lparr>as_exec := service_step env e (as_exec sys)\<rparr>"
| "system_step env roles (Decide approve inp) sys = begin_decision env roles approve inp sys"
| "system_step env roles (Expire limit) sys = begin_expiry env limit sys"
| "system_step env roles (Answer_Wait k ans) sys =
     (case map_get (as_waits sys) k of None \<Rightarrow> sys | Some w \<Rightarrow> wait_step env k w ans sys)"

definition system_history ::
    "exec_env \<Rightarrow> role_resolver \<Rightarrow> approval_event list \<Rightarrow> approval_system \<Rightarrow> approval_system" where
  "system_history env roles events sys = fold (system_step env roles) events sys"

definition initial_system ::
    "UUID list \<Rightarrow> workflow_row list \<Rightarrow> version_row list \<Rightarrow> wf_time \<Rightarrow> approval_system" where
  "initial_system users workflows versions now =
     \<lparr>as_exec = initial_state users workflows versions now, as_waits = map_empty, as_next = 0, as_replies = []\<rparr>"

section \<open>Who may decide\<close>

definition authorised :: "role_resolver \<Rightarrow> FridayWorkflowApprovalRequestEntity \<Rightarrow> UUID \<Rightarrow> bool" where
  "authorised roles a u \<longleftrightarrow> assertApproverAuthorized roles a u = Inr ()"

definition decided :: "FridayWorkflowApprovalRequestEntity \<Rightarrow> bool" where
  "decided a \<longleftrightarrow> ar_status a \<in> {Ap_Approved, Ap_Rejected}"

definition decided_properly :: "role_resolver \<Rightarrow> FridayWorkflowApprovalRequestEntity \<Rightarrow> bool" where
  "decided_properly roles a \<longleftrightarrow> (\<exists>u. ar_decidedByUserId a = Some u \<and> authorised roles a u)"

definition same_request :: "FridayWorkflowApprovalRequestEntity \<Rightarrow> FridayWorkflowApprovalRequestEntity \<Rightarrow> bool" where
  "same_request a b \<longleftrightarrow>
     ar_id b = ar_id a \<and> ar_approverUserId b = ar_approverUserId a \<and> ar_approverRole b = ar_approverRole a"

lemma authorised_same: "same_request a b \<Longrightarrow> authorised roles b u = authorised roles a u"
  by (simp add: authorised_def assertApproverAuthorized_def same_request_def)

lemma same_request_refl [simp]: "same_request a a"
  by (simp add: same_request_def)

lemma same_request_trans: "same_request a b \<Longrightarrow> same_request b c \<Longrightarrow> same_request a c"
  by (simp add: same_request_def)

section \<open>How the table of requests changes\<close>

text \<open>
  No request is lost and one that is not pending stays as it is; a row that carries a decision and was
  not there before was decided by an authorised user.
\<close>

definition keeps :: "FridayWorkflowApprovalRequestEntity \<Rightarrow> FridayWorkflowApprovalRequestEntity \<Rightarrow> bool" where
  "keeps a b \<longleftrightarrow> same_request a b \<and> (ar_status a = Ap_Pending \<or> b = a)"

definition advances ::
    "role_resolver \<Rightarrow> FridayWorkflowApprovalRequestEntity list \<Rightarrow> FridayWorkflowApprovalRequestEntity list \<Rightarrow> bool" where
  "advances roles rows rows' \<longleftrightarrow>
     distinct (map ar_id rows') \<and> (\<forall>a\<in>set rows. \<exists>b\<in>set rows'. keeps a b) \<and>
     (\<forall>b\<in>set rows'. decided b \<longrightarrow> b \<in> set rows \<or> decided_properly roles b)"

lemma keeps_refl [simp]: "keeps a a"
  by (simp add: keeps_def)

lemma keeps_trans: "keeps a b \<Longrightarrow> keeps b c \<Longrightarrow> keeps a c"
  by (auto simp: keeps_def intro: same_request_trans)

lemma advancesI:
  assumes "distinct (map ar_id rows')" and "\<And>a. a \<in> set rows \<Longrightarrow> \<exists>b\<in>set rows'. keeps a b"
    and "\<And>b. b \<in> set rows' \<Longrightarrow> decided b \<Longrightarrow> b \<in> set rows \<or> decided_properly roles b"
  shows "advances roles rows rows'"
  unfolding advances_def using assms by simp

lemma advancesD:
  assumes "advances roles rows rows'"
  shows "distinct (map ar_id rows')" and "a \<in> set rows \<Longrightarrow> \<exists>b\<in>set rows'. keeps a b"
    and "b \<in> set rows' \<Longrightarrow> decided b \<Longrightarrow> b \<in> set rows \<or> decided_properly roles b"
  using assms unfolding advances_def by simp_all

lemma advances_refl: "distinct (map ar_id rows) \<Longrightarrow> advances roles rows rows"
  by (rule advancesI, assumption) (blast intro: keeps_refl)+

lemma advances_trans:
  assumes xy: "advances roles xs ys" and yz: "advances roles ys zs"
  shows "advances roles xs zs"
proof (rule advancesI)
  fix a
  assume "a \<in> set xs"
  then obtain b where "b \<in> set ys" and ab: "keeps a b" using advancesD(2) [OF xy] by blast
  then obtain c where "c \<in> set zs" and "keeps b c" using advancesD(2) [OF yz] by blast
  then show "\<exists>c\<in>set zs. keeps a c" using keeps_trans [OF ab] by blast
next
  fix b
  assume "b \<in> set zs" and d: "decided b"
  then have "b \<in> set ys \<or> decided_properly roles b" by (rule advancesD(3) [OF yz])
  then show "b \<in> set xs \<or> decided_properly roles b" using advancesD(3) [OF xy _ d] by blast
qed (rule advancesD(1) [OF yz])

lemma advances_append:
  assumes "distinct (map ar_id (rows @ new))" and "\<forall>a\<in>set new. ar_status a = Ap_Pending"
  shows "advances roles rows (rows @ new)"
proof (rule advancesI [OF assms(1)])
  fix a
  assume "a \<in> set rows"
  then show "\<exists>b\<in>set (rows @ new). keeps a b" by (intro bexI [of _ a]) auto
next
  fix b
  assume "b \<in> set (rows @ new)" and "decided b"
  then show "b \<in> set rows \<or> decided_properly roles b" using assms(2) by (auto simp: decided_def)
qed

lemma advances_map:
  assumes "distinct (map ar_id rows)"
    and "\<And>a. a \<in> set rows \<Longrightarrow> keeps a (f a) \<and> (decided (f a) \<longrightarrow> f a = a \<or> decided_properly roles (f a))"
  shows "advances roles rows (map f rows)"
proof -
  have "ar_id (f a) = ar_id a" if "a \<in> set rows" for a
    using assms(2) [OF that] by (simp add: keeps_def same_request_def)
  then have "map ar_id (map f rows) = map ar_id rows" by simp
  then have "distinct (map ar_id (map f rows))" using assms(1) by (simp only:)
  moreover have "\<exists>b\<in>set (map f rows). keeps a b" if "a \<in> set rows" for a
    using assms(2) [OF that] that by auto
  moreover have "b \<in> set rows \<or> decided_properly roles b" if b: "b \<in> set (map f rows)" "decided b" for b
  proof -
    obtain a where "a \<in> set rows" "b = f a" using b(1) by auto
    then show ?thesis using assms(2) [of a] b(2) by auto
  qed
  ultimately show ?thesis by (rule advancesI)
qed

text \<open>The execution service only adds pending requests.\<close>

definition requests_added ::
    "FridayWorkflowApprovalRequestEntity list \<Rightarrow> FridayWorkflowRunNodeEntity list \<Rightarrow> executor_call list
     \<Rightarrow> FridayWorkflowApprovalRequestEntity list \<Rightarrow> bool" where
  "requests_added old ns cs as \<longleftrightarrow>
     distinct (map ar_id as) \<and> (\<exists>new. as = old @ new \<and> (\<forall>a\<in>set new. ar_status a = Ap_Pending))"

interpretation requests: store_discipline "requests_added old" for old
proof unfold_locales
  fix ns cs as as' users a
  assume "requests_added old ns cs as" and "approval_insert users a as = Inr as'" and "ar_status a = Ap_Pending"
  then show "requests_added old ns cs as'"
    by (fastforce simp: requests_added_def approval_insert_def split: if_splits)
qed (simp_all add: requests_added_def)

lemma requests_holds_now: "distinct (map ar_id (es_approvals st)) \<Longrightarrow> requests.holds (es_approvals st) st"
  by (simp add: requests.holds_def requests_added_def)

lemma advances_holds: "requests.holds (es_approvals st) st' \<Longrightarrow> advances roles (es_approvals st) (es_approvals st')"
  using advances_append by (fastforce simp: requests.holds_def requests_added_def simp del: distinct_append map_append)

lemma advances_execution:
  assumes "distinct (map ar_id (es_approvals st))"
  shows "advances roles (es_approvals st) (es_approvals (service_step env e st))"
    and "advances roles (es_approvals st) (es_approvals (snd (resumeRun env r approved st)))"
    and "advances roles (es_approvals st) (es_approvals (snd (cancelRun env r why st)))"
  using requests_holds_now [OF assms]
  by (auto intro!: advances_holds requests.holds_service_step requests.holds_resumeRun requests.holds_cancelRun)

lemma advances_expiry:
  assumes "distinct (map ar_id rows)"
  shows "advances roles rows (snd (approval_expirePending now limit rows))"
  using assms by (simp add: approval_expirePending_def Let_def)
    (rule advances_map, auto simp: keeps_def same_request_def decided_def)

lemma approval_getById_in: "approval_getById rows i = Some a \<Longrightarrow> a \<in> set rows \<and> ar_id a = i"
  by (auto simp: approval_getById_def find_Some_iff)

lemma advances_resolve:
  assumes "distinct (map ar_id rows)" and "resolvePending users i status u comment now rows = Inr (x, rows')"
    and "b \<in> set rows" and "ar_id b = i" and "authorised roles b u"
  shows "advances roles rows rows'"
proof -
  have "authorised roles (a\<lparr>ar_status := s, ar_decidedAt := t, ar_decidedByUserId := d, ar_decisionComment := c,
      ar_updatedAt := n\<rparr>) u" if "a \<in> set rows" "ar_id a = i" for a s t d c n
  proof -
    have "a = b" using that assms(1,3,4) by (auto simp: distinct_map inj_on_def)
    then show ?thesis using assms(5) by (subst authorised_same [of b]) (simp_all add: same_request_def)
  qed
  then show ?thesis
    using assms(1,2) by (auto simp: resolvePending_def Let_def split: if_splits
        intro: advances_refl intro!: advances_map simp: keeps_def same_request_def decided_properly_def)
qed

section \<open>Every history of the system\<close>

text \<open>A waiting decision holds a request of the table that its user may decide.\<close>

definition waits_ok :: "role_resolver \<Rightarrow> FridayWorkflowApprovalRequestEntity list \<Rightarrow> (nat, approval_wait) js_map \<Rightarrow> bool" where
  "waits_ok roles rows waits \<longleftrightarrow>
     (\<forall>k approve inp a r. map_get waits k = Some (Deciding approve inp a r) \<longrightarrow>
        (\<exists>b\<in>set rows. same_request a b \<and> ar_id b = di_approvalId inp \<and> authorised roles b (di_decidedByUserId inp)))"

definition system_ok :: "role_resolver \<Rightarrow> approval_system \<Rightarrow> bool" where
  "system_ok roles sys \<longleftrightarrow>
     distinct (map ar_id (es_approvals (as_exec sys))) \<and> waits_ok roles (es_approvals (as_exec sys)) (as_waits sys)"

lemma waits_ok_advances:
  assumes "waits_ok roles rows waits" and adv: "advances roles rows rows'"
  shows "waits_ok roles rows' waits"
  unfolding waits_ok_def
proof (intro allI impI)
  fix k approve inp a r
  assume "map_get waits k = Some (Deciding approve inp a r)"
  then obtain b where b: "b \<in> set rows" "same_request a b" "ar_id b = di_approvalId inp"
      "authorised roles b (di_decidedByUserId inp)"
    using assms(1) unfolding waits_ok_def by blast
  obtain c where c: "c \<in> set rows'" "same_request b c"
    using advancesD(2) [OF adv b(1)] by (auto simp: keeps_def)
  then show "\<exists>b\<in>set rows'. same_request a b \<and> ar_id b = di_approvalId inp \<and> authorised roles b (di_decidedByUserId inp)"
    using b same_request_trans [OF b(2) c(2)] authorised_same [OF c(2)]
    by (intro bexI [of _ c]) (auto simp: same_request_def)
qed

lemma waits_ok_del: "waits_ok roles rows waits \<Longrightarrow> waits_ok roles rows (map_del waits k)"
  by (simp add: waits_ok_def)

lemma waits_ok_other:
  "waits_ok roles rows waits \<Longrightarrow> (\<And>approve inp a r. w \<noteq> Deciding approve inp a r) \<Longrightarrow> waits_ok roles rows (map_set waits k w)"
  by (auto simp: waits_ok_def)

text \<open>A step is good if the table advances and the system stays in order.\<close>

definition good_step :: "role_resolver \<Rightarrow> approval_system \<Rightarrow> approval_system \<Rightarrow> bool" where
  "good_step roles sys sys' \<longleftrightarrow>
     advances roles (es_approvals (as_exec sys)) (es_approvals (as_exec sys')) \<and> system_ok roles sys'"

lemma good_stepI:
  assumes "system_ok roles sys"
    and adv: "advances roles (es_approvals (as_exec sys)) (es_approvals (as_exec sys'))"
    and "waits_ok roles (es_approvals (as_exec sys)) (as_waits sys')"
  shows "good_step roles sys sys'"
  using advancesD(1) [OF adv] waits_ok_advances [OF assms(3) adv] adv by (simp add: good_step_def system_ok_def)

lemma good_refl: "system_ok roles sys \<Longrightarrow> good_step roles sys sys"
  by (rule good_stepI) (auto simp: system_ok_def intro: advances_refl)

lemma good_trans: "good_step roles x y \<Longrightarrow> good_step roles y z \<Longrightarrow> good_step roles x z"
  using advances_trans by (auto simp: good_step_def)

lemma good_ok: "good_step roles x y \<Longrightarrow> system_ok roles y"
  by (simp add: good_step_def)

lemma system_okD:
  assumes "system_ok roles sys"
  shows "distinct (map ar_id (es_approvals (as_exec sys)))"
    and "waits_ok roles (es_approvals (as_exec sys)) (as_waits sys)"
  using assms by (simp_all add: system_ok_def)

lemma good_reply: "system_ok roles sys \<Longrightarrow> good_step roles sys (reply_to k r sys)"
  by (rule good_stepI) (auto simp: reply_to_def system_ok_def intro: advances_refl waits_ok_del)

lemma good_wait:
  assumes "system_ok roles sys"
    and "advances roles (es_approvals (as_exec sys)) (es_approvals st)"
    and "\<And>approve inp a r. w \<noteq> Deciding approve inp a r"
  shows "good_step roles sys (wait_with k w st sys)"
  by (rule good_stepI [OF assms(1)])
    (use assms(2) system_okD [OF assms(1)] in \<open>auto simp: wait_with_def intro: waits_ok_other [OF _ assms(3)]\<close>)

lemma good_next: "system_ok roles (sys\<lparr>as_next := n\<rparr>) = system_ok roles sys"
  "good_step roles (sys\<lparr>as_next := n\<rparr>) sys' = good_step roles sys sys'"
  by (simp_all add: system_ok_def good_step_def)

lemma good_begin_decision:
  assumes ok: "system_ok roles sys"
  shows "good_step roles sys (begin_decision env roles approve inp sys)"
proof -
  let ?sys = "sys\<lparr>as_next := Suc (as_next sys)\<rparr>"
  have ok': "system_ok roles ?sys" using ok by (simp add: good_next)
  have reply: "good_step roles sys (reply_to (as_next sys) r ?sys)" for r
    using good_reply [OF ok'] by (simp add: good_next)
  have wait: "good_step roles sys (wait_with (as_next sys) (Deciding approve inp a r) st ?sys)"
    if a: "approval_getById (es_approvals (as_exec sys)) (di_approvalId inp) = Some a"
      and "assertApproverAuthorized roles a (di_decidedByUserId inp) = Inr ()"
      and res: "resumeRun env (ar_runId a) (Some approve) (as_exec sys) = (r, st)" for a r st
  proof (rule good_stepI [OF ok])
    show "advances roles (es_approvals (as_exec sys))
        (es_approvals (as_exec (wait_with (as_next sys) (Deciding approve inp a r) st ?sys)))"
      using advances_execution(2) [OF system_okD(1) [OF ok], of roles env "ar_runId a" "Some approve"] res
      by (simp add: wait_with_def)
    show "waits_ok roles (es_approvals (as_exec sys)) (as_waits (wait_with (as_next sys) (Deciding approve inp a r) st ?sys))"
      using system_okD(2) [OF ok] that(2) approval_getById_in [OF a]
      by (auto simp: wait_with_def waits_ok_def authorised_def intro!: bexI [of _ a])
  qed
  show ?thesis
    using reply wait by (auto simp: begin_decision_def Let_def split: option.splits sum.splits prod.splits)
qed

lemma good_commit_decision:
  assumes ok: "system_ok roles sys" and at: "map_get (as_waits sys) k = Some (Deciding approve inp a r)"
  shows "good_step roles sys (commit_decision k approve inp resumed sys)"
proof -
  obtain b where b: "b \<in> set (es_approvals (as_exec sys))" "ar_id b = di_approvalId inp"
      "authorised roles b (di_decidedByUserId inp)"
    using system_okD(2) [OF ok] at unfolding waits_ok_def by blast
  have "good_step roles sys (reply_to k y (sys\<lparr>as_exec := (as_exec sys)\<lparr>es_approvals := rows\<rparr>\<rparr>))"
    if "resolvePending (es_users (as_exec sys)) (di_approvalId inp) status (di_decidedByUserId inp) (di_comment inp)
        (es_clock (as_exec sys)) (es_approvals (as_exec sys)) = Inr (x, rows)" for status x rows y
    by (rule good_stepI [OF ok])
      (use advances_resolve [OF system_okD(1) [OF ok] that b] system_okD(2) [OF ok] in
        \<open>auto simp: reply_to_def intro: waits_ok_del\<close>)
  then show ?thesis
    using good_reply [OF ok] by (auto simp: commit_decision_def Let_def split: sum.splits option.splits)
qed

lemma good_expire_next:
  assumes ok: "system_ok roles sys"
  shows "good_step roles sys (expire_next env k rest sys)"
proof (cases rest)
  case Nil
  then show ?thesis
    using system_okD [OF ok] by (auto intro!: good_stepI [OF ok] intro: advances_refl waits_ok_del)
next
  case (Cons a as)
  then show ?thesis
    using advances_execution(2) [OF system_okD(1) [OF ok], of roles env "ar_runId a" "Some False"]
    by (auto simp: Let_def split: prod.splits intro!: good_wait [OF ok])
qed

lemma good_begin_expiry:
  assumes ok: "system_ok roles sys"
  shows "good_step roles sys (begin_expiry env limit sys)"
proof -
  define n where "n = (case limit of None \<Rightarrow> 100 | Some n \<Rightarrow> n)"
  obtain expired rows where e: "approval_expirePending (es_clock (as_exec sys)) n (es_approvals (as_exec sys)) = (expired, rows)"
    by force
  let ?sys = "sys\<lparr>as_exec := (as_exec sys)\<lparr>es_approvals := rows\<rparr>, as_next := Suc (as_next sys)\<rparr>"
  have "good_step roles sys ?sys"
    using advances_expiry [OF system_okD(1) [OF ok], of roles "es_clock (as_exec sys)" n] system_okD(2) [OF ok] e
    by (intro good_stepI [OF ok]) simp_all
  from good_trans [OF this good_expire_next [OF good_ok [OF this]]] show ?thesis
    using e by (simp add: begin_expiry_def n_def Let_def)
qed

lemma good_expiry_resumed:
  assumes ok: "system_ok roles sys"
  shows "good_step roles sys (expiry_resumed env k a r rest ans sys)"
  using good_refl [OF ok] good_expire_next [OF ok]
    good_wait [OF ok advances_execution(3) [OF system_okD(1) [OF ok]]]
  by (auto simp: expiry_resumed_def Let_def split: sum.splits answer.splits reply.splits)

lemma good_wait_step:
  assumes ok: "system_ok roles sys" and at: "map_get (as_waits sys) k = Some w"
  shows "good_step roles sys (wait_step env k w ans sys)"
proof (cases w)
  case (Deciding approve inp a r)
  note commit = good_commit_decision [OF ok at [unfolded Deciding]]
  show ?thesis
    using commit good_reply [OF ok] good_refl [OF ok]
    by (auto simp: Deciding finish_decision_def Let_def split: sum.splits answer.splits reply.splits)
qed (use good_expiry_resumed [OF ok] good_expire_next [OF ok] good_refl [OF ok] in auto)

lemma good_system_step:
  assumes ok: "system_ok roles sys"
  shows "good_step roles sys (system_step env roles e sys)"
proof (cases e)
  case (Exec_Event x)
  then show ?thesis
    using advances_execution(1) [OF system_okD(1) [OF ok], of roles env x] system_okD(2) [OF ok]
    by (auto intro!: good_stepI [OF ok])
qed (use good_begin_decision [OF ok] good_begin_expiry [OF ok] good_wait_step [OF ok] good_refl [OF ok] in
    \<open>auto split: option.splits simp del: wait_step.simps\<close>)

lemma good_history: "system_ok roles sys \<Longrightarrow> good_step roles sys (system_history env roles events sys)"
  unfolding system_history_def
proof (induction events arbitrary: sys)
  case (Cons e events)
  have "good_step roles sys (system_step env roles e sys)" by (rule good_system_step [OF Cons.prems])
  from good_trans [OF this Cons.IH [OF good_ok [OF this]]] show ?case by simp
qed (simp add: good_refl)

lemma initial_system_ok: "system_ok roles (initial_system users workflows versions now)"
  by (simp add: system_ok_def waits_ok_def initial_system_def initial_state_def)

section \<open>Decisions are authorised and final\<close>

text \<open>
  C6. Whatever the order of decisions, expiries, answers and events of the execution service: every request
  that is approved or rejected was decided by a user the check lets decide it, no request is ever lost,
  and a request that is no longer pending never changes again.
\<close>

theorem decisions_authorised_final:
  "let system = (\<lambda>events. system_history env roles events (initial_system users workflows versions now));
       before = es_approvals (as_exec (system earlier));
       after = es_approvals (as_exec (system (earlier @ later))) in
     set (filter (\<lambda>a. ar_status a \<in> {Ap_Approved, Ap_Rejected}) after)
       \<subseteq> {a. \<exists>u. ar_decidedByUserId a = Some u \<and> assertApproverAuthorized roles a u = Inr ()} \<and>
     set (filter (\<lambda>a. ar_status a \<noteq> Ap_Pending) before) \<subseteq> set after \<and>
     ar_id ` set before \<subseteq> ar_id ` set after \<and> distinct (map ar_id after)"
proof -
  define start where "start = initial_system users workflows versions now"
  define before where "before = es_approvals (as_exec (system_history env roles earlier start))"
  define after where "after = es_approvals (as_exec (system_history env roles (earlier @ later) start))"
  have first: "good_step roles start (system_history env roles earlier start)"
    unfolding start_def by (rule good_history [OF initial_system_ok])
  have "good_step roles (system_history env roles earlier start) (system_history env roles (earlier @ later) start)"
    using good_history [OF good_ok [OF first]] by (simp add: system_history_def)
  then have then_on: "advances roles before after" and ok: "advances roles [] after"
    using first advances_trans unfolding good_step_def before_def after_def
    by (auto simp: start_def initial_system_def initial_state_def)
  have "set (filter (\<lambda>a. ar_status a \<noteq> Ap_Pending) before) \<subseteq> set after"
    using advancesD(2) [OF then_on] by (fastforce simp: keeps_def)
  moreover have "ar_id ` set before \<subseteq> ar_id ` set after"
  proof
    fix i
    assume "i \<in> ar_id ` set before"
    then obtain a where "a \<in> set before" "ar_id a = i" by blast
    then obtain b where "b \<in> set after" "ar_id b = i"
      using advancesD(2) [OF then_on, of a] by (auto simp: keeps_def same_request_def)
    then show "i \<in> ar_id ` set after" by blast
  qed
  moreover have "\<exists>u. ar_decidedByUserId a = Some u \<and> assertApproverAuthorized roles a u = Inr ()"
    if "a \<in> set after" "decided a" for a
    using advancesD(3) [OF ok that] by (simp add: decided_properly_def authorised_def)
  then have "set (filter (\<lambda>a. ar_status a \<in> {Ap_Approved, Ap_Rejected}) after)
       \<subseteq> {a. \<exists>u. ar_decidedByUserId a = Some u \<and> assertApproverAuthorized roles a u = Inr ()}"
    by (auto simp: decided_def)
  ultimately show ?thesis
    using advancesD(1) [OF then_on] unfolding before_def after_def start_def Let_def by blast
qed

lemma roleRank_cases:
  "roleRank r = (if r = ''operator'' then 0 else if r = ''admin'' then 1 else if r = ''owner'' then 2 else - 1)"
  by (simp add: roleRank_def FRIDAY_APPROVAL_ROLE_HIERARCHY_def)

definition sufficient_roles :: "(string \<times> string) list" where
  "sufficient_roles =
     [(''operator'', ''operator''), (''operator'', ''admin''), (''operator'', ''owner''),
      (''admin'', ''admin''), (''admin'', ''owner''), (''owner'', ''owner'')]"

lemma rank_sufficient:
  "roleRank required \<noteq> - 1 \<and> roleRank role \<noteq> - 1 \<and> \<not> roleRank role < roleRank required \<longleftrightarrow>
     (required, role) \<in> set sufficient_roles"
  by (simp add: roleRank_cases sufficient_roles_def)

lemma no_role_sufficient: "(required, []) \<notin> set sufficient_roles"
  by (simp add: sufficient_roles_def)

text \<open>
  Exactly who may decide a request: the designated approver, if the request names one, who also has the
  required role or a higher one (operator, admin, owner, in this order), if it names a role and roles can
  be looked up. Where no look-up of roles is given, the required role is not checked at all.
\<close>

theorem authorisation_exact:
  "assertApproverAuthorized roles a u = Inr () \<longleftrightarrow>
     ar_approverUserId a \<in> {None, Some [], Some u} \<and>
     (case (ar_approverRole a, roles) of
        (Some required, Some resolve) \<Rightarrow>
          required = [] \<or> (\<exists>role. resolve u = Some role \<and> (required, role) \<in> set sufficient_roles)
      | _ \<Rightarrow> True)"
proof (cases "ar_approverUserId a \<in> {None, Some [], Some u}")
  case False
  then show ?thesis by (auto simp: assertApproverAuthorized_def given_def)
next
  case True
  then have user: "(given (ar_approverUserId a) \<and> ar_approverUserId a \<noteq> Some u) = False" by (auto simp: given_def)
  have role: "(if roleRank required = - 1 \<or> roleRank role = - 1 \<or> roleRank role < roleRank required
      then Inl e else Inr ()) = Inr () \<longleftrightarrow> (required, role) \<in> set sufficient_roles" for required role and e :: wf_error
    using rank_sufficient [of required role] by auto
  show ?thesis
  proof (cases "\<exists>required resolve. ar_approverRole a = Some required \<and> roles = Some resolve")
    case True
    then obtain required resolve where r: "ar_approverRole a = Some required" "roles = Some resolve" by blast
    show ?thesis
      using \<open>ar_approverUserId a \<in> {None, Some [], Some u}\<close> no_role_sufficient [of required]
      by (cases "resolve u") (auto simp: assertApproverAuthorized_def user r given_def Let_def role)
  next
    case False
    then show ?thesis
      using \<open>ar_approverUserId a \<in> {None, Some [], Some u}\<close>
      by (auto simp: assertApproverAuthorized_def user split: option.splits)
  qed
qed

end
