(* ===== verification/Workflow_Run_Control.thy ===== *)
theory Workflow_Run_Control
  imports Workflow_Operations
begin

text \<open>
  Mutual exclusion of the execution loops: \<open>scheduleRunExecution\<close> guards the loop of a run by the set
  \<open>activeExecutions\<close>, so that in every history at most one loop works on a run. The lemmas say which
  operations leave the threads alone and which move one loop on.
\<close>

section \<open>The control state\<close>

definition control_of :: "exec_state \<Rightarrow> (nat, thread) js_map \<times> UUID list \<times> UUID list \<times> nat" where
  "control_of st = (es_threads st, activeExecutions st, pendingExecutions st, es_next st)"

named_theorems control \<open>operations that leave threads and active executions alone\<close>

lemma control_of_simps [control]:
  "control_of (publishEvent name r st) = control_of st"
  "control_of (set_run_status r status md st) = control_of st"
  "control_of (finalize r status code message st) = control_of st"
  "control_of (notifyRunCompleted r status st) = control_of st"
  "control_of (cache_plan plan st) = control_of st"
  "control_of (set_attempt i u st) = control_of st"
  "control_of (cancel_pending r st) = control_of st"
  by (simp_all add: control_of_def publishEvent_def set_run_status_def finalize_def notifyRunCompleted_def
      cache_plan_def set_attempt_def cancel_pending_def)

lemma control_of_update [control]:
  "control_of (st\<lparr>es_runs := rs\<rparr>) = control_of st"
  "control_of (st\<lparr>es_nodes := ns\<rparr>) = control_of st"
  "control_of (st\<lparr>es_approvals := aps\<rparr>) = control_of st"
  "control_of (st\<lparr>es_artifacts := arts\<rparr>) = control_of st"
  "control_of (st\<lparr>activePlans := ps\<rparr>) = control_of st"
  "control_of (st\<lparr>activeAbortControllers := acs\<rparr>) = control_of st"
  "control_of (st\<lparr>es_aborted := xs\<rparr>) = control_of st"
  "control_of (st\<lparr>es_calls := cs\<rparr>) = control_of st"
  "control_of (st\<lparr>es_clock := now\<rparr>) = control_of st"
  "control_of (st\<lparr>es_ids := i\<rparr>) = control_of st"
  by (simp_all add: control_of_def)

lemma control_draw_id: "draw_id env st = (i, st') \<Longrightarrow> control_of st' = control_of st"
  by (auto simp: draw_id_def control)

lemma control_lease: "lease i st = (b, st') \<Longrightarrow> control_of st' = control_of st"
  by (auto simp: lease_def Let_def control split: prod.splits)

lemma control_requestForNode: "requestForNode env run a config st = (r, st') \<Longrightarrow> control_of st' = control_of st"
  by (auto simp: requestForNode_def draw_id_def Let_def control split: sum.splits)

lemma control_start_local: "start_local run contexts signal a st = (p, st') \<Longrightarrow> control_of st' = control_of st"
  by (auto simp: start_local_def Let_def control split: prod.splits if_splits dest: control_lease)

lemma control_start_task: "start_task env plan run a st = (p, st') \<Longrightarrow> control_of st' = control_of st"
  by (auto simp: start_task_def Let_def split: prod.splits if_splits
      dest!: control_lease control_requestForNode) (auto simp: control)

lemma control_failure_step: "failure_step a p ans st = (n, st') \<Longrightarrow> control_of st' = control_of st"
  by (cases "(a, p, ans, st)" rule: failure_step.cases) (auto simp: commit_failure_def control)

lemma control_dispatch_step: "dispatch_step env lp a r st = (p, st') \<Longrightarrow> control_of st' = control_of st"
  by (cases r) (auto simp: control split: option.splits dest: control_start_local)

lemma control_task_step: "task_step env lp a p ans st = (p', st') \<Longrightarrow> control_of st' = control_of st"
  by (cases "(env, lp, a, p, ans, st)" rule: task_step.cases)
    (auto simp: control pause_for_approval_def settle_completed_def split: prod.splits option.splits
      dest: control_dispatch_step control_failure_step)

lemma control_insert_attempt: "insert_attempt mk env st = Inr (e, st') \<Longrightarrow> control_of st' = control_of st"
  by (auto simp: insert_attempt_def draw_id_def Let_def control split: sum.splits)

lemma control_cancelDeadEndedNodes:
  "cancelDeadEndedNodes env r ctx ns sts st = Inr (sts', st') \<Longrightarrow> control_of st' = control_of st"
  by (induction env r ctx ns sts st rule: cancelDeadEndedNodes.induct)
    (auto split: if_splits option.splits sum.splits dest: control_insert_attempt)

lemma control_prepareNodeAttempts:
  "prepareNodeAttempts env r ctx committed sts ns st = Inr (es, st') \<Longrightarrow> control_of st' = control_of st"
  by (induction env r ctx committed sts ns st arbitrary: es rule: prepareNodeAttempts.induct)
    (auto simp: Let_def map_sum_def split: if_splits option.splits sum.splits prod.splits dest!: control_insert_attempt)

lemma control_loop_top:
  "loop_top env plan ctxs sts st = (x, sts', st') \<Longrightarrow> control_of st' = control_of st"
proof (induction env plan ctxs sts st rule: loop_top.induct)
  case (1 env plan ctxs sts st)
  note step = "1.prems"(1) [unfolded loop_top.simps [of env plan ctxs sts st]]
  show ?case
  proof (cases "getRunById (es_runs st) (ep_runId plan)")
    case None
    then show ?thesis using step by simp
  next
    case (Some run)
    let ?ctx = "buildExpressionContext run ctxs"
    let ?tick = "condition_tick (ev_num env) (ep_adjacency plan) sts (ep_compiledGraph plan) ?ctx"
    let ?dead = "cancelDeadEndedNodes env (ep_runId plan) ?ctx (deadEndedNodes ?tick) sts st"
    show ?thesis
    proof (cases "wr_status run \<in> {R_Cancelled, R_Paused, R_Pausing} \<or> isl ?dead")
      case True
      then show ?thesis using step Some by (auto simp: Let_def isl_def split: if_splits)
    next
      case False
      then obtain sts1 st1 where d: "?dead = Inr (sts1, st1)" by (cases ?dead) auto
      note c = control_cancelDeadEndedNodes [OF d]
      show ?thesis
      proof (cases "readyNodes ?tick = [] \<and> deadEndedNodes ?tick \<noteq> []")
        case True
        then have "loop_top env plan ctxs sts1 st1 = (x, sts', st')" using step Some False d by (simp add: Let_def)
        then show ?thesis using "1.IH" [OF Some _ refl refl d refl] True False c by simp
      next
        case no_round: False
        then show ?thesis
          using step Some False d c
          by (auto simp: Let_def split: if_splits sum.splits dest!: control_prepareNodeAttempts)
      qed
    qed
  qed
qed

lemma control_start_tasks: "start_tasks env plan run as st = (ts, st') \<Longrightarrow> control_of st' = control_of st"
  by (induction as arbitrary: st ts) (auto simp: Let_def split: prod.splits dest: control_start_task)

section \<open>Moving one loop on\<close>

text \<open>Only the thread of one loop changes, and it goes on working on the same run.\<close>

definition moves_loop :: "nat \<Rightarrow> UUID \<Rightarrow> exec_state \<Rightarrow> exec_state \<Rightarrow> bool" where
  "moves_loop tid r st st' \<longleftrightarrow>
     (\<exists>lp. es_threads st' = map_set (es_threads st) tid (T_Loop lp) \<and> ep_runId (lp_plan lp) = r) \<and>
     activeExecutions st' = activeExecutions st \<and> pendingExecutions st' = pendingExecutions st \<and> es_next st \<le> es_next st'"

lemma moves_set_loop:
  "control_of st1 = control_of st \<Longrightarrow> ep_runId (lp_plan lp) = r \<Longrightarrow> moves_loop tid r st (set_loop tid lp st1)"
  by (auto simp: moves_loop_def control_of_def set_loop_def set_thread_def)

lemma moves_cong: "control_of st1 = control_of st \<Longrightarrow> moves_loop tid r st1 st' \<Longrightarrow> moves_loop tid r st st'"
  by (simp add: moves_loop_def control_of_def)

lemma moves_finish_run:
  "control_of st1 = control_of st \<Longrightarrow> ep_runId (lp_plan lp) = r \<Longrightarrow> moves_loop tid r st (finish_run tid lp st1)"
  by (auto simp: finish_run_def Let_def control split: option.splits intro!: moves_set_loop)

lemma moves_finalizeRunStatus:
  "control_of st1 = control_of st \<Longrightarrow> ep_runId (lp_plan lp) = r \<Longrightarrow> moves_loop tid r st (finalizeRunStatus tid lp st1)"
  by (auto simp: finalizeRunStatus_def Let_def control split: option.splits intro!: moves_set_loop moves_finish_run)

lemma moves_run_loop_from_top:
  "control_of st1 = control_of st \<Longrightarrow> ep_runId (lp_plan lp) = r \<Longrightarrow> moves_loop tid r st (run_loop_from_top env tid lp st1)"
  by (auto simp: run_loop_from_top_def Let_def split: prod.splits loop_exit.splits
      dest!: control_loop_top control_start_tasks intro!: moves_set_loop moves_finalizeRunStatus)

lemma moves_later: "moves_loop tid r (st\<lparr>activeAbortControllers := acs, es_next := Suc n\<rparr>) st' \<Longrightarrow> n = es_next st \<Longrightarrow>
    moves_loop tid r st st'"
  by (auto simp: moves_loop_def)

lemma moves_begin_run: "moves_loop tid (ep_runId plan) st (begin_run env tid plan origin st)"
proof (cases "map_get (activeAbortControllers st) (ep_runId plan)")
  case None
  show ?thesis
    apply (rule moves_later [where n = "es_next st" and
          acs = "map_set (activeAbortControllers st) (ep_runId plan) (es_next st)"])
    subgoal
      by (auto simp: None begin_run_def Let_def control split: option.splits sum.splits
          intro!: moves_set_loop moves_run_loop_from_top)
    by (rule refl)
next
  case (Some c)
  show ?thesis
    by (auto simp: Some begin_run_def Let_def control split: option.splits sum.splits
        intro!: moves_set_loop moves_run_loop_from_top)
qed

lemma moves_apply_policy:
  "control_of st1 = control_of st \<Longrightarrow> ep_runId (lp_plan lp) = r \<Longrightarrow> moves_loop tid r st (apply_policy env tid lp flags st1)"
  by (auto simp: apply_policy_def Let_def control split: WorkflowFailureStrategy.splits option.splits
      intro!: moves_set_loop moves_run_loop_from_top)

lemma moves_applyBatchResults:
  "control_of st1 = control_of st \<Longrightarrow> ep_runId (lp_plan lp) = r \<Longrightarrow>
     moves_loop tid r st (applyBatchResults env tid lp tasks flags st1)"
  by (auto simp: applyBatchResults_def put_view_def Let_def split: prod.splits option.splits
      intro!: moves_set_loop moves_apply_policy)

lemma moves_record_rejected:
  "control_of st1 = control_of st \<Longrightarrow> ep_runId (lp_plan lp) = r \<Longrightarrow>
     moves_loop tid r st (record_rejected env tid lp a msg status rest flags st1)"
  by (auto simp: record_rejected_def Let_def intro!: moves_applyBatchResults)

section \<open>The invariant\<close>

text \<open>
  The active executions are exactly the runs some loop works on, no two loops have the same run, and
  another round is pending only for a run with a loop.
\<close>

definition exclusive :: "exec_state \<Rightarrow> bool" where
  "exclusive st \<longleftrightarrow>
     (\<forall>tid t. map_get (es_threads st) tid = Some t \<longrightarrow> tid < es_next st) \<and>
     (\<forall>tid lp. map_get (es_threads st) tid = Some (T_Loop lp) \<longrightarrow> ep_runId (lp_plan lp) \<in> set (activeExecutions st)) \<and>
     (\<forall>tid lp tid' lp'. map_get (es_threads st) tid = Some (T_Loop lp) \<longrightarrow> map_get (es_threads st) tid' = Some (T_Loop lp') \<longrightarrow>
        ep_runId (lp_plan lp) = ep_runId (lp_plan lp') \<longrightarrow> tid = tid') \<and>
     (\<forall>r\<in>set (activeExecutions st). \<exists>tid lp. map_get (es_threads st) tid = Some (T_Loop lp) \<and> ep_runId (lp_plan lp) = r) \<and>
     set (pendingExecutions st) \<subseteq> set (activeExecutions st) \<and> map_ok (es_threads st)"

lemma exclusiveI:
  assumes "\<And>tid t. map_get (es_threads st) tid = Some t \<Longrightarrow> tid < es_next st"
    and "\<And>tid lp. map_get (es_threads st) tid = Some (T_Loop lp) \<Longrightarrow> ep_runId (lp_plan lp) \<in> set (activeExecutions st)"
    and "\<And>tid lp tid' lp'. map_get (es_threads st) tid = Some (T_Loop lp) \<Longrightarrow> map_get (es_threads st) tid' = Some (T_Loop lp') \<Longrightarrow>
        ep_runId (lp_plan lp) = ep_runId (lp_plan lp') \<Longrightarrow> tid = tid'"
    and "\<And>r. r \<in> set (activeExecutions st) \<Longrightarrow>
        \<exists>tid lp. map_get (es_threads st) tid = Some (T_Loop lp) \<and> ep_runId (lp_plan lp) = r"
    and "set (pendingExecutions st) \<subseteq> set (activeExecutions st)" and "map_ok (es_threads st)"
  shows "exclusive st"
  unfolding exclusive_def using assms by blast

lemma exclusiveD:
  assumes "exclusive st"
  shows "map_get (es_threads st) tid = Some t \<Longrightarrow> tid < es_next st"
    and "map_get (es_threads st) tid = Some (T_Loop lp) \<Longrightarrow> ep_runId (lp_plan lp) \<in> set (activeExecutions st)"
    and "map_get (es_threads st) tid = Some (T_Loop lp) \<Longrightarrow> map_get (es_threads st) tid' = Some (T_Loop lp') \<Longrightarrow>
        ep_runId (lp_plan lp) = ep_runId (lp_plan lp') \<Longrightarrow> tid = tid'"
    and "r \<in> set (activeExecutions st) \<Longrightarrow>
        \<exists>tid lp. map_get (es_threads st) tid = Some (T_Loop lp) \<and> ep_runId (lp_plan lp) = r"
    and "set (pendingExecutions st) \<subseteq> set (activeExecutions st)" and "map_ok (es_threads st)"
  using assms unfolding exclusive_def by blast+

lemma exclusive_cong: "control_of st' = control_of st \<Longrightarrow> exclusive st' = exclusive st"
  by (simp add: exclusive_def control_of_def)

lemmas exclusive_simps [simp] = control_of_simps [THEN exclusive_cong] control_of_update [THEN exclusive_cong]

text \<open>A loop set on a run that no other loop has.\<close>

lemma exclusive_put_loop:
  assumes ex: "exclusive st" and th: "es_threads st' = map_set (es_threads st) tid (T_Loop lp)" and "tid < es_next st'"
    and "es_next st \<le> es_next st'"
    and active: "set (activeExecutions st') = insert (ep_runId (lp_plan lp)) (set (activeExecutions st))"
    and "set (pendingExecutions st') \<subseteq> set (activeExecutions st')"
    and others: "\<And>i l. map_get (es_threads st) i = Some (T_Loop l) \<Longrightarrow>
        i = tid \<longleftrightarrow> ep_runId (lp_plan l) = ep_runId (lp_plan lp)"
  shows "exclusive st'"
proof (rule exclusiveI)
  fix i t
  assume "map_get (es_threads st') i = Some t"
  then show "i < es_next st'"
    using assms(3,4) exclusiveD(1) [OF ex, of i] by (auto simp: th split: if_splits)
next
  fix i l
  assume "map_get (es_threads st') i = Some (T_Loop l)"
  then show "ep_runId (lp_plan l) \<in> set (activeExecutions st')"
    using exclusiveD(2) [OF ex] by (auto simp: th active split: if_splits)
next
  fix i l i' l'
  assume a: "map_get (es_threads st') i = Some (T_Loop l)" and b: "map_get (es_threads st') i' = Some (T_Loop l')"
    and same: "ep_runId (lp_plan l) = ep_runId (lp_plan l')"
  have at: "i = tid \<longleftrightarrow> ep_runId (lp_plan l) = ep_runId (lp_plan lp)"
    if "map_get (es_threads st') i = Some (T_Loop l)" for i l
    using that others [of i l] by (simp add: th split: if_splits)
  show "i = i'"
  proof (cases "i = tid \<or> i' = tid")
    case True
    then show ?thesis using at [OF a] at [OF b] same by auto
  next
    case False
    then have "map_get (es_threads st) i = Some (T_Loop l)" "map_get (es_threads st) i' = Some (T_Loop l')"
      using a b by (simp_all add: th)
    then show ?thesis using exclusiveD(3) [OF ex] same by blast
  qed
next
  fix r
  assume "r \<in> set (activeExecutions st')"
  show "\<exists>i l. map_get (es_threads st') i = Some (T_Loop l) \<and> ep_runId (lp_plan l) = r"
  proof (cases "r = ep_runId (lp_plan lp)")
    case True
    have "map_get (es_threads st') tid = Some (T_Loop lp)" by (simp add: th)
    then show ?thesis using True by blast
  next
    case False
    then have "r \<in> set (activeExecutions st)" using \<open>r \<in> set (activeExecutions st')\<close> active by simp
    then obtain i l where "map_get (es_threads st) i = Some (T_Loop l)" "ep_runId (lp_plan l) = r"
      using exclusiveD(4) [OF ex] by blast
    moreover from this have "i \<noteq> tid" using others False by blast
    ultimately show ?thesis by (intro exI [of _ i] exI [of _ l]) (simp add: th)
  qed
qed (use assms(6) exclusiveD(6) [OF ex] in \<open>auto simp: th\<close>)

lemma exclusive_moves:
  assumes ex: "exclusive st" and "moves_loop tid r st st'"
    and at: "map_get (es_threads st) tid = Some (T_Loop lp)" and "ep_runId (lp_plan lp) = r"
  shows "exclusive st'"
proof -
  obtain lp' where lp': "es_threads st' = map_set (es_threads st) tid (T_Loop lp')" "ep_runId (lp_plan lp') = r"
    and rest: "activeExecutions st' = activeExecutions st" "pendingExecutions st' = pendingExecutions st"
      "es_next st \<le> es_next st'"
    using assms(2) by (auto simp: moves_loop_def)
  note tid = exclusiveD(1,2) [OF ex at]
  show ?thesis
  proof (rule exclusive_put_loop [OF ex lp'(1)])
    fix i l
    assume "map_get (es_threads st) i = Some (T_Loop l)"
    then show "i = tid \<longleftrightarrow> ep_runId (lp_plan l) = ep_runId (lp_plan lp')"
      using exclusiveD(3) [OF ex, of i l tid lp] at assms(4) lp'(2) by auto
  qed (use tid rest assms(4) lp'(2) exclusiveD(5) [OF ex] in auto)
qed

lemma exclusive_scheduleRunExecution:
  assumes ex: "exclusive st"
  shows "exclusive (scheduleRunExecution env plan origin st)"
proof (cases "ep_runId plan \<in> set (activeExecutions st)")
  case True
  then show ?thesis using ex by (simp add: scheduleRunExecution_def Let_def exclusive_def)
next
  case False
  let ?r = "ep_runId plan"
  let ?st = "st\<lparr>activeExecutions := List.insert ?r (activeExecutions st),
      pendingExecutions := removeAll ?r (pendingExecutions st), es_next := Suc (es_next st)\<rparr>"
  let ?st' = "begin_run env (es_next st) plan origin ?st"
  obtain lp where lp: "es_threads ?st' = map_set (es_threads st) (es_next st) (T_Loop lp)" "ep_runId (lp_plan lp) = ?r"
    and rest: "activeExecutions ?st' = List.insert ?r (activeExecutions st)"
      "pendingExecutions ?st' = removeAll ?r (pendingExecutions st)" "Suc (es_next st) \<le> es_next ?st'"
    using moves_begin_run [of "es_next st" plan ?st env origin] by (auto simp: moves_loop_def)
  have "exclusive ?st'"
  proof (rule exclusive_put_loop [OF ex lp(1)])
    fix i l
    assume i: "map_get (es_threads st) i = Some (T_Loop l)"
    show "i = es_next st \<longleftrightarrow> ep_runId (lp_plan l) = ep_runId (lp_plan lp)"
      using exclusiveD(1,2) [OF ex i] False lp(2) by auto
  qed (use rest lp(2) exclusiveD(5) [OF ex] in auto)
  then show ?thesis using False by (simp add: scheduleRunExecution_def Let_def)
qed

text \<open>A thread of another kind comes, goes on or ends; a loop ends and gives its run back.\<close>

definition other_thread :: "exec_state \<Rightarrow> nat \<Rightarrow> bool" where
  "other_thread st tid \<longleftrightarrow> (\<exists>t. map_get (es_threads st) tid = Some t \<and> (\<forall>lp. t \<noteq> T_Loop lp))"

lemma exclusive_other:
  assumes ex: "exclusive st"
    and loops: "\<And>i lp. map_get (es_threads st') i = Some (T_Loop lp) \<longleftrightarrow> map_get (es_threads st) i = Some (T_Loop lp)"
    and "\<And>i t. map_get (es_threads st') i = Some t \<Longrightarrow> i < es_next st'"
    and "activeExecutions st' = activeExecutions st" and "pendingExecutions st' = pendingExecutions st"
    and "map_ok (es_threads st')"
  shows "exclusive st'"
  using exclusiveD [OF ex] assms(3-6) by (intro exclusiveI) (auto simp: loops)

lemma exclusive_end:
  assumes "exclusive st" and "other_thread st tid"
  shows "exclusive (end_thread tid st)"
  by (rule exclusive_other [OF assms(1)])
    (use assms(2) exclusiveD(1,6) [OF assms(1)] in \<open>auto simp: end_thread_def other_thread_def split: if_splits\<close>)

lemma exclusive_set_other:
  assumes "exclusive st" and "other_thread st tid" and "\<And>lp. t \<noteq> T_Loop lp"
  shows "exclusive (set_thread tid t st)"
  by (rule exclusive_other [OF assms(1)])
    (use assms(2,3) exclusiveD(1,6) [OF assms(1)] in \<open>auto simp: set_thread_def other_thread_def split: if_splits\<close>)

lemma exclusive_spawn:
  assumes "exclusive st" and "\<And>lp. t \<noteq> T_Loop lp"
  shows "exclusive (spawn t st)"
proof (rule exclusive_other [OF assms(1)])
  fix i lp
  have "map_get (es_threads st) (es_next st) = None"
    using exclusiveD(1) [OF assms(1), of "es_next st"] by (cases "map_get (es_threads st) (es_next st)") auto
  then show "map_get (es_threads (spawn t st)) i = Some (T_Loop lp) \<longleftrightarrow> map_get (es_threads st) i = Some (T_Loop lp)"
    using assms(2) by (simp add: spawn_def)
qed (use exclusiveD(1,6) [OF assms(1)] in \<open>auto simp: spawn_def less_Suc_eq split: if_splits\<close>)

lemma exclusive_release:
  assumes ex: "exclusive st" and at: "map_get (es_threads st) tid = Some (T_Loop lp)" and r: "ep_runId (lp_plan lp) = r"
  shows "exclusive (release_run tid r st)"
proof (rule exclusiveI)
  fix i l
  assume "map_get (es_threads (release_run tid r st)) i = Some (T_Loop l)"
  then have "i \<noteq> tid" and i: "map_get (es_threads st) i = Some (T_Loop l)"
    by (simp_all add: release_run_def end_thread_def split: if_splits)
  then have "ep_runId (lp_plan l) \<noteq> r" using exclusiveD(3) [OF ex i at] r by auto
  then show "ep_runId (lp_plan l) \<in> set (activeExecutions (release_run tid r st))"
    using exclusiveD(2) [OF ex i] by (simp add: release_run_def end_thread_def)
next
  fix q
  assume "q \<in> set (activeExecutions (release_run tid r st))"
  then have q: "q \<in> set (activeExecutions st)" "q \<noteq> r" by (simp_all add: release_run_def end_thread_def)
  then obtain i l where i: "map_get (es_threads st) i = Some (T_Loop l)" "ep_runId (lp_plan l) = q"
    using exclusiveD(4) [OF ex] by blast
  moreover from this have "i \<noteq> tid" using at r q by auto
  ultimately show "\<exists>i l. map_get (es_threads (release_run tid r st)) i = Some (T_Loop l) \<and> ep_runId (lp_plan l) = q"
    by (intro exI [of _ i] exI [of _ l]) (simp add: release_run_def end_thread_def)
qed (use exclusiveD [OF ex] in \<open>auto simp: release_run_def end_thread_def split: if_splits\<close>)

section \<open>Every history\<close>

text \<open>The step of a loop that has not ended: it moves the loop on, ends it, or leaves it as it is.\<close>

lemma exclusive_run_threw:
  assumes "exclusive st" and "map_get (es_threads st) tid = Some (T_Loop lp)"
  shows "exclusive (run_threw tid lp e st)"
  using exclusive_release [OF assms refl] by (simp add: run_threw_def Let_def)

lemma exclusive_run_returned:
  assumes "exclusive st" and "map_get (es_threads st) tid = Some (T_Loop lp)"
  shows "exclusive (run_returned env tid lp st)"
proof (cases "ep_runId (lp_plan lp) \<in> set (pendingExecutions st)")
  case True
  let ?st = "st\<lparr>pendingExecutions := removeAll (ep_runId (lp_plan lp)) (pendingExecutions st)\<rparr>"
  have "exclusive ?st" using assms(1) unfolding exclusive_def by auto
  from exclusive_moves [OF this moves_begin_run] show ?thesis
    using True assms(2) by (simp add: run_returned_def Let_def)
next
  case False
  then show ?thesis using exclusive_release [OF assms refl] by (simp add: run_returned_def Let_def)
qed

lemma loop_step_cases:
  "moves_loop tid (ep_runId (lp_plan lp)) st (loop_step env tid lp p ans st) \<or> loop_step env tid lp p ans st = st \<or>
   loop_step env tid lp p ans st = run_returned env tid lp st \<or>
   (\<exists>e. loop_step env tid lp p ans st = run_threw tid lp e st)"
  by (cases "(env, tid, lp, p, ans, st)" rule: loop_step.cases)
    (auto split: answer.splits failure_next.splits prod.splits dest: control_failure_step
      simp: control intro!: moves_set_loop moves_finish_run moves_applyBatchResults moves_record_rejected)

lemma exclusive_loop_step:
  assumes "exclusive st" and "map_get (es_threads st) tid = Some (T_Loop lp)"
  shows "exclusive (loop_step env tid lp p ans st)"
  using loop_step_cases [of tid lp st env p ans] exclusive_moves [OF assms(1) _ assms(2) refl]
    exclusive_run_returned [OF assms] exclusive_run_threw [OF assms] assms(1) by metis

lemma exclusive_answer_task:
  assumes "exclusive st" and "map_get (es_threads st) tid = Some (T_Loop lp)"
  shows "exclusive (answer_task env tid lp i ans st)"
proof -
  have "moves_loop tid (ep_runId (lp_plan lp)) st (answer_task env tid lp i ans st) \<or> answer_task env tid lp i ans st = st"
    by (auto simp: answer_task_def Let_def split: prod.splits dest!: control_task_step intro!: moves_set_loop)
  then show ?thesis using exclusive_moves [OF assms(1) _ assms(2) refl] assms(1) by metis
qed

lemma other_threadI [intro]: "map_get (es_threads st) tid = Some t \<Longrightarrow> (\<And>lp. t \<noteq> T_Loop lp) \<Longrightarrow> other_thread st tid"
  by (auto simp: other_thread_def)

lemma other_thread_cong: "control_of st' = control_of st \<Longrightarrow> other_thread st' tid = other_thread st tid"
  by (simp add: other_thread_def control_of_def)

lemma exclusive_failure_step: "failure_step a p ans st = (n, st') \<Longrightarrow> exclusive st' = exclusive st"
  by (rule exclusive_cong) (rule control_failure_step)

lemma other_failure_step: "failure_step a p ans st = (n, st') \<Longrightarrow> other_thread st' tid = other_thread st tid"
  by (rule other_thread_cong) (rule control_failure_step)

lemmas other_simps [simp] = control_of_simps [THEN other_thread_cong] control_of_update [THEN other_thread_cong]

lemma exclusive_finish_start: "exclusive st \<Longrightarrow> exclusive (finish_start env k patch st)"
  by (auto simp: finish_start_def Let_def split: sum.splits intro!: exclusive_scheduleRunExecution)

lemma exclusive_remote_completed: "exclusive st \<Longrightarrow> exclusive (remote_completed env rp plan st)"
  by (auto simp: remote_completed_def split: option.splits intro!: exclusive_scheduleRunExecution)

lemma exclusive_thread_step:
  assumes "exclusive st" and "map_get (es_threads st) tid = Some t"
  shows "exclusive (thread_step env tid t ans st)"
proof (cases "\<exists>lp. t = T_Loop lp")
  case True
  then show ?thesis using assms exclusive_loop_step by auto
next
  case False
  then have other: "other_thread st tid" using assms(2) by auto
  show ?thesis
  proof (cases t)
    case (T_Remote_Failed a p plan)
    then show ?thesis
      using assms(1) other
      by (auto split: failure_next.splits prod.splits simp: exclusive_failure_step other_failure_step
          intro!: exclusive_set_other exclusive_end exclusive_scheduleRunExecution)
  qed (use False assms(1) other in \<open>auto split: answer.splits
      intro!: exclusive_set_other exclusive_end exclusive_finish_start exclusive_remote_completed\<close>)
qed

subsection \<open>Operations\<close>

lemma control_fold: "(\<And>n st. control_of (f n st) = control_of st) \<Longrightarrow> control_of (fold f ns st) = control_of st"
  by (induction ns arbitrary: st) simp_all

lemma control_reject_approvals [control]: "control_of (reject_approvals ns r st) = control_of st"
  by (simp add: reject_approvals_def control control_fold)

lemma control_complete_approvals [control]: "control_of (complete_approvals ns st) = control_of st"
  by (simp add: complete_approvals_def control control_fold)

lemma control_retry_behind: "retry_behind b env r n st = Inr st' \<Longrightarrow> control_of st' = control_of st"
  by (auto simp: retry_behind_def map_sum_def dest: control_insert_attempt split: sum.splits)

lemma control_all_retries: "all_or_nothing (retry_behind b env r) ns st = Inr st' \<Longrightarrow> control_of st' = control_of st"
  by (induction ns arbitrary: st) (auto split: sum.splits dest: control_retry_behind)

lemma control_sweep_runs: "control_of (snd (sweep_runs f runs n st)) = control_of st"
  by (induction f runs n st rule: sweep_runs.induct) (auto simp: control split: option.splits sum.splits)

lemma exclusive_all_retries: "all_or_nothing (retry_behind b env r) ns st = Inr st' \<Longrightarrow> exclusive st' = exclusive st"
  by (rule exclusive_cong) (rule control_all_retries)

lemmas exclusive_approvals [simp] =
  control_reject_approvals [THEN exclusive_cong] control_complete_approvals [THEN exclusive_cong]

lemma exclusive_draw_id: "draw_id env st = (i, st') \<Longrightarrow> exclusive st' = exclusive st"
  by (rule exclusive_cong) (rule control_draw_id)

lemma exclusive_snd_run_reply [simp]: "exclusive (snd (run_reply r st)) = exclusive st"
  by (simp add: run_reply_def)

lemma exclusive_startRun: "exclusive st \<Longrightarrow> exclusive (snd (startRun env inp st))"
  by (auto simp: startRun_def exclusive_draw_id split: option.splits sum.splits prod.splits intro!: exclusive_spawn)

lemma exclusive_pauseRun: "exclusive st \<Longrightarrow> exclusive (snd (pauseRun env r st))"
  by (auto simp: pauseRun_def split: option.splits)

lemma exclusive_cancelRun: "exclusive st \<Longrightarrow> exclusive (snd (cancelRun env r why st))"
  by (auto simp: cancelRun_def Let_def split: option.splits sum.splits intro!: exclusive_spawn)

lemma exclusive_resumeRun: "exclusive st \<Longrightarrow> exclusive (snd (resumeRun env r approved st))"
  by (auto simp: resumeRun_def Let_def continue_run_def exclusive_all_retries split: option.splits sum.splits
      simp del: filter_empty_conv intro!: exclusive_spawn exclusive_scheduleRunExecution)

lemma exclusive_retryRun: "exclusive st \<Longrightarrow> exclusive (snd (retryRun env r nodeIds st))"
  by (auto simp: retryRun_def Let_def exclusive_all_retries split: option.splits sum.splits
      simp del: filter_empty_conv intro!: exclusive_scheduleRunExecution)

lemma exclusive_recover_runs: "exclusive st \<Longrightarrow> exclusive (snd (recover_runs env runs n st))"
proof (induction env runs n st rule: recover_runs.induct)
  case (2 env run rest n st)
  have "exclusive (scheduleRunExecution env plan By_Recover (cache_plan plan st))" for plan
    using "2.prems" by (simp add: exclusive_scheduleRunExecution)
  with 2 show ?case by (auto split: sum.splits)
qed simp

lemma exclusive_reportRemoteNodeResult: "exclusive st \<Longrightarrow> exclusive (snd (reportRemoteNodeResult env rp st))"
  by (auto simp: reportRemoteNodeResult_def Let_def split: option.splits sum.splits intro!: exclusive_spawn)

lemma exclusive_janitors:
  "exclusive (snd (reapExpiredLeases env st)) = exclusive st"
  "exclusive (snd (sweepTimedOutRuns env st)) = exclusive st"
  "exclusive (snd (sweepTimedOutNodes env st)) = exclusive st"
  by (rule exclusive_cong, simp add: reapExpiredLeases_def sweepTimedOutRuns_def sweepTimedOutNodes_def Let_def
      control control_fold control_sweep_runs)+

lemma exclusive_service_step: "exclusive st \<Longrightarrow> exclusive (service_step env e st)"
  by (cases e) (auto simp: recoverActiveRuns_def exclusive_janitors split: option.splits thread.splits
      intro: exclusive_startRun exclusive_pauseRun exclusive_cancelRun exclusive_resumeRun exclusive_retryRun
        exclusive_recover_runs exclusive_reportRemoteNodeResult exclusive_answer_task exclusive_thread_step
      simp del: thread_step.simps)

lemma exclusive_history: "exclusive st \<Longrightarrow> exclusive (history env events st)"
  unfolding history_def by (induction events arbitrary: st) (auto intro: exclusive_service_step)

lemma exclusive_initial: "exclusive (initial_state users workflows versions now)"
  by (simp add: exclusive_def initial_state_def)

section \<open>One loop per run\<close>

lemma distinct_map_filter:
  "distinct (map fst xs) \<Longrightarrow>
     (\<And>k v k' v' r. (k, v) \<in> set xs \<Longrightarrow> (k', v') \<in> set xs \<Longrightarrow> f v = Some r \<Longrightarrow> f v' = Some r \<Longrightarrow> k = k') \<Longrightarrow>
     distinct (List.map_filter (\<lambda>(k, v). f v) xs)"
proof (induction xs)
  case (Cons x xs)
  obtain k v where x: "x = (k, v)" by (cases x)
  have "r \<notin> set (List.map_filter (\<lambda>(k, v). f v) xs)" if r: "f v = Some r" for r
  proof
    assume "r \<in> set (List.map_filter (\<lambda>(k, v). f v) xs)"
    then obtain k' v' where "(k', v') \<in> set xs" "f v' = Some r"
      by (auto simp: List.map_filter_def split: if_splits)
    with Cons.prems(2) [of k v k' v' r] r x have "k = k'" by simp
    with \<open>(k', v') \<in> set xs\<close> Cons.prems(1) x show False by force
  qed
  moreover have "distinct (List.map_filter (\<lambda>(k, v). f v) xs)"
    using Cons.prems by (intro Cons.IH) (simp_all, blast)
  ultimately show ?case by (auto simp: List.map_filter_simps x split: option.splits)
qed (simp add: List.map_filter_simps)

definition loop_run :: "thread \<Rightarrow> UUID option" where
  "loop_run t = (case t of T_Loop lp \<Rightarrow> Some (ep_runId (lp_plan lp)) | _ \<Rightarrow> None)"

lemma loop_run_Some: "loop_run t = Some r \<longleftrightarrow> (\<exists>lp. t = T_Loop lp \<and> ep_runId (lp_plan lp) = r)"
  by (cases t) (auto simp: loop_run_def)

text \<open>The runs the loops of the service work on, one entry per loop.\<close>

definition loop_runs :: "exec_state \<Rightarrow> UUID list" where
  "loop_runs st = List.map_filter (\<lambda>(tid, t). loop_run t) (es_threads st)"

lemma exclusive_loop_runs:
  assumes ex: "exclusive st"
  shows "distinct (loop_runs st)" and "set (loop_runs st) = set (activeExecutions st)"
proof -
  have keys: "distinct (map fst (es_threads st))"
    using exclusiveD(6) [OF ex] by (simp add: map_ok_def map_keys_def)
  then have entry: "(k, t) \<in> set (es_threads st) \<longleftrightarrow> map_get (es_threads st) k = Some t" for k t
    by (simp add: map_get_def map_of_eq_Some_iff)
  show "distinct (loop_runs st)"
    unfolding loop_runs_def
    by (rule distinct_map_filter [OF keys]) (auto simp: loop_run_Some entry intro: exclusiveD(3) [OF ex])
  have mem: "x \<in> set (List.map_filter f xs) \<longleftrightarrow> (\<exists>y\<in>set xs. f y = Some x)"
    for x and f :: "nat \<times> thread \<Rightarrow> UUID option" and xs
    by (force simp: List.map_filter_def)
  have runs: "r \<in> set (loop_runs st) \<longleftrightarrow> (\<exists>k t. (k, t) \<in> set (es_threads st) \<and> loop_run t = Some r)" for r
    unfolding loop_runs_def mem by force
  show "set (loop_runs st) = set (activeExecutions st)"
  proof (rule set_eqI)
    fix r
    show "r \<in> set (loop_runs st) \<longleftrightarrow> r \<in> set (activeExecutions st)"
      unfolding runs entry loop_run_Some
      using exclusiveD(2) [OF ex] exclusiveD(4) [OF ex, of r] by blast
  qed
qed

text \<open>
  C5. At no point of a history do two execution loops work on the same run; the set \<open>activeExecutions\<close>
  is exactly the runs with a loop, so the guard neither lets a second loop in nor stays locked behind a
  loop that has ended; and a further round is remembered only for a run whose loop will see it.
\<close>

theorem one_loop_per_run:
  "let st = history env events (initial_state users workflows versions now) in
     distinct (loop_runs st) \<and> set (loop_runs st) = set (activeExecutions st) \<and>
     set (pendingExecutions st) \<subseteq> set (activeExecutions st)"
proof -
  have "exclusive (history env events (initial_state users workflows versions now))"
    by (intro exclusive_history exclusive_initial)
  from exclusive_loop_runs [OF this] exclusiveD(5) [OF this] show ?thesis by (simp add: Let_def)
qed

end
