(* ===== verification/Workflow_Scenarios.thy ===== *)
theory Workflow_Scenarios
  imports Workflow_Approvals Workflow_Run_Control
begin

text \<open>
  What the fence of the runtime keeps out, and histories in which the service does not do what it means
  to: a cancelled run that comes back, and a run that can never be resumed.
\<close>

section \<open>A small service\<close>

definition sample_env :: exec_env where
  "sample_env = \<lparr>allowTestOnlyWorkflowRunExecution = True, ev_id = (\<lambda>n. CHR ''i'' # show_nat n),
     ev_random = (\<lambda>_. 0), ev_num = (\<lambda>_. ''1'')\<rparr>"

text \<open>A workflow of two steps, the first of the given type.\<close>

definition sample_service :: "string \<Rightarrow> exec_state" where
  "sample_service first_type =
     initial_state [''u'']
       [\<lparr>wf_id = ''w'', wf_ownerUserId = None, wf_publishedVersionNumber = Some 1,
         wf_isArchived = False, wf_deletedAt = None\<rparr>]
       [\<lparr>vr_id = ''v1'', vr_workflowId = ''w'', vr_versionNumber = 1,
         vr_graph = Inr ((sample_graph [sample_edge ''p'' ''q'' None])
           \<lparr>cg_nodes := [(sample_node ''p'')\<lparr>wn_type := first_type\<rparr>, sample_node ''q'']\<rparr>),
         vr_isPublished = True\<rparr>] 0"

definition sample_start :: FridayWorkflowStartRunInput where
  "sample_start = \<lparr>si_workflowId = ''w'', si_workflowVersionId = None, si_triggerType = ''manual'', si_triggerPayload = None,
     si_startedByUserId = Some ''u'', si_startedBySatelliteId = None, si_correlationId = None, si_context = None,
     si_dryRun = False, si_proofRequired = False\<rparr>"

text \<open>The process ends and starts again: the tables stay, what was in memory is gone.\<close>

definition restarted :: "exec_state \<Rightarrow> exec_state" where
  "restarted st = st\<lparr>activePlans := map_empty, activeAbortControllers := map_empty, activeExecutions := [],
     pendingExecutions := [], es_threads := map_empty, es_calls := []\<rparr>"

section \<open>The fence\<close>

definition ticks :: "event list \<Rightarrow> int" where
  "ticks events = sum_list (map (\<lambda>e. case e of E_Tick ms \<Rightarrow> int ms | _ \<Rightarrow> 0) events)"

definition fenced :: "exec_env \<Rightarrow> exec_env" where
  "fenced env = env\<lparr>allowTestOnlyWorkflowRunExecution := False\<rparr>"

lemma fenced_step:
  "service_step (fenced env) e (initial_state users workflows versions now) =
     initial_state users workflows versions (now + ticks [e])"
  by (cases e) (auto simp: fenced_def ticks_def startRun_def resumeRun_def pauseRun_def cancelRun_def retryRun_def
      recoverActiveRuns_def listActiveRuns_service_def listActiveRuns_def reportRemoteNodeResult_def getRunById_def
      reapExpiredLeases_def sweepTimedOutRuns_def sweepTimedOutNodes_def initial_state_def split: option.splits)

lemma fenced_history:
  "history (fenced env) events (initial_state users workflows versions now) =
     initial_state users workflows versions (now + ticks events)"
  unfolding history_def
  by (induction events arbitrary: now) (simp_all add: fenced_step, simp_all add: ticks_def add.assoc)

text \<open>A run whose process died when its first node had completed, and what a new process does.\<close>

definition crashed_run :: exec_state where
  "crashed_run = restarted (history sample_env
     [E_Start sample_start, E_Answer 0 (Context_Patch None), E_Task 1 0 (Dispatch_Answer To_Hub),
      E_Task 1 0 (Output None)] (sample_service ''action''))"

definition recover_and_answer :: "event list" where
  "recover_and_answer = [E_Recover None, E_Task 3 0 (Dispatch_Answer To_Hub)]"

lemma recovered_call: "map xc_nodeId (es_calls (history (fenced sample_env) recover_and_answer crashed_run)) = [''q'']"
  by code_simp


section \<open>A cancelled run comes back\<close>

lemma set_run_status_getRunById:
  assumes "getRunById (es_runs st) r = Some run"
  shows "map_option wr_status (getRunById (es_runs (set_run_status r status md st)) r) = Some status"
proof -
  have "getRunById rows r = Some run \<Longrightarrow>
      map_option wr_status (getRunById (updateRunStatus r status now f md rows) r) = Some status" for rows now f
    by (induction rows) (auto simp: getRunById_def updateRunStatus_def split: if_splits)
  then show ?thesis using assms by (simp add: set_run_status_def)
qed

text \<open>
  C36. When the request for an approval is answered, the run is set to paused whatever its status is by then:
  a run that was cancelled, completed or failed while the request was under way comes back as a paused
  one, from which it can be resumed.
\<close>

theorem cancelled_run_reopened:
  assumes "map_get (es_threads st) tid = Some (T_Loop lp)" and "lp_phase lp = Lp_Batch"
    and "i < length (lp_tasks lp)" and "tk_phase (lp_tasks lp ! i) = Tk_Requesting (Inr ())"
    and "getRunById (es_runs st) (na_runId (tk_attempt (lp_tasks lp ! i))) = Some run"
  shows "map_option wr_status (getRunById (es_runs (service_step env (E_Task tid i Returned) st))
       (na_runId (tk_attempt (lp_tasks lp ! i)))) = Some R_Paused \<and>
     assertTransition_run R_Paused R_Running = Inr ()"
proof -
  have "es_runs (service_step env (E_Task tid i Returned) st) =
      es_runs (set_run_status (na_runId (tk_attempt (lp_tasks lp ! i))) R_Paused no_metadata st)"
    using assms(1-4) by (simp add: answer_task_def Let_def pause_for_approval_def set_loop_def set_thread_def
        set_run_status_def)
  then show ?thesis
    using set_run_status_getRunById [OF assms(5), of R_Paused]
    by (simp add: assertTransition_run_def canTransition_run_def)
qed

definition cancelled_meanwhile :: exec_state where
  "cancelled_meanwhile = history sample_env
     [E_Start sample_start, E_Answer 0 (Context_Patch None), E_Cancel ''i0'' None] (sample_service ''approval'')"

lemma cancelled_meanwhile_state:
  "map wr_status (es_runs cancelled_meanwhile) = [R_Cancelled]"
  "case map_get (es_threads cancelled_meanwhile) 1 of
     Some (T_Loop lp) \<Rightarrow> lp_phase lp = Lp_Batch \<and> 0 < length (lp_tasks lp) \<and>
       tk_phase (lp_tasks lp ! 0) = Tk_Requesting (Inr ()) \<and> na_runId (tk_attempt (lp_tasks lp ! 0)) = ''i0''
   | _ \<Rightarrow> False"
  "map_option wr_id (getRunById (es_runs cancelled_meanwhile) ''i0'') = Some ''i0''"
  by code_simp+

theorem cancelled_run_reopened_witness:
  "map wr_status (es_runs cancelled_meanwhile) = [R_Cancelled] \<and>
   map_option wr_status (getRunById (es_runs (service_step sample_env (E_Task 1 0 Returned) cancelled_meanwhile)) ''i0'') =
     Some R_Paused"
proof -
  obtain lp where "map_get (es_threads cancelled_meanwhile) 1 = Some (T_Loop lp)" "lp_phase lp = Lp_Batch"
      "0 < length (lp_tasks lp)" "tk_phase (lp_tasks lp ! 0) = Tk_Requesting (Inr ())"
      "na_runId (tk_attempt (lp_tasks lp ! 0)) = ''i0''"
    using cancelled_meanwhile_state(2) by (auto split: option.splits thread.splits)
  moreover obtain run where "getRunById (es_runs cancelled_meanwhile) ''i0'' = Some run"
    using cancelled_meanwhile_state(3) by auto
  ultimately show ?thesis
    using cancelled_run_reopened [of cancelled_meanwhile 1 lp 0 run sample_env] cancelled_meanwhile_state(1) by simp
qed

section \<open>A run that cannot be resumed\<close>

lemma retry_behind_taken:
  assumes "(r, na_nodeId n, na_attempt n + 1) \<in> attempt_key ` set (es_nodes st)"
  shows "isl (retry_behind b env r n st)"
  using assms by (simp add: retry_behind_def insert_attempt_def draw_id_def insertNodeAttempt_def Let_def
      new_attempt_def attempt_key_def [abs_def])

lemma retries_taken:
  "x \<in> set xs \<Longrightarrow> (r, na_nodeId x, na_attempt x + 1) \<in> attempt_key ` set (es_nodes st) \<Longrightarrow>
     isl (all_or_nothing (retry_behind b env r) xs st)"
proof (induction xs arbitrary: st)
  case (Cons y ys)
  show ?case
  proof (cases "retry_behind b env r y st")
    case (Inr st')
    then have "x \<in> set ys" using Cons.prems retry_behind_taken [of r y st b env] by auto
    moreover have "(r, na_nodeId x, na_attempt x + 1) \<in> attempt_key ` set (es_nodes st')"
      using retry_behind_appends [OF Inr] Cons.prems(2) by auto
    ultimately show ?thesis using Cons.IH Inr by simp
  qed simp
qed simp

lemma complete_approvals_runs [simp]:
  "es_runs (complete_approvals ns st) = es_runs st" "es_threads (complete_approvals ns st) = es_threads st"
  by (induction ns arbitrary: st) (simp_all add: complete_approvals_def set_attempt_def)


definition blocked_twice :: exec_state where
  "blocked_twice =
     (let blocked = Dispatch_Answer (Dispatch_Blocked None
            \<lparr>ne_code = ''SATELLITE_OFFLINE'', ne_message = ''no satellite'', ne_retryable = True, ne_details = None\<rparr>);
          pause = (\<lambda>tid. [E_Task tid 0 blocked, E_Task tid 0 Returned, E_Answer tid Returned, E_Answer tid Returned,
            E_Answer tid Returned])
      in history sample_env ([E_Start sample_start, E_Answer 0 (Context_Patch None)] @ pause 1 @
           [E_Resume ''i0'' None] @ pause 3) (sample_service ''action''))"

lemma blocked_twice_state:
  "map_option wr_status (getRunById (es_runs blocked_twice) ''i0'') = Some R_Paused"
  "case getRunById (es_runs blocked_twice) ''i0'' of None \<Rightarrow> False | Some run \<Rightarrow>
     (case plan_of_version blocked_twice ''i0'' (wr_workflowVersionId run) of
        Inl _ \<Rightarrow> False | Inr plan \<Rightarrow> \<not> is_approval plan ''p'')"
  "map (\<lambda>n. (na_runId n, na_nodeId n, na_attempt n, na_status n)) (es_nodes blocked_twice) =
     [(''i0'', ''p'', 1, N_Blocked_Offline), (''i0'', ''p'', 2, N_Blocked_Offline)]"
  by code_simp+


definition crashed_early :: exec_state where
  "crashed_early = restarted (history sample_env
     [E_Start sample_start, E_Answer 0 (Context_Patch None)] (sample_service ''action''))"

text \<open>
  Recovery does not pick up an attempt that was queued when the process died: the loop finds no ready
  node and ends, and the run stays running without a loop.
\<close>

lemma queued_attempt_not_recovered:
  "let st = history sample_env [E_Recover None, E_Answer 3 Returned] crashed_early in
     map wr_status (es_runs st) = [R_Running] \<and> es_threads st = [] \<and> map na_status (es_nodes st) = [N_Queued]"
  by code_simp

end
