(* ===== verification/Workflow_Cron.thy ===== *)
theory Workflow_Cron
  imports Node_Facade Workflow_Store
begin

text \<open>
  The cron utilities of the workflow engine, src/src/workflows/services/friday-workflow-cron-utils.ts:
  matching of five-field expressions and the search for the next minute that matches. An instant is its
  milliseconds since the epoch; the fields of a UTC instant are computed as ECMAScript defines them. The
  calendar of other time zones (\<open>Intl.DateTimeFormat\<close>) and the package \<open>cron-parser\<close>, which the code uses
  for them, are parameters.
\<close>

section \<open>The UTC calendar\<close>

definition year_start :: "int \<Rightarrow> int" where
  "year_start y = 365 * (y - 1970) + (y - 1969) div 4 - (y - 1901) div 100 + (y - 1601) div 400"

definition is_leap :: "int \<Rightarrow> bool" where
  "is_leap y \<longleftrightarrow> y mod 4 = 0 \<and> y mod 100 \<noteq> 0 \<or> y mod 400 = 0"

definition year_of :: "int \<Rightarrow> int" where
  "year_of d =
     (let y = 1970 + (400 * d) div 146097 in
      if year_start y > d then y - 1 else if year_start (y + 1) \<le> d then y + 1 else y)"

definition month_lengths :: "int \<Rightarrow> int list" where
  "month_lengths y = [31, if is_leap y then 29 else 28, 31, 30, 31, 30, 31, 31, 30, 31, 30, 31]"

fun month_date :: "int list \<Rightarrow> int \<Rightarrow> int \<Rightarrow> int \<times> int" where
  "month_date [] d m = (m, d + 1)"
| "month_date (l # ls) d m = (if d < l then (m, d + 1) else month_date ls (d - l) (m + 1))"

record CronDateFields =
  cf_minute :: int
  cf_hour :: int
  cf_dom :: int
  cf_month :: int
  cf_dow :: int

definition utc_fields :: "wf_time \<Rightarrow> CronDateFields" where
  "utc_fields t =
     (let d = t div 86400000; y = year_of d; (m, date) = month_date (month_lengths y) (d - year_start y) 1
      in \<lparr>cf_minute = t div 60000 mod 60, cf_hour = t div 3600000 mod 24, cf_dom = date, cf_month = m,
          cf_dow = (d + 4) mod 7\<rparr>)"

section \<open>Matching\<close>

definition isUtcZone :: "string option \<Rightarrow> bool" where
  "isUtcZone timeZone \<longleftrightarrow> timeZone \<in> {None, Some [], Some ''UTC'', Some ''Etc/UTC''}"

text \<open>The fields in another zone; the next instant \<open>cron-parser\<close> finds, if it does not throw.\<close>

record cron_lib =
  cl_fields :: "string \<Rightarrow> wf_time \<Rightarrow> CronDateFields"
  cl_next :: "string \<Rightarrow> string \<Rightarrow> wf_time \<Rightarrow> wf_time option"

definition extractCronFields :: "cron_lib \<Rightarrow> wf_time \<Rightarrow> string option \<Rightarrow> CronDateFields" where
  "extractCronFields lib t timeZone = (if isUtcZone timeZone then utc_fields t else cl_fields lib (the timeZone) t)"

text \<open>\<open>const [a, b] = text.split(sep)\<close> for a text that contains the separator.\<close>

definition split_two :: "char \<Rightarrow> string \<Rightarrow> string \<times> string" where
  "split_two sep s = (case js_split sep s of a # b # _ \<Rightarrow> (a, b) | _ \<Rightarrow> (s, []))"

definition js_int :: "int \<Rightarrow> js_number" where
  "js_int v = Finite (of_int v)"

definition in_span :: "string \<Rightarrow> int \<Rightarrow> bool" where
  "in_span s v =
     (let (startStr, endStr) = split_two (CHR ''-'') s
      in num_le (parse_int startStr) (js_int v) \<and> num_le (js_int v) (parse_int endStr))"

definition matches_part :: "string \<Rightarrow> int \<Rightarrow> bool" where
  "matches_part part v =
     (if CHR ''/'' \<in> set part
      then (let (range, stepStr) = split_two (CHR ''/'') part; step = parse_int stepStr in
            if step = NaN \<or> num_le step (Finite 0) then False
            else if range = ''*'' then num_eq (num_rem (js_int v) step) (Finite 0)
            else if CHR ''-'' \<in> set range
            then in_span range v \<and>
              num_eq (num_rem (num_sub (js_int v) (parse_int (fst (split_two (CHR ''-'') range)))) step) (Finite 0)
            else False)
      else if CHR ''-'' \<in> set part then in_span part v
      else num_eq (parse_int part) (js_int v))"

definition matchesCronField :: "string \<Rightarrow> int \<Rightarrow> bool" where
  "matchesCronField field v = (field = ''*'' \<or> list_ex (\<lambda>part. matches_part part v) (js_split (CHR '','') field))"

text \<open>\<open>text.split(/\s+/)\<close>; the number bounds the steps by the length of the text.\<close>

fun split_spaces :: "nat \<Rightarrow> string \<Rightarrow> string \<Rightarrow> string list" where
  "split_spaces 0 word s = [rev word]"
| "split_spaces (Suc n) word s =
     (case s of
        [] \<Rightarrow> [rev word]
      | c # cs \<Rightarrow>
          (case List.find (\<lambda>w. take (length w) s = w) WHITE_SPACE of
             None \<Rightarrow> split_spaces n (c # word) cs
           | Some w \<Rightarrow> rev word # split_spaces n [] (strip_words (length s) WHITE_SPACE s)))"

definition cron_parts :: "string \<Rightarrow> string list" where
  "cron_parts cron = (let s = js_trim cron in split_spaces (Suc (length s)) [] s)"

definition matchesCron :: "cron_lib \<Rightarrow> string \<Rightarrow> wf_time \<Rightarrow> string option \<Rightarrow> bool" where
  "matchesCron lib cron t timeZone =
     (case cron_parts cron of
        [minute, hour, monthday, month, dow] \<Rightarrow>
          (let f = extractCronFields lib t timeZone in
           matchesCronField minute (cf_minute f) \<and> matchesCronField hour (cf_hour f) \<and>
           matchesCronField monthday (cf_dom f) \<and> matchesCronField month (cf_month f) \<and> matchesCronField dow (cf_dow f))
      | _ \<Rightarrow> False)"

section \<open>The next fire\<close>

fun search_minutes :: "(wf_time \<Rightarrow> bool) \<Rightarrow> wf_time \<Rightarrow> nat \<Rightarrow> wf_time option" where
  "search_minutes hit candidate 0 = None"
| "search_minutes hit candidate (Suc n) =
     (if hit candidate then Some candidate else search_minutes hit (candidate + 60000) n)"

definition computeNextCronFire ::
    "cron_lib \<Rightarrow> string \<Rightarrow> wf_time \<Rightarrow> int \<Rightarrow> string option \<Rightarrow> wf_time option" where
  "computeNextCronFire lib cron after maxMinutes timeZone =
     (if \<not> isUtcZone timeZone
      then if length (cron_parts cron) \<noteq> 5 then None else cl_next lib cron (the timeZone) after
      else search_minutes (\<lambda>t. matchesCron lib cron t None) (after div 60000 * 60000 + 60000) (nat maxMinutes))"

section \<open>The calendar is that of the instant\<close>

lemma div_next: "(0 :: int) < k \<Longrightarrow> (x + 1) div k = x div k + (if (x + 1) mod k = 0 then 1 else 0)"
proof -
  assume k: "0 < k"
  define q r where "q = x div k" and "r = x mod k"
  have x: "x = k * q + r" "0 \<le> r" "r < k" using k by (simp_all add: q_def r_def)
  show ?thesis
  proof (cases "r + 1 = k")
    case True
    have "x + 1 = k * (q + 1)" using x(1) True by (simp add: algebra_simps)
    then show ?thesis using k by (simp add: q_def)
  next
    case False
    have x1: "x + 1 = r + 1 + k * q" using x(1) by simp
    have small: "(r + 1) div k = 0" "(r + 1) mod k = r + 1"
      using x(2,3) False by (simp_all only: div_pos_pos_trivial mod_pos_pos_trivial)
    have "(x + 1) div k = q" unfolding x1 using k small(1) by simp
    moreover have "(x + 1) mod k = r + 1" unfolding x1 using small(2) by simp
    moreover have "r + 1 \<noteq> 0" using x(2) by linarith
    ultimately show ?thesis by (simp only: q_def) simp
  qed
qed

lemma div_bounds: "(0 :: int) < k \<Longrightarrow> k * (x div k) \<le> x \<and> x < k * (x div k) + k"
  by (metis add.commute add_le_cancel_left add_less_cancel_left div_mult_mod_eq mult.commute
      pos_mod_bound pos_mod_sign add_0_right)

lemma year_start_next: "year_start (y + 1) = year_start y + (if is_leap y then 366 else 365)"
proof -
  have shift: "(y + 1 - c) div k = (y - c) div k + (if y mod k = 0 then 1 else 0)" if "0 < k" "(c - 1) mod k = 0" for c k
  proof -
    have "(y - c + 1) mod k = 0 \<longleftrightarrow> y mod k = 0"
      using that(2) by (metis add.commute add_diff_eq diff_add_cancel diff_diff_eq2 diff_zero mod_diff_right_eq mod_0 mod_diff_eq)
    then show ?thesis using div_next [OF that(1), of "y - c"] by (simp add: algebra_simps)
  qed
  have 4: "(y + 1 - 1969) div 4 = (y - 1969) div 4 + (if y mod 4 = 0 then 1 else 0)" by (rule shift) simp_all
  have 100: "(y + 1 - 1901) div 100 = (y - 1901) div 100 + (if y mod 100 = 0 then 1 else 0)" by (rule shift) simp_all
  have 400: "(y + 1 - 1601) div 400 = (y - 1601) div 400 + (if y mod 400 = 0 then 1 else 0)" by (rule shift) simp_all
  have "y mod 100 = 0" if "y mod 400 = 0" using that by (auto elim!: dvdE simp flip: dvd_eq_mod_eq_0)
  moreover have "y mod 4 = 0" if "y mod 100 = 0" using that by (auto elim!: dvdE simp flip: dvd_eq_mod_eq_0)
  ultimately show ?thesis unfolding year_start_def 4 100 400 is_leap_def by auto
qed

lemma sum_months: "sum_list (month_lengths y) = (if is_leap y then 366 else 365)"
  by (simp add: month_lengths_def)

lemma year_bounds: "year_start (year_of d) \<le> d \<and> d < year_start (year_of d + 1)"
proof -
  define k where "k = (400 * d) div 146097"
  have k: "146097 * k \<le> 400 * d" "400 * d < 146097 * k + 146097"
    unfolding k_def using div_bounds [of 146097 "400 * d"] by simp_all
  have start: "4 * 100 * year_start y \<le> 146097 * (y - 1970) + 600 \<and> 146097 * (y - 1970) - 600 \<le> 400 * year_start y" for y
    using div_bounds [of 4 "y - 1969"] div_bounds [of 100 "y - 1901"] div_bounds [of 400 "y - 1601"]
    unfolding year_start_def by simp
  have low: "year_start (1970 + k - 1) \<le> d" using k start [of "1970 + k - 1"] by simp
  have high: "d < year_start (1970 + k + 2)" using k start [of "1970 + k + 2"] by simp
  show ?thesis
    using low high by (auto simp: year_of_def Let_def k_def [symmetric] add.assoc)
qed

lemma month_date_bounds:
  assumes "0 \<le> d" and "d < sum_list ls" and "list_all (\<lambda>l. 0 < l) ls" and "month_date ls d m = (m', date)"
  shows "m \<le> m' \<and> m' < m + int (length ls) \<and> 1 \<le> date \<and> date \<le> ls ! nat (m' - m) \<and>
     d = sum_list (take (nat (m' - m)) ls) + date - 1"
  using assms
proof (induction ls d m rule: month_date.induct)
  case (2 l ls d m)
  show ?case
  proof (cases "d < l")
    case False
    then have ih: "m + 1 \<le> m' \<and> m' < m + 1 + int (length ls) \<and> 1 \<le> date \<and> date \<le> ls ! nat (m' - (m + 1)) \<and>
        d - l = sum_list (take (nat (m' - (m + 1))) ls) + date - 1"
      using "2.prems" by (intro "2.IH") auto
    then have "nat (m' - m) = Suc (nat (m' - (m + 1)))" by linarith
    then show ?thesis using ih by simp
  qed (use 2 in auto)
qed simp

definition date_start :: "int \<Rightarrow> int \<Rightarrow> int \<Rightarrow> int" where
  "date_start y m date = (year_start y + sum_list (take (nat (m - 1)) (month_lengths y)) + date - 1) * 86400000"

text \<open>
  The fields are in their ranges and name the minute of the instant: the day they give, with hour and
  minute added, is the beginning of that minute.
\<close>

lemma utc_fields_of_instant:
  "\<exists>y. 1 \<le> cf_month (utc_fields t) \<and> cf_month (utc_fields t) \<le> 12 \<and>
     1 \<le> cf_dom (utc_fields t) \<and> cf_dom (utc_fields t) \<le> month_lengths y ! nat (cf_month (utc_fields t) - 1) \<and>
     cf_hour (utc_fields t) \<in> {0..23} \<and> cf_minute (utc_fields t) \<in> {0..59} \<and> cf_dow (utc_fields t) \<in> {0..6} \<and>
     date_start y (cf_month (utc_fields t)) (cf_dom (utc_fields t)) + cf_hour (utc_fields t) * 3600000 +
       cf_minute (utc_fields t) * 60000 = t div 60000 * 60000"
proof -
  define d y where "d = t div 86400000" and "y = year_of d"
  obtain m date where md: "month_date (month_lengths y) (d - year_start y) 1 = (m, date)" by force
  have "0 \<le> d - year_start y" "d - year_start y < sum_list (month_lengths y)"
    using year_bounds [of d] by (auto simp: y_def sum_months year_start_next)
  from month_date_bounds [OF this _ md]
  have b: "1 \<le> m \<and> m < 1 + 12 \<and> 1 \<le> date \<and> date \<le> month_lengths y ! nat (m - 1) \<and>
      d - year_start y = sum_list (take (nat (m - 1)) (month_lengths y)) + date - 1"
    by (simp add: month_lengths_def)
  have f: "utc_fields t = \<lparr>cf_minute = t div 60000 mod 60, cf_hour = t div 3600000 mod 24, cf_dom = date,
      cf_month = m, cf_dow = (d + 4) mod 7\<rparr>"
    using md by (simp add: utc_fields_def Let_def d_def y_def)
  have "d * 86400000 + t div 3600000 mod 24 * 3600000 + t div 60000 mod 60 * 60000 = t div 60000 * 60000"
  proof -
    define h mi where "h = t div 3600000" and "mi = t div 60000"
    have "h div 24 = d" using zdiv_zmult2_eq [of 24 t 3600000] by (simp add: d_def h_def)
    moreover have "mi div 60 = h" using zdiv_zmult2_eq [of 60 t 60000] by (simp add: h_def mi_def)
    ultimately have "h mod 24 = h - 24 * d" "mi mod 60 = mi - 60 * h"
      using minus_mult_div_eq_mod [of h 24] minus_mult_div_eq_mod [of mi 60] by simp_all
    then show ?thesis unfolding h_def [symmetric] mi_def [symmetric] by (simp only:) simp
  qed
  moreover have "date_start y m date = d * 86400000" using b by (simp add: date_start_def)
  moreover have "t div 3600000 mod 24 \<in> {0..23}" "t div 60000 mod 60 \<in> {0..59}" "(d + 4) mod 7 \<in> {0..6}"
    using pos_mod_bound [of 24 "t div 3600000"] pos_mod_bound [of 60 "t div 60000"] pos_mod_bound [of 7 "d + 4"] by simp_all
  ultimately show ?thesis using b unfolding f by (intro exI [of _ y]) simp
qed

text \<open>The leap day of 2024, a minute before midnight; the last minute before the epoch.\<close>

lemma utc_fields_samples:
  "utc_fields 1709251140000 = \<lparr>cf_minute = 59, cf_hour = 23, cf_dom = 29, cf_month = 2, cf_dow = 4\<rparr>"
  "utc_fields (- 1) = \<lparr>cf_minute = 59, cf_hour = 23, cf_dom = 31, cf_month = 12, cf_dow = 3\<rparr>"
  by code_simp+

section \<open>What the fields mean\<close>

text \<open>The items of a field: every so many, a range, a range with a step, one value.\<close>

datatype cron_item = Each nat | Span nat nat | Span_Step nat nat nat | At nat

fun show_item :: "cron_item \<Rightarrow> string" where
  "show_item (Each s) = ''*/'' @ show_nat s"
| "show_item (Span a b) = show_nat a @ ''-'' @ show_nat b"
| "show_item (Span_Step a b s) = show_nat a @ ''-'' @ show_nat b @ ''/'' @ show_nat s"
| "show_item (At a) = show_nat a"

fun item_holds :: "cron_item \<Rightarrow> nat \<Rightarrow> bool" where
  "item_holds (Each s) v = (s dvd v)"
| "item_holds (Span a b) v = (a \<le> v \<and> v \<le> b)"
| "item_holds (Span_Step a b s) v = (a \<le> v \<and> v \<le> b \<and> s dvd v - a)"
| "item_holds (At a) v = (v = a)"

fun item_ok :: "cron_item \<Rightarrow> bool" where
  "item_ok (Each s) = (0 < s \<and> s \<le> 2 ^ 53)"
| "item_ok (Span a b) = (a \<le> 2 ^ 53 \<and> b \<le> 2 ^ 53)"
| "item_ok (Span_Step a b s) = (a \<le> 2 ^ 53 \<and> b \<le> 2 ^ 53 \<and> 0 < s \<and> s \<le> 2 ^ 53)"
| "item_ok (At a) = (a \<le> 2 ^ 53)"

lemma split_at: "sep \<notin> set a \<Longrightarrow> js_split sep (a @ sep # b) = a # js_split sep b"
  by (induction a) auto

lemma split_none: "sep \<notin> set a \<Longrightarrow> js_split sep a = [a]"
  by (induction a) auto

lemma split_join:
  "xs \<noteq> [] \<Longrightarrow> list_all (\<lambda>s. sep \<notin> set s) xs \<Longrightarrow> js_split sep (js_join [sep] xs) = xs"
  by (induction "[sep]" xs rule: js_join.induct) (auto simp: split_at split_none)

lemma show_nat_no_sep: "c \<notin> digit_chars \<Longrightarrow> c \<notin> set (show_nat n)"
  using show_nat_digits by blast

lemma separators: "CHR ''-'' \<notin> digit_chars" "CHR ''/'' \<notin> digit_chars" "CHR '','' \<notin> digit_chars" "CHR ''*'' \<notin> digit_chars"
  by (simp_all add: digit_chars_iff is_digit_def)

lemmas show_nat_separators [simp] = separators [THEN show_nat_no_sep]

lemma parse_int_show_nat [simp]:
  assumes "n \<le> 2 ^ 53"
  shows "parse_int (show_nat n) = Finite (of_nat n)"
proof -
  let ?s = "show_nat n"
  have digits: "\<And>c. c \<in> set ?s \<Longrightarrow> c \<in> digit_chars" using show_nat_digits by blast
  have "hd ?s \<in> digit_chars" using digits show_nat_not_Nil by simp
  then have head: "hd ?s \<notin> {CHR ''+'', CHR ''-''}" "hd ?s \<notin> hd ` set WHITE_SPACE"
    by (auto simp: digit_chars_iff is_digit_def WHITE_SPACE_def)
  have "[] \<notin> set WHITE_SPACE" by (simp add: WHITE_SPACE_def)
  then have strip: "strip_words k WHITE_SPACE ?s = ?s" for k using head(2) by (intro strip_words_none) auto
  have tw: "takeWhile is_digit ?s = ?s" using digits by (simp add: digit_chars_iff takeWhile_eq_all_conv)
  have "round_double (of_nat n) = Finite (of_nat n)"
    using round_double_of_int [of "int n"] assms by simp
  then show ?thesis
    using head(1) by (simp add: parse_int_def strip tw show_nat_not_Nil base_value_show_nat Let_def del: takeWhile_eq_Nil_iff)
qed

lemma num_le_nats [simp]: "num_le (Finite (of_nat a)) (js_int (int b)) = (a \<le> b)"
  "num_le (js_int (int b)) (Finite (of_nat a)) = (b \<le> a)"
  by (auto simp: num_le_def num_eq_def js_int_def simp flip: of_nat_less_iff)

lemma num_le_zero [simp]: "num_le (Finite (of_nat a)) (Finite 0) = (a = 0)"
  by (auto simp: num_le_def num_eq_def)

lemma num_eq_nats [simp]: "num_eq (Finite (of_nat a)) (js_int (int b)) = (a = b)"
  by (auto simp: num_eq_def js_int_def)

lemma rem_zero:
  assumes "0 < s"
  shows "num_eq (num_rem (Finite (of_nat v)) (Finite (of_nat s))) (Finite 0) = (s dvd v)"
proof -
  have "Js_Number.truncate (of_nat v / of_nat s :: rat) = int (v div s)"
    using floor_divide_of_nat_eq [of v s, where ?'a = rat]
    by (simp add: Js_Number.truncate_def linorder_not_less [THEN iffD2])
  then have "(of_nat v :: rat) - of_nat s * of_int (Js_Number.truncate (of_nat v / of_nat s)) = of_nat (v mod s)"
    by (simp flip: of_nat_mult add: minus_div_mult_eq_mod [symmetric] of_nat_diff)
  then show ?thesis
    using assms by (auto simp: num_rem_def num_eq_def signed_zero_def Let_def dvd_eq_mod_eq_0)
qed

lemma sub_nats:
  assumes "a \<le> v" and "v \<le> 2 ^ 53"
  shows "num_sub (js_int (int v)) (Finite (of_nat a)) = Finite (of_nat (v - a))"
proof (cases "a = 0")
  case False
  have "\<bar>int v + (- int a)\<bar> \<le> 2 ^ 53" using assms by simp
  from num_add_of_int [OF this] show ?thesis
    using False assms(1) by (simp add: num_sub_def js_int_def of_nat_diff)
qed (simp add: num_sub_def js_int_def)

lemma part_matches:
  assumes "item_ok i" and "v \<le> 2 ^ 53"
  shows "matches_part (show_item i) (int v) = item_holds i v"
proof (cases i)
  case (Each s)
  then show ?thesis
    using assms rem_zero [of s v]
    by (simp add: matches_part_def split_two_def split_at split_none js_int_def)
next
  case (Span a b)
  then show ?thesis
    using assms by (simp add: matches_part_def in_span_def split_two_def split_at split_none)
next
  case (Span_Step a b s)
  have no: "CHR ''/'' \<notin> set (show_nat a @ ''-'' @ show_nat b)" by simp
  have "js_split (CHR ''/'') (show_item i) = [show_nat a @ ''-'' @ show_nat b, show_nat s]"
    using split_at [OF no, of "show_nat s"] by (simp add: Span_Step split_none)
  moreover have "show_nat a @ ''-'' @ show_nat b \<noteq> ''*''" using show_nat_not_Nil [of a] by (cases "show_nat a") auto
  ultimately show ?thesis
    using assms rem_zero [of s "v - a"] sub_nats [of a v]
    by (auto simp: Span_Step matches_part_def in_span_def split_two_def split_at split_none)
next
  case (At a)
  then show ?thesis using assms by (auto simp: matches_part_def)
qed

lemma show_nat_not_star: "show_nat n \<noteq> ''*''"
  by (metis list.set_intros(1) show_nat_separators(4))

lemma show_item_no_comma: "CHR '','' \<notin> set (show_item i)"
  by (cases i) auto

text \<open>
  A field that lists items matches a value exactly when one of the items holds of it: every so many,
  from a to b, from a to b in steps counted from a, or the value itself.
\<close>

theorem cron_field_matches:
  assumes "items \<noteq> []" and "list_all item_ok items" and "v \<le> 2 ^ 53"
  shows "matchesCronField (js_join '','' (map show_item items)) (int v) \<longleftrightarrow> list_ex (\<lambda>i. item_holds i v) items"
proof -
  have split: "js_split (CHR '','') (js_join '','' (map show_item items)) = map show_item items"
    using assms(1) show_item_no_comma by (intro split_join) (simp_all add: list_all_iff)
  have "js_join '','' (map show_item items) \<noteq> ''*''"
  proof
    assume "js_join '','' (map show_item items) = ''*''"
    with split have "map show_item items = [''*'']" by simp
    then obtain i where "show_item i = ''*''" by auto
    then show False
      using show_nat_not_Nil by (cases i) (auto simp: append_eq_Cons_conv show_nat_not_star)
  qed
  then show ?thesis
    using assms(2,3) by (auto simp: matchesCronField_def split list_ex_iff list_all_iff part_matches)
qed

theorem cron_field_matches_witness:
  "matchesCronField ''1-10/3,30,*/20'' 40 = True \<and> matchesCronField ''1-10/3,30,*/20'' 8 = False"
proof -
  have "js_join '','' (map show_item [Span_Step 1 10 3, At 30, Each 20]) = ''1-10/3,30,*/20''" by code_simp
  then show ?thesis
    using cron_field_matches [of "[Span_Step 1 10 3, At 30, Each 20]" 40]
      cron_field_matches [of "[Span_Step 1 10 3, At 30, Each 20]" 8] by simp
qed

section \<open>The next fire is the earliest\<close>

lemma search_minutes_Some:
  "search_minutes hit c n = Some t \<Longrightarrow>
     \<exists>k<n. t = c + int k * 60000 \<and> hit t \<and> (\<forall>j<k. \<not> hit (c + int j * 60000))"
proof (induction n arbitrary: c)
  case (Suc n)
  show ?case
  proof (cases "hit c")
    case False
    then obtain k where k: "k < n" "t = c + 60000 + int k * 60000" "hit t" "\<forall>j<k. \<not> hit (c + 60000 + int j * 60000)"
      using Suc by auto
    have "\<not> hit (c + int j * 60000)" if "j < Suc k" for j
      using that k(4) False by (cases j) (auto simp: algebra_simps)
    then show ?thesis using k by (intro exI [of _ "Suc k"]) (auto simp: algebra_simps)
  qed (use Suc in auto)
qed simp

lemma search_minutes_None:
  "search_minutes hit c n = None \<Longrightarrow> k < n \<Longrightarrow> \<not> hit (c + int k * 60000)"
proof (induction n arbitrary: c k)
  case (Suc n)
  then have tail: "\<not> hit c" "\<not> hit (c + 60000 + int j * 60000)" if "j < n" for j
    using that by (auto split: if_splits)
  show ?case
  proof (cases k)
    case 0
    then show ?thesis using Suc.prems(1) by (simp split: if_splits)
  next
    case (Suc j)
    then show ?thesis using tail(2) [of j] Suc.prems(2) by (simp add: algebra_simps)
  qed
qed simp

text \<open>
  C40. The next fire of a schedule in UTC is the first full minute after the given instant that matches the
  expression; if there is none, no minute of the window matches.
\<close>

theorem next_fire_earliest:
  "case computeNextCronFire lib cron after maxMinutes None of
     Some t \<Rightarrow> after < t \<and> t \<le> after + maxMinutes * 60000 \<and> t mod 60000 = 0 \<and> matchesCron lib cron t None \<and>
       {u. after < u \<and> u < t \<and> u mod 60000 = 0 \<and> matchesCron lib cron u None} = {}
   | None \<Rightarrow> {u. after < u \<and> u \<le> after div 60000 * 60000 + maxMinutes * 60000 \<and> u mod 60000 = 0 \<and>
       matchesCron lib cron u None} = {}"
proof -
  define c where "c = after div 60000 * 60000 + 60000"
  have c: "after < c" "c \<le> after + 60000" "c mod 60000 = 0"
    using div_bounds [of 60000 after] by (simp_all add: c_def algebra_simps)
  have minute: "\<exists>j. u = c + int j * 60000" if "after < u" "u mod 60000 = 0" for u
  proof -
    have "u = u div 60000 * 60000" using that(2) by (simp add: mod_0_imp_dvd)
    moreover have "after div 60000 < u div 60000"
    proof -
      have "60000 * (after div 60000) < 60000 * (u div 60000)"
        using div_bounds [of 60000 after] that(1) \<open>u = u div 60000 * 60000\<close> by linarith
      then show ?thesis by simp
    qed
    ultimately show ?thesis
      by (intro exI [of _ "nat (u div 60000 - after div 60000 - 1)"]) (simp add: c_def algebra_simps)
  qed
  have search: "computeNextCronFire lib cron after maxMinutes None = search_minutes (\<lambda>t. matchesCron lib cron t None) c (nat maxMinutes)"
    by (simp add: computeNextCronFire_def isUtcZone_def c_def)
  show ?thesis
  proof (cases "computeNextCronFire lib cron after maxMinutes None")
    case None
    have "\<not> matchesCron lib cron u None"
      if u: "after < u" "u \<le> after div 60000 * 60000 + maxMinutes * 60000" "u mod 60000 = 0" for u
    proof -
      obtain j where j: "u = c + int j * 60000" using minute [OF u(1) u(3)] by blast
      then have "j < nat maxMinutes" using u(2) by (simp add: c_def)
      then show ?thesis using search_minutes_None [OF None [unfolded search]] j by blast
    qed
    then show ?thesis using None by auto
  next
    case (Some t)
    obtain k where k: "k < nat maxMinutes" "t = c + int k * 60000" "matchesCron lib cron t None"
        "\<forall>j<k. \<not> matchesCron lib cron (c + int j * 60000) None"
      using search_minutes_Some [OF Some [unfolded search]] by blast
    have "\<not> matchesCron lib cron u None" if u: "after < u" "u < t" "u mod 60000 = 0" for u
    proof -
      obtain j where j: "u = c + int j * 60000" using minute [OF u(1) u(3)] by blast
      then have "j < k" using u(2) k(2) by simp
      then show ?thesis using k(4) j by blast
    qed
    moreover have "t mod 60000 = 0" using c(3) k(2) by simp
    moreover have "t \<le> after + maxMinutes * 60000" using c(2) k(1,2) by simp
    ultimately show ?thesis using Some c(1) k by auto
  qed
qed

end
