(* ===== verification/Workflow_Triggers.thy ===== *)
theory Workflow_Triggers
  imports Workflow_Cron Workflow_Operations
begin

text \<open>
  The trigger service of the workflow engine, src/src/workflows/services/friday-workflow-trigger-service.ts,
  with its table of registrations (persistence/friday-workflow-trigger-repository.ts) and the gate in
  front of webhooks (src/src/security/friday-owner-session-channel-capability.ts), wired with the table
  as the runtime does. As in the execution service, the code between two awaits is one function: a
  computation that waits for \<open>startRun\<close> or for the signing secret is a value in the state and an event
  answers it. A registration names configuration values that are texts; others are taken as absent.
\<close>

section \<open>The table of registrations\<close>

datatype FridayWorkflowEngineTriggerType = TT_Cron | TT_Webhook | TT_Event

record FridayWorkflowTriggerRegistrationEntity =
  tr_id :: UUID
  tr_workflowId :: UUID
  tr_workflowVersionId :: UUID
  tr_triggerNodeId :: string
  tr_triggerType :: FridayWorkflowEngineTriggerType
  tr_enabled :: bool
  tr_cronExpression :: "string option"
  tr_cronTimezone :: "string option"
  tr_webhookPathToken :: "string option"
  tr_webhookSecretRef :: "string option"
  tr_webhookSignatureHeader :: "string option"
  tr_eventSource :: "string option"
  tr_eventName :: "string option"
  tr_eventFilterExpr :: "string option"
  tr_pluginId :: "UUID option"
  tr_dedupeWindowSec :: int
  tr_lastFiredAt :: "wf_time option"
  tr_nextFireAt :: "wf_time option"
  tr_createdAt :: wf_time
  tr_updatedAt :: wf_time

type_synonym trigger_rows = "FridayWorkflowTriggerRegistrationEntity list"

definition same_trigger_node ::
    "FridayWorkflowTriggerRegistrationEntity \<Rightarrow> FridayWorkflowTriggerRegistrationEntity \<Rightarrow> bool" where
  "same_trigger_node a b \<longleftrightarrow>
     tr_workflowVersionId a = tr_workflowVersionId b \<and> tr_triggerNodeId a = tr_triggerNodeId b"

text \<open>
  The upsert of one row: the other unique columns are checked first, then the row of the same node is
  updated, keeping its id, its path token if it has one, and when it was created and fired.
\<close>

definition upsert_registration ::
    "FridayWorkflowTriggerRegistrationEntity \<Rightarrow> trigger_rows \<Rightarrow> trigger_rows outcome" where
  "upsert_registration e rows =
     (if tr_id e \<in> tr_id ` set rows then Inl (unique_failed ''workflow_trigger_registrations.id'')
      else if tr_webhookPathToken e \<noteq> None \<and> tr_webhookPathToken e \<in> tr_webhookPathToken ` set rows
      then Inl (unique_failed ''workflow_trigger_registrations.webhook_path_token'')
      else if list_ex (same_trigger_node e) rows
      then Inr (map (\<lambda>r. if same_trigger_node e r
             then e\<lparr>tr_id := tr_id r, tr_workflowId := tr_workflowId r,
                    tr_webhookPathToken := or_else (tr_webhookPathToken r) (tr_webhookPathToken e),
                    tr_lastFiredAt := tr_lastFiredAt r, tr_createdAt := tr_createdAt r\<rparr>
             else r) rows)
      else Inr (rows @ [e]))"

definition upsertManyForVersion :: "trigger_rows \<Rightarrow> trigger_rows \<Rightarrow> trigger_rows outcome" where
  "upsertManyForVersion entities rows = all_or_nothing upsert_registration entities rows"

definition trigger_listByWorkflow :: "trigger_rows \<Rightarrow> UUID \<Rightarrow> trigger_rows" where
  "trigger_listByWorkflow rows workflowId = sort_key tr_createdAt (filter (\<lambda>r. tr_workflowId r = workflowId) rows)"

definition listDueCron :: "trigger_rows \<Rightarrow> wf_time \<Rightarrow> int \<Rightarrow> trigger_rows" where
  "listDueCron rows nowIso limit =
     sql_limit limit (sort_key (\<lambda>r. case tr_nextFireAt r of None \<Rightarrow> 0 | Some t \<Rightarrow> t)
       (filter (\<lambda>r. tr_triggerType r = TT_Cron \<and> tr_enabled r \<and>
          (case tr_nextFireAt r of None \<Rightarrow> False | Some t \<Rightarrow> t \<le> nowIso)) rows))"

definition getByWebhookToken :: "trigger_rows \<Rightarrow> string \<Rightarrow> FridayWorkflowTriggerRegistrationEntity option" where
  "getByWebhookToken rows pathToken = List.find (\<lambda>r. tr_webhookPathToken r = Some pathToken \<and> tr_enabled r) rows"

definition listByEvent :: "trigger_rows \<Rightarrow> string \<Rightarrow> string \<Rightarrow> trigger_rows" where
  "listByEvent rows source ev =
     filter (\<lambda>r. tr_triggerType r = TT_Event \<and> tr_enabled r \<and> tr_eventSource r = Some source \<and> tr_eventName r = Some ev) rows"

definition markFired :: "UUID \<Rightarrow> wf_time \<Rightarrow> wf_time option \<Rightarrow> trigger_rows \<Rightarrow> trigger_rows" where
  "markFired i firedAt nextFireAt =
     map (\<lambda>r. if tr_id r = i then r\<lparr>tr_lastFiredAt := Some firedAt, tr_nextFireAt := nextFireAt, tr_updatedAt := firedAt\<rparr> else r)"

definition setEnabled :: "UUID \<Rightarrow> bool \<Rightarrow> wf_time \<Rightarrow> trigger_rows \<Rightarrow> trigger_rows" where
  "setEnabled i enabled nowIso =
     map (\<lambda>r. if tr_id r = i then r\<lparr>tr_enabled := enabled, tr_updatedAt := nowIso\<rparr> else r)"

definition deleteByWorkflowVersion :: "UUID \<Rightarrow> trigger_rows \<Rightarrow> trigger_rows" where
  "deleteByWorkflowVersion versionId = filter (\<lambda>r. tr_workflowVersionId r \<noteq> versionId)"

definition deleteByWorkflow :: "UUID \<Rightarrow> trigger_rows \<Rightarrow> trigger_rows" where
  "deleteByWorkflow workflowId = filter (\<lambda>r. tr_workflowId r \<noteq> workflowId)"

section \<open>The gate in front of webhooks\<close>

definition WEBHOOK_PATH_TOKEN_MIN_LENGTH :: nat where
  "WEBHOOK_PATH_TOKEN_MIN_LENGTH = 32"

text \<open>\<open>None\<close> lets the webhook pass; a rejection is its status and code.\<close>

definition evaluateWorkflowWebhookGate :: "string \<Rightarrow> bool \<Rightarrow> string list \<Rightarrow> (int \<times> string) option" where
  "evaluateWorkflowWebhookGate pathToken hasSecretRef allowlist =
     (if hasSecretRef then None
      else if pathToken \<notin> set allowlist then Some (401, ''WORKFLOW_WEBHOOK_HMAC_REQUIRED'')
      else if utf16_length pathToken < WEBHOOK_PATH_TOKEN_MIN_LENGTH then Some (401, ''WORKFLOW_WEBHOOK_PATH_TOKEN_WEAK'')
      else None)"

definition readWorkflowWebhookBearerOnlyAllowlistFromEnv :: "string option \<Rightarrow> string list" where
  "readWorkflowWebhookBearerOnlyAllowlistFromEnv raw =
     (if \<not> given raw then [] else remdups (filter (\<lambda>s. s \<noteq> []) (map js_trim (js_split (CHR '','') (the raw)))))"

definition SENSITIVE_HEADERS :: "string list" where
  "SENSITIVE_HEADERS = [''authorization'', ''proxy-authorization'', ''cookie'', ''set-cookie'', ''x-api-key'',
     ''x-auth-token'', ''x-session-token'', ''x-csrf-token'']"

definition redactSensitiveWebhookHeaders :: "(string \<times> string) list option \<Rightarrow> json_props" where
  "redactSensitiveWebhookHeaders headers =
     (case headers of
        None \<Rightarrow> []
      | Some hs \<Rightarrow> map (\<lambda>(k, v). (k, JsonString (if js_lower k \<in> set SENSITIVE_HEADERS then ''[REDACTED]'' else v))) hs)"

section \<open>State\<close>

datatype FridayWorkflowTriggerDef = Manual_Trigger | Schedule_Trigger "string option" "string option"
  | Event_Trigger "string option" "string option"

record FridayTriggerRegistration =
  rg_id :: UUID
  rg_workflowId :: UUID
  rg_workflowVersionId :: UUID
  rg_trigger :: FridayWorkflowTriggerDef
  rg_enabled :: bool
  rg_createdAt :: wf_time

record FridayWorkflowWebhookInvokeInput =
  wi_pathToken :: string
  wi_body :: json_props
  wi_headers :: "(string \<times> string) list option"
  wi_rawBody :: "string option"

text \<open>Why a run was started: for a webhook also the signing secret, where there was one.\<close>

datatype start_cause =
    Cron_Cause FridayWorkflowTriggerRegistrationEntity
  | Event_Cause FridayWorkflowTriggerRegistrationEntity
  | Webhook_Cause FridayWorkflowTriggerRegistrationEntity FridayWorkflowWebhookInvokeInput "string option"
  | Manual_Cause

text \<open>A computation that waits, with what it does afterwards.\<close>

datatype trigger_wait =
    Cron_Wait FridayWorkflowTriggerRegistrationEntity trigger_rows wf_time "int option" nat
  | Event_Wait FridayWorkflowTriggerRegistrationEntity trigger_rows json_props nat
  | Secret_Wait FridayWorkflowTriggerRegistrationEntity FridayWorkflowWebhookInvokeInput
  | Webhook_Wait FridayWorkflowTriggerRegistrationEntity
  | Manual_Wait

datatype trigger_answer = Run_Started UUID | Run_Failed wf_error | Secret_Is string | Secret_Refused int string

record webhook_result =
  wk_accepted :: bool
  wk_runId :: "UUID option"
  wk_statusCode :: "int option"
  wk_errorCode :: "string option"

datatype trigger_reply = Started_Count nat | Started_Run UUID | Webhook_Reply webhook_result | Call_Threw wf_error | Call_Done

record trigger_state =
  tg_workflows :: "workflow_row list"
  tg_versions :: "version_row list"
  tg_rows :: trigger_rows
  tg_registrations :: "(UUID, FridayTriggerRegistration list) js_map"
  recentCorrelationIds :: "string list"
  tg_starts :: "(start_cause \<times> FridayWorkflowStartRunInput) list"
  tg_waits :: "(nat, trigger_wait) js_map"
  tg_next :: nat
  tg_replies :: "(nat \<times> trigger_reply) list"
  tg_clock :: wf_time
  tg_ids :: nat

text \<open>Id generator, calendar, digests, number formatting, and the tokens that may come without signature.\<close>

record trigger_env =
  te_id :: "nat \<Rightarrow> UUID"
  te_cron :: cron_lib
  te_sha256 :: "string \<Rightarrow> string"
  te_hmac :: "string \<Rightarrow> string \<Rightarrow> string"
  te_num :: "rat \<Rightarrow> string"
  te_allowlist :: "string list"

definition trigger_id :: "trigger_env \<Rightarrow> trigger_state \<Rightarrow> UUID \<times> trigger_state" where
  "trigger_id env st = (te_id env (tg_ids st), st\<lparr>tg_ids := Suc (tg_ids st)\<rparr>)"

definition trigger_answered :: "nat \<Rightarrow> trigger_reply \<Rightarrow> trigger_state \<Rightarrow> trigger_state" where
  "trigger_answered k r st = st\<lparr>tg_waits := map_del (tg_waits st) k, tg_replies := tg_replies st @ [(k, r)]\<rparr>"

definition trigger_waits :: "nat \<Rightarrow> trigger_wait \<Rightarrow> trigger_state \<Rightarrow> trigger_state" where
  "trigger_waits k w st = st\<lparr>tg_waits := map_set (tg_waits st) k w\<rparr>"

definition start_call :: "start_cause \<Rightarrow> FridayWorkflowStartRunInput \<Rightarrow> trigger_state \<Rightarrow> trigger_state" where
  "start_call cause inp st = st\<lparr>tg_starts := tg_starts st @ [(cause, inp)]\<rparr>"

definition trigger_input ::
    "UUID \<Rightarrow> UUID \<Rightarrow> string \<Rightarrow> json_props option \<Rightarrow> UUID option \<Rightarrow> string option \<Rightarrow> FridayWorkflowStartRunInput" where
  "trigger_input workflowId versionId triggerType payload user correlationId =
     \<lparr>si_workflowId = workflowId, si_workflowVersionId = Some versionId, si_triggerType = triggerType,
      si_triggerPayload = payload, si_startedByUserId = user, si_startedBySatelliteId = None,
      si_correlationId = correlationId, si_context = None, si_dryRun = False, si_proofRequired = False\<rparr>"

section \<open>Cron\<close>

definition pad_zeros :: "nat \<Rightarrow> string \<Rightarrow> string" where
  "pad_zeros n s = replicate (n - length s) (CHR ''0'') @ s"

text \<open>\<open>nowIso.slice(0, 16)\<close>: the text of the instant up to the minute, for the years 0 to 9999.\<close>

definition minute_text :: "wf_time \<Rightarrow> string" where
  "minute_text t =
     (let f = utc_fields t; two = (\<lambda>i. pad_zeros 2 (show_int i)) in
      pad_zeros 4 (show_int (year_of (t div 86400000))) @ ''-'' @ two (cf_month f) @ ''-'' @ two (cf_dom f) @ ''T'' @
        two (cf_hour f) @ '':'' @ two (cf_minute f))"

definition fire_fingerprint :: "trigger_env \<Rightarrow> FridayWorkflowTriggerRegistrationEntity \<Rightarrow> wf_time \<Rightarrow> string" where
  "fire_fingerprint env reg nowIso =
     te_sha256 env (tr_workflowId reg @ '':'' @ tr_workflowVersionId reg @ '':schedule:'' @ minute_text nowIso)"

text \<open>The ids of recent fires: beyond a thousand only the latest five hundred are kept.\<close>

definition remember_fire :: "string \<Rightarrow> string list \<Rightarrow> string list" where
  "remember_fire fingerprint recent =
     (let recent = recent @ [fingerprint] in if length recent > 1000 then drop (length recent - 500) recent else recent)"

text \<open>\<open>tickCron\<close> from the next due registration on, \<open>fireCronRegistration\<close> up to its await included.\<close>

fun tick_rows ::
    "trigger_env \<Rightarrow> nat \<Rightarrow> trigger_rows \<Rightarrow> wf_time \<Rightarrow> int option \<Rightarrow> nat \<Rightarrow> trigger_state \<Rightarrow> trigger_state" where
  "tick_rows env k [] nowIso limit started st = trigger_answered k (Started_Count started) st"
| "tick_rows env k (reg # rest) nowIso limit started st =
     (if (case limit of None \<Rightarrow> False | Some n \<Rightarrow> int started \<ge> n) then trigger_answered k (Started_Count started) st
      else let fingerprint = fire_fingerprint env reg nowIso in
        if fingerprint \<in> set (recentCorrelationIds st) then tick_rows env k rest nowIso limit started st
        else trigger_waits k (Cron_Wait reg rest nowIso limit started)
               (start_call (Cron_Cause reg)
                 (trigger_input (tr_workflowId reg) (tr_workflowVersionId reg) ''schedule'' None None (Some fingerprint))
                 (st\<lparr>recentCorrelationIds := remember_fire fingerprint (recentCorrelationIds st)\<rparr>)))"

definition tickCron :: "trigger_env \<Rightarrow> nat \<Rightarrow> wf_time \<Rightarrow> int option \<Rightarrow> trigger_state \<Rightarrow> trigger_state" where
  "tickCron env k nowIso limit st =
     tick_rows env k (listDueCron (tg_rows st) nowIso (case limit of None \<Rightarrow> 100 | Some n \<Rightarrow> n)) nowIso limit 0 st"

definition cron_fired :: "trigger_env \<Rightarrow> FridayWorkflowTriggerRegistrationEntity \<Rightarrow> wf_time \<Rightarrow> trigger_state \<Rightarrow> trigger_state" where
  "cron_fired env reg nowIso st =
     (if tr_id reg \<noteq> [] \<and> given (tr_cronExpression reg)
      then st\<lparr>tg_rows := markFired (tr_id reg) nowIso
             (computeNextCronFire (te_cron env) (the (tr_cronExpression reg)) nowIso 525600 (tr_cronTimezone reg)) (tg_rows st)\<rparr>
      else st)"

section \<open>Events\<close>

fun event_rows :: "nat \<Rightarrow> trigger_rows \<Rightarrow> json_props \<Rightarrow> nat \<Rightarrow> trigger_state \<Rightarrow> trigger_state" where
  "event_rows k [] payload started st = trigger_answered k (Started_Count started) st"
| "event_rows k (reg # rest) payload started st =
     (if \<not> tr_enabled reg then event_rows k rest payload started st
      else trigger_waits k (Event_Wait reg rest payload started)
             (start_call (Event_Cause reg)
               (trigger_input (tr_workflowId reg) (tr_workflowVersionId reg) ''event'' (Some payload) None None) st))"

section \<open>Webhooks\<close>

definition webhook_rejected :: "(int \<times> string) option \<Rightarrow> trigger_reply" where
  "webhook_rejected why =
     Webhook_Reply \<lparr>wk_accepted = False, wk_runId = None, wk_statusCode = map_option fst why, wk_errorCode = map_option snd why\<rparr>"

definition start_webhook ::
    "nat \<Rightarrow> FridayWorkflowTriggerRegistrationEntity \<Rightarrow> FridayWorkflowWebhookInvokeInput \<Rightarrow> string option
     \<Rightarrow> trigger_state \<Rightarrow> trigger_state" where
  "start_webhook k reg inp secret st =
     trigger_waits k (Webhook_Wait reg)
       (start_call (Webhook_Cause reg inp secret)
         (trigger_input (tr_workflowId reg) (tr_workflowVersionId reg) ''webhook''
           (Some (map_set (wi_body inp) ''_webhookHeaders'' (JsonObject (redactSensitiveWebhookHeaders (wi_headers inp)))))
           None None) st)"

definition handleWebhook :: "trigger_env \<Rightarrow> nat \<Rightarrow> FridayWorkflowWebhookInvokeInput \<Rightarrow> trigger_state \<Rightarrow> trigger_state" where
  "handleWebhook env k inp st =
     (case getByWebhookToken (tg_rows st) (wi_pathToken inp) of
        None \<Rightarrow> trigger_answered k (webhook_rejected None) st
      | Some reg \<Rightarrow>
          if \<not> tr_enabled reg then trigger_answered k (webhook_rejected None) st
          else (case evaluateWorkflowWebhookGate (wi_pathToken inp) (given (tr_webhookSecretRef reg)) (te_allowlist env) of
                  Some why \<Rightarrow> trigger_answered k (webhook_rejected (Some why)) st
                | None \<Rightarrow>
                    if given (tr_webhookSecretRef reg) then trigger_waits k (Secret_Wait reg inp) st
                    else start_webhook k reg inp None st))"

definition received_signature :: "FridayWorkflowTriggerRegistrationEntity \<Rightarrow> FridayWorkflowWebhookInvokeInput \<Rightarrow> string option" where
  "received_signature reg inp =
     (let sigHeader = (case tr_webhookSignatureHeader reg of None \<Rightarrow> ''x-hub-signature-256'' | Some h \<Rightarrow> h);
          headers = (case wi_headers inp of None \<Rightarrow> [] | Some hs \<Rightarrow> hs)
      in or_else (map_of headers sigHeader) (map_of headers (js_lower sigHeader)))"

definition expected_signature :: "trigger_env \<Rightarrow> FridayWorkflowWebhookInvokeInput \<Rightarrow> string \<Rightarrow> string" where
  "expected_signature env inp secret =
     ''sha256='' @ te_hmac env secret (case wi_rawBody inp of Some raw \<Rightarrow> raw | None \<Rightarrow> json_text (te_num env) (JsonObject (wi_body inp)))"

definition webhook_secret ::
    "trigger_env \<Rightarrow> nat \<Rightarrow> FridayWorkflowTriggerRegistrationEntity \<Rightarrow> FridayWorkflowWebhookInvokeInput \<Rightarrow> trigger_answer
     \<Rightarrow> trigger_state \<Rightarrow> trigger_state" where
  "webhook_secret env k reg inp ans st =
     (case ans of
        Secret_Refused status code \<Rightarrow> trigger_answered k (webhook_rejected (Some (status, code))) st
      | Secret_Is secret \<Rightarrow>
          if \<not> given (received_signature reg inp)
          then trigger_answered k (webhook_rejected (Some (401, ''WEBHOOK_SIGNATURE_MISSING''))) st
          else if received_signature reg inp \<noteq> Some (expected_signature env inp secret)
          then trigger_answered k (webhook_rejected (Some (403, ''WEBHOOK_SIGNATURE_INVALID''))) st
          else start_webhook k reg inp (Some secret) st
      | Run_Failed e \<Rightarrow> trigger_answered k (Call_Threw e) st
      | Run_Started _ \<Rightarrow> st)"

section \<open>Registrations\<close>

definition register_trigger ::
    "trigger_env \<Rightarrow> UUID \<Rightarrow> UUID \<Rightarrow> FridayWorkflowTriggerDef \<Rightarrow> trigger_state \<Rightarrow> trigger_state" where
  "register_trigger env workflowId versionId trigger st =
     (let (i, st) = trigger_id env st;
          reg = \<lparr>rg_id = i, rg_workflowId = workflowId, rg_workflowVersionId = versionId, rg_trigger = trigger,
                 rg_enabled = True, rg_createdAt = tg_clock st\<rparr>
      in st\<lparr>tg_registrations := map_set (tg_registrations st) workflowId
             ((case map_get (tg_registrations st) workflowId of None \<Rightarrow> [] | Some regs \<Rightarrow> regs) @ [reg])\<rparr>)"

definition unregister_trigger :: "UUID \<Rightarrow> trigger_state \<Rightarrow> trigger_state" where
  "unregister_trigger workflowId st = st\<lparr>tg_registrations := map_del (tg_registrations st) workflowId\<rparr>"

definition listAllRegistrations :: "trigger_state \<Rightarrow> FridayTriggerRegistration list" where
  "listAllRegistrations st = concat (map_values (tg_registrations st))"

definition trigger_def_of :: "string \<Rightarrow> json_props \<Rightarrow> FridayWorkflowTriggerDef" where
  "trigger_def_of triggerType config =
     (let text = (\<lambda>n. config_text (map_of config n)) in
      if triggerType = ''schedule'' then Schedule_Trigger (text ''cron'') (text ''timezone'')
      else if triggerType = ''event'' then Event_Trigger (text ''source'') (text ''event'')
      else Manual_Trigger)"

text \<open>The row of a trigger node; ids are drawn for the row and then for a path token that is not given.\<close>

definition trigger_entity ::
    "trigger_env \<Rightarrow> UUID \<Rightarrow> UUID \<Rightarrow> string \<Rightarrow> string \<Rightarrow> json_props \<Rightarrow> trigger_state
     \<Rightarrow> FridayWorkflowTriggerRegistrationEntity \<times> trigger_state" where
  "trigger_entity env workflowId versionId nodeId triggerType config st =
     (let text = (\<lambda>n. config_text (map_of config n));
          only = (\<lambda>t n. if triggerType = t then text n else None);
          nowIso = tg_clock st;
          nextFireAt = (if triggerType = ''schedule''
            then Option.bind (text ''cron'') (\<lambda>cron. computeNextCronFire (te_cron env) cron nowIso 525600 (text ''timezone''))
            else None);
          (i, st) = trigger_id env st;
          (token, st) = (if triggerType = ''webhook''
            then (case text ''pathToken'' of Some t \<Rightarrow> (Some t, st) | None \<Rightarrow> (let (t, st) = trigger_id env st in (Some t, st)))
            else (None, st))
      in (\<lparr>tr_id = i, tr_workflowId = workflowId, tr_workflowVersionId = versionId, tr_triggerNodeId = nodeId,
           tr_triggerType = (if triggerType = ''schedule'' then TT_Cron else if triggerType = ''webhook'' then TT_Webhook else TT_Event),
           tr_enabled = True, tr_cronExpression = only ''schedule'' ''cron'', tr_cronTimezone = only ''schedule'' ''timezone'',
           tr_webhookPathToken = token, tr_webhookSecretRef = only ''webhook'' ''secretRef'',
           tr_webhookSignatureHeader = only ''webhook'' ''signatureHeader'', tr_eventSource = only ''event'' ''source'',
           tr_eventName = only ''event'' ''event'', tr_eventFilterExpr = only ''event'' ''filterExpr'', tr_pluginId = None,
           tr_dedupeWindowSec = 0, tr_lastFiredAt = None, tr_nextFireAt = nextFireAt,
           tr_createdAt = nowIso, tr_updatedAt = nowIso\<rparr>, st))"

fun collect_triggers ::
    "trigger_env \<Rightarrow> UUID \<Rightarrow> UUID \<Rightarrow> FridayWorkflowNode list \<Rightarrow> trigger_state \<Rightarrow> trigger_rows \<times> trigger_state" where
  "collect_triggers env workflowId versionId [] st = ([], st)"
| "collect_triggers env workflowId versionId (n # ns) st =
     (let triggerType = config_text (map_of (wn_config n) ''triggerType'') in
      if wn_type n \<noteq> ''trigger'' \<or> \<not> given triggerType then collect_triggers env workflowId versionId ns st
      else (let st = register_trigger env workflowId versionId (trigger_def_of (the triggerType) (wn_config n)) st in
            if the triggerType = ''manual'' then collect_triggers env workflowId versionId ns st
            else (let (e, st) = trigger_entity env workflowId versionId (wn_id n) (the triggerType) (wn_config n) st;
                      (es, st) = collect_triggers env workflowId versionId ns st
                  in (e # es, st))))"

text \<open>Rows of the workflow are deleted in one transaction and the new ones inserted in another.\<close>

definition syncPublishedVersionTriggers :: "trigger_env \<Rightarrow> UUID \<Rightarrow> trigger_state \<Rightarrow> unit outcome \<times> trigger_state" where
  "syncPublishedVersionTriggers env workflowId st =
     (let st = unregister_trigger workflowId st in
      case getPublishedVersion (tg_workflows st) (tg_versions st) workflowId of
        None \<Rightarrow> (Inr (), st)
      | Some v \<Rightarrow>
          (case vr_graph v of
             Inl e \<Rightarrow> (Inl e, st)
           | Inr graph \<Rightarrow>
               (let (entities, st) = collect_triggers env workflowId (vr_id v) (cg_nodes graph) st;
                    rows = deleteByWorkflow workflowId (tg_rows st)
                in case upsertManyForVersion entities rows of
                     Inl e \<Rightarrow> (Inl e, st\<lparr>tg_rows := rows\<rparr>)
                   | Inr rows' \<Rightarrow> (Inr (), st\<lparr>tg_rows := rows'\<rparr>))))"

fun sync_workflows :: "trigger_env \<Rightarrow> workflow_row list \<Rightarrow> trigger_state \<Rightarrow> unit outcome \<times> trigger_state" where
  "sync_workflows env [] st = (Inr (), st)"
| "sync_workflows env (w # ws) st =
     (if wf_publishedVersionNumber w = None then sync_workflows env ws st
      else case syncPublishedVersionTriggers env (wf_id w) st of
        (Inl e, st) \<Rightarrow> (Inl e, st)
      | (Inr _, st) \<Rightarrow> sync_workflows env ws st)"

text \<open>The workflows are listed in the order of the query, the last updated first.\<close>

definition reloadFromPublishedVersions :: "trigger_env \<Rightarrow> trigger_state \<Rightarrow> unit outcome \<times> trigger_state" where
  "reloadFromPublishedVersions env st =
     sync_workflows env (take 1000 (filter (\<lambda>w. wf_deletedAt w = None) (tg_workflows st)))
       (st\<lparr>tg_registrations := map_empty\<rparr>)"

definition reply_of :: "unit outcome \<Rightarrow> trigger_reply" where
  "reply_of r = (case r of Inl e \<Rightarrow> Call_Threw e | Inr _ \<Rightarrow> Call_Done)"

section \<open>The service as a transition system\<close>

datatype trigger_event =
    Tr_Register UUID UUID FridayWorkflowTriggerDef
  | Tr_Unregister UUID
  | Tr_Fire_Manual FridayWorkflowStartRunInput
  | Tr_Tick wf_time "int option"
  | Tr_Webhook FridayWorkflowWebhookInvokeInput
  | Tr_Event string string json_props
  | Tr_Sync UUID
  | Tr_Reload
  | Tr_Enable UUID bool
  | Tr_Time nat
  | Tr_Answer nat trigger_answer

text \<open>What a waiting computation does with the answer to its \<open>startRun\<close>.\<close>

fun trigger_resume :: "trigger_env \<Rightarrow> nat \<Rightarrow> trigger_wait \<Rightarrow> trigger_answer \<Rightarrow> trigger_state \<Rightarrow> trigger_state" where
  "trigger_resume env k (Cron_Wait reg rest nowIso limit started) ans st =
     (case ans of
        Run_Started _ \<Rightarrow> tick_rows env k rest nowIso limit (Suc started) (cron_fired env reg nowIso st)
      | Run_Failed _ \<Rightarrow> tick_rows env k rest nowIso limit started st
      | _ \<Rightarrow> st)"
| "trigger_resume env k (Event_Wait reg rest payload started) ans st =
     (case ans of
        Run_Started _ \<Rightarrow> event_rows k rest payload (Suc started)
          (st\<lparr>tg_rows := markFired (tr_id reg) (tg_clock st) None (tg_rows st)\<rparr>)
      | Run_Failed _ \<Rightarrow> event_rows k rest payload started st
      | _ \<Rightarrow> st)"
| "trigger_resume env k (Secret_Wait reg inp) ans st = webhook_secret env k reg inp ans st"
| "trigger_resume env k (Webhook_Wait reg) ans st =
     (case ans of
        Run_Started runId \<Rightarrow> trigger_answered k (Webhook_Reply \<lparr>wk_accepted = True, wk_runId = Some runId,
            wk_statusCode = None, wk_errorCode = None\<rparr>)
          (st\<lparr>tg_rows := markFired (tr_id reg) (tg_clock st) None (tg_rows st)\<rparr>)
      | Run_Failed _ \<Rightarrow> trigger_answered k (webhook_rejected None) st
      | _ \<Rightarrow> st)"
| "trigger_resume env k Manual_Wait ans st =
     (case ans of
        Run_Started runId \<Rightarrow> trigger_answered k (Started_Run runId) st
      | Run_Failed e \<Rightarrow> trigger_answered k (Call_Threw e) st
      | _ \<Rightarrow> st)"

fun trigger_call :: "trigger_env \<Rightarrow> nat \<Rightarrow> trigger_event \<Rightarrow> trigger_state \<Rightarrow> trigger_state" where
  "trigger_call env k (Tr_Register w v d) st = trigger_answered k Call_Done (register_trigger env w v d st)"
| "trigger_call env k (Tr_Unregister w) st = trigger_answered k Call_Done (unregister_trigger w st)"
| "trigger_call env k (Tr_Fire_Manual inp) st = trigger_waits k Manual_Wait (start_call Manual_Cause inp st)"
| "trigger_call env k (Tr_Tick nowIso limit) st = tickCron env k nowIso limit st"
| "trigger_call env k (Tr_Webhook inp) st = handleWebhook env k inp st"
| "trigger_call env k (Tr_Event source ev payload) st = event_rows k (listByEvent (tg_rows st) source ev) payload 0 st"
| "trigger_call env k (Tr_Sync w) st =
     (let (r, st) = syncPublishedVersionTriggers env w st in trigger_answered k (reply_of r) st)"
| "trigger_call env k Tr_Reload st =
     (let (r, st) = reloadFromPublishedVersions env st in trigger_answered k (reply_of r) st)"
| "trigger_call env k (Tr_Enable i enabled) st =
     trigger_answered k Call_Done (st\<lparr>tg_rows := setEnabled i enabled (tg_clock st) (tg_rows st)\<rparr>)"
| "trigger_call env k _ st = st"

fun trigger_step :: "trigger_env \<Rightarrow> trigger_event \<Rightarrow> trigger_state \<Rightarrow> trigger_state" where
  "trigger_step env (Tr_Time ms) st = st\<lparr>tg_clock := tg_clock st + int ms\<rparr>"
| "trigger_step env (Tr_Answer k ans) st =
     (case map_get (tg_waits st) k of None \<Rightarrow> st | Some w \<Rightarrow> trigger_resume env k w ans st)"
| "trigger_step env call st = trigger_call env (tg_next st) call (st\<lparr>tg_next := Suc (tg_next st)\<rparr>)"

definition trigger_history :: "trigger_env \<Rightarrow> trigger_event list \<Rightarrow> trigger_state \<Rightarrow> trigger_state" where
  "trigger_history env events st = fold (trigger_step env) events st"

definition initial_triggers ::
    "workflow_row list \<Rightarrow> version_row list \<Rightarrow> trigger_rows \<Rightarrow> wf_time \<Rightarrow> trigger_state" where
  "initial_triggers workflows versions rows now =
     \<lparr>tg_workflows = workflows, tg_versions = versions, tg_rows = rows, tg_registrations = map_empty,
      recentCorrelationIds = [], tg_starts = [], tg_waits = map_empty, tg_next = 0, tg_replies = [],
      tg_clock = now, tg_ids = 0\<rparr>"

section \<open>What every history keeps\<close>

subsection \<open>Windows of a list\<close>

definition distinct_windows :: "nat \<Rightarrow> 'a list \<Rightarrow> bool" where
  "distinct_windows n xs \<longleftrightarrow> (\<forall>i. distinct (take n (drop i xs)))"

lemma distinct_windows_snoc:
  assumes "distinct_windows (Suc n) xs" and "x \<notin> set (drop (length xs - n) xs)"
  shows "distinct_windows (Suc n) (xs @ [x])"
  unfolding distinct_windows_def
proof
  fix i
  have old: "distinct (take (Suc n) (drop i xs))" using assms(1) by (simp add: distinct_windows_def)
  show "distinct (take (Suc n) (drop i (xs @ [x])))"
  proof (cases "i \<le> length xs \<and> length xs - i \<le> n")
    case True
    then have "set (drop i xs) \<subseteq> set (drop (length xs - n) xs)" by (intro set_drop_subset_set_drop) linarith
    moreover have "take (Suc n) (drop i xs) = drop i xs" using True by simp
    ultimately show ?thesis using old assms(2) True by (auto simp: take_Cons' split: if_splits)
  next
    case False
    then consider "length xs < i" | "i \<le> length xs" "Suc n \<le> length xs - i" by linarith
    then show ?thesis using old by cases simp_all
  qed
qed

subsection \<open>The invariant\<close>

text \<open>
  A webhook is authentic if it names an enabled registration by its token and either carries the keyed
  digest of its body in the header of the registration, or has a long token that may come without one.
\<close>

fun cause_authentic :: "trigger_env \<Rightarrow> start_cause \<Rightarrow> bool" where
  "cause_authentic env (Webhook_Cause reg inp secret) =
     (tr_enabled reg \<and> tr_webhookPathToken reg = Some (wi_pathToken inp) \<and>
      (case secret of
         Some s \<Rightarrow> given (tr_webhookSecretRef reg) \<and> received_signature reg inp = Some (expected_signature env inp s)
       | None \<Rightarrow> \<not> given (tr_webhookSecretRef reg) \<and> wi_pathToken inp \<in> set (te_allowlist env) \<and>
           32 \<le> utf16_length (wi_pathToken inp)))"
| "cause_authentic env cause = True"

fun wait_ok :: "trigger_wait \<Rightarrow> bool" where
  "wait_ok (Secret_Wait reg inp) =
     (tr_enabled reg \<and> tr_webhookPathToken reg = Some (wi_pathToken inp) \<and> given (tr_webhookSecretRef reg))"
| "wait_ok w = True"

text \<open>The correlation ids of the runs the schedules have started, in order.\<close>

definition cron_ids :: "(start_cause \<times> FridayWorkflowStartRunInput) list \<Rightarrow> string list" where
  "cron_ids starts = List.map_filter (\<lambda>(cause, inp). case cause of Cron_Cause _ \<Rightarrow> si_correlationId inp | _ \<Rightarrow> None) starts"

definition remembers :: "string list \<Rightarrow> string list \<Rightarrow> bool" where
  "remembers ids recent \<longleftrightarrow>
     distinct_windows 501 ids \<and> (\<exists>k. recent = drop k ids \<and> (k = 0 \<or> 500 \<le> length recent))"

definition calls_ok :: "trigger_env \<Rightarrow> trigger_state \<Rightarrow> bool" where
  "calls_ok env st \<longleftrightarrow>
     (\<forall>(cause, inp)\<in>set (tg_starts st). cause_authentic env cause) \<and>
     (\<forall>k w. map_get (tg_waits st) k = Some w \<longrightarrow> wait_ok w) \<and>
     remembers (cron_ids (tg_starts st)) (recentCorrelationIds st)"

lemma remembers_fire:
  assumes "remembers ids recent" and "x \<notin> set recent"
  shows "remembers (ids @ [x]) (remember_fire x recent)"
proof -
  obtain k where k: "recent = drop k ids" "k = 0 \<or> 500 \<le> length recent"
    using assms(1) by (auto simp: remembers_def)
  have le: "k \<le> length ids" using k by auto
  have "length ids - 500 \<ge> k \<or> k = 0" using k by auto
  then have "set (drop (length ids - 500) ids) \<subseteq> set recent"
    unfolding k(1) by (auto dest: in_set_dropD intro: set_drop_subset_set_drop [THEN subsetD])
  then have w: "distinct_windows 501 (ids @ [x])"
    using distinct_windows_snoc [of 500 ids x] assms by (auto simp: remembers_def)
  have all: "recent @ [x] = drop k (ids @ [x])" using le by (simp add: k(1))
  show ?thesis
  proof (cases "length (recent @ [x]) > 1000")
    case True
    then have "remember_fire x recent = drop (length (recent @ [x]) - 500) (recent @ [x])"
      by (simp add: remember_fire_def)
    also have "\<dots> = drop (length (recent @ [x]) - 500 + k) (ids @ [x])" unfolding all by (rule drop_drop)
    finally have "remember_fire x recent = drop (length (recent @ [x]) - 500 + k) (ids @ [x])" .
    moreover have "500 \<le> length (remember_fire x recent)" using True by (simp add: remember_fire_def)
    ultimately show ?thesis
      unfolding remembers_def by (intro conjI exI [of _ "length (recent @ [x]) - 500 + k"] disjI2 w)
  next
    case False
    then have "remember_fire x recent = recent @ [x]" by (simp add: remember_fire_def)
    moreover have "k = 0 \<or> 500 \<le> length (recent @ [x])" using k(2) by auto
    ultimately show ?thesis using w all unfolding remembers_def by (intro conjI exI [of _ k]) simp_all
  qed
qed

lemma calls_ok_cong:
  "tg_starts st' = tg_starts st \<Longrightarrow> tg_waits st' = tg_waits st \<Longrightarrow> recentCorrelationIds st' = recentCorrelationIds st \<Longrightarrow>
     calls_ok env st' = calls_ok env st"
  by (simp add: calls_ok_def)

lemma calls_ok_answered: "calls_ok env st \<Longrightarrow> calls_ok env (trigger_answered k r st)"
  by (auto simp: calls_ok_def trigger_answered_def split: if_splits)

lemma calls_ok_waits: "calls_ok env st \<Longrightarrow> wait_ok w \<Longrightarrow> calls_ok env (trigger_waits k w st)"
  by (auto simp: calls_ok_def trigger_waits_def split: if_splits)

lemma cron_ids_snoc: "cron_ids (starts @ [(cause, inp)]) =
    cron_ids starts @ (case cause of Cron_Cause _ \<Rightarrow> (case si_correlationId inp of None \<Rightarrow> [] | Some c \<Rightarrow> [c]) | _ \<Rightarrow> [])"
  by (auto simp: cron_ids_def List.map_filter_def split: start_cause.splits option.splits)

lemma calls_ok_start:
  "calls_ok env st \<Longrightarrow> cause_authentic env cause \<Longrightarrow> (\<And>reg. cause \<noteq> Cron_Cause reg) \<Longrightarrow> calls_ok env (start_call cause inp st)"
  by (auto simp: calls_ok_def start_call_def cron_ids_snoc split: start_cause.splits)

lemma calls_ok_tick_rows: "calls_ok env st \<Longrightarrow> calls_ok env (tick_rows env k regs nowIso limit started st)"
proof (induction env k regs nowIso limit started st rule: tick_rows.induct)
  case (2 env k reg rest nowIso limit started st)
  define x where "x = fire_fingerprint env reg nowIso"
  have "calls_ok env (start_call (Cron_Cause reg)
      (trigger_input (tr_workflowId reg) (tr_workflowVersionId reg) ''schedule'' None None (Some x))
      (st\<lparr>recentCorrelationIds := remember_fire x (recentCorrelationIds st)\<rparr>))" if "x \<notin> set (recentCorrelationIds st)"
    using "2.prems" remembers_fire [OF _ that]
    by (auto simp: calls_ok_def start_call_def cron_ids_snoc trigger_input_def)
  with 2 show ?case
    by (auto simp: Let_def x_def intro: calls_ok_answered calls_ok_waits)
qed (simp add: calls_ok_answered)

lemma calls_ok_event_rows: "calls_ok env st \<Longrightarrow> calls_ok env (event_rows k regs payload started st)"
  by (induction k regs payload started st rule: event_rows.induct)
    (auto intro!: calls_ok_answered calls_ok_waits calls_ok_start)

lemma getByWebhookToken_Some:
  "getByWebhookToken rows t = Some reg \<Longrightarrow> tr_webhookPathToken reg = Some t \<and> tr_enabled reg"
  by (auto simp: getByWebhookToken_def find_Some_iff)

lemma gate_passes:
  "evaluateWorkflowWebhookGate t has allowlist = None \<longleftrightarrow> has \<or> t \<in> set allowlist \<and> 32 \<le> utf16_length t"
  by (auto simp: evaluateWorkflowWebhookGate_def WEBHOOK_PATH_TOKEN_MIN_LENGTH_def)

lemma calls_ok_handleWebhook: "calls_ok env st \<Longrightarrow> calls_ok env (handleWebhook env k inp st)"
  by (auto simp: handleWebhook_def start_webhook_def gate_passes split: option.splits
      dest!: getByWebhookToken_Some intro!: calls_ok_answered calls_ok_waits calls_ok_start)

lemma calls_ok_webhook_secret:
  "calls_ok env st \<Longrightarrow> wait_ok (Secret_Wait reg inp) \<Longrightarrow> calls_ok env (webhook_secret env k reg inp ans st)"
  by (auto simp: webhook_secret_def start_webhook_def split: trigger_answer.splits
      intro!: calls_ok_answered calls_ok_waits calls_ok_start)

text \<open>Registration and synchronisation start nothing.\<close>

definition calls_of :: "trigger_state \<Rightarrow>
    (start_cause \<times> FridayWorkflowStartRunInput) list \<times> (nat, trigger_wait) js_map \<times> string list" where
  "calls_of st = (tg_starts st, tg_waits st, recentCorrelationIds st)"

lemma calls_of_ok: "calls_of st' = calls_of st \<Longrightarrow> calls_ok env st' = calls_ok env st"
  by (intro calls_ok_cong) (simp_all add: calls_of_def)

lemma calls_of_register [simp]:
  "calls_of (register_trigger env w v d st) = calls_of st" "calls_of (unregister_trigger w st) = calls_of st"
  by (simp_all add: calls_of_def register_trigger_def unregister_trigger_def trigger_id_def)

lemma calls_of_entity: "trigger_entity env w v n t c st = (e, st') \<Longrightarrow> calls_of st' = calls_of st"
  by (auto simp: trigger_entity_def trigger_id_def Let_def calls_of_def split: prod.splits if_splits option.splits)

lemma calls_of_collect: "collect_triggers env w v ns st = (es, st') \<Longrightarrow> calls_of st' = calls_of st"
  by (induction env w v ns st arbitrary: es rule: collect_triggers.induct)
    (auto simp: Let_def split: if_splits prod.splits dest: calls_of_entity)

lemma calls_of_sync: "syncPublishedVersionTriggers env w st = (r, st') \<Longrightarrow> calls_of st' = calls_of st"
  by (auto simp: syncPublishedVersionTriggers_def Let_def split: option.splits sum.splits prod.splits
      dest!: calls_of_collect) (auto simp: calls_of_def unregister_trigger_def)

lemma calls_of_syncs: "sync_workflows env ws st = (r, st') \<Longrightarrow> calls_of st' = calls_of st"
  by (induction env ws st arbitrary: r rule: sync_workflows.induct)
    (auto split: if_splits sum.splits prod.splits dest!: calls_of_sync)

lemma calls_of_reload: "reloadFromPublishedVersions env st = (r, st') \<Longrightarrow> calls_of st' = calls_of st"
  by (auto simp: reloadFromPublishedVersions_def dest!: calls_of_syncs) (simp add: calls_of_def)

lemmas calls_ok_same =
  calls_of_ok [OF calls_of_register(1)] calls_of_ok [OF calls_of_register(2)]
  calls_of_ok [OF calls_of_sync] calls_of_ok [OF calls_of_reload]

lemma calls_ok_rows [simp]: "calls_ok env (st\<lparr>tg_rows := rows\<rparr>) = calls_ok env st"
  "calls_ok env (st\<lparr>tg_next := n\<rparr>) = calls_ok env st" "calls_ok env (st\<lparr>tg_clock := now\<rparr>) = calls_ok env st"
  by (simp_all add: calls_ok_def)

lemma calls_ok_call:
  assumes "calls_ok env st"
  shows "calls_ok env (trigger_call env k e st)"
proof (cases e)
  case (Tr_Fire_Manual inp)
  then show ?thesis using assms by (auto intro!: calls_ok_waits calls_ok_start)
next
  case (Tr_Tick nowIso limit)
  then show ?thesis using assms by (simp add: tickCron_def calls_ok_tick_rows)
qed (use assms in \<open>auto simp: calls_ok_same split: prod.splits
    intro!: calls_ok_answered calls_ok_event_rows calls_ok_handleWebhook\<close>)

lemma calls_ok_resume:
  assumes "calls_ok env st" and "wait_ok w"
  shows "calls_ok env (trigger_resume env k w ans st)"
proof -
  have upd: "calls_ok env (st\<lparr>tg_rows := rows\<rparr>)" for rows using assms(1) by simp
  then have fired: "calls_ok env (cron_fired env reg nowIso st)" for reg nowIso
    using assms(1) by (simp add: cron_fired_def)
  show ?thesis
    using assms upd fired
    by (cases w) (auto split: trigger_answer.splits
        intro!: calls_ok_tick_rows calls_ok_event_rows calls_ok_webhook_secret calls_ok_answered)
qed

lemma calls_ok_step:
  assumes ok: "calls_ok env st"
  shows "calls_ok env (trigger_step env e st)"
proof (cases "\<exists>k ans. e = Tr_Answer k ans")
  case True
  then obtain k ans where e: "e = Tr_Answer k ans" by blast
  have "wait_ok w" if "map_get (tg_waits st) k = Some w" for w using ok that by (simp add: calls_ok_def)
  then show ?thesis using ok calls_ok_resume [OF ok] by (simp add: e split: option.splits)
next
  case False
  have "calls_ok env (trigger_call env k c (st\<lparr>tg_next := n\<rparr>))" for k c n using ok by (intro calls_ok_call) simp
  then show ?thesis using False ok by (cases e) (simp_all del: trigger_call.simps)
qed

lemma calls_ok_history: "calls_ok env st \<Longrightarrow> calls_ok env (trigger_history env events st)"
  unfolding trigger_history_def by (induction events arbitrary: st) (auto intro: calls_ok_step)

lemma calls_ok_initial: "calls_ok env (initial_triggers workflows versions rows now)"
  by (auto simp: calls_ok_def initial_triggers_def remembers_def cron_ids_def List.map_filter_def distinct_windows_def)

section \<open>In every history\<close>


text \<open>
  C39. A schedule starts a run under an id it has used before only when at least five hundred other runs were
  started by schedules in between: among any 501 consecutive ones no id comes twice.
\<close>

theorem cron_fires_spaced:
  "distinct (take 501 (drop i (cron_ids (tg_starts (trigger_history env events
     (initial_triggers workflows versions rows now))))))"
  using calls_ok_history [OF calls_ok_initial, of env events workflows versions rows now]
  by (simp add: calls_ok_def remembers_def distinct_windows_def)

section \<open>Two schedules in one minute\<close>

definition sample_triggers :: trigger_env where
  "sample_triggers = \<lparr>te_id = (\<lambda>n. CHR ''i'' # show_nat n),
     te_cron = \<lparr>cl_fields = (\<lambda>zone t. utc_fields t), cl_next = (\<lambda>cron zone t. Some (t + 60000))\<rparr>,
     te_sha256 = (\<lambda>s. s), te_hmac = (\<lambda>key s. key @ s), te_num = (\<lambda>r. ''0''), te_allowlist = []\<rparr>"

definition sample_schedule :: "string \<Rightarrow> string \<Rightarrow> string option \<Rightarrow> FridayWorkflowTriggerRegistrationEntity" where
  "sample_schedule i cron zone =
     \<lparr>tr_id = i, tr_workflowId = ''w'', tr_workflowVersionId = ''v'', tr_triggerNodeId = i, tr_triggerType = TT_Cron,
      tr_enabled = True, tr_cronExpression = Some cron, tr_cronTimezone = zone, tr_webhookPathToken = None,
      tr_webhookSecretRef = None, tr_webhookSignatureHeader = None, tr_eventSource = None, tr_eventName = None,
      tr_eventFilterExpr = None, tr_pluginId = None, tr_dedupeWindowSec = 0, tr_lastFiredAt = None,
      tr_nextFireAt = Some 32400000, tr_createdAt = 0, tr_updatedAt = 0\<rparr>"

text \<open>
  The id of a fire names the version and the minute but not the registration. Of two schedules of a version
  that are due at nine the second is taken for a repetition and stays due, so it starts a run a minute
  late, in place of the fire of the first schedule that is due then.
\<close>

lemma second_schedule_fires_late:
  "map (\<lambda>(cause, inp). case cause of Cron_Cause reg \<Rightarrow> tr_id reg | _ \<Rightarrow> []) (tg_starts (trigger_history sample_triggers
     [Tr_Tick 32400000 None, Tr_Answer 0 (Run_Started ''run''), Tr_Tick 32460000 None]
     (initial_triggers [] [] 
       [sample_schedule ''every'' ''* * * * *'' (Some ''Asia/Tokyo''), sample_schedule ''nine'' ''0 9 * * *'' None] 0))) =
   [''every'', ''nine'']"
  by code_simp

end
