(* ===== verification/Spec2Isabelle.thy ===== *)
theory Spec2Isabelle
  imports Circuit_Breaker Retry_Orchestrator Dead_Letter_Queue Workflow_Dag Workflow_Machines
    Workflow_Rules Action_Gate
    Workflow_Compiler Workflow_Graph_Json Node_Facade Rule_Dsl Workflow_Scenarios
    Workflow_Triggers
begin

text \<open>
  \<^bold>\<open>Friday: the engines that decide what may run, in which order, and how often.\<close>

  Friday is a local agent platform. Most of its code moves data between services; the decisions are
  taken in a few engines of src/src, which this library models operation by operation.

  \<^item> \<^bold>\<open>Mutating-action gate\<close> (security/friday-mutating-action-gate.ts). Every action with an effect
    asks the gate, which allows it, denies it or asks for approval. An approval is bound to one
    action by a digest of its canonical JSON text, may be signed, expires, and is used up by the
    ticket it yields. Theories \<open>Stable_Json\<close> (canonical text) and \<open>Action_Gate\<close>.

  \<^item> \<^bold>\<open>Rules engine\<close> (rules/engine). Policy bundles are verified, cached and indexed by resource
    and action (policy-bundle-signature.ts, policy-bundle-manager.ts, rule-index.ts); an evaluation
    matches conditions (condition-evaluator.ts), lets the strongest decision win, and writes a
    redacted audit entry (rule-engine.ts, context-redactor.ts). Bundles arrive as documents that
    dsl-parser.ts validates: \<open>Rule_Dsl\<close>. The other theories are \<open>Rules_Model\<close>,
    \<open>Rule_Conditions\<close>, \<open>Rule_Index\<close>, \<open>Context_Redactor\<close>, \<open>Policy_Bundles\<close>, \<open>Rule_Engine\<close>.

  \<^item> \<^bold>\<open>Node runner\<close> (node-runner/engine). A workflow node goes through six steps (load, validate,
    rules, execute, validate, rules) under a timeout and a cancellation signal: state-machine.ts,
    adapter-registry.ts, rules-context-builder.ts, node-runner-pipeline.ts. Theory \<open>Node_Runner\<close>;
    \<open>Workflow_Rules\<close> adds how the workflow runtime (workflows/runtime/friday-workflow-runtime.ts)
    connects the pipeline with the rules engine, and \<open>Node_Facade\<close> the rest of that wiring: the mode
    of the pipeline from environment variables, the adapters that delegate to the node executor and
    the facade in front (friday-workflow-pipeline-mode.ts, friday-workflow-node-runner-adapters.ts,
    friday-workflow-node-runner-facade.ts of workflows/engine). The executor itself, one branch per
    node type (friday-workflow-node-executor.ts), is \<open>Node_Executor\<close>.

  \<^item> \<^bold>\<open>Workflow engine\<close> (workflows/engine). The scheduler orders the nodes of a graph and picks the
    ones that may start (friday-workflow-dag-scheduler.ts); nodes and runs follow state machines
    and a retry manager (friday-workflow-node-machine.ts, friday-workflow-run-machine.ts,
    friday-workflow-retry-manager.ts). Theories \<open>Workflow_Dag\<close> and \<open>Workflow_Machines\<close>.

  \<^item> \<^bold>\<open>Workflow runs\<close> (workflows/services, workflows/persistence). The tables of runs, attempts and
    approval requests with their constraints are \<open>Workflow_Store\<close>
    (friday-workflow-run-repository.ts, friday-workflow-run-node-repository.ts,
    friday-workflow-approval-repository.ts); the unified retry bridge
    (engine/friday-workflow-unified-retry-bridge.ts) is \<open>Workflow_Retry_Bridge\<close>. The execution
    service (services/friday-workflow-execution-service.ts) takes three theories:
    \<open>Workflow_Execution\<close> has its state, the tasks of a batch (executeSingleNode) and the recording of
    failures (persistNodeFailure), \<open>Workflow_Runs\<close> the execution loop (executeRun), its batches,
    failure policies and end, \<open>Workflow_Operations\<close> the operations (start, resume, pause, cancel,
    retry, recover, remote results, janitors) and the service as a transition system. JavaScript runs
    the code between two awaits without interruption, so such a stretch is one function, and a waiting
    computation is a value in the state; an event calls an operation or answers a waiting computation,
    and every sequence of events is a history. \<open>Workflow_Approvals\<close> puts the approval service
    (services/friday-workflow-approval-service.ts) over it in the same way. \<open>Workflow_Run_Safety\<close> and
    \<open>Workflow_Run_Control\<close> hold what is kept by every event, \<open>Workflow_Scenarios\<close> histories in which
    the service fails to do what it means to.

  \<^item> \<^bold>\<open>Triggers\<close> (workflows/services). Runs are started by schedules, events and webhooks. Matching
    a cron expression and searching the next time it fires (friday-workflow-cron-utils.ts) is
    \<open>Workflow_Cron\<close>, with the calendar of UTC written out. The trigger service
    (friday-workflow-trigger-service.ts), its table (persistence/friday-workflow-trigger-repository.ts)
    and the gate in front of webhooks (security/friday-owner-session-channel-capability.ts) are
    \<open>Workflow_Triggers\<close>, a transition system like that of the runs: \<open>startRun\<close> and the look-up of
    the signing secret are answered by events.

  \<^item> \<^bold>\<open>Expressions\<close> (workflows/engine/friday-workflow-expression-evaluator.ts). Conditions on edges
    and node arguments are texts of a small language: tokenizer, recursive-descent parser and
    evaluator over inputs, steps and env are \<open>Expression_Eval\<close>, on the IEEE double arithmetic of
    \<open>Js_Number\<close>; \<open>Expression_Syntax\<close> has the printer its round trip is stated with, and
    \<open>Workflow_Conditions\<close> puts the evaluator under the scheduler.

  \<^item> \<^bold>\<open>Workflow compiler\<close> (workflows/compiler, workflows/model). Authored specifications are compiled to
    graphs (friday-workflow-compiler.ts) which twelve checks have to pass
    (friday-workflow-validator.ts); stored graphs are checked and normalised as JSON
    (model/friday-workflow-graph.types.ts). Theories \<open>Workflow_Compiler\<close>, \<open>Workflow_Validator\<close> and
    \<open>Workflow_Graph_Json\<close>.

  \<^item> \<^bold>\<open>Retry engine\<close> (retry/engine). The orchestrator calls a function until it succeeds or a limit
    stops it. It classifies failures (failure-classifier.ts), asks a strategy for a decision and a
    delay (retry-strategy-engine.ts, friday-default-retry-policy.ts), takes permits from a budget
    (retry-budget.ts), keeps a trace (retry-context.ts); circuit breakers and a dead-letter queue
    stand beside it. Theories \<open>Circuit_Breaker\<close>, \<open>Retry_Model\<close>, \<open>Retry_Strategy\<close>,
    \<open>Retry_Budget\<close>, \<open>Dead_Letter_Queue\<close>, \<open>Retry_Context\<close>, \<open>Failure_Classifier\<close>,
    \<open>Retry_Orchestrator\<close>.

  \<^bold>\<open>How the code is read.\<close> An interface is a record with its properties in order (optional ones are
  options), a union of literals a datatype, a class a record of its private properties and each
  method a function that returns the new state. A \<open>Map\<close> is an association list in insertion order
  with the operations of \<open>Friday_Prelude\<close>; a thrown error is the left side of a sum. Numbers are
  \<open>int\<close>, \<open>nat\<close> or \<open>rat\<close> (the code uses no number beyond the integers a double represents exactly,
  rounding of fractions apart); where users compute with numbers, in expressions, they are doubles
  with their rounding, infinities and NaN. Clock readings, random numbers, generated ids and what other code
  does during an await are arguments. Code the repository does not contain is a parameter: the
  regular-expression engine, the collation behind \<open>localeCompare\<close>, SHA-256 and HMAC, number
  formatting. Callbacks (retried functions, adapters, hooks, sinks) are arbitrary functions on a
  state of their own that may throw. Loops are structural recursion or \<open>function\<close> with a measure;
  nothing runs on fuel that can run out: the retry loop ends by the attempt limit, Kahn's loop by
  the nodes not yet ordered, trimming by the length of the string, the parser by its depth budget of
  32 and the tokens that are left, the searches of the validator by the nodes not yet entered.

  \<^bold>\<open>Interfaces.\<close> \<open>Friday_Prelude\<close> states what clients rely on as locales, interpreted on the model's
  own definitions where these are provided: keyed stores (the maps of breakers, contexts, bundles),
  lifecycles with a table of transitions (retry contexts, node attempts, runs), ranked lifecycles
  (node executions). Further locales sit with their clients: the pool of permits the orchestrator
  draws on, parsers that consume their input, from which the chains of the expression grammar are
  proved to end, and graphs given by adjacency lists, for which both searches of the validator are
  proved correct and which its directed and undirected adjacency interpret. The locale
  \<open>store_discipline\<close> collects the ways the execution service touches the tables of attempts and
  approvals and calls the executor; an assertion closed under them holds in every history, and it is
  interpreted for the single execution of attempts, their numbering, and the growth of the approvals.

  \<^bold>\<open>What is shown.\<close> For the gate: soundness and the exact condition of an allow, single use of
  approvals over any history, and that neither an approval nor its signature can be carried over to
  another action short of a hash collision. For the rules engine: index and cache agree after any
  history of loads and removals, bundles are installed only verified, a document the parser accepts
  loads and is typed, the decision equals its
  declarative reading, deny wins, every evaluation is audited and redacted. For the node runner: it
  never throws, reports each step, completes only what the rules allowed before and after, and with
  the rules engine behind it does not execute what a loaded bundle denies, from the environment
  variables down to the executor; resolved arguments carry no prototype keys. For workflows: the
  order is topological, errors are told apart, scheduling is safe and never stalls, retries are
  bounded. For runs, in every history: an attempt is executed at most once, attempts are numbered
  without gaps, one loop works on a run and the guard of loops never stays locked, approvals are decided
  by authorised users and finally; but a run cancelled while an approval is requested comes back, one
  blocked twice cannot be resumed, and recovery is not behind the flag of the runtime. For triggers, in
  every history: a webhook starts a run only with a signature under the secret or from a listed token,
  the fires of schedules do not repeat within a window of the recent ones, and the next fire is the
  earliest matching minute. For expressions: parsing is total and inverts printing, references read own
  properties only, and a condition that does not parse or evaluate never enables an edge. For the compiler:
  the checks accept exactly the well-formed graphs, a workflow that compiles gets a plan, and the
  conditions it generates mean what the specification says.
  For the retry engine: calls are bounded and stop at the first success, enough retries recover,
  permits never leak, traces are closed, breakers are independent and probe once, the budget limits
  the rate, delays stay within their band.

  \<^bold>\<open>Not modelled.\<close> Reading YAML and JSON text of bundles, the SQLite repositories other than those of
  runs, attempts, approvals and triggers, cron expressions in other time zones than UTC (Intl and the
  cron-parser package are parameters), how the secret of a webhook is resolved (it is answered by an
  event), the branches of the trigger service for a runtime without a table (matchEvent, the in-memory
  part of tickCron), the dispatch of nodes to satellites and the product service of workflows, HTTP routes, provider and channel clients, the agent loop, user
  interfaces and the Rust core: these are I/O, other languages, calls of libraries, or subsystems of
  their own. Of the modelled files, freezing and cloning have no counterpart (values are immutable),
  nor have log lines.
\<close>

end
